(* ===== verification/Prelude.thy ===== *)
theory Prelude
  imports Main "HOL-Library.Word"
begin

text \<open>
  Shared vocabulary of the development: Python strings as code point lists, bytes,
  Python exceptions as values, insertion-ordered dictionaries, big-endian integers
  (\<^verbatim>\<open>struct.pack\<close>), and the generic lemmas on lists and options that the component
  theories use.
\<close>

section \<open>Types\<close>

type_synonym byte = "8 word"
type_synonym bytes = "byte list"

text \<open>
  A Python \<^verbatim>\<open>str\<close> is a sequence of Unicode code points. Isabelle characters are bytes, so
  a string is a list of code point numbers; \<open>lit ''abc''\<close> is the literal \<^verbatim>\<open>"abc"\<close> and
  \<open>blit ''abc''\<close> the bytes literal \<^verbatim>\<open>b"abc"\<close>.
\<close>

type_synonym pystr = "nat list"

definition lit :: "string \<Rightarrow> pystr" where
  "lit s = map of_char s"

definition blit :: "string \<Rightarrow> bytes" where
  "blit s = map of_char s"

text \<open>The exceptions the modelled code raises or lets through.\<close>

datatype pyerr =
    ValueError
  | KeyError
  | TypeError
  | AttributeError
  | OverflowError
  | RuntimeError
  | AssertionError
  | StructError
  | OSError
  | FileNotFoundError
  | IncompleteReadError
  | TimeoutError
  | SecurityError
  | TransferError

type_synonym 'a res = "pyerr + 'a"

named_theorems ferry_defs \<open>definitions that evaluation of a closed instance unfolds\<close>
named_theorems res_simps \<open>rewriting of the exception monad\<close>

section \<open>Exceptions as results\<close>

definition res_bind :: "'a res \<Rightarrow> ('a \<Rightarrow> 'b res) \<Rightarrow> 'b res" where
  "res_bind m f = (case m of Inl e \<Rightarrow> Inl e | Inr x \<Rightarrow> f x)"

definition is_ok :: "'a res \<Rightarrow> bool" where
  "is_ok m = (case m of Inl _ \<Rightarrow> False | Inr _ \<Rightarrow> True)"

lemma res_bind_simps [simp, res_simps]:
  "res_bind (Inl e) f = Inl e"
  "res_bind (Inr x) f = f x"
  by (simp_all add: res_bind_def)

lemma res_bind_ok_iff [res_simps]:
  "res_bind m f = Inr y \<longleftrightarrow> (\<exists>x. m = Inr x \<and> f x = Inr y)"
  by (cases m) auto

lemma res_bind_err_iff [res_simps]:
  "res_bind m f = Inl e \<longleftrightarrow> m = Inl e \<or> (\<exists>x. m = Inr x \<and> f x = Inl e)"
  by (cases m) auto

lemma is_ok_simps [simp, res_simps]:
  "is_ok (Inr x)" "\<not> is_ok (Inl e)"
  by (simp_all add: is_ok_def)

lemma is_ok_iff: "is_ok m \<longleftrightarrow> (\<exists>x. m = Inr x)"
  by (cases m) auto

section \<open>Literals\<close>

lemma lit_simps [simp]:
  "lit [] = []"
  "lit (c # cs) = of_char c # lit cs"
  by (simp_all add: lit_def)

lemma blit_simps [simp]:
  "blit [] = []"
  "blit (c # cs) = of_char c # blit cs"
  by (simp_all add: blit_def)

lemma length_lit [simp]: "length (lit s) = length s"
  by (simp add: lit_def)

lemma length_blit [simp]: "length (blit s) = length s"
  by (simp add: blit_def)

section \<open>Big-endian integers\<close>

definition byte_of :: "nat \<Rightarrow> byte" where
  "byte_of n = word_of_nat n"

lemma unat_byte_of [simp]: "n < 256 \<Longrightarrow> unat (byte_of n) = n"
  by (simp add: byte_of_def unat_of_nat)

text \<open>\<^verbatim>\<open>int.to_bytes(n, k, "big")\<close> and \<^verbatim>\<open>int.from_bytes(b, "big")\<close>.\<close>

primrec be_bytes :: "nat \<Rightarrow> nat \<Rightarrow> bytes" where
  "be_bytes 0 n = []"
| "be_bytes (Suc k) n = be_bytes k (n div 256) @ [word_of_nat (n mod 256)]"

definition be_nat :: "bytes \<Rightarrow> nat" where
  "be_nat bs = foldl (\<lambda>a b. a * 256 + unat b) 0 bs"

text \<open>\<^verbatim>\<open>struct.pack\<close> with a big-endian unsigned format of \<open>k\<close> bytes raises
  \<^verbatim>\<open>struct.error\<close> outside the range of the format; \<^verbatim>\<open>struct.unpack\<close> raises it when the buffer
  has another length.\<close>

definition struct_pack :: "nat \<Rightarrow> int \<Rightarrow> bytes res" where
  "struct_pack k n =
     (if 0 \<le> n \<and> n < 256 ^ k then Inr (be_bytes k (nat n)) else Inl StructError)"

definition struct_unpack :: "nat \<Rightarrow> bytes \<Rightarrow> nat res" where
  "struct_unpack k bs = (if length bs = k then Inr (be_nat bs) else Inl StructError)"

lemma length_be_bytes [simp]: "length (be_bytes k n) = k"
  by (induction k arbitrary: n) auto

lemma be_nat_append_one [simp]: "be_nat (bs @ [b]) = be_nat bs * 256 + unat b"
  by (simp add: be_nat_def)

lemma be_nat_Nil [simp]: "be_nat [] = 0"
  by (simp add: be_nat_def)

lemma unat_byte_of_nat [simp]: "unat (word_of_nat n :: byte) = n mod 256"
  by (simp add: unat_of_nat)

lemma unat_byte_less: "unat (b :: byte) < 256"
  using unsigned_less [of b] by simp

lemma be_nat_be_bytes: "be_nat (be_bytes k n) = n mod 256 ^ k"
proof (induction k arbitrary: n)
  case (Suc k)
  have "n mod 256 ^ Suc k = (n div 256) mod 256 ^ k * 256 + n mod 256"
    by (simp add: mod_mult2_eq)
  then show ?case by (simp add: Suc.IH)
qed simp

lemma be_nat_less: "be_nat bs < 256 ^ length bs"
proof (induction bs rule: rev_induct)
  case (snoc b bs)
  have "unat b < 256" by (rule unat_byte_less)
  moreover have "be_nat bs + 1 \<le> 256 ^ length bs" using snoc by simp
  then have "(be_nat bs + 1) * 256 \<le> 256 ^ length bs * 256" by (rule mult_le_mono1)
  ultimately show ?case by simp
qed simp

lemma be_bytes_be_nat: "be_bytes (length bs) (be_nat bs) = bs"
proof (induction bs rule: rev_induct)
  case (snoc b bs)
  have "unat b < 256" by (rule unat_byte_less)
  then show ?case using snoc by simp
qed simp

lemma be_bytes_inject:
  assumes "m < 256 ^ k" and "n < 256 ^ k" and "be_bytes k m = be_bytes k n"
  shows "m = n"
  using assms by (metis be_nat_be_bytes mod_less)

lemma struct_unpack_pack:
  assumes "struct_pack k n = Inr bs"
  shows "struct_unpack k bs = Inr (nat n)"
proof -
  from assms have r: "0 \<le> n" "n < 256 ^ k" and bs: "bs = be_bytes k (nat n)"
    by (auto simp: struct_pack_def split: if_splits)
  from r have "nat n < 256 ^ k" by (simp add: nat_less_iff)
  then show ?thesis by (simp add: struct_unpack_def bs be_nat_be_bytes)
qed

lemma struct_pack_length: "struct_pack k n = Inr bs \<Longrightarrow> length bs = k"
  by (auto simp: struct_pack_def split: if_splits)

lemma struct_unpack_less: "struct_unpack k bs = Inr n \<Longrightarrow> n < 256 ^ k"
  using be_nat_less [of bs] by (auto simp: struct_unpack_def split: if_splits)

section \<open>Insertion-ordered dictionaries\<close>

text \<open>
  A Python \<^verbatim>\<open>dict\<close> keeps its keys in insertion order and assigning to an existing key keeps
  its place, so it is an association list with distinct keys.
\<close>

type_synonym ('k, 'v) dict = "('k \<times> 'v) list"

definition dict_get :: "('k, 'v) dict \<Rightarrow> 'k \<Rightarrow> 'v option" where
  "dict_get d k = map_of d k"

fun dict_set :: "'k \<Rightarrow> 'v \<Rightarrow> ('k, 'v) dict \<Rightarrow> ('k, 'v) dict" where
  "dict_set k v [] = [(k, v)]"
| "dict_set k v ((k', v') # d) =
     (if k' = k then (k, v) # d else (k', v') # dict_set k v d)"

definition dict_pop :: "'k \<Rightarrow> ('k, 'v) dict \<Rightarrow> ('k, 'v) dict" where
  "dict_pop k d = filter (\<lambda>p. fst p \<noteq> k) d"

definition dict_has :: "('k, 'v) dict \<Rightarrow> 'k \<Rightarrow> bool" where
  "dict_has d k \<longleftrightarrow> k \<in> fst ` set d"

definition dict_ok :: "('k, 'v) dict \<Rightarrow> bool" where
  "dict_ok d \<longleftrightarrow> distinct (map fst d)"

text \<open>
  The contract of a keyed store, which the clients of a dictionary, of an ordered map or of
  a database table rely on. It is stated once and proved for each provider.
\<close>

locale keyed_store =
  fixes lookup :: "'m \<Rightarrow> 'k \<Rightarrow> 'v option"
    and insert :: "'k \<Rightarrow> 'v \<Rightarrow> 'm \<Rightarrow> 'm"
    and delete :: "'k \<Rightarrow> 'm \<Rightarrow> 'm"
    and invar :: "'m \<Rightarrow> bool"
  assumes lookup_insert:
      "invar m \<Longrightarrow> lookup (insert k v m) k' = (if k' = k then Some v else lookup m k')"
    and lookup_delete:
      "invar m \<Longrightarrow> lookup (delete k m) k' = (if k' = k then None else lookup m k')"
    and invar_insert: "invar m \<Longrightarrow> invar (insert k v m)"
    and invar_delete: "invar m \<Longrightarrow> invar (delete k m)"
begin

lemma invar_fold_delete: "invar m \<Longrightarrow> invar (fold delete ks m)"
  by (induction ks arbitrary: m) (auto simp: invar_delete)

lemma lookup_fold_delete:
  "invar m \<Longrightarrow> lookup (fold delete ks m) k = (if k \<in> set ks then None else lookup m k)"
  by (induction ks arbitrary: m) (auto simp: invar_delete lookup_delete)

lemma lookup_insert_twice:
  "invar m \<Longrightarrow> lookup (insert k v (insert k w m)) = lookup (insert k v m)"
  by (rule ext) (simp add: lookup_insert invar_insert)

lemma delete_absent_other:
  "invar m \<Longrightarrow> lookup m k = Some v \<Longrightarrow> k \<noteq> k' \<Longrightarrow> lookup (delete k' m) k = Some v"
  by (simp add: lookup_delete)

end

lemma dict_get_set: "dict_get (dict_set k v d) k' = (if k' = k then Some v else dict_get d k')"
  by (induction k v d rule: dict_set.induct) (auto simp: dict_get_def)

lemma dict_get_pop: "dict_get (dict_pop k d) k' = (if k' = k then None else dict_get d k')"
  by (induction d) (auto simp: dict_get_def dict_pop_def)

lemma dict_keys_set: "fst ` set (dict_set k v d) = insert k (fst ` set d)"
  by (induction k v d rule: dict_set.induct) auto

lemma set_dict_set: "set (dict_set k v t) \<subseteq> insert (k, v) (set t)"
  by (induction k v t rule: dict_set.induct) auto

lemma dict_ok_Nil [simp]: "dict_ok []"
  by (simp add: dict_ok_def)

lemma dict_ok_set: "dict_ok d \<Longrightarrow> dict_ok (dict_set k v d)"
proof (induction k v d rule: dict_set.induct)
  case (2 k v k' v' d)
  then show ?case using dict_keys_set [of k v d] by (auto simp: dict_ok_def)
qed (simp add: dict_ok_def)

lemma dict_ok_pop: "dict_ok d \<Longrightarrow> dict_ok (dict_pop k d)"
  unfolding dict_ok_def dict_pop_def by (induction d) auto

lemma dict_has_iff: "dict_has d k \<longleftrightarrow> dict_get d k \<noteq> None"
  by (simp add: dict_has_def dict_get_def map_of_eq_None_iff)

lemma dict_has_set [simp]: "dict_has (dict_set k v d) k' \<longleftrightarrow> k' = k \<or> dict_has d k'"
  by (simp add: dict_has_iff dict_get_set)

lemma dict_has_pop [simp]: "dict_has (dict_pop k d) k' \<longleftrightarrow> k' \<noteq> k \<and> dict_has d k'"
  by (simp add: dict_has_iff dict_get_pop)

lemma dict_get_Nil [simp]: "dict_get [] k = None"
  by (simp add: dict_get_def)

lemma dict_get_Cons [simp]:
  "dict_get ((k', v) # d) k = (if k' = k then Some v else dict_get d k)"
  by (simp add: dict_get_def)

lemma length_dict_set:
  "length (dict_set k v d) = (if dict_has d k then length d else Suc (length d))"
  by (induction k v d rule: dict_set.induct) (auto simp: dict_has_def)

interpretation pydict: keyed_store dict_get dict_set dict_pop dict_ok
  by unfold_locales (auto simp: dict_get_set dict_get_pop dict_ok_set dict_ok_pop)

section \<open>Lists\<close>

lemma take_append_exact [simp]: "n = length xs \<Longrightarrow> take n (xs @ ys) = xs"
  by simp

lemma drop_append_exact [simp]: "n = length xs \<Longrightarrow> drop n (xs @ ys) = ys"
  by simp

lemma split_take_drop: "xs = take a xs @ take b (drop a xs) @ drop (a + b) xs"
  by (metis append_take_drop_id drop_drop add.commute)

text \<open>The blocks that \<^verbatim>\<open>iter(lambda: fh.read(n), b"")\<close> yields: reads of \<open>n\<close> bytes until the
  empty read at the end of the file.\<close>

function read_blocks :: "nat \<Rightarrow> 'a list \<Rightarrow> 'a list list" where
  "read_blocks n xs =
     (if n = 0 \<or> xs = [] then [] else take n xs # read_blocks n (drop n xs))"
  by pat_completeness auto
termination
  by (relation "measure (\<lambda>(n, xs). length xs)") auto

declare read_blocks.simps [simp del]

lemma read_blocks_Nil [simp]: "read_blocks n [] = []"
  by (subst read_blocks.simps) simp

lemma read_blocks_step:
  "0 < n \<Longrightarrow> xs \<noteq> [] \<Longrightarrow> read_blocks n xs = take n xs # read_blocks n (drop n xs)"
  by (subst read_blocks.simps) simp

lemma concat_read_blocks: "0 < n \<Longrightarrow> concat (read_blocks n xs) = xs"
proof (induction n xs rule: read_blocks.induct)
  case (1 n xs)
  then show ?case
    by (cases "xs = []") (simp_all add: read_blocks_step)
qed

lemma read_blocks_lengths: "b \<in> set (read_blocks n xs) \<Longrightarrow> 0 < length b \<and> length b \<le> n"
proof (induction n xs rule: read_blocks.induct)
  case (1 n xs)
  show ?case
  proof (cases "n = 0 \<or> xs = []")
    case True
    with "1.prems" show ?thesis by (simp add: read_blocks.simps [of n xs])
  next
    case False
    with "1" show ?thesis by (auto simp: read_blocks.simps [of n xs])
  qed
qed

text \<open>\<^verbatim>\<open>(size + n - 1) // n\<close> blocks cover a file of \<open>size\<close> bytes.\<close>

lemma ceil_div_step:
  assumes "0 < n" and "0 < (m::nat)"
  shows "(m + n - 1) div n = Suc ((m - n + n - 1) div n)"
proof (cases "n \<le> m")
  case True
  then have "m + n - 1 = n + (m - n + n - 1)" using assms by simp
  then show ?thesis using assms by (metis add.commute div_add_self2 not_gr_zero Suc_eq_plus1)
next
  case False
  then have "(m + n - 1) div n = 1" using assms by (intro div_nat_eqI) auto
  with False assms show ?thesis by simp
qed

lemma length_read_blocks:
  "0 < n \<Longrightarrow> length (read_blocks n xs) = (length xs + n - 1) div n"
proof (induction n xs rule: read_blocks.induct)
  case (1 n xs)
  show ?case
  proof (cases "xs = []")
    case False
    then have "length (read_blocks n xs) = Suc ((length xs - n + n - 1) div n)"
      using 1 by (simp add: read_blocks_step)
    with False 1(2) ceil_div_step [of n "length xs"] show ?thesis by simp
  qed (use 1 in simp)
qed

lemma read_blocks_aligned:
  assumes "0 < n" and "n dvd length xs"
  shows "read_blocks n (xs @ ys) = read_blocks n xs @ read_blocks n ys"
  using assms
proof (induction n xs rule: read_blocks.induct)
  case (1 n xs)
  show ?case
  proof (cases "xs = []")
    case False
    with 1 have le: "n \<le> length xs" by (simp add: dvd_imp_le)
    with 1 have "n dvd length (drop n xs)" by (simp add: dvd_minus_self)
    with 1 False have ih: "read_blocks n (drop n xs @ ys) = read_blocks n (drop n xs) @ read_blocks n ys"
      by blast
    have "drop n (xs @ ys) = drop n xs @ ys" and "take n (xs @ ys) = take n xs"
      using le by simp_all
    with False 1 ih show ?thesis by (simp add: read_blocks_step)
  qed simp
qed

end
