(* ===== verification/PyValues.thy ===== *)
theory PyValues
  imports Prelude
begin

text \<open>
  The Python values that reach the program from a peer: a decoded JSON document, and the
  built-in conversions the payload parsers apply to it (\<^verbatim>\<open>int()\<close>, \<^verbatim>\<open>str()\<close>, \<^verbatim>\<open>bool()\<close>,
  \<^verbatim>\<open>d.get(k, default)\<close>, \<^verbatim>\<open>d[k]\<close>, \<^verbatim>\<open>k in d\<close>), with the exception each of them raises, and
  \<^verbatim>\<open>uuid.UUID\<close>.
\<close>

section \<open>JSON values\<close>

text \<open>
  What \<^verbatim>\<open>json.loads\<close> returns. A float carries the numeric literal it was read from; the
  program only observes it through \<^verbatim>\<open>int()\<close>, \<^verbatim>\<open>str()\<close>, \<^verbatim>\<open>bool()\<close> and comparison with an
  integer, which the interpreter's floating-point library answers (\<open>platform\<close>).
\<close>

datatype json =
    JNull
  | JBool bool
  | JInt int
  | JFloat pystr
  | JStr pystr
  | JArr "json list"
  | JObj "(pystr, json) dict"

text \<open>
  The parts of the interpreter's runtime that are tables or C code: floating-point
  conversions, \<^verbatim>\<open>repr\<close> of containers, the nesting depth at which the JSON scanner raises
  \<^verbatim>\<open>RecursionError\<close>, and the Unicode database beyond ASCII.
\<close>

record platform =
  flt_int :: "pystr \<Rightarrow> int res"
  flt_str :: "pystr \<Rightarrow> pystr"
  flt_is :: "pystr \<Rightarrow> int \<Rightarrow> bool"
  flt_true :: "pystr \<Rightarrow> bool"
  flt_json :: "pystr \<Rightarrow> pystr"
  json_depth :: nat
  repr_container :: "json \<Rightarrow> pystr"
  uni_digit :: "nat \<Rightarrow> nat option"
  uni_space :: "nat \<Rightarrow> bool"

text \<open>An interpreter without floats and without digits or white space beyond ASCII, for concrete
  evaluations.\<close>

definition ascii_platform :: platform where
  "ascii_platform =
     \<lparr>flt_int = (\<lambda>_. Inl ValueError), flt_str = id, flt_is = (\<lambda>_ _. False), flt_true = (\<lambda>_. True),
      flt_json = id, json_depth = 990, repr_container = (\<lambda>_. []), uni_digit = (\<lambda>_. None),
      uni_space = (\<lambda>_. False)\<rparr>"

section \<open>Numbers and text\<close>

fun dec_digits :: "nat \<Rightarrow> pystr" where
  "dec_digits n = (if n < 10 then [48 + n] else dec_digits (n div 10) @ [48 + n mod 10])"

declare dec_digits.simps [simp del]

definition int_str :: "int \<Rightarrow> pystr" where
  "int_str n = (if n < 0 then 45 # dec_digits (nat (- n)) else dec_digits (nat n))"

definition py_space :: "platform \<Rightarrow> nat \<Rightarrow> bool" where
  "py_space pf c =
     (if c < 128 then (9 \<le> c \<and> c \<le> 13) \<or> (28 \<le> c \<and> c \<le> 32) else uni_space pf c)"

definition digit_val :: "platform \<Rightarrow> nat \<Rightarrow> nat \<Rightarrow> nat option" where
  "digit_val pf base c =
     (let v = (if 48 \<le> c \<and> c \<le> 57 then Some (c - 48)
               else if 97 \<le> c \<and> c \<le> 122 then Some (c - 87)
               else if 65 \<le> c \<and> c \<le> 90 then Some (c - 55)
               else if c < 128 then None else uni_digit pf c)
      in case v of None \<Rightarrow> None | Some d \<Rightarrow> if d < base then Some d else None)"

definition lstrip_by :: "(nat \<Rightarrow> bool) \<Rightarrow> pystr \<Rightarrow> pystr" where
  "lstrip_by p s = dropWhile p s"

definition rstrip_by :: "(nat \<Rightarrow> bool) \<Rightarrow> pystr \<Rightarrow> pystr" where
  "rstrip_by p s = rev (dropWhile p (rev s))"

definition strip_by :: "(nat \<Rightarrow> bool) \<Rightarrow> pystr \<Rightarrow> pystr" where
  "strip_by p s = rstrip_by p (lstrip_by p s)"

text \<open>Digits of an integer literal: single underscores are allowed between two digits only.\<close>

fun digits_value :: "(nat \<Rightarrow> nat option) \<Rightarrow> nat \<Rightarrow> nat \<Rightarrow> bool \<Rightarrow> pystr \<Rightarrow> nat option" where
  "digits_value dv base acc after_digit [] = (if after_digit then Some acc else None)"
| "digits_value dv base acc after_digit (c # cs) =
     (if c = 95 then (if after_digit \<and> cs \<noteq> [] then digits_value dv base acc False cs else None)
      else case dv c of
          None \<Rightarrow> None
        | Some d \<Rightarrow> digits_value dv base (acc * base + d) True cs)"

definition split_sign :: "pystr \<Rightarrow> bool \<times> pystr" where
  "split_sign s =
     (case s of [] \<Rightarrow> (False, [])
      | c # cs \<Rightarrow> if c = 45 then (True, cs) else if c = 43 then (False, cs) else (False, s))"

definition apply_sign :: "bool \<Rightarrow> nat \<Rightarrow> int" where
  "apply_sign neg n = (if neg then - int n else int n)"

text \<open>\<^verbatim>\<open>int(s)\<close>: surrounding white space, a sign, decimal digits; more than 4300 digits are
  refused by the interpreter.\<close>

definition int_of_str :: "platform \<Rightarrow> pystr \<Rightarrow> int res" where
  "int_of_str pf s =
     (let (neg, ds) = split_sign (strip_by (py_space pf) s)
      in if 4300 < length (filter (\<lambda>c. c \<noteq> 95) ds) then Inl ValueError
         else case digits_value (digit_val pf 10) 10 0 False ds of
            None \<Rightarrow> Inl ValueError
          | Some n \<Rightarrow> Inr (apply_sign neg n))"

text \<open>\<^verbatim>\<open>int(s, 16)\<close>: as above with hexadecimal digits and an optional \<^verbatim>\<open>0x\<close>, after which one
  underscore may stand.\<close>

definition drop_0x :: "pystr \<Rightarrow> pystr" where
  "drop_0x ds =
     (case ds of
        c # x # rest \<Rightarrow>
          if c = 48 \<and> (x = 120 \<or> x = 88)
          then (case rest of y # r \<Rightarrow> if y = 95 then r else rest | [] \<Rightarrow> rest)
          else ds
      | _ \<Rightarrow> ds)"

definition int16_of_str :: "platform \<Rightarrow> pystr \<Rightarrow> int res" where
  "int16_of_str pf s =
     (let (neg, ds) = split_sign (strip_by (py_space pf) s)
      in case digits_value (digit_val pf 16) 16 0 False (drop_0x ds) of
          None \<Rightarrow> Inl ValueError
        | Some n \<Rightarrow> Inr (apply_sign neg n))"

section \<open>Built-in conversions\<close>

fun py_int :: "platform \<Rightarrow> json \<Rightarrow> int res" where
  "py_int pf (JBool b) = Inr (if b then 1 else 0)"
| "py_int pf (JInt n) = Inr n"
| "py_int pf (JFloat l) = flt_int pf l"
| "py_int pf (JStr s) = int_of_str pf s"
| "py_int pf _ = Inl TypeError"

fun py_str :: "platform \<Rightarrow> json \<Rightarrow> pystr" where
  "py_str pf JNull = lit ''None''"
| "py_str pf (JBool b) = (if b then lit ''True'' else lit ''False'')"
| "py_str pf (JInt n) = int_str n"
| "py_str pf (JFloat l) = flt_str pf l"
| "py_str pf (JStr s) = s"
| "py_str pf (JArr vs) = repr_container pf (JArr vs)"
| "py_str pf (JObj d) = repr_container pf (JObj d)"

fun py_bool :: "platform \<Rightarrow> json \<Rightarrow> bool" where
  "py_bool pf JNull = False"
| "py_bool pf (JBool b) = b"
| "py_bool pf (JInt n) = (n \<noteq> 0)"
| "py_bool pf (JFloat l) = flt_true pf l"
| "py_bool pf (JStr s) = (s \<noteq> [])"
| "py_bool pf (JArr vs) = (vs \<noteq> [])"
| "py_bool pf (JObj d) = (d \<noteq> [])"

text \<open>\<^verbatim>\<open>v == n\<close> for an integer \<open>n\<close>.\<close>

fun py_eq_int :: "platform \<Rightarrow> json \<Rightarrow> int \<Rightarrow> bool" where
  "py_eq_int pf (JBool b) n = ((if b then 1 else 0) = n)"
| "py_eq_int pf (JInt m) n = (m = n)"
| "py_eq_int pf (JFloat l) n = flt_is pf l n"
| "py_eq_int pf _ n = False"

text \<open>\<^verbatim>\<open>isinstance(v, int) and not isinstance(v, bool)\<close>.\<close>

fun is_int :: "json \<Rightarrow> bool" where
  "is_int (JInt n) = True"
| "is_int _ = False"

section \<open>Access to a payload\<close>

fun obj_get :: "json \<Rightarrow> pystr \<Rightarrow> json \<Rightarrow> json res" where
  "obj_get (JObj d) k dflt = Inr (case dict_get d k of None \<Rightarrow> dflt | Some v \<Rightarrow> v)"
| "obj_get _ k dflt = Inl AttributeError"

fun obj_item :: "json \<Rightarrow> pystr \<Rightarrow> json res" where
  "obj_item (JObj d) k = (case dict_get d k of None \<Rightarrow> Inl KeyError | Some v \<Rightarrow> Inr v)"
| "obj_item _ k = Inl TypeError"

fun sublist_at :: "pystr \<Rightarrow> pystr \<Rightarrow> bool" where
  "sublist_at p [] = (p = [])"
| "sublist_at p (c # cs) = (take (length p) (c # cs) = p \<or> sublist_at p cs)"

fun obj_has :: "json \<Rightarrow> pystr \<Rightarrow> bool res" where
  "obj_has (JObj d) k = Inr (dict_has d k)"
| "obj_has (JArr vs) k = Inr (JStr k \<in> set vs)"
| "obj_has (JStr s) k = Inr (sublist_at k s)"
| "obj_has _ k = Inl TypeError"

abbreviation get_str :: "platform \<Rightarrow> json \<Rightarrow> string \<Rightarrow> string \<Rightarrow> pystr res" where
  "get_str pf d k dflt \<equiv> res_bind (obj_get d (lit k) (JStr (lit dflt))) (\<lambda>v. Inr (py_str pf v))"

abbreviation get_int :: "platform \<Rightarrow> json \<Rightarrow> string \<Rightarrow> int \<Rightarrow> int res" where
  "get_int pf d k dflt \<equiv> res_bind (obj_get d (lit k) (JInt dflt)) (py_int pf)"

abbreviation item_str :: "platform \<Rightarrow> json \<Rightarrow> string \<Rightarrow> pystr res" where
  "item_str pf d k \<equiv> res_bind (obj_item d (lit k)) (\<lambda>v. Inr (py_str pf v))"

abbreviation item_int :: "platform \<Rightarrow> json \<Rightarrow> string \<Rightarrow> int res" where
  "item_int pf d k \<equiv> res_bind (obj_item d (lit k)) (py_int pf)"

section \<open>Text helpers\<close>

definition is_prefix :: "pystr \<Rightarrow> pystr \<Rightarrow> bool" where
  "is_prefix p s \<longleftrightarrow> take (length p) s = p"

text \<open>\<^verbatim>\<open>s.replace(p, "")\<close> for a non-empty \<open>p\<close>: left to right, without overlaps. The counter
  says how many characters of the current match are still to be dropped.\<close>

fun remove_all :: "pystr \<Rightarrow> nat \<Rightarrow> pystr \<Rightarrow> pystr" where
  "remove_all p k [] = []"
| "remove_all p k (c # cs) =
     (if 0 < k then remove_all p (k - 1) cs
      else if is_prefix p (c # cs) then remove_all p (length p - 1) cs
      else c # remove_all p 0 cs)"

definition ascii_lower :: "pystr \<Rightarrow> pystr" where
  "ascii_lower s = map (\<lambda>c. if 65 \<le> c \<and> c \<le> 90 then c + 32 else c) s"

definition ascii_upper :: "pystr \<Rightarrow> pystr" where
  "ascii_upper s = map (\<lambda>c. if 97 \<le> c \<and> c \<le> 122 then c - 32 else c) s"

definition hex_lower :: "nat \<Rightarrow> bool" where
  "hex_lower c \<longleftrightarrow> (48 \<le> c \<and> c \<le> 57) \<or> (97 \<le> c \<and> c \<le> 102)"

definition hex_any :: "nat \<Rightarrow> bool" where
  "hex_any c \<longleftrightarrow> hex_lower c \<or> (65 \<le> c \<and> c \<le> 70)"

definition hex_digit :: "nat \<Rightarrow> nat" where
  "hex_digit d = (if d < 10 then 48 + d else 87 + d)"

primrec hex_fixed :: "nat \<Rightarrow> nat \<Rightarrow> pystr" where
  "hex_fixed 0 n = []"
| "hex_fixed (Suc k) n = hex_fixed k (n div 16) @ [hex_digit (n mod 16)]"

text \<open>\<^verbatim>\<open>bytes.hex()\<close> and \<^verbatim>\<open>hexdigest()\<close>.\<close>

definition bytes_hex :: "bytes \<Rightarrow> pystr" where
  "bytes_hex bs = concat (map (\<lambda>b. hex_fixed 2 (unat b)) bs)"

section \<open>UUIDs\<close>

text \<open>
  \<^verbatim>\<open>uuid.UUID(s)\<close> removes \<^verbatim>\<open>urn:\<close> and \<^verbatim>\<open>uuid:\<close>, strips braces, removes hyphens, requires 32
  characters and reads them with \<^verbatim>\<open>int(_, 16)\<close>; the value is the 128-bit integer.
\<close>

definition uuid_parse :: "platform \<Rightarrow> pystr \<Rightarrow> nat res" where
  "uuid_parse pf s =
     (let s1 = remove_all (lit ''uuid:'') 0 (remove_all (lit ''urn:'') 0 s);
          h = filter (\<lambda>c. c \<noteq> 45) (strip_by (\<lambda>c. c = 123 \<or> c = 125) s1)
      in if length h \<noteq> 32 then Inl ValueError
         else res_bind (int16_of_str pf h)
                (\<lambda>n. if 0 \<le> n \<and> n < 2 ^ 128 then Inr (nat n) else Inl ValueError))"

text \<open>\<^verbatim>\<open>str(uuid)\<close>: 32 lower-case hexadecimal digits in groups of 8, 4, 4, 4 and 12.\<close>

definition uuid_str :: "nat \<Rightarrow> pystr" where
  "uuid_str n =
     (let h = hex_fixed 32 n
      in take 8 h @ [45] @ take 4 (drop 8 h) @ [45] @ take 4 (drop 12 h) @ [45]
         @ take 4 (drop 16 h) @ [45] @ drop 20 h)"

definition uuid_bytes :: "nat \<Rightarrow> bytes" where
  "uuid_bytes n = be_bytes 16 n"

definition uuid_of_bytes :: "bytes \<Rightarrow> nat" where
  "uuid_of_bytes bs = be_nat bs"

section \<open>Lemmas\<close>

lemma length_hex_fixed [simp]: "length (hex_fixed k n) = k"
  by (induction k arbitrary: n) auto

lemma hex_lower_digit: "d < 16 \<Longrightarrow> hex_lower (hex_digit d)"
  by (auto simp: hex_lower_def hex_digit_def)

lemma hex_fixed_chars: "c \<in> set (hex_fixed k n) \<Longrightarrow> hex_lower c"
  by (induction k arbitrary: n) (auto simp: hex_lower_digit)

lemma digit_val_hex: "d < 16 \<Longrightarrow> digit_val pf 16 (hex_digit d) = Some d"
  by (auto simp: digit_val_def hex_digit_def Let_def)

lemma digits_value_snoc:
  assumes "dv c = Some d" and "c \<noteq> 95"
    and "\<forall>x\<in>set xs. x \<noteq> 95"
  shows "digits_value dv b acc a (xs @ [c]) =
    (case xs of [] \<Rightarrow> Some (acc * b + d)
     | _ \<Rightarrow> map_option (\<lambda>n. n * b + d) (digits_value dv b acc a xs))"
  using assms(3)
proof (induction xs arbitrary: acc a)
  case (Cons x xs)
  then show ?case using assms(1,2)
    by (cases "dv x") (auto split: list.splits)
qed (use assms in simp)

lemma digits_value_hex_fixed:
  "digits_value (digit_val pf 16) 16 0 False (hex_fixed (Suc k) n) = Some (n mod 16 ^ Suc k)"
proof (induction k arbitrary: n)
  case 0
  show ?case by (simp add: digit_val_hex) (simp add: hex_digit_def)
next
  case (Suc k)
  have ne: "hex_fixed (Suc k) (n div 16) \<noteq> []" by simp
  have "\<forall>x\<in>set (hex_fixed (Suc k) (n div 16)). x \<noteq> 95"
    using hex_fixed_chars by (fastforce simp: hex_lower_def)
  moreover have "hex_digit (n mod 16) \<noteq> 95" by (simp add: hex_digit_def)
  ultimately have "digits_value (digit_val pf 16) 16 0 False (hex_fixed (Suc (Suc k)) n)
      = map_option (\<lambda>m. m * 16 + n mod 16)
          (digits_value (digit_val pf 16) 16 0 False (hex_fixed (Suc k) (n div 16)))"
    using ne digits_value_snoc [of "digit_val pf 16" "hex_digit (n mod 16)" "n mod 16"
        "hex_fixed (Suc k) (n div 16)" 16 0 False] digit_val_hex [of "n mod 16" pf]
    by (simp split: list.splits)
  also have "\<dots> = Some (n mod 16 ^ Suc (Suc k))"
    using mod_mult2_eq [of n 16 "16 ^ Suc k"] by (simp only: Suc.IH power_Suc) simp
  finally show ?case .
qed

lemma hex_first_two:
  "hex_fixed (Suc (Suc k)) n = c # x # rest \<Longrightarrow> c \<noteq> 45 \<and> c \<noteq> 43 \<and> x \<noteq> 120 \<and> x \<noteq> 88"
  using hex_fixed_chars [of c "Suc (Suc k)" n] hex_fixed_chars [of x "Suc (Suc k)" n]
  by (auto simp: hex_lower_def simp del: hex_fixed.simps)

lemma dropWhile_none: "(\<forall>x\<in>set xs. \<not> P x) \<Longrightarrow> dropWhile P xs = xs"
  by (cases xs) auto

lemma strip_by_none: "(\<forall>x\<in>set xs. \<not> P x) \<Longrightarrow> strip_by P xs = xs"
  by (simp add: strip_by_def lstrip_by_def rstrip_by_def dropWhile_none)

lemma int16_hex_fixed:
  "int16_of_str pf (hex_fixed (Suc (Suc k)) n) = Inr (int (n mod 16 ^ Suc (Suc k)))"
proof -
  let ?h = "hex_fixed (Suc (Suc k)) n"
  obtain c x rest where h: "?h = c # x # rest"
    by (metis length_hex_fixed length_Suc_conv)
  have "\<forall>y\<in>set ?h. \<not> py_space pf y"
    using hex_fixed_chars by (fastforce simp: hex_lower_def py_space_def)
  then have "strip_by (py_space pf) ?h = ?h" by (rule strip_by_none)
  moreover note digits_value_hex_fixed [of pf "Suc k" n]
  ultimately show ?thesis
    using hex_first_two [OF h] unfolding h
    by (simp add: int16_of_str_def split_sign_def drop_0x_def Let_def apply_sign_def)
qed

lemma remove_all_absent: "p \<noteq> [] \<Longrightarrow> hd p \<notin> set s \<Longrightarrow> remove_all p 0 s = s"
proof (induction s)
  case (Cons c cs)
  then show ?case by (cases p) (auto simp: is_prefix_def)
qed simp

lemma uuid_str_filter: "filter (\<lambda>c. c \<noteq> 45) (uuid_str n) = hex_fixed 32 n"
proof -
  let ?h = "hex_fixed 32 n"
  have "\<forall>c\<in>set ?h. c \<noteq> 45" using hex_fixed_chars by (fastforce simp: hex_lower_def)
  then have f: "\<And>xs. set xs \<subseteq> set ?h \<Longrightarrow> filter (\<lambda>c. c \<noteq> 45) xs = xs"
    by (auto simp: filter_id_conv)
  have sub: "set (take k ?h) \<subseteq> set ?h" "set (take k (drop j ?h)) \<subseteq> set ?h"
    "set (drop k ?h) \<subseteq> set ?h" for k j
    by (auto dest: in_set_takeD in_set_dropD)
  have "take 20 ?h = take 8 ?h @ take 4 (drop 8 ?h) @ take 4 (drop 12 ?h) @ take 4 (drop 16 ?h)"
    using take_add [of 8 4 ?h] take_add [of 12 4 ?h] take_add [of 16 4 ?h] by simp
  then have "take 8 ?h @ take 4 (drop 8 ?h) @ take 4 (drop 12 ?h) @ take 4 (drop 16 ?h) @ drop 20 ?h = ?h"
    by (metis append_assoc append_take_drop_id)
  then show ?thesis by (simp add: uuid_str_def Let_def f sub)
qed

lemma uuid_str_chars: "c \<in> set (uuid_str n) \<Longrightarrow> hex_lower c \<or> c = 45"
  using uuid_str_filter [of n] hex_fixed_chars [of c 32 n]
  by (metis (mono_tags, lifting) mem_Collect_eq set_filter)

lemma length_uuid_str [simp]: "length (uuid_str n) = 36"
  by (simp add: uuid_str_def Let_def)

lemma uuid_parse_str:
  assumes "n < 2 ^ 128"
  shows "uuid_parse pf (uuid_str n) = Inr n"
proof -
  have ch: "c \<in> set (uuid_str n) \<Longrightarrow> c \<noteq> 117 \<and> c \<noteq> 123 \<and> c \<noteq> 125" for c
    using uuid_str_chars [of c n] by (auto simp: hex_lower_def)
  then have r1: "remove_all (lit ''urn:'') 0 (uuid_str n) = uuid_str n"
    and r2: "remove_all (lit ''uuid:'') 0 (uuid_str n) = uuid_str n"
    using ch [of 117] by (auto intro!: remove_all_absent)
  have s: "strip_by (\<lambda>c. c = 123 \<or> c = 125) (uuid_str n) = uuid_str n"
    using ch by (intro strip_by_none) auto
  have e: "(32::nat) = Suc (Suc 30)" by simp
  have "int16_of_str pf (hex_fixed 32 n) = Inr (int (n mod 16 ^ 32))"
    unfolding e by (rule int16_hex_fixed)
  moreover have "n mod 16 ^ 32 = n" using assms by simp
  ultimately show ?thesis
    unfolding uuid_parse_def r1 r2 s uuid_str_filter Let_def using assms by simp
qed

text \<open>A string that \<^verbatim>\<open>uuid.UUID\<close> accepts has no path separator, dot or NUL: the staging file
  name built from a transfer id is a single path component.\<close>

definition path_char :: "nat \<Rightarrow> bool" where
  "path_char c \<longleftrightarrow> c = 0 \<or> c = 46 \<or> c = 47 \<or> c = 92"

lemma remove_all_keeps:
  "p \<noteq> [] \<Longrightarrow> c \<in> set s \<Longrightarrow> c \<notin> set p \<Longrightarrow> c \<notin> set (take k s) \<Longrightarrow> c \<in> set (remove_all p k s)"
proof (induction p k s rule: remove_all.induct)
  case (2 p k x cs)
  show ?case
  proof (cases "0 < k")
    case True
    with 2 have "c \<in> set cs" and "c \<notin> set (take (k - 1) cs)" by (auto simp: take_Cons')
    with True 2 show ?thesis by simp
  next
    case k0: False
    show ?thesis
    proof (cases "is_prefix p (x # cs)")
      case True
      then have p: "take (length p) (x # cs) = p" by (simp add: is_prefix_def)
      show ?thesis
      proof (cases p)
        case Nil
        with 2 show ?thesis by simp
      next
        case (Cons q qs)
        with p have "q = x" and "take (length p - 1) cs = qs" by auto
        with 2 Cons have "c \<in> set cs" and "c \<notin> set (take (length p - 1) cs)" by auto
        with k0 True 2 show ?thesis by simp
      qed
    next
      case False
      with k0 2 show ?thesis by auto
    qed
  qed
qed simp

lemma dropWhile_keeps: "c \<in> set s \<Longrightarrow> \<not> P c \<Longrightarrow> c \<in> set (dropWhile P s)"
  by (induction s) auto

lemma strip_by_keeps: "c \<in> set s \<Longrightarrow> \<not> P c \<Longrightarrow> c \<in> set (strip_by P s)"
  by (simp add: strip_by_def lstrip_by_def rstrip_by_def dropWhile_keeps)

lemma digits_value_bad:
  "c \<in> set s \<Longrightarrow> dv c = None \<Longrightarrow> c \<noteq> 95 \<Longrightarrow> digits_value dv b acc a s = None"
  by (induction dv b acc a s rule: digits_value.induct) (auto split: option.splits)

lemma split_sign_keeps: "c \<in> set s \<Longrightarrow> c \<noteq> 43 \<Longrightarrow> c \<noteq> 45 \<Longrightarrow> c \<in> set (snd (split_sign s))"
  by (auto simp: split_sign_def split: list.splits)

lemma drop_0x_keeps:
  "c \<in> set s \<Longrightarrow> c \<noteq> 48 \<Longrightarrow> c \<noteq> 120 \<Longrightarrow> c \<noteq> 88 \<Longrightarrow> c \<noteq> 95 \<Longrightarrow> c \<in> set (drop_0x s)"
  by (auto simp: drop_0x_def split: list.splits)

lemma int16_path_char:
  assumes "c \<in> set s" and "path_char c"
  shows "int16_of_str pf s = Inl ValueError"
proof -
  have c: "c \<noteq> 43" "c \<noteq> 45" "c \<noteq> 95" "c \<noteq> 48" "c \<noteq> 120" "c \<noteq> 88"
    and bad: "digit_val pf 16 c = None" and sp: "\<not> py_space pf c"
    using assms(2) by (auto simp: path_char_def digit_val_def py_space_def)
  obtain neg ds where ds: "split_sign (strip_by (py_space pf) s) = (neg, ds)" by fastforce
  have "c \<in> set ds"
    using split_sign_keeps [OF strip_by_keeps [where P = "py_space pf", OF assms(1) sp] c(1,2)] ds
    by simp
  then have "c \<in> set (drop_0x ds)" using c by (intro drop_0x_keeps) auto
  then have "digits_value (digit_val pf 16) 16 0 False (drop_0x ds) = None"
    using bad c(3) by (rule digits_value_bad)
  then show ?thesis by (simp add: int16_of_str_def ds)
qed

lemma uuid_parse_no_path_char:
  assumes "uuid_parse pf s = Inr n" and "path_char c"
  shows "c \<notin> set s"
proof
  assume "c \<in> set s"
  moreover have "c \<notin> set (lit ''urn:'')" "c \<notin> set (lit ''uuid:'')" "c \<noteq> 45" "c \<noteq> 123" "c \<noteq> 125"
    using assms(2) by (auto simp: path_char_def)
  ultimately have "c \<in> set (filter (\<lambda>c. c \<noteq> 45) (strip_by (\<lambda>c. c = 123 \<or> c = 125)
      (remove_all (lit ''uuid:'') 0 (remove_all (lit ''urn:'') 0 s))))"
    by (auto intro!: strip_by_keeps remove_all_keeps simp: lit_def simp del: lit_simps)
  then show False
    using assms int16_path_char [OF _ assms(2)]
    by (simp add: uuid_parse_def Let_def split: if_splits del: lit_simps)
qed

end
