(* ===== verification/Utf8.thy ===== *)
theory Utf8
  imports PyValues
begin

text \<open>
  UTF-8 as Python's codec implements it: \<^verbatim>\<open>str.encode("utf-8")\<close>, \<^verbatim>\<open>bytes.decode("utf-8")\<close>
  and \<^verbatim>\<open>bytes.decode("utf-8", errors="ignore")\<close>. The decoder skips the longest prefix of an
  ill-formed sequence that could have started a character.
\<close>

section \<open>Definitions\<close>

definition scalar :: "nat \<Rightarrow> bool" where
  "scalar c \<longleftrightarrow> c < 0x110000 \<and> \<not> (0xD800 \<le> c \<and> c \<le> 0xDFFF)"

definition utf8_cp :: "nat \<Rightarrow> bytes" where
  "utf8_cp c =
     (if c < 0x80 then [byte_of c]
      else if c < 0x800 then [byte_of (192 + c div 64), byte_of (128 + c mod 64)]
      else if c < 0x10000 then
        [byte_of (224 + c div 4096), byte_of (128 + c div 64 mod 64),
         byte_of (128 + c mod 64)]
      else
        [byte_of (240 + c div 262144), byte_of (128 + c div 4096 mod 64),
         byte_of (128 + c div 64 mod 64), byte_of (128 + c mod 64)])"

definition utf8_bytes :: "pystr \<Rightarrow> bytes" where
  "utf8_bytes s = concat (map utf8_cp s)"

definition utf8_encode :: "pystr \<Rightarrow> bytes res" where
  "utf8_encode s = (if list_all scalar s then Inr (utf8_bytes s) else Inl ValueError)"

text \<open>The lead byte: number of continuation bytes, payload bits, and the range of the second
  byte.\<close>

definition utf8_lead :: "nat \<Rightarrow> (nat \<times> nat \<times> nat \<times> nat) option" where
  "utf8_lead b =
     (if b < 128 then Some (0, b, 0, 0)
      else if b < 194 then None
      else if b < 224 then Some (1, b - 192, 128, 191)
      else if b = 224 then Some (2, 0, 160, 191)
      else if b = 237 then Some (2, 13, 128, 159)
      else if b < 240 then Some (2, b - 224, 128, 191)
      else if b = 240 then Some (3, 0, 144, 191)
      else if b < 244 then Some (3, b - 240, 128, 191)
      else if b = 244 then Some (3, 4, 128, 143)
      else None)"

fun utf8_cont :: "nat \<Rightarrow> nat \<Rightarrow> nat \<Rightarrow> nat \<Rightarrow> bytes \<Rightarrow> nat option \<times> nat" where
  "utf8_cont 0 acc lo hi bs = (Some acc, 0)"
| "utf8_cont (Suc k) acc lo hi [] = (None, 0)"
| "utf8_cont (Suc k) acc lo hi (b # bs) =
     (if lo \<le> unat b \<and> unat b \<le> hi
      then let (r, n) = utf8_cont k (acc * 64 + (unat b - 128)) 128 191 bs in (r, Suc n)
      else (None, 0))"

function utf8_scan :: "bytes \<Rightarrow> nat option list" where
  "utf8_scan [] = []"
| "utf8_scan (b # bs) =
     (case utf8_lead (unat b) of
        None \<Rightarrow> None # utf8_scan bs
      | Some (k, v, lo, hi) \<Rightarrow>
          fst (utf8_cont k v lo hi bs) # utf8_scan (drop (snd (utf8_cont k v lo hi bs)) bs))"
  by pat_completeness auto
termination
  by (relation "measure length") auto

definition utf8_decode :: "bytes \<Rightarrow> pystr res" where
  "utf8_decode bs =
     (if None \<in> set (utf8_scan bs) then Inl ValueError else Inr (map the (utf8_scan bs)))"

definition utf8_decode_ignore :: "bytes \<Rightarrow> pystr" where
  "utf8_decode_ignore bs = map the (filter (\<lambda>c. c \<noteq> None) (utf8_scan bs))"

section \<open>Decoding an encoded text\<close>

lemma utf8_cp_nonempty [simp]: "utf8_cp c \<noteq> []"
  by (simp add: utf8_cp_def)

lemma utf8_bytes_simps [simp]:
  "utf8_bytes [] = []" "utf8_bytes (c # s) = utf8_cp c @ utf8_bytes s"
  by (simp_all add: utf8_bytes_def)

lemma utf8_bytes_append [simp]: "utf8_bytes (s @ t) = utf8_bytes s @ utf8_bytes t"
  by (simp add: utf8_bytes_def)

lemma scan_cp_1: "c < 0x80 \<Longrightarrow> utf8_scan (utf8_cp c @ bs) = Some c # utf8_scan bs"
  by (simp add: utf8_cp_def utf8_lead_def)

lemma scan_tail_1:
  assumes "utf8_lead l = Some (1, v, lo, hi)" and "l < 256"
    and "lo \<le> 128 + d" and "128 + d \<le> hi" and "d < 64"
  shows "utf8_scan (byte_of l # byte_of (128 + d) # bs) = Some (v * 64 + d) # utf8_scan bs"
  using assms by (simp add: One_nat_def)

lemma scan_tail_2:
  assumes "utf8_lead l = Some (2, v, lo, hi)" and "l < 256"
    and "lo \<le> 128 + b" and "128 + b \<le> hi" and "b < 64" and "d < 64"
  shows "utf8_scan (byte_of l # byte_of (128 + b) # byte_of (128 + d) # bs)
    = Some ((v * 64 + b) * 64 + d) # utf8_scan bs"
  using assms by (simp add: numeral_2_eq_2)

lemma scan_tail_3:
  assumes "utf8_lead l = Some (3, v, lo, hi)" and "l < 256"
    and "lo \<le> 128 + a" and "128 + a \<le> hi" and "a < 64" and "b < 64" and "d < 64"
  shows "utf8_scan (byte_of l # byte_of (128 + a) # byte_of (128 + b) # byte_of (128 + d) # bs)
    = Some (((v * 64 + a) * 64 + b) * 64 + d) # utf8_scan bs"
  using assms by (simp add: numeral_3_eq_3)

lemma scan_cp_2:
  assumes "0x80 \<le> c" and "c < 0x800"
  shows "utf8_scan (utf8_cp c @ bs) = Some c # utf8_scan bs"
proof -
  define q where "q = c div 64"
  define d where "d = c mod 64"
  have c: "c = q * 64 + d" and d: "d < 64" by (simp_all add: q_def d_def)
  have q: "2 \<le> q" "q < 32" using assms c d by linarith+
  have "utf8_lead (192 + q) = Some (1, q, 128, 191)" using q by (simp add: utf8_lead_def)
  then have "utf8_scan (byte_of (192 + q) # byte_of (128 + d) # bs) = Some (q * 64 + d) # utf8_scan bs"
    by (rule scan_tail_1) (use q d in auto)
  moreover have "utf8_cp c = [byte_of (192 + q), byte_of (128 + d)]"
    using assms by (simp add: utf8_cp_def q_def d_def)
  ultimately show ?thesis by (simp add: c)
qed

lemma scan_cp_3:
  assumes "0x800 \<le> c" and "c < 0x10000" and "scalar c"
  shows "utf8_scan (utf8_cp c @ bs) = Some c # utf8_scan bs"
proof -
  define a where "a = c div 64 div 64"
  define b where "b = c div 64 mod 64"
  define d where "d = c mod 64"
  have "c div 64 = a * 64 + b" by (simp add: a_def b_def)
  then have c: "c = (a * 64 + b) * 64 + d" 
    using div_mult_mod_eq [of c 64] by (simp only: d_def)
  have bd: "b < 64" "d < 64" by (simp_all add: b_def d_def)
  have a: "a < 16" using assms(2) c by simp
  have a0: "a = 0 \<Longrightarrow> 32 \<le> b" and a13: "a = 13 \<Longrightarrow> b < 32"
    using assms(1,3) c bd by (auto simp: scalar_def)
  consider "a = 0" | "a = 13" | "a \<noteq> 0" "a \<noteq> 13" by blast
  then have "utf8_scan (byte_of (224 + a) # byte_of (128 + b) # byte_of (128 + d) # bs)
      = Some ((a * 64 + b) * 64 + d) # utf8_scan bs"
  proof cases
    case 1
    then have "utf8_lead (224 + a) = Some (2, a, 160, 191)" by (simp add: utf8_lead_def)
    then show ?thesis by (rule scan_tail_2) (use 1 a0 bd in auto)
  next
    case 2
    then have "utf8_lead (224 + a) = Some (2, a, 128, 159)" by (simp add: utf8_lead_def)
    then show ?thesis by (rule scan_tail_2) (use 2 a13 bd in auto)
  next
    case 3
    then have "utf8_lead (224 + a) = Some (2, a, 128, 191)" using a by (simp add: utf8_lead_def)
    then show ?thesis by (rule scan_tail_2) (use a bd in auto)
  qed
  moreover have "utf8_cp c = [byte_of (224 + a), byte_of (128 + b), byte_of (128 + d)]"
    using assms(1,2) by (simp add: utf8_cp_def a_def b_def d_def div_mult2_eq [symmetric])
  ultimately show ?thesis by (simp add: c)
qed

lemma scan_cp_4:
  assumes "0x10000 \<le> c" and "c < 0x110000"
  shows "utf8_scan (utf8_cp c @ bs) = Some c # utf8_scan bs"
proof -
  define a where "a = c div 64 div 64 div 64"
  define b where "b = c div 64 div 64 mod 64"
  define d where "d = c div 64 mod 64"
  define e where "e = c mod 64"
  have "c div 64 div 64 = a * 64 + b" by (simp add: a_def b_def)
  then have "c div 64 = (a * 64 + b) * 64 + d"
    using div_mult_mod_eq [of "c div 64" 64] by (simp only: d_def)
  then have c: "c = ((a * 64 + b) * 64 + d) * 64 + e"
    using div_mult_mod_eq [of c 64] by (simp only: e_def)
  have bde: "b < 64" "d < 64" "e < 64" by (simp_all add: b_def d_def e_def)
  have a: "a < 5" using assms(2) c by simp
  have a0: "a = 0 \<Longrightarrow> 16 \<le> b" and a4: "a = 4 \<Longrightarrow> b < 16"
    using assms c bde by auto
  consider "a = 0" | "a = 4" | "a \<noteq> 0" "a \<noteq> 4" by blast
  then have "utf8_scan (byte_of (240 + a) # byte_of (128 + b) # byte_of (128 + d) # byte_of (128 + e) # bs)
      = Some (((a * 64 + b) * 64 + d) * 64 + e) # utf8_scan bs"
  proof cases
    case 1
    then have "utf8_lead (240 + a) = Some (3, a, 144, 191)" by (simp add: utf8_lead_def)
    then show ?thesis by (rule scan_tail_3) (use 1 a0 bde in auto)
  next
    case 2
    then have "utf8_lead (240 + a) = Some (3, a, 128, 143)" by (simp add: utf8_lead_def)
    then show ?thesis by (rule scan_tail_3) (use 2 a4 bde in auto)
  next
    case 3
    then have "utf8_lead (240 + a) = Some (3, a, 128, 191)" using a by (simp add: utf8_lead_def)
    then show ?thesis by (rule scan_tail_3) (use a bde in auto)
  qed
  moreover have "utf8_cp c = [byte_of (240 + a), byte_of (128 + b), byte_of (128 + d), byte_of (128 + e)]"
    using assms(1) by (simp add: utf8_cp_def a_def b_def d_def e_def div_mult2_eq [symmetric])
  ultimately show ?thesis by (simp add: c)
qed

lemma scan_cp: "scalar c \<Longrightarrow> utf8_scan (utf8_cp c @ bs) = Some c # utf8_scan bs"
  using scan_cp_1 scan_cp_2 scan_cp_3 scan_cp_4
  by (metis scalar_def linorder_not_le)

lemma scan_utf8_bytes: "list_all scalar s \<Longrightarrow> utf8_scan (utf8_bytes s) = map Some s"
  by (induction s) (auto simp: scan_cp)

lemma utf8_decode_bytes: "list_all scalar s \<Longrightarrow> utf8_decode (utf8_bytes s) = Inr s"
  by (auto simp: utf8_decode_def scan_utf8_bytes comp_def)

lemma utf8_decode_encode: "utf8_encode s = Inr bs \<Longrightarrow> utf8_decode bs = Inr s"
  by (auto simp: utf8_encode_def utf8_decode_bytes split: if_splits)

section \<open>Decoding a truncated text\<close>

lemma utf8_cont_Some:
  "utf8_cont k acc lo hi bs = (Some r, n) \<Longrightarrow> n = k \<and> k \<le> length bs"
  by (induction k acc lo hi bs arbitrary: n rule: utf8_cont.induct)
    (auto split: if_splits prod.splits)

lemma utf8_cont_trunc:
  "utf8_cont k acc lo hi bs = (Some r, n) \<Longrightarrow> j < k \<Longrightarrow> utf8_cont k acc lo hi (take j bs) = (None, j)"
proof (induction k acc lo hi bs arbitrary: n j rule: utf8_cont.induct)
  case (3 k acc lo hi b bs)
  then show ?case by (cases j) (auto split: if_splits prod.splits)
qed auto

lemma utf8_scan_eq_Nil [simp]: "utf8_scan bs = [] \<longleftrightarrow> bs = []"
  by (cases bs) (auto split: option.splits prod.splits)

lemma scan_trunc:
  assumes "scalar c" and "0 < j" and "j < length (utf8_cp c)"
  shows "utf8_scan (take j (utf8_cp c)) = [None]"
proof -
  obtain b tl where cp: "utf8_cp c = b # tl" by (cases "utf8_cp c") auto
  have "utf8_scan (b # tl) = [Some c]" using scan_cp [OF assms(1), of "[]"] cp by simp
  then obtain k v lo hi where ld: "utf8_lead (unat b) = Some (k, v, lo, hi)"
    and ct: "fst (utf8_cont k v lo hi tl) = Some c"
    and dr: "drop (snd (utf8_cont k v lo hi tl)) tl = []"
    by (auto split: option.splits)
  then obtain n where ct': "utf8_cont k v lo hi tl = (Some c, n)" by (metis prod.collapse)
  with dr utf8_cont_Some [OF ct'] have k: "length tl = k" by simp
  have "utf8_cont k v lo hi (take (j - 1) tl) = (None, j - 1)"
    using ct' assms(2,3) cp k by (intro utf8_cont_trunc) auto
  moreover have "take j (utf8_cp c) = b # take (j - 1) tl" using assms(2) cp by (simp add: take_Cons')
  ultimately show ?thesis using ld by simp
qed

lemma utf8_decode_ignore_scan:
  "utf8_scan bs = map Some s @ rest \<Longrightarrow> set rest \<subseteq> {None} \<Longrightarrow> utf8_decode_ignore bs = s"
  by (auto simp: utf8_decode_ignore_def filter_empty_conv comp_def)

lemma scan_take:
  assumes "list_all scalar s"
  shows "\<exists>m rest. utf8_scan (take n (utf8_bytes s)) = map Some (take m s) @ rest \<and> set rest \<subseteq> {None}
    \<and> length (utf8_bytes (take m s)) \<le> n"
  using assms
proof (induction s arbitrary: n)
  case (Cons c s)
  then have c: "scalar c" by simp
  show ?case
  proof (cases "length (utf8_cp c) \<le> n")
    case True
    from Cons.prems have "list_all scalar s" by simp
    from Cons.IH [OF this] obtain m rest where ih:
      "utf8_scan (take (n - length (utf8_cp c)) (utf8_bytes s)) = map Some (take m s) @ rest"
      "set rest \<subseteq> {None}" "length (utf8_bytes (take m s)) \<le> n - length (utf8_cp c)"
      by blast
    have "utf8_scan (take n (utf8_bytes (c # s))) = map Some (take (Suc m) (c # s)) @ rest"
      using True scan_cp [OF c] ih(1) by simp
    moreover have "length (utf8_bytes (take (Suc m) (c # s))) \<le> n" using True ih(3) by simp
    ultimately show ?thesis using ih(2) by blast
  next
    case False
    then have "take n (utf8_bytes (c # s)) = take n (utf8_cp c)" by simp
    then have "utf8_scan (take n (utf8_bytes (c # s))) = (if n = 0 then [] else [None])"
      using scan_trunc [OF c, of n] False by simp
    then show ?thesis by (intro exI [of _ 0]) auto
  qed
qed simp

text \<open>Truncating the encoding of a text to \<open>n\<close> bytes and decoding it with
  \<^verbatim>\<open>errors="ignore"\<close> gives a prefix of the text whose encoding has at most \<open>n\<close> bytes.\<close>

lemma utf8_truncate:
  assumes "list_all scalar s"
  obtains m where "utf8_decode_ignore (take n (utf8_bytes s)) = take m s"
    and "length (utf8_bytes (take m s)) \<le> n"
  using scan_take [OF assms, of n] utf8_decode_ignore_scan by metis

lemma utf8_truncate_short:
  assumes "list_all scalar s" and "length (utf8_bytes s) \<le> n"
  shows "utf8_decode_ignore (take n (utf8_bytes s)) = s"
  using assms by (intro utf8_decode_ignore_scan [where rest = "[]"]) (simp_all add: scan_utf8_bytes)

end
