(* ===== verification/Chunks.thy ===== *)
theory Chunks
  imports PyValues
begin

text \<open>
  Binary framing of file data, \<^verbatim>\<open>core/transfer.py\<close>: \<^verbatim>\<open>encode_chunk_frame\<close>,
  \<^verbatim>\<open>decode_chunk_frame\<close> and \<^verbatim>\<open>is_chunk_frame\<close>. A frame is
  \<^verbatim>\<open>"FYCH" + 16 bytes UUID + uint32 seq + uint32 length + data\<close>.
\<close>

section \<open>Definitions\<close>

definition CHUNK_MAGIC :: bytes where
  "CHUNK_MAGIC = blit ''FYCH''"

definition CHUNK_MAGIC_SIZE :: nat where "CHUNK_MAGIC_SIZE = 4"
definition CHUNK_TRANSFER_ID_SIZE :: nat where "CHUNK_TRANSFER_ID_SIZE = 16"
definition CHUNK_SEQ_SIZE :: nat where "CHUNK_SEQ_SIZE = 4"
definition CHUNK_LEN_SIZE :: nat where "CHUNK_LEN_SIZE = 4"

definition CHUNK_HEADER_SIZE :: nat where
  "CHUNK_HEADER_SIZE =
     CHUNK_MAGIC_SIZE + CHUNK_TRANSFER_ID_SIZE + CHUNK_SEQ_SIZE + CHUNK_LEN_SIZE"

definition CHUNK_SIZE :: nat where "CHUNK_SIZE = 65536"
definition MAX_CHUNK_PAYLOAD :: nat where "MAX_CHUNK_PAYLOAD = CHUNK_SIZE"

record chunk_frame =
  cf_transfer_id :: pystr
  cf_seq :: int
  cf_data :: bytes

definition encode_chunk_frame :: "platform \<Rightarrow> pystr \<Rightarrow> int \<Rightarrow> bytes \<Rightarrow> bytes res" where
  "encode_chunk_frame pf transfer_id seq data =
     (if MAX_CHUNK_PAYLOAD < length data then Inl ValueError
      else res_bind (uuid_parse pf transfer_id) (\<lambda>uid.
           res_bind (struct_pack 4 seq) (\<lambda>seq_bytes.
           res_bind (struct_pack 4 (int (length data))) (\<lambda>len_bytes.
             Inr (CHUNK_MAGIC @ uuid_bytes uid @ seq_bytes @ len_bytes @ data)))))"

definition decode_chunk_frame :: "bytes \<Rightarrow> chunk_frame res" where
  "decode_chunk_frame plaintext =
     (if length plaintext < CHUNK_HEADER_SIZE then Inl ValueError
      else if take CHUNK_MAGIC_SIZE plaintext \<noteq> CHUNK_MAGIC then Inl ValueError
      else
        let uid_bytes = take CHUNK_TRANSFER_ID_SIZE (drop CHUNK_MAGIC_SIZE plaintext);
            transfer_id = uuid_str (uuid_of_bytes uid_bytes);
            offset = CHUNK_MAGIC_SIZE + CHUNK_TRANSFER_ID_SIZE
        in res_bind (struct_unpack 4 (take 4 (drop offset plaintext))) (\<lambda>seq.
           res_bind (struct_unpack 4 (take 4 (drop (offset + 4) plaintext))) (\<lambda>payload_len.
             if MAX_CHUNK_PAYLOAD < payload_len then Inl ValueError
             else if length plaintext < offset + 8 + payload_len then Inl ValueError
             else Inr \<lparr>cf_transfer_id = transfer_id, cf_seq = int seq,
                       cf_data = take payload_len (drop (offset + 8) plaintext)\<rparr>)))"

definition is_chunk_frame :: "bytes \<Rightarrow> bool" where
  "is_chunk_frame plaintext \<longleftrightarrow> take CHUNK_MAGIC_SIZE plaintext = CHUNK_MAGIC"

lemmas chunk_consts =
  CHUNK_MAGIC_SIZE_def CHUNK_TRANSFER_ID_SIZE_def CHUNK_SEQ_SIZE_def CHUNK_LEN_SIZE_def
  CHUNK_HEADER_SIZE_def CHUNK_SIZE_def MAX_CHUNK_PAYLOAD_def

declare chunk_consts [ferry_defs] CHUNK_MAGIC_def [ferry_defs]
  encode_chunk_frame_def [ferry_defs] decode_chunk_frame_def [ferry_defs]

section \<open>Lemmas\<close>

lemma length_CHUNK_MAGIC [simp]: "length CHUNK_MAGIC = 4"
  by (simp add: CHUNK_MAGIC_def)

lemma uuid_parse_less: "uuid_parse pf s = Inr n \<Longrightarrow> n < 2 ^ 128"
  by (auto simp: uuid_parse_def Let_def res_bind_ok_iff nat_less_iff split: if_splits)

lemma length_uuid_bytes [simp]: "length (uuid_bytes n) = 16"
  by (simp add: uuid_bytes_def)

lemma uuid_of_bytes_inverse: "n < 2 ^ 128 \<Longrightarrow> uuid_of_bytes (uuid_bytes n) = n"
  by (simp add: uuid_of_bytes_def uuid_bytes_def be_nat_be_bytes)

lemma encode_chunk_frame_ok_iff:
  "encode_chunk_frame pf tid seq data = Inr fr \<longleftrightarrow>
     (\<exists>uid. length data \<le> MAX_CHUNK_PAYLOAD \<and> uuid_parse pf tid = Inr uid \<and> 0 \<le> seq \<and> seq < 2 ^ 32
       \<and> fr = CHUNK_MAGIC @ uuid_bytes uid @ be_bytes 4 (nat seq) @ be_bytes 4 (length data) @ data)"
  by (auto simp: encode_chunk_frame_def struct_pack_def res_bind_ok_iff chunk_consts split: if_splits)

text \<open>Decoding what stands in front of any trailing bytes.\<close>

lemma decode_chunk_frame_header:
  assumes "u < 2 ^ 128" and "seq < 2 ^ 32" and "length data \<le> MAX_CHUNK_PAYLOAD"
  shows "decode_chunk_frame
      (CHUNK_MAGIC @ uuid_bytes u @ be_bytes 4 seq @ be_bytes 4 (length data) @ data @ rest)
    = Inr \<lparr>cf_transfer_id = uuid_str u, cf_seq = int seq, cf_data = data\<rparr>"
proof -
  let ?p = "CHUNK_MAGIC @ uuid_bytes u @ be_bytes 4 seq @ be_bytes 4 (length data) @ data @ rest"
  have "take 4 ?p = CHUNK_MAGIC" "take 16 (drop 4 ?p) = uuid_bytes u"
    "take 4 (drop 20 ?p) = be_bytes 4 seq" "take 4 (drop 24 ?p) = be_bytes 4 (length data)"
    "drop 28 ?p = data @ rest"
    by simp_all
  moreover have "be_nat (be_bytes 4 seq) = seq" "be_nat (be_bytes 4 (length data)) = length data"
    using assms by (simp_all add: be_nat_be_bytes chunk_consts)
  ultimately show ?thesis
    using assms by (simp add: decode_chunk_frame_def struct_unpack_def chunk_consts
        uuid_of_bytes_inverse del: append_assoc)
qed

lemma decode_chunk_frame_okE:
  assumes "decode_chunk_frame p = Inr f"
  obtains u where "u < 2 ^ 128" and "cf_transfer_id f = uuid_str u"
    and "0 \<le> cf_seq f" and "cf_seq f < 2 ^ 32" and "length (cf_data f) \<le> MAX_CHUNK_PAYLOAD"
    and "p = CHUNK_MAGIC @ uuid_bytes u @ be_bytes 4 (nat (cf_seq f))
             @ be_bytes 4 (length (cf_data f)) @ cf_data f @ drop (28 + length (cf_data f)) p"
proof -
  let ?u = "uuid_of_bytes (take 16 (drop 4 p))"
  let ?s = "be_nat (take 4 (drop 20 p))" and ?l = "be_nat (take 4 (drop 24 p))"
  from assms have len: "28 \<le> length p" and mg: "take 4 p = CHUNK_MAGIC"
    and l: "?l \<le> MAX_CHUNK_PAYLOAD" "28 + ?l \<le> length p"
    and f: "f = \<lparr>cf_transfer_id = uuid_str ?u, cf_seq = int ?s, cf_data = take ?l (drop 28 p)\<rparr>"
    by (auto simp: decode_chunk_frame_def struct_unpack_def chunk_consts res_bind_ok_iff Let_def
        split: if_splits)
  have "length (take 16 (drop 4 p)) = 16" using len by simp
  then have u: "?u < 2 ^ 128" and ub: "uuid_bytes ?u = take 16 (drop 4 p)"
    using be_nat_less [of "take 16 (drop 4 p)"] be_bytes_be_nat [of "take 16 (drop 4 p)"]
    by (simp_all add: uuid_of_bytes_def uuid_bytes_def)
  have "length (take 4 (drop 20 p)) = 4" "length (take 4 (drop 24 p)) = 4" using len by simp_all
  then have sb: "be_bytes 4 ?s = take 4 (drop 20 p)" "?s < 2 ^ 32"
    and lb: "be_bytes 4 ?l = take 4 (drop 24 p)"
    using be_nat_less [of "take 4 (drop 20 p)"] be_bytes_be_nat [of "take 4 (drop 20 p)"]
      be_bytes_be_nat [of "take 4 (drop 24 p)"]
    by simp_all
  have "take 28 p = take 4 p @ take 16 (drop 4 p) @ take 4 (drop 20 p) @ take 4 (drop 24 p)"
    using take_add [of 4 16 p] take_add [of 20 4 p] take_add [of 24 4 p] by simp
  moreover have "p = take 28 p @ take ?l (drop 28 p) @ drop (28 + ?l) p"
    by (rule split_take_drop)
  ultimately have p: "p = CHUNK_MAGIC @ uuid_bytes ?u @ be_bytes 4 ?s @ be_bytes 4 ?l
      @ take ?l (drop 28 p) @ drop (28 + ?l) p"
    using ub sb(1) lb mg by simp
  have dl: "length (cf_data f) = ?l" using l by (simp add: f)
  show ?thesis
  proof (rule that [of ?u])
    show "p = CHUNK_MAGIC @ uuid_bytes ?u @ be_bytes 4 (nat (cf_seq f))
             @ be_bytes 4 (length (cf_data f)) @ cf_data f @ drop (28 + length (cf_data f)) p"
      using p dl by (simp add: f)
  qed (use u sb l dl in \<open>simp_all add: f\<close>)
qed

lemma encoded_is_chunk_frame: "encode_chunk_frame pf tid seq data = Inr fr \<Longrightarrow> is_chunk_frame fr"
  by (auto simp: encode_chunk_frame_ok_iff is_chunk_frame_def chunk_consts)

lemma decode_encode_chunk:
  assumes "encode_chunk_frame pf tid seq data = Inr fr" and "uuid_parse pf tid = Inr u"
  shows "decode_chunk_frame (fr @ rest)
    = Inr \<lparr>cf_transfer_id = uuid_str u, cf_seq = seq, cf_data = data\<rparr>"
proof -
  from assms have r: "length data \<le> MAX_CHUNK_PAYLOAD" "0 \<le> seq" "seq < 2 ^ 32"
    and fr: "fr = CHUNK_MAGIC @ uuid_bytes u @ be_bytes 4 (nat seq) @ be_bytes 4 (length data) @ data"
    by (auto simp: encode_chunk_frame_ok_iff)
  have "u < 2 ^ 128" using assms(2) by (rule uuid_parse_less)
  moreover have "nat seq < 2 ^ 32" using r by (simp add: nat_less_iff)
  ultimately show ?thesis
    using decode_chunk_frame_header [of u "nat seq" data rest] r by (simp add: fr)
qed

lemma length_encode_chunk:
  "encode_chunk_frame pf tid seq data = Inr fr \<Longrightarrow> length fr = 28 + length data"
  by (auto simp: encode_chunk_frame_ok_iff)

section \<open>Properties\<close>

text \<open>
  A chunk frame that \<^verbatim>\<open>encode_chunk_frame\<close> produced is read back by \<^verbatim>\<open>decode_chunk_frame\<close>,
  also with bytes after it: same sequence number and payload, and the transfer id in its
  canonical spelling.
\<close>

theorem chunk_roundtrip:
  assumes "encode_chunk_frame pf tid sq data = Inr fr"
  shows "\<exists>u. uuid_parse pf tid = Inr u \<and> length fr = 28 + length data
    \<and> decode_chunk_frame (fr @ rest) = Inr \<lparr>cf_transfer_id = uuid_str u, cf_seq = sq, cf_data = data\<rparr>"
  using assms decode_encode_chunk [OF assms] length_encode_chunk [OF assms]
  by (auto simp: encode_chunk_frame_ok_iff)

theorem chunk_roundtrip_witness:
  "\<exists>fr u. encode_chunk_frame ascii_platform (uuid_str 7) 3 [1, 2] = Inr fr
    \<and> uuid_parse ascii_platform (uuid_str 7) = Inr u \<and> length fr = 30
    \<and> decode_chunk_frame (fr @ [9]) = Inr \<lparr>cf_transfer_id = uuid_str u, cf_seq = 3, cf_data = [1, 2]\<rparr>"
proof -
  have "uuid_parse ascii_platform (uuid_str 7) = Inr 7" by (rule uuid_parse_str) simp
  then have e: "encode_chunk_frame ascii_platform (uuid_str 7) 3 [1, 2] =
      Inr (CHUNK_MAGIC @ uuid_bytes 7 @ be_bytes 4 3 @ be_bytes 4 2 @ [1, 2])"
    by (simp add: encode_chunk_frame_ok_iff chunk_consts numeral_2_eq_2)
  from chunk_roundtrip [OF e, of "[9]"] e show ?thesis by auto
qed

text \<open>
  What \<^verbatim>\<open>decode_chunk_frame\<close> accepts is within bounds and is exactly the frame that
  \<^verbatim>\<open>encode_chunk_frame\<close> builds from its fields, up to trailing bytes.
\<close>

theorem decode_chunk_sound:
  assumes "decode_chunk_frame p = Inr f"
  shows "length (cf_data f) \<le> 65536 \<and> 0 \<le> cf_seq f \<and> cf_seq f < 2 ^ 32
    \<and> (\<exists>fr. encode_chunk_frame pf (cf_transfer_id f) (cf_seq f) (cf_data f) = Inr fr
        \<and> p = fr @ drop (28 + length (cf_data f)) p)"
proof -
  obtain u where u: "u < 2 ^ 128" "cf_transfer_id f = uuid_str u" "0 \<le> cf_seq f" "cf_seq f < 2 ^ 32"
    "length (cf_data f) \<le> MAX_CHUNK_PAYLOAD"
    and p: "p = CHUNK_MAGIC @ uuid_bytes u @ be_bytes 4 (nat (cf_seq f))
             @ be_bytes 4 (length (cf_data f)) @ cf_data f @ drop (28 + length (cf_data f)) p"
    using assms by (rule decode_chunk_frame_okE)
  then have "uuid_parse pf (cf_transfer_id f) = Inr u" using uuid_parse_str by simp
  then have "encode_chunk_frame pf (cf_transfer_id f) (cf_seq f) (cf_data f) =
      Inr (CHUNK_MAGIC @ uuid_bytes u @ be_bytes 4 (nat (cf_seq f)) @ be_bytes 4 (length (cf_data f)) @ cf_data f)"
    using u by (simp add: encode_chunk_frame_ok_iff)
  then show ?thesis using u p by (simp add: MAX_CHUNK_PAYLOAD_def CHUNK_SIZE_def)
qed


theorem decode_chunk_sound_witness:
  "\<exists>p f fr. decode_chunk_frame p = Inr f \<and> cf_data f = [1, 2] \<and> cf_seq f = 3
    \<and> encode_chunk_frame ascii_platform (cf_transfer_id f) (cf_seq f) (cf_data f) = Inr fr
    \<and> p = fr @ drop (28 + length (cf_data f)) p"
proof -
  have "uuid_parse ascii_platform (uuid_str 7) = Inr 7" by (rule uuid_parse_str) simp
  then have e: "encode_chunk_frame ascii_platform (uuid_str 7) 3 [1, 2] =
      Inr (CHUNK_MAGIC @ uuid_bytes 7 @ be_bytes 4 3 @ be_bytes 4 2 @ [1, 2])" (is "_ = Inr ?fr")
    by (simp add: encode_chunk_frame_ok_iff chunk_consts numeral_2_eq_2)
  then have d: "decode_chunk_frame (?fr @ [9]) = Inr \<lparr>cf_transfer_id = uuid_str 7, cf_seq = 3, cf_data = [1, 2]\<rparr>"
    by (rule decode_encode_chunk) (rule uuid_parse_str, simp)
  from decode_chunk_sound [OF d, of ascii_platform] d show ?thesis by (metis chunk_frame.select_convs(2,3))
qed

end
