(* ===== verification/Metadata.thy ===== *)
theory Metadata
  imports Utf8 Chunks
begin

text \<open>
  What a peer may ask the receiver to write: \<^verbatim>\<open>sanitise_filename\<close>,
  \<^verbatim>\<open>resolve_safe_destination\<close> and \<^verbatim>\<open>TransferMetadata\<close> of \<^verbatim>\<open>core/transfer.py\<close>, with
  \<^verbatim>\<open>os.path.basename\<close>, \<^verbatim>\<open>os.path.normpath\<close> and \<^verbatim>\<open>pathlib\<close> joins as the POSIX modules define
  them. A path is the list of its components below the root directory.
\<close>

type_synonym path = "pystr list"

section \<open>File names\<close>

definition MAX_FILE_NAME_BYTES :: nat where "MAX_FILE_NAME_BYTES = 255"

definition RESERVED_NAMES :: "pystr list" where
  "RESERVED_NAMES =
     map lit [''CON'', ''PRN'', ''AUX'', ''NUL'',
       ''COM1'', ''COM2'', ''COM3'', ''COM4'', ''COM5'', ''COM6'', ''COM7'', ''COM8'', ''COM9'',
       ''LPT1'', ''LPT2'', ''LPT3'', ''LPT4'', ''LPT5'', ''LPT6'', ''LPT7'', ''LPT8'', ''LPT9'']"

text \<open>\<^verbatim>\<open>os.path.basename\<close>: what follows the last slash.\<close>

definition basename :: "pystr \<Rightarrow> pystr" where
  "basename s = rev (takeWhile (\<lambda>c. c \<noteq> 47) (rev s))"

definition printable :: "nat \<Rightarrow> bool" where
  "printable c \<longleftrightarrow> 32 \<le> c \<and> c \<noteq> 127"

text \<open>The text before the first dot, \<^verbatim>\<open>name.split(".")[0]\<close>.\<close>

definition stem_of :: "pystr \<Rightarrow> pystr" where
  "stem_of s = takeWhile (\<lambda>c. c \<noteq> 46) s"

text \<open>
  \<^verbatim>\<open>str.upper\<close> is taken on ASCII letters: no other character has an upper case that consists
  of letters and digits of the reserved names.
\<close>

definition sanitise_filename :: "pystr \<Rightarrow> pystr res" where
  "sanitise_filename raw =
     (let slashed = map (\<lambda>c. if c = 92 then 47 else c) raw;
          name0 = basename (filter (\<lambda>c. c \<noteq> 0) slashed);
          name1 = lstrip_by (\<lambda>c. c = 46 \<or> c = 47) name0;
          name2 = filter printable name1
      in res_bind (utf8_encode name2) (\<lambda>enc.
           let name = utf8_decode_ignore (take MAX_FILE_NAME_BYTES enc);
               stem = ascii_upper (stem_of name)
           in if stem \<in> set RESERVED_NAMES then Inr []
              else if name = [] \<or> name = lit ''.'' \<or> name = lit ''..'' then Inr []
              else Inr name))"

section \<open>Relative paths\<close>

fun split_slash :: "pystr \<Rightarrow> pystr list" where
  "split_slash [] = [[]]"
| "split_slash (c # cs) =
     (if c = 47 then [] # split_slash cs
      else case split_slash cs of [] \<Rightarrow> [[c]] | w # ws \<Rightarrow> (c # w) # ws)"

fun join_slash :: "pystr list \<Rightarrow> pystr" where
  "join_slash [] = []"
| "join_slash [w] = w"
| "join_slash (w # ws) = w @ [47] @ join_slash ws"

abbreviation dot :: pystr where "dot \<equiv> [46]"
abbreviation dotdot :: pystr where "dotdot \<equiv> [46, 46]"

text \<open>The component loop of \<^verbatim>\<open>posixpath.normpath\<close>; the accumulator is reversed.\<close>

fun norm_comps :: "bool \<Rightarrow> pystr list \<Rightarrow> pystr list \<Rightarrow> pystr list" where
  "norm_comps rooted acc [] = rev acc"
| "norm_comps rooted acc (w # ws) =
     (if w = [] \<or> w = dot then norm_comps rooted acc ws
      else if w \<noteq> dotdot \<or> (\<not> rooted \<and> acc = []) \<or> (acc \<noteq> [] \<and> hd acc = dotdot)
      then norm_comps rooted (w # acc) ws
      else norm_comps rooted (tl acc) ws)"

definition initial_slashes :: "pystr \<Rightarrow> nat" where
  "initial_slashes p =
     (if \<not> is_prefix [47] p then 0
      else if is_prefix [47, 47] p \<and> \<not> is_prefix [47, 47, 47] p then 2 else 1)"

definition normpath :: "pystr \<Rightarrow> pystr" where
  "normpath p =
     (if p = [] then dot
      else let n = initial_slashes p;
               q = replicate n 47 @ join_slash (norm_comps (0 < n) [] (split_slash p))
           in if q = [] then dot else q)"

definition traverses :: "pystr \<Rightarrow> bool" where
  "traverses p \<longleftrightarrow>
     is_prefix (lit ''/'') p \<or> is_prefix [92] p \<or> is_prefix (lit ''..'') p
     \<or> sublist_at (lit ''/../'') p \<or> sublist_at [92, 46, 46, 92] p"

text \<open>\<^verbatim>\<open>Path(base) / rel\<close>: empty and dot components vanish, an absolute \<^verbatim>\<open>rel\<close> replaces the base.\<close>

definition path_comps :: "pystr \<Rightarrow> pystr list" where
  "path_comps p = filter (\<lambda>w. w \<noteq> [] \<and> w \<noteq> dot) (split_slash p)"

definition path_join :: "path \<Rightarrow> pystr \<Rightarrow> path" where
  "path_join base rel = (if is_prefix [47] rel then [] else base) @ path_comps rel"

definition path_str :: "path \<Rightarrow> pystr" where
  "path_str p = (if p = [] then [47] else concat (map (\<lambda>w. 47 # w) p))"

text \<open>
  \<open>resolve\<close> stands for \<^verbatim>\<open>Path.resolve\<close>, which asks the operating system for the symbolic links
  on the way.
\<close>

definition resolve_safe_destination ::
    "(path \<Rightarrow> path) \<Rightarrow> path \<Rightarrow> pystr \<Rightarrow> pystr \<Rightarrow> path res" where
  "resolve_safe_destination resolve staging_dir file_name relative_path =
     res_bind (sanitise_filename file_name) (\<lambda>sanitised.
       if sanitised = [] then Inl ValueError
       else res_bind
         (if relative_path \<noteq> [] then
            (let norm_rel = normpath relative_path
             in if traverses norm_rel then Inl SecurityError
                else Inr (resolve (path_join staging_dir norm_rel)))
          else Inr (resolve (path_join staging_dir sanitised))) (\<lambda>dest.
         let staging_resolved = resolve staging_dir
         in if \<not> is_prefix (path_str staging_resolved @ [47]) (path_str dest)
               \<and> dest \<noteq> staging_resolved
            then Inl SecurityError else Inr dest))"

section \<open>Transfer metadata\<close>

record metadata =
  md_transfer_id :: pystr
  md_file_name :: pystr
  md_file_size :: int
  md_mime_type :: pystr
  md_sha256 :: pystr
  md_chunk_size :: int
  md_chunk_count :: int
  md_sender_identity :: pystr
  md_created_at :: int
  md_protocol_version :: int
  md_batch_id :: pystr
  md_relative_path :: pystr

definition ten_gib :: int where "ten_gib = 10 * 1024 ^ 3"

definition expected_chunks :: "int \<Rightarrow> int \<Rightarrow> int" where
  "expected_chunks file_size chunk_size =
     (if 0 < file_size then (file_size + chunk_size - 1) div chunk_size else 0)"

definition check_relative_path :: "pystr \<Rightarrow> pystr res" where
  "check_relative_path relative_path =
     (if relative_path = [] then Inr []
      else let norm_path = normpath relative_path
           in if traverses norm_path then Inl ValueError else Inr norm_path)"

text \<open>\<^verbatim>\<open>TransferMetadata.from_dict\<close>; \<open>now\<close> is \<^verbatim>\<open>int(time.time() * 1000)\<close>.\<close>

definition metadata_from_dict :: "platform \<Rightarrow> int \<Rightarrow> json \<Rightarrow> metadata res" where
  "metadata_from_dict pf now data =
     res_bind (item_str pf data ''transfer_id'') (\<lambda>transfer_id.
     res_bind (uuid_parse pf transfer_id) (\<lambda>_.
     res_bind (get_str pf data ''file_name'' '''') (\<lambda>raw_name.
     res_bind (sanitise_filename raw_name) (\<lambda>file_name.
     if file_name = [] then Inl ValueError else
     res_bind (get_str pf data ''relative_path'' '''') (\<lambda>rel.
     res_bind (check_relative_path rel) (\<lambda>relative_path.
     res_bind (item_int pf data ''file_size'') (\<lambda>file_size.
     if file_size < 0 then Inl ValueError else
     if ten_gib < file_size then Inl ValueError else
     res_bind (get_int pf data ''chunk_size'' (int CHUNK_SIZE)) (\<lambda>chunk_size.
     if chunk_size \<le> 0 \<or> int MAX_CHUNK_PAYLOAD < chunk_size then Inl ValueError else
     res_bind (get_int pf data ''chunk_count'' (-1)) (\<lambda>chunk_count.
     if chunk_count \<noteq> expected_chunks file_size chunk_size then Inl ValueError else
     res_bind (get_str pf data ''sha256'' '''') (\<lambda>sha256.
     if length sha256 \<noteq> 64 \<or> \<not> list_all hex_any sha256 then Inl ValueError else
     res_bind (get_str pf data ''mime_type'' ''application/octet-stream'') (\<lambda>mime_type.
     res_bind (get_str pf data ''sender_identity'' '''') (\<lambda>sender_identity.
     res_bind (get_int pf data ''created_at'' now) (\<lambda>created_at.
     res_bind (get_int pf data ''protocol_version'' 1) (\<lambda>protocol_version.
     res_bind (get_str pf data ''batch_id'' '''') (\<lambda>batch_id.
       Inr \<lparr>md_transfer_id = transfer_id, md_file_name = file_name, md_file_size = file_size,
            md_mime_type = mime_type, md_sha256 = ascii_lower sha256, md_chunk_size = chunk_size,
            md_chunk_count = chunk_count, md_sender_identity = sender_identity,
            md_created_at = created_at, md_protocol_version = protocol_version,
            md_batch_id = batch_id, md_relative_path = relative_path\<rparr>)))))))))))))))"

definition metadata_to_dict :: "metadata \<Rightarrow> json" where
  "metadata_to_dict m = JObj
     [(lit ''transfer_id'', JStr (md_transfer_id m)),
      (lit ''file_name'', JStr (md_file_name m)),
      (lit ''file_size'', JInt (md_file_size m)),
      (lit ''mime_type'', JStr (md_mime_type m)),
      (lit ''sha256'', JStr (md_sha256 m)),
      (lit ''chunk_size'', JInt (md_chunk_size m)),
      (lit ''chunk_count'', JInt (md_chunk_count m)),
      (lit ''sender_identity'', JStr (md_sender_identity m)),
      (lit ''created_at'', JInt (md_created_at m)),
      (lit ''protocol_version'', JInt (md_protocol_version m)),
      (lit ''batch_id'', JStr (md_batch_id m)),
      (lit ''relative_path'', JStr (md_relative_path m))]"

text \<open>What acceptance guarantees about a metadata record.\<close>

definition metadata_ok :: "platform \<Rightarrow> metadata \<Rightarrow> bool" where
  "metadata_ok pf m \<longleftrightarrow>
     is_ok (uuid_parse pf (md_transfer_id m)) \<and> md_file_name m \<noteq> []
     \<and> 0 \<le> md_file_size m \<and> md_file_size m \<le> ten_gib
     \<and> 1 \<le> md_chunk_size m \<and> md_chunk_size m \<le> 65536
     \<and> md_chunk_count m = expected_chunks (md_file_size m) (md_chunk_size m)
     \<and> length (md_sha256 m) = 64 \<and> list_all hex_lower (md_sha256 m)
     \<and> (md_relative_path m = [] \<or> \<not> traverses (md_relative_path m))"

section \<open>Lemmas on file names\<close>

lemma basename_no_slash: "47 \<notin> set (basename s)"
  by (auto simp: basename_def dest: set_takeWhileD)

lemma set_basename: "set (basename s) \<subseteq> set s"
  by (auto simp: basename_def dest: set_takeWhileD)

lemma basename_id: "47 \<notin> set s \<Longrightarrow> basename s = s"
proof -
  assume "47 \<notin> set s"
  then have "takeWhile (\<lambda>c. c \<noteq> 47) (rev s) = rev s" by (auto simp: takeWhile_eq_all_conv)
  then show ?thesis unfolding basename_def by (simp only: rev_rev_ident)
qed

lemma set_lstrip_by: "set (lstrip_by p s) \<subseteq> set s"
  by (auto simp: lstrip_by_def dest: set_dropWhileD)

text \<open>The cleaning steps of \<^verbatim>\<open>sanitise_filename\<close> before truncation.\<close>

definition clean_name :: "pystr \<Rightarrow> pystr" where
  "clean_name raw =
     filter printable (lstrip_by (\<lambda>c. c = 46 \<or> c = 47)
       (basename (filter (\<lambda>c. c \<noteq> 0) (map (\<lambda>c. if c = 92 then 47 else c) raw))))"

lemma sanitise_filename_alt:
  "sanitise_filename raw =
     (if list_all scalar (clean_name raw)
      then let name = utf8_decode_ignore (take MAX_FILE_NAME_BYTES (utf8_bytes (clean_name raw)))
           in if ascii_upper (stem_of name) \<in> set RESERVED_NAMES \<or> name = [] \<or> name = dot \<or> name = dotdot
              then Inr [] else Inr name
      else Inl ValueError)"
  unfolding sanitise_filename_def clean_name_def [symmetric] Let_def utf8_encode_def by simp

lemma clean_name_chars:
  assumes "c \<in> set (clean_name raw)"
  shows "printable c \<and> c \<noteq> 47 \<and> c \<noteq> 92"
proof -
  let ?b = "filter (\<lambda>c. c \<noteq> 0) (map (\<lambda>c. if c = 92 then 47 else c) raw)"
  from assms have "printable c" and "c \<in> set (basename ?b)"
    using set_lstrip_by by (auto simp: clean_name_def)
  moreover have "92 \<notin> set ?b" by auto
  ultimately show ?thesis using basename_no_slash [of ?b] set_basename [of ?b] by auto
qed

lemma clean_name_fixed:
  assumes "\<forall>c\<in>set s. printable c \<and> c \<noteq> 47 \<and> c \<noteq> 92"
  shows "clean_name s = dropWhile (\<lambda>c. c = 46 \<or> c = 47) s"
proof -
  have "map (\<lambda>c. if c = 92 then 47 else c) s = s" using assms by (auto intro: map_idI)
  moreover have "filter (\<lambda>c. c \<noteq> 0) s = s" using assms by (auto simp: filter_id_conv printable_def)
  moreover have "basename s = s" using assms by (auto intro!: basename_id)
  moreover have "filter printable (dropWhile Q s) = dropWhile Q s" for Q
    using assms by (auto simp: filter_id_conv dest: set_dropWhileD)
  ultimately show ?thesis by (simp add: clean_name_def lstrip_by_def)
qed

lemma sanitise_filename_cases:
  assumes "sanitise_filename raw = Inr r" and "r \<noteq> []"
  obtains m where "r = take m (clean_name raw)" and "length (utf8_bytes r) \<le> MAX_FILE_NAME_BYTES"
    and "list_all scalar (clean_name raw)"
    and "ascii_upper (stem_of r) \<notin> set RESERVED_NAMES" and "r \<noteq> dot" and "r \<noteq> dotdot"
proof -
  from assms have sc: "list_all scalar (clean_name raw)"
    and r: "r = utf8_decode_ignore (take MAX_FILE_NAME_BYTES (utf8_bytes (clean_name raw)))"
    and rest: "ascii_upper (stem_of r) \<notin> set RESERVED_NAMES" "r \<noteq> dot" "r \<noteq> dotdot"
    by (auto simp: sanitise_filename_alt Let_def split: if_splits)
  obtain m where "r = take m (clean_name raw)" "length (utf8_bytes (take m (clean_name raw))) \<le> MAX_FILE_NAME_BYTES"
    using utf8_truncate [OF sc] r by metis
  then show ?thesis using that sc rest by simp
qed

definition safe_name :: "pystr \<Rightarrow> bool" where
  "safe_name r \<longleftrightarrow>
     r \<noteq> [] \<and> r \<noteq> dot \<and> r \<noteq> dotdot \<and> list_all scalar r
     \<and> (\<forall>c\<in>set r. printable c \<and> c \<noteq> 47 \<and> c \<noteq> 92)
     \<and> length (utf8_bytes r) \<le> MAX_FILE_NAME_BYTES
     \<and> ascii_upper (stem_of r) \<notin> set RESERVED_NAMES"

lemma sanitise_filename_is_safe:
  assumes "sanitise_filename raw = Inr r" and "r \<noteq> []"
  shows "safe_name r"
proof -
  from assms obtain m where m: "r = take m (clean_name raw)"
    and l: "length (utf8_bytes r) \<le> MAX_FILE_NAME_BYTES" and sc: "list_all scalar (clean_name raw)"
    and "ascii_upper (stem_of r) \<notin> set RESERVED_NAMES" and "r \<noteq> dot" and "r \<noteq> dotdot"
    by (rule sanitise_filename_cases)
  moreover have "list_all scalar r" using sc by (auto simp: m list_all_iff dest: in_set_takeD)
  moreover have "\<forall>c\<in>set r. printable c \<and> c \<noteq> 47 \<and> c \<noteq> 92"
    using clean_name_chars by (auto simp: m dest: in_set_takeD)
  ultimately show ?thesis using assms(2) by (simp add: safe_name_def)
qed

text \<open>When cleaning leaves a safe name, that name is the result; on a safe name that does not start
  with a dot the function is the identity.\<close>

lemma sanitise_clean_safe:
  assumes "safe_name r" and "clean_name raw = r"
  shows "sanitise_filename raw = Inr r"
proof -
  have "utf8_decode_ignore (take MAX_FILE_NAME_BYTES (utf8_bytes r)) = r"
    using assms(1) by (intro utf8_truncate_short) (auto simp: safe_name_def)
  then show ?thesis
    using assms by (simp add: sanitise_filename_alt safe_name_def Let_def)
qed

lemma sanitise_safe_name:
  assumes "safe_name r" and "hd r \<noteq> 46"
  shows "sanitise_filename r = Inr r"
proof -
  have ch: "\<forall>c\<in>set r. printable c \<and> c \<noteq> 47 \<and> c \<noteq> 92" and ne: "r \<noteq> []"
    using assms(1) by (auto simp: safe_name_def)
  have "hd r \<noteq> 47" using ch ne by (metis list.set_sel(1))
  then have "dropWhile (\<lambda>c. c = 46 \<or> c = 47) r = r" using assms(2) ne by (cases r) auto
  then show ?thesis using assms(1) by (intro sanitise_clean_safe) (simp_all add: clean_name_fixed [OF ch])
qed

text \<open>Printable ASCII names.\<close>

lemma utf8_bytes_ascii: "\<forall>c\<in>set r. c < 128 \<Longrightarrow> length (utf8_bytes r) = length r"
  by (induction r) (auto simp: utf8_cp_def)

lemma safe_ascii_name:
  assumes "\<forall>c\<in>set r. 32 \<le> c \<and> c < 127 \<and> c \<noteq> 47 \<and> c \<noteq> 92" and "r \<noteq> []" and "r \<noteq> dot" and "r \<noteq> dotdot"
    and "length r \<le> 255" and "ascii_upper (stem_of r) \<notin> set RESERVED_NAMES"
  shows "safe_name r"
proof -
  have "length (utf8_bytes r) = length r" using assms(1) by (intro utf8_bytes_ascii) auto
  then show ?thesis
    using assms by (auto simp: safe_name_def printable_def scalar_def list_all_iff MAX_FILE_NAME_BYTES_def)
qed

text \<open>Applied twice, the function also removes leading dots: the first pass has removed the
  control characters that may hide them.\<close>

lemma sanitise_twice_no_dot:
  assumes "sanitise_filename raw = Inr r" and "r \<noteq> []"
    and "sanitise_filename r = Inr r'" and "r' \<noteq> []"
  shows "hd r' \<noteq> 46"
proof -
  from assms(1,2) have "\<forall>c\<in>set r. printable c \<and> c \<noteq> 47 \<and> c \<noteq> 92"
    using sanitise_filename_is_safe by (auto simp: safe_name_def)
  then have "clean_name r = dropWhile (\<lambda>c. c = 46 \<or> c = 47) r" by (rule clean_name_fixed)
  moreover from assms(3,4) obtain m where m: "r' = take m (clean_name r)"
    by (rule sanitise_filename_cases)
  ultimately have "r' = take m (dropWhile (\<lambda>c. c = 46 \<or> c = 47) r)" by simp
  moreover have "hd r' = hd (dropWhile (\<lambda>c. c = 46 \<or> c = 47) r)" and "dropWhile (\<lambda>c. c = 46 \<or> c = 47) r \<noteq> []"
    using calculation assms(4) by (auto simp: hd_take)
  ultimately show ?thesis using hd_dropWhile [of "\<lambda>c. c = 46 \<or> c = 47" r] by auto
qed

end
