(* ===== verification/Safe_Paths.thy ===== *)
theory Safe_Paths
  imports Metadata
begin

text \<open>
  Path containment: what \<^verbatim>\<open>os.path.normpath\<close> and the traversal tests of
  \<^verbatim>\<open>TransferMetadata.from_dict\<close> and \<^verbatim>\<open>resolve_safe_destination\<close> guarantee about the components
  of a destination.
\<close>

section \<open>Splitting and joining\<close>

definition slash_free :: "pystr \<Rightarrow> bool" where
  "slash_free w \<longleftrightarrow> 47 \<notin> set w"

text \<open>A component that names an entry of a directory.\<close>

definition plain_comp :: "pystr \<Rightarrow> bool" where
  "plain_comp w \<longleftrightarrow> w \<noteq> [] \<and> w \<noteq> dot \<and> w \<noteq> dotdot \<and> slash_free w"

definition proper_path :: "path \<Rightarrow> bool" where
  "proper_path p \<longleftrightarrow> list_all plain_comp p"

lemma proper_path_simps [simp]:
  "proper_path []"
  "proper_path (w # p) \<longleftrightarrow> plain_comp w \<and> proper_path p"
  "proper_path (p @ q) \<longleftrightarrow> proper_path p \<and> proper_path q"
  by (auto simp: proper_path_def)

lemma split_slash_ne [simp]: "split_slash s \<noteq> []"
  by (induction s) (auto split: list.splits)

lemma split_slash_free: "w \<in> set (split_slash s) \<Longrightarrow> slash_free w"
  by (induction s arbitrary: w) (auto simp: slash_free_def split: list.splits if_splits)

lemma split_slash_word: "slash_free w \<Longrightarrow> split_slash w = [w]"
  by (induction w) (auto simp: slash_free_def)

lemma split_slash_append: "slash_free w \<Longrightarrow> split_slash (w @ 47 # s) = w # split_slash s"
  by (induction w) (auto simp: slash_free_def)

lemma split_join_slash:
  "ws \<noteq> [] \<Longrightarrow> list_all slash_free ws \<Longrightarrow> split_slash (join_slash ws) = ws"
  by (induction ws rule: join_slash.induct) (auto simp: split_slash_word split_slash_append)

lemma join_slash_Nil_iff: "list_all (\<lambda>w. w \<noteq> []) ws \<Longrightarrow> join_slash ws = [] \<longleftrightarrow> ws = []"
  by (induction ws rule: join_slash.induct) auto

lemma is_prefix_iff: "is_prefix p s \<longleftrightarrow> (\<exists>r. s = p @ r)"
  by (metis append_eq_conv_conj append_take_drop_id is_prefix_def)

lemma hd_join_slash:
  "ws \<noteq> [] \<Longrightarrow> hd ws \<noteq> [] \<Longrightarrow> is_prefix (hd ws) (join_slash ws)"
  by (cases ws rule: join_slash.cases) (auto simp: is_prefix_iff)

section \<open>Normalisation\<close>

text \<open>A relative path is in normal form when the parent components come first.\<close>

definition word_comp :: "pystr \<Rightarrow> bool" where
  "word_comp w \<longleftrightarrow> w \<noteq> [] \<and> w \<noteq> dot \<and> slash_free w"

fun dots_first :: "pystr list \<Rightarrow> bool" where
  "dots_first [] = True"
| "dots_first (w # ws) = (if w = dotdot then dots_first ws else dotdot \<notin> set ws)"

lemma plain_comp_word: "plain_comp w \<longleftrightarrow> word_comp w \<and> w \<noteq> dotdot"
  by (auto simp: plain_comp_def word_comp_def)

lemma dots_first_append_dots:
  "dots_first (vs @ ws) \<longleftrightarrow> (if set vs \<subseteq> {dotdot} then dots_first ws else dots_first vs \<and> dotdot \<notin> set ws)"
  by (induction vs) auto

lemma dots_first_appendD: "dots_first (vs @ ws) \<Longrightarrow> dots_first vs"
  by (induction vs) (auto split: if_splits)

lemma dots_first_snoc_dots: "dots_first vs \<Longrightarrow> vs \<noteq> [] \<Longrightarrow> last vs = dotdot \<Longrightarrow> set vs \<subseteq> {dotdot}"
  by (induction vs) (auto split: if_splits dest: last_in_set)

lemma norm_comps_form:
  assumes "dots_first (rev acc)" and "list_all word_comp acc" and "list_all slash_free ws"
  shows "dots_first (norm_comps False acc ws) \<and> list_all word_comp (norm_comps False acc ws)"
  using assms
proof (induction ws arbitrary: acc)
  case (Cons w ws)
  consider "w = [] \<or> w = dot" | "w \<noteq> []" "w \<noteq> dot" "w \<noteq> dotdot \<or> acc = [] \<or> hd acc = dotdot"
    | "w = dotdot" "acc \<noteq> []" "hd acc \<noteq> dotdot" by blast
  then show ?case
  proof cases
    case 1
    then show ?thesis using Cons by auto
  next
    case 2
    have "set (rev acc) \<subseteq> {dotdot}" if "w = dotdot"
      using that 2(3) Cons.prems(1) dots_first_snoc_dots [of "rev acc"]
      by (cases "acc = []") (simp_all add: last_rev)
    then have "dots_first (rev acc @ [w])"
      using Cons.prems(1) by (cases "w = dotdot") (simp_all add: dots_first_append_dots)
    then show ?thesis using 2 Cons by (auto simp: word_comp_def)
  next
    case 3
    then obtain a acc' where acc: "acc = a # acc'" by (cases acc) auto
    have "dots_first (rev acc')"
      using Cons.prems(1) by (auto simp: acc dest: dots_first_appendD)
    then show ?thesis using 3 Cons by (auto simp: acc)
  qed
qed simp

text \<open>On a list in normal form the loop changes nothing.\<close>

lemma norm_comps_id:
  assumes "dots_first (rev acc @ ws)" and "list_all word_comp ws"
  shows "norm_comps False acc ws = rev acc @ ws"
  using assms
proof (induction ws arbitrary: acc)
  case (Cons w ws)
  have "w \<noteq> dotdot \<or> acc = [] \<or> hd acc = dotdot"
  proof (rule ccontr)
    assume "\<not> ?thesis"
    then obtain a acc' where "w = dotdot" "acc = a # acc'" "a \<noteq> dotdot" by (cases acc) auto
    with Cons.prems(1) show False by (auto simp: dots_first_append_dots split: if_splits)
  qed
  then show ?case using Cons by (auto simp: word_comp_def)
qed simp

definition rel_comps :: "pystr \<Rightarrow> pystr list" where
  "rel_comps p = norm_comps False [] (split_slash p)"

lemma rel_comps_form: "dots_first (rel_comps p)" "list_all word_comp (rel_comps p)"
  using norm_comps_form [of "[]" "split_slash p"] split_slash_free
  by (auto simp: rel_comps_def list_all_iff)

lemma rel_comps_ne: "list_all (\<lambda>w. w \<noteq> []) (rel_comps p)"
  and rel_comps_slash_free: "list_all slash_free (rel_comps p)"
  using rel_comps_form(2) [of p] by (auto simp: list_all_iff word_comp_def)

lemma normpath_rel:
  assumes "\<not> is_prefix [47] p"
  shows "normpath p = (if rel_comps p = [] then dot else join_slash (rel_comps p))"
  using assms join_slash_Nil_iff [OF rel_comps_ne]
  by (auto simp: normpath_def initial_slashes_def Let_def rel_comps_def)

lemma normpath_abs: "is_prefix [47] p \<Longrightarrow> is_prefix [47] (normpath p)"
  by (auto simp: normpath_def initial_slashes_def Let_def is_prefix_def)

lemma split_normpath:
  assumes "\<not> is_prefix [47] p"
  shows "split_slash (normpath p) = (if rel_comps p = [] then [dot] else rel_comps p)"
  using assms split_join_slash [OF _ rel_comps_slash_free, of p]
  by (simp add: normpath_rel)

lemma path_comps_normpath:
  assumes "\<not> is_prefix [47] p"
  shows "path_comps (normpath p) = rel_comps p"
proof -
  have "filter (\<lambda>w. w \<noteq> [] \<and> w \<noteq> dot) (rel_comps p) = rel_comps p"
    using rel_comps_form(2) [of p] by (auto simp: filter_id_conv list_all_iff word_comp_def)
  then show ?thesis using assms by (simp add: path_comps_def split_normpath)
qed

lemma normpath_not_abs:
  assumes "\<not> is_prefix [47] p" shows "\<not> is_prefix [47] (normpath p)"
proof (cases "rel_comps p")
  case Nil
  then show ?thesis using assms by (simp add: normpath_rel is_prefix_def)
next
  case (Cons w ws)
  then have "word_comp w" using rel_comps_form(2) [of p] by simp
  then obtain c cs where "w = c # cs" "c \<noteq> 47" by (cases w) (auto simp: word_comp_def slash_free_def)
  then show ?thesis using assms by (cases ws) (auto simp: normpath_rel Cons is_prefix_def)
qed

lemma rel_comps_normpath:
  assumes "\<not> is_prefix [47] p"
  shows "rel_comps (normpath p) = rel_comps p"
  using norm_comps_id [of "[]" "rel_comps p"] rel_comps_form [of p]
  by (auto simp: rel_comps_def [of "normpath p"] split_normpath assms)

lemma normpath_idem_rel:
  assumes "\<not> is_prefix [47] p" shows "normpath (normpath p) = normpath p"
  unfolding normpath_rel [OF normpath_not_abs [OF assms]] rel_comps_normpath [OF assms]
  by (rule normpath_rel [OF assms, symmetric])

section \<open>The traversal test\<close>

text \<open>A path that passes the test after normalisation has no parent component.\<close>

lemma not_traverses_not_abs: "\<not> traverses (normpath p) \<Longrightarrow> \<not> is_prefix [47] p"
  using normpath_abs by (auto simp: traverses_def)

lemma not_traverses_proper:
  assumes "\<not> traverses (normpath p)"
  shows "proper_path (rel_comps p)"
proof -
  have na: "\<not> is_prefix [47] p" using assms by (rule not_traverses_not_abs)
  have "hd (rel_comps p) \<noteq> dotdot" if "rel_comps p \<noteq> []"
  proof
    assume "hd (rel_comps p) = dotdot"
    with that na have "is_prefix dotdot (normpath p)"
      using hd_join_slash [OF that] by (simp add: normpath_rel)
    with assms show False by (simp add: traverses_def)
  qed
  then have "dotdot \<notin> set (rel_comps p)"
    using rel_comps_form(1) [of p] by (cases "rel_comps p") auto
  then show ?thesis
    using rel_comps_form(2) [of p] by (auto simp: proper_path_def list_all_iff plain_comp_word)
qed

lemma check_relative_path_ok:
  assumes "check_relative_path rel = Inr q"
  shows "(rel = [] \<and> q = []) \<or>
    (rel \<noteq> [] \<and> q = normpath rel \<and> q \<noteq> [] \<and> \<not> traverses q \<and> normpath q = q \<and> proper_path (path_comps q))"
proof (cases "rel = []")
  case False
  then have q: "q = normpath rel" and nt: "\<not> traverses (normpath rel)"
    using assms by (auto simp: check_relative_path_def Let_def split: if_splits)
  have na: "\<not> is_prefix [47] rel" using nt by (rule not_traverses_not_abs)
  have "normpath rel \<noteq> []"
    using join_slash_Nil_iff [OF rel_comps_ne] by (simp add: normpath_rel [OF na])
  then show ?thesis
    using False q nt not_traverses_proper [OF nt] normpath_idem_rel [OF na] path_comps_normpath [OF na]
    by simp
qed (use assms in \<open>auto simp: check_relative_path_def\<close>)

section \<open>Containment\<close>

lemma path_str_Cons: "path_str (w # p) = 47 # w @ (if p = [] then [] else path_str p)"
  by (simp add: path_str_def)

lemma slash_free_cancel:
  assumes "slash_free v" and "slash_free w" and "v @ 47 # r = w @ s" and "s = [] \<or> hd s = 47"
  shows "v = w \<and> s = 47 # r"
  using assms
proof (induction v arbitrary: w)
  case Nil
  then show ?case by (cases w) (auto simp: slash_free_def)
next
  case (Cons c v)
  then show ?case by (cases w; cases s) (auto simp: slash_free_def)
qed

text \<open>The string test with a trailing separator is containment component by component.\<close>

lemma prefix_path_str:
  assumes "proper_path a" and "proper_path b" and "is_prefix (path_str a @ [47]) (path_str b)"
  shows "\<exists>r. r \<noteq> [] \<and> b = a @ r"
  using assms
proof (induction a arbitrary: b)
  case Nil
  then obtain r where r: "47 # 47 # r = path_str b" by (auto simp: is_prefix_iff path_str_def)
  show ?case
  proof (cases b)
    case (Cons v b')
    with Nil have "v \<noteq> []" and "47 \<notin> set v" by (auto simp: plain_comp_def slash_free_def)
    then show ?thesis using r by (cases v) (auto simp: Cons path_str_Cons)
  qed (use r in \<open>simp add: path_str_def\<close>)
next
  case (Cons w a)
  then obtain v b' where b: "b = v # b'"
    by (cases b) (auto simp: is_prefix_iff path_str_def plain_comp_def)
  obtain r where r: "path_str (w # a) @ 47 # r = path_str b"
    using Cons.prems(3) by (auto simp: is_prefix_iff)
  let ?t = "if b' = [] then [] else path_str b'"
  have t: "?t = [] \<or> hd ?t = 47" by (cases b') (auto simp: path_str_Cons)
  have sf: "slash_free w" "slash_free v" using Cons.prems by (auto simp: b plain_comp_def)
  show ?case
  proof (cases a)
    case Nil
    then have "w @ 47 # r = v @ ?t" using r by (simp add: b path_str_Cons)
    with sf t have "v = w \<and> ?t = 47 # r" using slash_free_cancel by blast
    then show ?thesis by (auto simp: b Nil split: if_splits)
  next
    case (Cons u a')
    then have "w @ 47 # (tl (path_str a) @ 47 # r) = v @ ?t"
      using r by (simp add: b path_str_Cons)
    with sf t have eq: "v = w" and tt: "?t = 47 # (tl (path_str a) @ 47 # r)"
      using slash_free_cancel by blast+
    have "path_str a @ 47 # r = path_str b'" and "b' \<noteq> []"
      using tt Cons by (auto simp: path_str_Cons split: if_splits)
    then have "is_prefix (path_str a @ [47]) (path_str b')"
      unfolding is_prefix_iff by (metis append.assoc append_Cons append_Nil)
    then have "\<exists>s. s \<noteq> [] \<and> b' = a @ s"
      using Cons.prems(1,2) by (intro Cons.IH) (simp_all add: b)
    then show ?thesis by (auto simp: b eq)
  qed
qed

lemma path_str_prefix:
  assumes "a \<noteq> []" and "r \<noteq> []"
  shows "is_prefix (path_str a @ [47]) (path_str (a @ r))"
  using assms by (cases r) (auto simp: is_prefix_iff path_str_def)


text \<open>A sanitised name is one component.\<close>

lemma safe_name_plain: "safe_name r \<Longrightarrow> plain_comp r"
  by (auto simp: safe_name_def plain_comp_def slash_free_def)

lemma path_comps_plain: "plain_comp w \<Longrightarrow> path_comps w = [w]"
  by (simp add: path_comps_def plain_comp_def split_slash_word)

lemma path_join_plain: "plain_comp w \<Longrightarrow> path_join dir w = dir @ [w]"
  by (auto simp: path_join_def path_comps_plain plain_comp_def slash_free_def is_prefix_iff)

text \<open>\<^verbatim>\<open>resolve\<close> returns absolute paths without empty, dot or parent components.\<close>

definition resolves :: "(path \<Rightarrow> path) \<Rightarrow> bool" where
  "resolves resolve \<longleftrightarrow> (\<forall>p. proper_path (resolve p))"

lemma resolve_safe_destination_okE:
  assumes "resolve_safe_destination resolve dir name rel = Inr dest"
  obtains s where "sanitise_filename name = Inr s" and "safe_name s"
    and "dest = resolve (path_join dir (if rel = [] then s else normpath rel))"
    and "rel \<noteq> [] \<Longrightarrow> \<not> traverses (normpath rel)"
    and "is_prefix (path_str (resolve dir) @ [47]) (path_str dest) \<or> dest = resolve dir"
proof -
  from assms obtain s where s: "sanitise_filename name = Inr s" "s \<noteq> []"
    by (auto simp: resolve_safe_destination_def res_simps split: if_splits)
  with sanitise_filename_is_safe have "safe_name s" by blast
  with s assms that show thesis
    by (auto simp: resolve_safe_destination_def res_simps Let_def split: if_splits)
qed

lemma resolve_contained:
  assumes "resolves resolve" and "resolve_safe_destination resolve dir name rel = Inr dest"
  shows "\<exists>r. dest = resolve dir @ r \<and> proper_path r"
proof -
  from assms(2) have "is_prefix (path_str (resolve dir) @ [47]) (path_str dest) \<or> dest = resolve dir"
    and "\<exists>q. dest = resolve q"
    by (auto elim!: resolve_safe_destination_okE)
  moreover from this have p: "proper_path dest" using assms(1) by (auto simp: resolves_def)
  ultimately have "\<exists>r. dest = resolve dir @ r"
    using prefix_path_str [of "resolve dir" dest] assms(1) by (auto simp: resolves_def)
  with p show ?thesis by (metis proper_path_simps(3))
qed

text \<open>Without symbolic links \<^verbatim>\<open>resolve\<close> leaves a proper path as it is; then the destination of an
  accepted relative path is the directory followed by its components, and nothing is refused.\<close>

lemma resolve_plain_relative:
  assumes "\<And>p. proper_path p \<Longrightarrow> resolve p = p" and "proper_path dir" and "dir \<noteq> []"
    and "safe_name s" and "sanitise_filename name = Inr s"
    and "rel \<noteq> []" and "\<not> traverses (normpath rel)"
  shows "resolve_safe_destination resolve dir name rel = Inr (dir @ rel_comps rel)"
proof -
  have na: "\<not> is_prefix [47] rel" using assms(7) by (rule not_traverses_not_abs)
  have d: "path_join dir (normpath rel) = dir @ rel_comps rel"
    using na normpath_not_abs by (simp add: path_join_def path_comps_normpath)
  moreover have "proper_path (dir @ rel_comps rel)"
    using assms(2) not_traverses_proper [OF assms(7)] by simp
  moreover have "is_prefix (path_str dir @ [47]) (path_str (dir @ rel_comps rel)) \<or> rel_comps rel = []"
    using path_str_prefix [OF assms(3)] by blast
  ultimately show ?thesis
    using assms by (auto simp: resolve_safe_destination_def Let_def safe_name_def)
qed

lemma resolve_plain_name:
  assumes "\<And>p. proper_path p \<Longrightarrow> resolve p = p" and "proper_path dir" and "dir \<noteq> []"
    and "safe_name s" and "sanitise_filename name = Inr s"
  shows "resolve_safe_destination resolve dir name [] = Inr (dir @ [s])"
proof -
  have pc: "plain_comp s" using assms(4) by (rule safe_name_plain)
  then have "path_join dir s = dir @ [s]" by (rule path_join_plain)
  moreover have "is_prefix (path_str dir @ [47]) (path_str (dir @ [s]))"
    using path_str_prefix [OF assms(3)] by blast
  ultimately show ?thesis
    using assms pc by (simp add: resolve_safe_destination_def Let_def safe_name_def)
qed

section \<open>Accepted metadata\<close>

lemma ascii_lower_hex: "list_all hex_any s \<Longrightarrow> list_all hex_lower (ascii_lower s)"
  by (auto simp: ascii_lower_def list_all_iff hex_any_def hex_lower_def)

lemma ascii_lower_id: "list_all hex_lower s \<Longrightarrow> ascii_lower s = s"
  by (auto simp: ascii_lower_def list_all_iff hex_lower_def intro!: map_idI)

lemma metadata_from_dict_okE:
  assumes "metadata_from_dict pf now data = Inr m"
  obtains raw rel sha where "sanitise_filename raw = Inr (md_file_name m)" and "md_file_name m \<noteq> []"
    and "is_ok (uuid_parse pf (md_transfer_id m))"
    and "check_relative_path rel = Inr (md_relative_path m)"
    and "0 \<le> md_file_size m" and "md_file_size m \<le> ten_gib"
    and "1 \<le> md_chunk_size m" and "md_chunk_size m \<le> int MAX_CHUNK_PAYLOAD"
    and "md_chunk_count m = expected_chunks (md_file_size m) (md_chunk_size m)"
    and "md_sha256 m = ascii_lower sha" and "length sha = 64" and "list_all hex_any sha"
  using assms
  by (auto simp: metadata_from_dict_def res_bind_ok_iff simp del: lit_simps split: if_splits
      intro: that)

lemma metadata_from_dict_ok:
  assumes "metadata_from_dict pf now data = Inr m"
  shows "metadata_ok pf m" and "safe_name (md_file_name m)"
    and "md_relative_path m = [] \<or> proper_path (path_comps (md_relative_path m))
           \<and> normpath (md_relative_path m) = md_relative_path m"
proof -
  from assms obtain raw rel sha where *: "sanitise_filename raw = Inr (md_file_name m)"
      "md_file_name m \<noteq> []" "is_ok (uuid_parse pf (md_transfer_id m))"
      "check_relative_path rel = Inr (md_relative_path m)" "0 \<le> md_file_size m"
      "md_file_size m \<le> ten_gib" "1 \<le> md_chunk_size m" "md_chunk_size m \<le> int MAX_CHUNK_PAYLOAD"
      "md_chunk_count m = expected_chunks (md_file_size m) (md_chunk_size m)"
      "md_sha256 m = ascii_lower sha" "length sha = 64" "list_all hex_any sha"
    by (rule metadata_from_dict_okE)
  have "length (md_sha256 m) = 64" and "list_all hex_lower (md_sha256 m)"
    using *(10-12) ascii_lower_hex by (simp_all add: ascii_lower_def)
  moreover have "md_chunk_size m \<le> 65536" using *(8) by (simp add: MAX_CHUNK_PAYLOAD_def CHUNK_SIZE_def)
  moreover note rp = check_relative_path_ok [OF *(4)]
  ultimately show "metadata_ok pf m" using * by (auto simp: metadata_ok_def)
  show "safe_name (md_file_name m)" using *(1,2) by (rule sanitise_filename_is_safe)
  show "md_relative_path m = [] \<or> proper_path (path_comps (md_relative_path m))
      \<and> normpath (md_relative_path m) = md_relative_path m"
    using rp by blast
qed

text \<open>Encoding a record and parsing it again.\<close>

lemma metadata_roundtrip:
  assumes "metadata_ok pf m" and "safe_name (md_file_name m)" and "hd (md_file_name m) \<noteq> 46"
    and "md_relative_path m = [] \<or> normpath (md_relative_path m) = md_relative_path m"
  shows "metadata_from_dict pf now (metadata_to_dict m) = Inr m"
proof -
  have "sanitise_filename (md_file_name m) = Inr (md_file_name m)"
    using assms(2,3) by (rule sanitise_safe_name)
  moreover obtain u where "uuid_parse pf (md_transfer_id m) = Inr u"
    using assms(1) by (auto simp: metadata_ok_def is_ok_iff)
  moreover have "check_relative_path (md_relative_path m) = Inr (md_relative_path m)"
    using assms(1,4) by (auto simp: check_relative_path_def metadata_ok_def Let_def)
  moreover have "list_all hex_any (md_sha256 m)" "ascii_lower (md_sha256 m) = md_sha256 m"
    using assms(1) ascii_lower_id by (auto simp: metadata_ok_def hex_any_def list_all_iff)
  moreover have "md_chunk_size m \<le> int MAX_CHUNK_PAYLOAD"
    using assms(1) by (simp add: metadata_ok_def MAX_CHUNK_PAYLOAD_def CHUNK_SIZE_def)
  ultimately show ?thesis
    using assms(1) by (simp add: metadata_from_dict_def metadata_to_dict_def metadata_ok_def)
qed

section \<open>Properties\<close>

text \<open>A concrete request.\<close>

definition sample_metadata :: metadata where
  "sample_metadata =
     \<lparr>md_transfer_id = uuid_str 7, md_file_name = lit ''a.txt'', md_file_size = 70000,
      md_mime_type = lit ''text/plain'', md_sha256 = replicate 64 97, md_chunk_size = 65536,
      md_chunk_count = 2, md_sender_identity = lit ''k'', md_created_at = 5, md_protocol_version = 1,
      md_batch_id = [], md_relative_path = lit ''docs/a.txt''\<rparr>"

lemma sample_names: "safe_name (lit ''a.txt'')" "safe_name (lit ''passwd'')" "safe_name (lit ''a'')"
  by (rule safe_ascii_name; (code_simp | simp))+

lemma sample_metadata_ok:
  "metadata_ok ascii_platform sample_metadata" "safe_name (md_file_name sample_metadata)"
  "hd (md_file_name sample_metadata) \<noteq> 46" "normpath (md_relative_path sample_metadata) = md_relative_path sample_metadata"
proof -
  have "uuid_parse ascii_platform (uuid_str 7) = Inr 7" by (rule uuid_parse_str) simp
  moreover have "list_all hex_lower (replicate 64 97)" by (simp add: list_all_iff hex_lower_def)
  moreover have "\<not> traverses (lit ''docs/a.txt'')" by code_simp
  ultimately show "metadata_ok ascii_platform sample_metadata"
    by (simp add: metadata_ok_def sample_metadata_def ten_gib_def expected_chunks_def del: lit_simps) simp
  show "safe_name (md_file_name sample_metadata)" using sample_names(1) by (simp add: sample_metadata_def)
  show "hd (md_file_name sample_metadata) \<noteq> 46" by (simp add: sample_metadata_def)
  show "normpath (md_relative_path sample_metadata) = md_relative_path sample_metadata"
    unfolding sample_metadata_def by code_simp
qed

lemma sample_metadata_parsed:
  "metadata_from_dict ascii_platform 0 (metadata_to_dict sample_metadata) = Inr sample_metadata"
  using sample_metadata_ok by (intro metadata_roundtrip) simp_all

text \<open>
  Every request that \<^verbatim>\<open>TransferMetadata.from_dict\<close> accepts satisfies the documented bounds: a
  UUID, a non-empty safe base name, a size of at most 10 GiB, a chunk size between 1 and 64 KiB,
  the matching chunk count, a lower-case SHA-256, and a relative path that is normalised and has
  no empty, dot or parent component.
\<close>

theorem accepted_metadata_wellformed:
  assumes "metadata_from_dict pf now data = Inr m"
  shows "metadata_ok pf m \<and> safe_name (md_file_name m)
    \<and> (md_relative_path m = [] \<or> proper_path (path_comps (md_relative_path m))
        \<and> normpath (md_relative_path m) = md_relative_path m)"
  using metadata_from_dict_ok [OF assms] by blast

theorem accepted_metadata_wellformed_witness:
  "metadata_from_dict ascii_platform 0 (metadata_to_dict sample_metadata) = Inr sample_metadata
    \<and> metadata_ok ascii_platform sample_metadata \<and> proper_path (path_comps (md_relative_path sample_metadata))"
  using accepted_metadata_wellformed [OF sample_metadata_parsed] sample_metadata_parsed
  by (simp add: sample_metadata_def)

text \<open>
  \<^verbatim>\<open>TransferMetadata.to_dict\<close> followed by \<^verbatim>\<open>from_dict\<close> is the identity on well-formed metadata
  whose name does not start with a dot.
\<close>

theorem metadata_codec:
  assumes "metadata_ok pf m" and "safe_name (md_file_name m)" and "hd (md_file_name m) \<noteq> 46"
    and "md_relative_path m = [] \<or> normpath (md_relative_path m) = md_relative_path m"
  shows "metadata_from_dict pf now (metadata_to_dict m) = Inr m"
  using assms by (rule metadata_roundtrip)

theorem metadata_codec_witness:
  "metadata_from_dict ascii_platform 0 (metadata_to_dict sample_metadata) = Inr sample_metadata"
  using metadata_codec [of ascii_platform sample_metadata 0] sample_metadata_ok by simp

text \<open>
  \<^verbatim>\<open>sanitise_filename\<close> returns the empty string or a name that is one path component: not a dot
  name, no separator, no control character, at most 255 bytes of UTF-8, and no reserved device
  name. A name with these properties that does not start with a dot is left unchanged.
\<close>

theorem sanitise_filename_safe:
  "(\<forall>r. sanitise_filename raw = Inr r \<longrightarrow> r = [] \<or> safe_name r \<and> plain_comp r)
   \<and> (safe_name raw \<and> hd raw \<noteq> 46 \<longrightarrow> sanitise_filename raw = Inr raw)"
  using sanitise_filename_is_safe sanitise_safe_name safe_name_plain by blast

theorem sanitise_filename_safe_witness:
  "sanitise_filename (lit ''../../etc/.passwd'') = Inr (lit ''passwd'') \<and> safe_name (lit ''passwd'')"
proof -
  have "clean_name (lit ''../../etc/.passwd'') = lit ''passwd''" by code_simp
  then have "sanitise_filename (lit ''../../etc/.passwd'') = Inr (lit ''passwd'')"
    using sample_names(2) by (intro sanitise_clean_safe) simp_all
  with sanitise_filename_safe [of "lit ''../../etc/.passwd''"] show ?thesis by auto
qed

text \<open>
  C25: a destination that \<^verbatim>\<open>resolve_safe_destination\<close> returns lies in the resolved directory,
  component by component (the test on strings is not fooled by a sibling such as
  \<^verbatim>\<open>downloads-evil\<close>).
\<close>

theorem destination_contained:
  assumes "resolves resolve" and "resolve_safe_destination resolve dir name rel = Inr dest"
  shows "\<exists>r. dest = resolve dir @ r \<and> proper_path r"
  using assms by (rule resolve_contained)

theorem destination_contained_witness:
  "\<exists>r. [lit ''d'', lit ''docs'', lit ''a.txt''] = [lit ''d''] @ r \<and> proper_path r"
proof -
  let ?R = "\<lambda>p::path. if proper_path p then p else []"
  have "resolves ?R" by (simp add: resolves_def)
  moreover have "resolve_safe_destination ?R [lit ''d''] (lit ''a.txt'') (lit ''docs//./a.txt'')
      = Inr ([lit ''d''] @ rel_comps (lit ''docs//./a.txt''))"
    by (rule resolve_plain_relative [OF _ _ _ sample_names(1)])
      (simp, code_simp, simp, rule sanitise_safe_name [OF sample_names(1)], simp, simp, code_simp)
  moreover have "rel_comps (lit ''docs//./a.txt'') = [lit ''docs'', lit ''a.txt'']" by code_simp
  ultimately have "\<exists>r. [lit ''d'', lit ''docs'', lit ''a.txt''] = ?R [lit ''d''] @ r \<and> proper_path r"
    by (intro destination_contained) simp_all
  moreover have "?R [lit ''d''] = [lit ''d'']" by code_simp
  ultimately show ?thesis by simp
qed

text \<open>
  Without symbolic links, accepted metadata with a name that does not start with a dot never
  fails the destination checks: the destination is the download directory followed by the
  components of the relative path, or by the name when there is none.
\<close>

theorem accepted_destination:
  assumes "metadata_from_dict pf now data = Inr m" and "hd (md_file_name m) \<noteq> 46"
    and "\<And>p. proper_path p \<Longrightarrow> resolve p = p" and "proper_path dir" and "dir \<noteq> []"
  shows "resolve_safe_destination resolve dir (md_file_name m) (md_relative_path m)
    = Inr (dir @ (if md_relative_path m = [] then [md_file_name m] else path_comps (md_relative_path m)))"
proof -
  note ok = metadata_from_dict_ok [OF assms(1)]
  have s: "sanitise_filename (md_file_name m) = Inr (md_file_name m)" using ok(2) assms(2) by (rule sanitise_safe_name)
  show ?thesis
  proof (cases "md_relative_path m = []")
    case True
    then show ?thesis using resolve_plain_name [OF assms(3-5) ok(2) s] by simp
  next
    case False
    then have n: "normpath (md_relative_path m) = md_relative_path m" and nt: "\<not> traverses (md_relative_path m)"
      using ok by (auto simp: metadata_ok_def)
    then have "rel_comps (md_relative_path m) = path_comps (md_relative_path m)"
      using path_comps_normpath [OF not_traverses_not_abs [of "md_relative_path m"]] by simp
    then show ?thesis using resolve_plain_relative [OF assms(3-5) ok(2) s False] n nt False by simp
  qed
qed

theorem accepted_destination_witness:
  "resolve_safe_destination (\<lambda>p. p) [lit ''d''] (lit ''a.txt'') (lit ''docs/a.txt'')
    = Inr [lit ''d'', lit ''docs'', lit ''a.txt'']"
proof -
  have "proper_path [lit ''d'']" by code_simp
  moreover have "path_comps (lit ''docs/a.txt'') = [lit ''docs'', lit ''a.txt'']" by code_simp
  ultimately show ?thesis
    using accepted_destination [OF sample_metadata_parsed sample_metadata_ok(3), of "\<lambda>p. p" "[lit ''d'']"]
    by (simp add: sample_metadata_def)
qed

text \<open>
  A relative path of \<^verbatim>\<open>"."\<close> passes every check and makes the destination the download directory
  itself, which always exists when the file is renamed.
\<close>

theorem dot_relative_path:
  "check_relative_path (lit ''.'') = Inr (lit ''.'')
   \<and> (sanitise_filename name = Inr s \<and> s \<noteq> [] \<longrightarrow>
       resolve_safe_destination resolve dir name (lit ''.'') = Inr (resolve dir))"
proof -
  have c: "check_relative_path (lit ''.'') = Inr (lit ''.'')" by code_simp
  have n: "normpath (lit ''.'') = lit ''.''" "\<not> traverses (lit ''.'')" "path_join dir (lit ''.'') = dir"
    by (code_simp, code_simp, simp add: path_join_def path_comps_def is_prefix_def)
  then show ?thesis
    using c by (simp add: resolve_safe_destination_def Let_def del: lit_simps) (simp add: lit_def)
qed

theorem dot_relative_path_witness:
  "resolve_safe_destination (\<lambda>p. p) [lit ''home'', lit ''dl''] (lit ''a'') (lit ''.'') = Inr [lit ''home'', lit ''dl'']"
proof -
  have "sanitise_filename (lit ''a'') = Inr (lit ''a'')"
    by (rule sanitise_safe_name [OF sample_names(3)]) simp
  then show ?thesis
    using dot_relative_path [of "lit ''a''" "lit ''a''" "\<lambda>p. p" "[lit ''home'', lit ''dl'']"] by simp
qed

end
