(* ===== verification/Effects.thy ===== *)
theory Effects
  imports Prelude
begin

text \<open>
  Methods that change an object and may raise: a computation takes a state and returns a result
  or an exception together with the state it leaves behind. An exception keeps the changes made
  before it, as in Python.
\<close>

type_synonym ('s, 'a) eff = "'s \<Rightarrow> 'a res \<times> 's"

definition ret :: "'a \<Rightarrow> ('s, 'a) eff" where
  "ret x = (\<lambda>s. (Inr x, s))"

definition raise :: "pyerr \<Rightarrow> ('s, 'a) eff" where
  "raise e = (\<lambda>s. (Inl e, s))"

definition bind :: "('s, 'a) eff \<Rightarrow> ('a \<Rightarrow> ('s, 'b) eff) \<Rightarrow> ('s, 'b) eff" where
  "bind m f = (\<lambda>s. case m s of (Inl e, s') \<Rightarrow> (Inl e, s') | (Inr x, s') \<Rightarrow> f x s')"

definition seq :: "('s, unit) eff \<Rightarrow> ('s, 'b) eff \<Rightarrow> ('s, 'b) eff" where
  "seq m k = bind m (\<lambda>_. k)"

definition gets :: "('s \<Rightarrow> 'a) \<Rightarrow> ('s, 'a) eff" where
  "gets f = (\<lambda>s. (Inr (f s), s))"

definition upd :: "('s \<Rightarrow> 's) \<Rightarrow> ('s, unit) eff" where
  "upd f = (\<lambda>s. (Inr (), f s))"

definition lift :: "'a res \<Rightarrow> ('s, 'a) eff" where
  "lift r = (\<lambda>s. (r, s))"

text \<open>\<^verbatim>\<open>try: m except ...: h\<close>.\<close>

definition catch :: "('s, 'a) eff \<Rightarrow> (pyerr \<Rightarrow> ('s, 'a) eff) \<Rightarrow> ('s, 'a) eff" where
  "catch m h = (\<lambda>s. case m s of (Inl e, s') \<Rightarrow> h e s' | (Inr x, s') \<Rightarrow> (Inr x, s'))"

text \<open>A method whose body depends on the current state.\<close>

definition reads :: "('s \<Rightarrow> ('s, 'a) eff) \<Rightarrow> ('s, 'a) eff" where
  "reads f = (\<lambda>s. f s s)"

lemmas eff_defs = ret_def raise_def bind_def seq_def gets_def upd_def lift_def catch_def reads_def

lemma bind_simps [simp]:
  "bind (ret x) f s = f x s"
  "bind (raise e) f s = (Inl e, s)"
  "bind (gets g) f s = f (g s) s"
  "bind (upd u) f' s = f' () (u s)"
  by (simp_all add: eff_defs)

lemma seq_simps [simp]:
  "seq (ret ()) k s = k s"
  "seq (upd g) k s = k (g s)"
  "seq (raise e) k s = (Inl e, s)"
  by (simp_all add: eff_defs)

text \<open>The combinators applied to a state.\<close>

lemma bind_apply: "bind m f s = (case m s of (Inl e, s') \<Rightarrow> (Inl e, s') | (Inr x, s') \<Rightarrow> f x s')"
  by (simp add: bind_def)

lemma seq_apply: "seq m k s = (case m s of (Inl e, s') \<Rightarrow> (Inl e, s') | (Inr x, s') \<Rightarrow> k s')"
  by (simp add: seq_def bind_def)

lemma catch_apply: "catch m h s = (case m s of (Inl e, s') \<Rightarrow> h e s' | (Inr x, s') \<Rightarrow> (Inr x, s'))"
  by (simp add: catch_def)

lemma basic_apply [simp]:
  "ret x s = (Inr x, s)" "raise e s = (Inl e, s)" "gets g s = (Inr (g s), s)"
  "upd f s = (Inr (), f s)" "lift r s = (r, s)" "reads m s = m s s"
  by (simp_all add: eff_defs)

lemma seq_ok: "fst (m s) = Inr () \<Longrightarrow> seq m k s = k (snd (m s))"
  by (cases "m s") (simp add: seq_apply)

lemmas eff_apply = bind_apply seq_apply catch_apply

section \<open>Invariants\<close>

text \<open>\<open>keeps I m\<close>: the computation leaves a state satisfying \<open>I\<close> whether it returns or raises.\<close>

definition keeps :: "('s \<Rightarrow> bool) \<Rightarrow> ('s, 'a) eff \<Rightarrow> bool" where
  "keeps I m \<longleftrightarrow> (\<forall>s. I s \<longrightarrow> I (snd (m s)))"

named_theorems keeps_intros \<open>rules that propagate an invariant through a method\<close>

lemma keepsD: "keeps I m \<Longrightarrow> I s \<Longrightarrow> I (snd (m s))"
  by (simp add: keeps_def)

lemma keeps_ret [keeps_intros]: "keeps I (ret x)"
  by (simp add: keeps_def ret_def)

lemma keeps_raise [keeps_intros]: "keeps I (raise e)"
  by (simp add: keeps_def raise_def)

lemma keeps_gets [keeps_intros]: "keeps I (gets f)"
  by (simp add: keeps_def gets_def)

lemma keeps_lift [keeps_intros]: "keeps I (lift r)"
  by (simp add: keeps_def lift_def)

lemma keeps_upd: "(\<And>s. I s \<Longrightarrow> I (f s)) \<Longrightarrow> keeps I (upd f)"
  by (simp add: keeps_def upd_def)

lemma keeps_bind_post:
  assumes "keeps I m" and "\<And>s x s'. m s = (Inr x, s') \<Longrightarrow> keeps I (f x)"
  shows "keeps I (bind m f)"
  unfolding keeps_def bind_def
proof (intro allI impI)
  fix s assume "I s"
  then have "I (snd (m s))" using assms(1) by (simp add: keeps_def)
  then show "I (snd (case m s of (Inl e, s') \<Rightarrow> (Inl e, s') | (Inr x, s') \<Rightarrow> f x s'))"
    using assms(2) [of s] by (auto simp: keeps_def split: prod.splits sum.splits)
qed

lemma keeps_bind [keeps_intros]: "keeps I m \<Longrightarrow> (\<And>x. keeps I (f x)) \<Longrightarrow> keeps I (bind m f)"
  by (rule keeps_bind_post)

lemma keeps_seq [keeps_intros]: "keeps I m \<Longrightarrow> keeps I k \<Longrightarrow> keeps I (seq m k)"
  unfolding seq_def by (rule keeps_bind)

lemma keeps_catch [keeps_intros]:
  assumes "keeps I m" and "\<And>e. keeps I (h e)"
  shows "keeps I (catch m h)"
  unfolding keeps_def catch_def
proof (intro allI impI)
  fix s assume "I s"
  then have "I (snd (m s))" using assms(1) by (simp add: keeps_def)
  then show "I (snd (case m s of (Inl e, s') \<Rightarrow> h e s' | (Inr x, s') \<Rightarrow> (Inr x, s')))"
    using assms(2) by (auto simp: keeps_def split: prod.splits sum.splits)
qed

lemma keeps_if [keeps_intros]: "(b \<Longrightarrow> keeps I m) \<Longrightarrow> (\<not> b \<Longrightarrow> keeps I k) \<Longrightarrow> keeps I (if b then m else k)"
  by simp

lemma keeps_reads [keeps_intros]: "(\<And>s. keeps I (f s)) \<Longrightarrow> keeps I (reads f)"
  by (simp add: keeps_def reads_def)

lemma keeps_reads_inv: "(\<And>s. I s \<Longrightarrow> I (snd (f s s))) \<Longrightarrow> keeps I (reads f)"
  by (simp add: keeps_def reads_def)

lemma keeps_option [keeps_intros]:
  "(x = None \<Longrightarrow> keeps I m) \<Longrightarrow> (\<And>y. x = Some y \<Longrightarrow> keeps I (f y)) \<Longrightarrow> keeps I (case x of None \<Rightarrow> m | Some y \<Rightarrow> f y)"
  by (cases x) auto

end
