(* ===== verification/Filesystem.thy ===== *)
theory Filesystem
  imports Safe_Paths Effects
begin

text \<open>
  The part of the operating system that the transfer layer uses: directories and files by path,
  \<^verbatim>\<open>mkdir\<close>, \<^verbatim>\<open>open\<close>, buffered writing, \<^verbatim>\<open>flush\<close>, \<^verbatim>\<open>close\<close>, \<^verbatim>\<open>stat\<close>, \<^verbatim>\<open>truncate\<close>, \<^verbatim>\<open>unlink\<close> and
  \<^verbatim>\<open>rename\<close>. Which call fails, and how many buffered bytes have reached the file when it does, is
  decided by an \<open>os_env\<close>, so a theorem for all environments covers every fault.
\<close>

datatype node = File bytes | Dir

type_synonym fs = "path \<Rightarrow> node option"

record os_env =
  os_resolve :: "path \<Rightarrow> path"
  os_mkdir_ok :: "path \<Rightarrow> bool"
  os_open_ok :: "path \<Rightarrow> bool"
  os_write_ok :: bool
  os_written :: nat
  os_flush_ok :: bool
  os_flushed :: nat
  os_close_ok :: bool
  os_unlink_ok :: bool
  os_rename_ok :: bool
  os_stat_ok :: bool
  os_truncate_ok :: bool
  os_read_ok :: bool
  os_dir_size :: nat

text \<open>\<^verbatim>\<open>FileNotFoundError\<close> and \<^verbatim>\<open>TimeoutError\<close> are subclasses of \<^verbatim>\<open>OSError\<close>.\<close>

definition is_oserror :: "pyerr \<Rightarrow> bool" where
  "is_oserror e \<longleftrightarrow> e = OSError \<or> e = FileNotFoundError \<or> e = TimeoutError"

definition exists_path :: "fs \<Rightarrow> path \<Rightarrow> bool" where
  "exists_path fs p \<longleftrightarrow> p = [] \<or> fs p \<noteq> None"

definition is_dir :: "fs \<Rightarrow> path \<Rightarrow> bool" where
  "is_dir fs p \<longleftrightarrow> p = [] \<or> fs p = Some Dir"

section \<open>Directories\<close>

text \<open>\<^verbatim>\<open>Path.mkdir(parents=True, exist_ok=True)\<close> creates the missing ancestors from the top.\<close>

fun mkdir_from :: "os_env \<Rightarrow> path \<Rightarrow> pystr list \<Rightarrow> fs \<Rightarrow> unit res \<times> fs" where
  "mkdir_from env base [] fs = (Inr (), fs)"
| "mkdir_from env base (w # ws) fs =
     (let p = base @ [w]
      in case fs p of
           Some Dir \<Rightarrow> mkdir_from env p ws fs
         | Some (File _) \<Rightarrow> (Inl OSError, fs)
         | None \<Rightarrow> if os_mkdir_ok env p then mkdir_from env p ws (fs(p \<mapsto> Dir)) else (Inl OSError, fs))"

definition mkdir_p :: "os_env \<Rightarrow> path \<Rightarrow> fs \<Rightarrow> unit res \<times> fs" where
  "mkdir_p env p fs = mkdir_from env [] p fs"

section \<open>Open files\<close>

record handle =
  h_path :: path
  h_buf :: bytes
  h_closed :: bool

definition append_file :: "path \<Rightarrow> bytes \<Rightarrow> fs \<Rightarrow> fs" where
  "append_file p bs fs = (case fs p of Some (File c) \<Rightarrow> fs(p \<mapsto> File (c @ bs)) | _ \<Rightarrow> fs)"

definition open_wb :: "os_env \<Rightarrow> path \<Rightarrow> fs \<Rightarrow> handle res \<times> fs" where
  "open_wb env p fs =
     (if \<not> is_dir fs (butlast p) \<or> is_dir fs p \<or> \<not> os_open_ok env p then (Inl OSError, fs)
      else (Inr \<lparr>h_path = p, h_buf = [], h_closed = False\<rparr>, fs(p \<mapsto> File [])))"

definition open_ab :: "os_env \<Rightarrow> path \<Rightarrow> fs \<Rightarrow> handle res \<times> fs" where
  "open_ab env p fs =
     (if \<not> is_dir fs (butlast p) \<or> is_dir fs p \<or> \<not> os_open_ok env p then (Inl OSError, fs)
      else (Inr \<lparr>h_path = p, h_buf = [], h_closed = False\<rparr>, if fs p = None then fs(p \<mapsto> File []) else fs))"

text \<open>\<^verbatim>\<open>open(p, "rb")\<close> and reading to the end.\<close>

definition read_file :: "os_env \<Rightarrow> path \<Rightarrow> fs \<Rightarrow> bytes res" where
  "read_file env p fs =
     (case fs p of
        Some (File c) \<Rightarrow> if os_read_ok env then Inr c else Inl OSError
      | Some Dir \<Rightarrow> Inl OSError
      | None \<Rightarrow> Inl FileNotFoundError)"

definition fh_write :: "os_env \<Rightarrow> bytes \<Rightarrow> handle \<Rightarrow> fs \<Rightarrow> unit res \<times> handle \<times> fs" where
  "fh_write env data h fs =
     (if h_closed h then (Inl ValueError, h, fs)
      else let pending = h_buf h @ data; k = os_written env
           in (if os_write_ok env then Inr () else Inl OSError,
               h\<lparr>h_buf := drop k pending\<rparr>, append_file (h_path h) (take k pending) fs))"

definition fh_flush :: "os_env \<Rightarrow> handle \<Rightarrow> fs \<Rightarrow> unit res \<times> handle \<times> fs" where
  "fh_flush env h fs =
     (if h_closed h then (Inl ValueError, h, fs)
      else if os_flush_ok env then (Inr (), h\<lparr>h_buf := []\<rparr>, append_file (h_path h) (h_buf h) fs)
      else (Inl OSError, h\<lparr>h_buf := drop (os_flushed env) (h_buf h)\<rparr>,
            append_file (h_path h) (take (os_flushed env) (h_buf h)) fs))"

definition fh_close :: "os_env \<Rightarrow> handle \<Rightarrow> fs \<Rightarrow> unit res \<times> handle \<times> fs" where
  "fh_close env h fs =
     (if h_closed h then (Inr (), h, fs)
      else if os_close_ok env
      then (Inr (), h\<lparr>h_buf := [], h_closed := True\<rparr>, append_file (h_path h) (h_buf h) fs)
      else (Inl OSError, h\<lparr>h_buf := [], h_closed := True\<rparr>,
            append_file (h_path h) (take (os_flushed env) (h_buf h)) fs))"

section \<open>Metadata operations\<close>

definition stat_size :: "os_env \<Rightarrow> path \<Rightarrow> fs \<Rightarrow> int res" where
  "stat_size env p fs =
     (if \<not> os_stat_ok env then Inl OSError
      else case fs p of
             Some (File c) \<Rightarrow> Inr (int (length c))
           | Some Dir \<Rightarrow> Inr (int (os_dir_size env))
           | None \<Rightarrow> Inl FileNotFoundError)"

definition truncate_file :: "os_env \<Rightarrow> path \<Rightarrow> nat \<Rightarrow> fs \<Rightarrow> unit res \<times> fs" where
  "truncate_file env p n fs =
     (case fs p of
        Some (File c) \<Rightarrow>
          if os_truncate_ok env
          then (Inr (), fs(p \<mapsto> File (take n c @ replicate (n - length c) 0)))
          else (Inl OSError, fs)
      | Some Dir \<Rightarrow> (Inl OSError, fs)
      | None \<Rightarrow> (Inl FileNotFoundError, fs))"

definition unlink_file :: "os_env \<Rightarrow> path \<Rightarrow> fs \<Rightarrow> unit res \<times> fs" where
  "unlink_file env p fs =
     (case fs p of
        Some (File c) \<Rightarrow> if os_unlink_ok env then (Inr (), fs(p := None)) else (Inl OSError, fs)
      | Some Dir \<Rightarrow> (Inl OSError, fs)
      | None \<Rightarrow> (Inl FileNotFoundError, fs))"

text \<open>\<^verbatim>\<open>rename\<close> replaces an existing file but not a directory.\<close>

definition rename_file :: "os_env \<Rightarrow> path \<Rightarrow> path \<Rightarrow> fs \<Rightarrow> unit res \<times> fs" where
  "rename_file env src dest fs =
     (case fs src of
        Some (File c) \<Rightarrow>
          if \<not> os_rename_ok env \<or> is_dir fs dest \<or> \<not> is_dir fs (butlast dest) then (Inl OSError, fs)
          else (Inr (), (fs(src := None))(dest \<mapsto> File c))
      | Some Dir \<Rightarrow> (Inl OSError, fs)
      | None \<Rightarrow> (Inl FileNotFoundError, fs))"

section \<open>A cooperative system\<close>

text \<open>An environment in which every call succeeds, without symbolic links; written bytes stay in
  the buffer until the file is flushed.\<close>

definition calm_resolve :: "path \<Rightarrow> path" where
  "calm_resolve p = (if proper_path p then p else [])"

lemma resolves_calm: "resolves calm_resolve" "proper_path p \<Longrightarrow> calm_resolve p = p"
  by (simp_all add: resolves_def calm_resolve_def)

definition calm :: os_env where
  "calm = \<lparr>os_resolve = calm_resolve, os_mkdir_ok = (\<lambda>_. True), os_open_ok = (\<lambda>_. True), os_write_ok = True,
     os_written = 0, os_flush_ok = True, os_flushed = 0, os_close_ok = True, os_unlink_ok = True,
     os_rename_ok = True, os_stat_ok = True, os_truncate_ok = True, os_read_ok = True, os_dir_size = 4096\<rparr>"

end
