(* ===== verification/Transfer_State.thy ===== *)
theory Transfer_State
  imports Prelude
begin

text \<open>
  State machines given by a table of allowed transitions, and the one of a file transfer
  (\<^verbatim>\<open>TransferState\<close>, \<^verbatim>\<open>VALID_TRANSITIONS\<close> and \<^verbatim>\<open>_transfer_transition\<close> of \<^verbatim>\<open>core/transfer.py\<close>).
\<close>

section \<open>Table-driven machines\<close>

text \<open>A sequence of requested transitions; the first refused one stops it.\<close>

fun run_transitions :: "('s \<Rightarrow> 's \<Rightarrow> 's res) \<Rightarrow> 's \<Rightarrow> 's list \<Rightarrow> 's res" where
  "run_transitions step s [] = Inr s"
| "run_transitions step s (t # ts) = res_bind (step s t) (\<lambda>u. run_transitions step u ts)"

locale table_machine =
  fixes allowed :: "'s \<Rightarrow> 's list"
    and step :: "'s \<Rightarrow> 's \<Rightarrow> 's res"
  assumes step_ok_iff: "step s t = Inr u \<longleftrightarrow> u = t \<and> t \<in> set (allowed s)"
    and step_refused: "t \<notin> set (allowed s) \<Longrightarrow> step s t = Inl RuntimeError"
begin

lemma run_closed:
  assumes "\<And>s t. s \<in> C \<Longrightarrow> t \<in> set (allowed s) \<Longrightarrow> t \<in> C"
    and "s \<in> C" and "run_transitions step s ts = Inr u"
  shows "u \<in> C"
  using assms(2,3) by (induction ts arbitrary: s) (auto simp: res_simps step_ok_iff dest: assms(1))

lemma run_terminal:
  assumes "allowed s = []" and "run_transitions step s ts = Inr u"
  shows "ts = [] \<and> u = s"
  using assms by (cases ts) (auto simp: res_simps step_ok_iff)

lemma run_snoc:
  "run_transitions step s (ts @ [t]) = Inr u \<longleftrightarrow>
     u = t \<and> (\<exists>v. run_transitions step s ts = Inr v \<and> t \<in> set (allowed v))"
  by (induction ts arbitrary: s) (auto simp: res_simps step_ok_iff)

text \<open>A run that leaves \<open>C\<close>, whose only exit is \<open>w\<close>, passes through \<open>w\<close>.\<close>

lemma run_through:
  assumes "\<And>s t. s \<in> C \<Longrightarrow> t \<in> set (allowed s) \<Longrightarrow> t \<in> C \<or> t = w"
    and "s \<in> C" and "run_transitions step s ts = Inr u" and "u \<notin> C"
  shows "w \<in> set ts"
  using assms(2-4)
proof (induction ts arbitrary: s)
  case (Cons t ts)
  then have t: "t \<in> set (allowed s)" "run_transitions step t ts = Inr u"
    by (auto simp: res_simps step_ok_iff)
  show ?case
  proof (cases "t \<in> C")
    case True
    then show ?thesis using Cons.IH [OF _ t(2) Cons.prems(3)] by simp
  next
    case False
    then show ?thesis using assms(1) [OF Cons.prems(1) t(1)] by simp
  qed
qed simp

text \<open>A state all of whose predecessors lie in \<open>P\<close> is only entered from \<open>P\<close>.\<close>

lemma entered_from:
  assumes "\<And>v. t \<in> set (allowed v) \<Longrightarrow> v \<in> P"
    and "run_transitions step s ts = Inr t" and "s \<noteq> t"
  shows "\<exists>us v. ts = us @ [t] \<and> run_transitions step s us = Inr v \<and> v \<in> P"
proof (cases ts rule: rev_cases)
  case (snoc us w)
  then show ?thesis using assms(1,2) by (auto simp: run_snoc)
qed (use assms in simp)

end

section \<open>Transfers\<close>

datatype transfer_state =
    IDLE | REQUESTED | ACCEPTED | TRANSFERRING | CANCELLING | COMPLETED | FAILED | CANCELLED
  | INTERRUPTED | RESUME_REQUESTED | RESUMING

fun valid_transitions :: "transfer_state \<Rightarrow> transfer_state list" where
  "valid_transitions IDLE = [REQUESTED, ACCEPTED, TRANSFERRING, FAILED, CANCELLED]"
| "valid_transitions REQUESTED = [ACCEPTED, FAILED, CANCELLED]"
| "valid_transitions ACCEPTED = [TRANSFERRING, FAILED, CANCELLED]"
| "valid_transitions TRANSFERRING = [CANCELLING, COMPLETED, FAILED, INTERRUPTED]"
| "valid_transitions CANCELLING = [CANCELLED, FAILED]"
| "valid_transitions COMPLETED = []"
| "valid_transitions FAILED = []"
| "valid_transitions CANCELLED = []"
| "valid_transitions INTERRUPTED = [RESUME_REQUESTED, FAILED]"
| "valid_transitions RESUME_REQUESTED = [RESUMING, FAILED]"
| "valid_transitions RESUMING = [COMPLETED, INTERRUPTED, FAILED]"

definition transfer_transition :: "transfer_state \<Rightarrow> transfer_state \<Rightarrow> transfer_state res" where
  "transfer_transition current new =
     (if new \<in> set (valid_transitions current) then Inr new else Inl RuntimeError)"

interpretation transfer_fsm: table_machine valid_transitions transfer_transition
  by unfold_locales (auto simp: transfer_transition_def)

text \<open>Every state but the three final ones can still reach a final one.\<close>

definition final_states :: "transfer_state list" where
  "final_states = [COMPLETED, FAILED, CANCELLED]"

lemma final_iff_no_transition: "s \<in> set final_states \<longleftrightarrow> valid_transitions s = []"
  by (cases s) (auto simp: final_states_def)

lemma failure_always_possible: "s \<notin> set final_states \<Longrightarrow> transfer_transition s FAILED = Inr FAILED"
  by (cases s) (auto simp: transfer_transition_def final_states_def)

lemma completed_from: "COMPLETED \<in> set (valid_transitions s) \<Longrightarrow> s \<in> {TRANSFERRING, RESUMING}"
  by (cases s) auto

datatype batch_state =
  B_REQUESTED | B_ACCEPTED | B_TRANSFERRING | B_COMPLETED | B_FAILED | B_CANCELLED | B_PARTIAL

end
