(* ===== verification/Sha256.thy ===== *)
theory Sha256
  imports PyValues
begin

text \<open>
  \<^verbatim>\<open>hashlib.sha256\<close> (FIPS 180-4), which the transfer layer uses for file integrity and the
  session layer for transcripts. A running hasher is the list of bytes fed to it, so
  \<^verbatim>\<open>h.update(b)\<close> appends and \<^verbatim>\<open>h.hexdigest()\<close> is \<open>sha256_hex\<close> of the bytes so far.
\<close>

unbundle bit_operations_syntax

definition sha_k :: "32 word list" where
  "sha_k = [
  1116352408, 1899447441, 3049323471, 3921009573, 961987163, 1508970993, 2453635748, 2870763221,
  3624381080, 310598401, 607225278, 1426881987, 1925078388, 2162078206, 2614888103, 3248222580,
  3835390401, 4022224774, 264347078, 604807628, 770255983, 1249150122, 1555081692, 1996064986,
  2554220882, 2821834349, 2952996808, 3210313671, 3336571891, 3584528711, 113926993, 338241895,
  666307205, 773529912, 1294757372, 1396182291, 1695183700, 1986661051, 2177026350, 2456956037,
  2730485921, 2820302411, 3259730800, 3345764771, 3516065817, 3600352804, 4094571909, 275423344,
  430227734, 506948616, 659060556, 883997877, 958139571, 1322822218, 1537002063, 1747873779,
  1955562222, 2024104815, 2227730452, 2361852424, 2428436474, 2756734187, 3204031479, 3329325298]"

definition sha_init :: "32 word list" where
  "sha_init = [1779033703, 3144134277, 1013904242, 2773480762, 1359893119, 2600822924, 528734635, 1541459225]"

definition rotr :: "nat \<Rightarrow> 32 word \<Rightarrow> 32 word" where
  "rotr n x = drop_bit n x OR push_bit (32 - n) x"

definition sha_pad :: "bytes \<Rightarrow> bytes" where
  "sha_pad m =
     (let n = length m
      in m @ [0x80] @ replicate ((119 - n mod 64) mod 64) 0 @ be_bytes 8 (8 * n))"

definition word32 :: "bytes \<Rightarrow> 32 word" where
  "word32 bs = foldl (\<lambda>a b. push_bit 8 a OR ucast b) 0 bs"

definition word_bytes :: "32 word \<Rightarrow> bytes" where
  "word_bytes w = [ucast (drop_bit 24 w), ucast (drop_bit 16 w), ucast (drop_bit 8 w), ucast w]"

text \<open>The message schedule, extended by one word per step; the list is kept in reverse.\<close>

definition sched_step :: "32 word list \<Rightarrow> 32 word list" where
  "sched_step ws =
     (let s0 = (let x = ws ! 14 in rotr 7 x XOR rotr 18 x XOR drop_bit 3 x);
          s1 = (let x = ws ! 1 in rotr 17 x XOR rotr 19 x XOR drop_bit 10 x)
      in (ws ! 15 + s0 + ws ! 6 + s1) # ws)"

definition schedule :: "bytes \<Rightarrow> 32 word list" where
  "schedule blk = rev ((sched_step ^^ 48) (rev (map word32 (read_blocks 4 blk))))"

definition sha_round :: "32 word list \<Rightarrow> 32 word \<times> 32 word \<Rightarrow> 32 word list" where
  "sha_round st kw =
     (case st of
        [a, b, c, d, e, f, g, h] \<Rightarrow>
          (let s1 = rotr 6 e XOR rotr 11 e XOR rotr 25 e;
               ch = (e AND f) XOR (NOT e AND g);
               t1 = h + s1 + ch + fst kw + snd kw;
               s0 = rotr 2 a XOR rotr 13 a XOR rotr 22 a;
               maj = (a AND b) XOR (a AND c) XOR (b AND c)
           in [t1 + (s0 + maj), a, b, c, d + t1, e, f, g])
      | _ \<Rightarrow> st)"

definition compress :: "32 word list \<Rightarrow> bytes \<Rightarrow> 32 word list" where
  "compress st blk = map2 (+) st (foldl sha_round st (zip sha_k (schedule blk)))"

definition sha256 :: "bytes \<Rightarrow> bytes" where
  "sha256 m =
     concat (map word_bytes (foldl compress sha_init (read_blocks 64 (sha_pad m))))"

definition sha256_hex :: "bytes \<Rightarrow> pystr" where
  "sha256_hex m = bytes_hex (sha256 m)"

text \<open>What a hasher has seen after the file was read in 64 KiB blocks.\<close>

definition fed_blocks :: "bytes \<Rightarrow> bytes" where
  "fed_blocks c = foldl (\<lambda>h block. h @ block) [] (read_blocks 65536 c)"

lemma fed_blocks_id [simp]: "fed_blocks c = c"
proof -
  have "foldl (\<lambda>h block. h @ block) a bs = a @ concat bs" for a and bs :: "bytes list"
    by (induction bs arbitrary: a) auto
  then show ?thesis by (simp add: fed_blocks_def concat_read_blocks)
qed

section \<open>Lengths\<close>

lemma length_sha_round [simp]: "length (sha_round st kw) = length st"
  by (auto simp: sha_round_def Let_def split: list.splits)

lemma length_rounds [simp]: "length (foldl sha_round st kws) = length st"
  by (induction kws arbitrary: st) auto

lemma length_compress [simp]: "length (compress st blk) = length st"
  by (simp add: compress_def)

lemma length_compresses [simp]: "length (foldl compress st bs) = length st"
  by (induction bs arbitrary: st) auto

lemma length_sha256 [simp]: "length (sha256 m) = 32"
proof -
  have "length (concat (map word_bytes ws)) = 4 * length ws" for ws
    by (induction ws) (auto simp: word_bytes_def)
  then show ?thesis by (simp add: sha256_def sha_init_def)
qed

lemma length_bytes_hex [simp]: "length (bytes_hex bs) = 2 * length bs"
  by (induction bs) (auto simp: bytes_hex_def)

lemma bytes_hex_lower: "list_all hex_lower (bytes_hex bs)"
  by (auto simp: bytes_hex_def list_all_iff simp del: hex_fixed.simps dest: hex_fixed_chars)

lemma sha256_hex_format [simp]:
  "length (sha256_hex m) = 64" "list_all hex_lower (sha256_hex m)"
  by (simp_all add: sha256_hex_def bytes_hex_lower)

text \<open>The message is padded to a whole number of blocks.\<close>

lemma sha_pad_aligned: "64 dvd length (sha_pad m)"
proof -
  define n where "n = length m"
  have "length (sha_pad m) = n + 9 + (119 - n mod 64) mod 64"
    by (simp add: sha_pad_def Let_def n_def)
  moreover obtain q r where n: "n = 64 * q + r" and r: "r < 64"
    using mult_div_mod_eq [of 64 n] mod_less_divisor [of 64 n] by (metis zero_less_numeral)
  moreover have "n mod 64 = r" using n r by simp
  moreover have "r + 9 + (119 - r) mod 64 = 64 * (if r \<le> 55 then 1 else 2)"
  proof (cases "r \<le> 55")
    case True
    then have "119 - r = (55 - r) + 64" by simp
    then have "(119 - r) mod 64 = (55 - r) mod 64" by (metis mod_add_self2)
    with True show ?thesis by simp
  qed (use r in simp)
  ultimately have "length (sha_pad m) = 64 * (q + (if r \<le> 55 then 1 else 2))"
    by (simp add: algebra_simps)
  then show ?thesis by simp
qed

end
