(* ===== verification/Framing.thy ===== *)
theory Framing
  imports Prelude
begin

text \<open>
  Length-prefixed messages on a byte stream: \<^verbatim>\<open>StreamReader.readexactly\<close>, and the contract that
  the plaintext control frames, the local IPC frames of the daemon and of the user interface
  keep. A stream is the bytes the other side sends before it closes the connection.
\<close>

definition readexactly :: "nat \<Rightarrow> bytes \<Rightarrow> (bytes \<times> bytes) res" where
  "readexactly n stream =
     (if length stream < n then Inl IncompleteReadError else Inr (take n stream, drop n stream))"

lemma readexactly_append [simp]: "n = length bs \<Longrightarrow> readexactly n (bs @ r) = Inr (bs, r)"
  by (simp add: readexactly_def)

lemma readexactly_short: "length bs < n \<Longrightarrow> readexactly n bs = Inl IncompleteReadError"
  by (simp add: readexactly_def)

text \<open>Messages written one after the other, and read one after the other.\<close>

fun write_all :: "('m \<Rightarrow> bytes res) \<Rightarrow> 'm list \<Rightarrow> bytes res" where
  "write_all enc [] = Inr []"
| "write_all enc (m # ms) =
     res_bind (enc m) (\<lambda>f. res_bind (write_all enc ms) (\<lambda>fs. Inr (f @ fs)))"

fun read_n :: "(bytes \<Rightarrow> ('m \<times> bytes) res) \<Rightarrow> nat \<Rightarrow> bytes \<Rightarrow> ('m list \<times> bytes) res" where
  "read_n dec 0 s = Inr ([], s)"
| "read_n dec (Suc k) s =
     res_bind (dec s) (\<lambda>(m, r). res_bind (read_n dec k r) (\<lambda>(ms, r'). Inr (m # ms, r')))"

text \<open>
  A codec that restores every message it can send from any stream that starts with its frame,
  and that never takes a truncated frame for a message.
\<close>

locale stream_codec =
  fixes enc :: "'m \<Rightarrow> bytes res"
    and dec :: "bytes \<Rightarrow> ('m \<times> bytes) res"
    and sendable :: "'m \<Rightarrow> bool"
  assumes dec_enc: "sendable m \<Longrightarrow> enc m = Inr f \<Longrightarrow> dec (f @ r) = Inr (m, r)"
    and dec_cut: "sendable m \<Longrightarrow> enc m = Inr f \<Longrightarrow> k < length f \<Longrightarrow> dec (take k f) = Inl IncompleteReadError"
begin

lemma frames_unique:
  assumes "sendable m" and "enc m = Inr f" and "sendable m'" and "enc m' = Inr f'"
    and "f @ r = f' @ r'"
  shows "m = m' \<and> r = r'"
  using dec_enc [OF assms(1,2), of r] dec_enc [OF assms(3,4), of r'] assms(5) by simp

lemma read_n_write_all:
  assumes "list_all sendable ms" and "write_all enc ms = Inr bs"
  shows "read_n dec (length ms) (bs @ r) = Inr (ms, r)"
  using assms by (induction ms arbitrary: bs) (auto simp: res_simps dec_enc)

lemma read_n_cut:
  assumes "list_all sendable ms" and "write_all enc ms = Inr bs" and "k < length bs"
  shows "read_n dec (length ms) (take k bs) = Inl IncompleteReadError"
  using assms
proof (induction ms arbitrary: bs k)
  case (Cons m ms)
  then obtain f fs where f: "enc m = Inr f" and fs: "write_all enc ms = Inr fs" and bs: "bs = f @ fs"
    by (auto simp: res_simps)
  show ?case
  proof (cases "k < length f")
    case True
    then show ?thesis using Cons.prems(1) dec_cut [OF _ f True] by (simp add: bs)
  next
    case False
    then have "dec (take k bs) = Inr (m, take (k - length f) fs)"
      using Cons.prems(1) dec_enc [OF _ f] by (simp add: bs)
    moreover have "read_n dec (length ms) (take (k - length f) fs) = Inl IncompleteReadError"
      using Cons.prems False by (intro Cons.IH [OF _ fs]) (auto simp: bs)
    ultimately show ?thesis by simp
  qed
qed simp

end

end
