(* ===== verification/Json.thy ===== *)
theory Json
  imports PyValues
begin

text \<open>
  \<^verbatim>\<open>json.dumps\<close> (ASCII output; \<^verbatim>\<open>", "\<close> and \<^verbatim>\<open>": "\<close> as separators on the wire, \<^verbatim>\<open>","\<close> and
  \<^verbatim>\<open>":"\<close> on the local socket: the argument \<open>sp\<close> is what follows the punctuation) and
  \<^verbatim>\<open>json.loads\<close>, which every control message, IPC message and stored metadata goes through, with
  the round trip of the values the program builds.
\<close>

section \<open>Serialisation\<close>

text \<open>\<^verbatim>\<open>py_encode_basestring_ascii\<close>: everything outside space to tilde is escaped, code points
  above the basic plane as a surrogate pair.\<close>

definition esc_u :: "nat \<Rightarrow> pystr" where
  "esc_u n = [92, 117] @ hex_fixed 4 n"

definition esc_char :: "nat \<Rightarrow> pystr" where
  "esc_char c =
     (if c = 34 then [92, 34] else if c = 92 then [92, 92]
      else if c = 10 then [92, 110] else if c = 13 then [92, 114] else if c = 9 then [92, 116]
      else if c = 12 then [92, 102] else if c = 8 then [92, 98]
      else if 32 \<le> c \<and> c \<le> 126 then [c]
      else if c < 65536 then esc_u c
      else esc_u (55296 + (c - 65536) div 1024) @ esc_u (56320 + (c - 65536) mod 1024))"

definition esc_string :: "pystr \<Rightarrow> pystr" where
  "esc_string s = concat (map esc_char s)"

definition quote :: "pystr \<Rightarrow> pystr" where
  "quote s = [34] @ esc_string s @ [34]"

fun join_with :: "pystr \<Rightarrow> pystr list \<Rightarrow> pystr" where
  "join_with sep [] = []"
| "join_with sep [w] = w"
| "join_with sep (w # ws) = w @ sep @ join_with sep ws"

fun dump :: "platform \<Rightarrow> pystr \<Rightarrow> json \<Rightarrow> pystr" where
  "dump pf sp JNull = lit ''null''"
| "dump pf sp (JBool b) = (if b then lit ''true'' else lit ''false'')"
| "dump pf sp (JInt n) = int_str n"
| "dump pf sp (JFloat l) = flt_json pf l"
| "dump pf sp (JStr s) = quote s"
| "dump pf sp (JArr vs) = [91] @ join_with (44 # sp) (map (dump pf sp) vs) @ [93]"
| "dump pf sp (JObj d) =
     [123] @ join_with (44 # sp) (map (\<lambda>(k, v). quote k @ 58 # sp @ dump pf sp v) d) @ [125]"

text \<open>The interpreter refuses to print integers of more than 4300 digits.\<close>

fun printable_ints :: "json \<Rightarrow> bool" where
  "printable_ints (JInt n) = (length (dec_digits (nat \<bar>n\<bar>)) \<le> 4300)"
| "printable_ints (JArr vs) = list_all printable_ints vs"
| "printable_ints (JObj d) = list_all (\<lambda>(k, v). printable_ints v) d"
| "printable_ints _ = True"

definition dumps :: "platform \<Rightarrow> pystr \<Rightarrow> json \<Rightarrow> pystr res" where
  "dumps pf sp v = (if printable_ints v then Inr (dump pf sp v) else Inl ValueError)"

section \<open>Parsing\<close>

definition json_ws :: "nat \<Rightarrow> bool" where
  "json_ws c \<longleftrightarrow> c = 32 \<or> c = 9 \<or> c = 10 \<or> c = 13"

definition skip_ws :: "pystr \<Rightarrow> pystr" where
  "skip_ws s = dropWhile json_ws s"

definition hex_val :: "nat \<Rightarrow> nat option" where
  "hex_val c =
     (if 48 \<le> c \<and> c \<le> 57 then Some (c - 48)
      else if 97 \<le> c \<and> c \<le> 102 then Some (c - 87)
      else if 65 \<le> c \<and> c \<le> 70 then Some (c - 55) else None)"

fun hex4 :: "pystr \<Rightarrow> (nat \<times> pystr) option" where
  "hex4 (a # b # c # d # r) =
     (case (hex_val a, hex_val b, hex_val c, hex_val d) of
        (Some x, Some y, Some z, Some w) \<Rightarrow> Some (((x * 16 + y) * 16 + z) * 16 + w, r)
      | _ \<Rightarrow> None)"
| "hex4 _ = None"

text \<open>The low half of a surrogate pair that directly follows.\<close>

definition low_surrogate :: "pystr \<Rightarrow> (nat \<times> pystr) option" where
  "low_surrogate s =
     (if is_prefix [92, 117] s
      then (case hex4 (drop 2 s) of
              None \<Rightarrow> None
            | Some (n, r) \<Rightarrow> if 56320 \<le> n \<and> n < 57344 then Some (n, r) else None)
      else None)"

definition simple_escape :: "nat \<Rightarrow> nat option" where
  "simple_escape c =
     (if c = 34 then Some 34 else if c = 92 then Some 92 else if c = 47 then Some 47
      else if c = 98 then Some 8 else if c = 102 then Some 12 else if c = 110 then Some 10
      else if c = 114 then Some 13 else if c = 116 then Some 9 else None)"

lemma hex4_shorter: "hex4 s = Some (n, r) \<Longrightarrow> length r < length s"
  by (induction s rule: hex4.induct) (auto split: option.splits)

lemma low_surrogate_shorter: "low_surrogate s = Some (n, r) \<Longrightarrow> length r < length s"
  by (auto simp: low_surrogate_def split: option.splits if_splits dest: hex4_shorter)

text \<open>\<^verbatim>\<open>scanstring\<close>, after the opening quote, in strict mode.\<close>

function scan_string :: "pystr \<Rightarrow> pystr \<Rightarrow> (pystr \<times> pystr) res" where
  "scan_string acc [] = Inl ValueError"
| "scan_string acc (c # cs) =
     (if c = 34 then Inr (rev acc, cs)
      else if c = 92 then
        (case cs of
           [] \<Rightarrow> Inl ValueError
         | e # r \<Rightarrow>
             if e = 117 then
               (case hex4 r of
                  None \<Rightarrow> Inl ValueError
                | Some (n, r1) \<Rightarrow>
                    if 55296 \<le> n \<and> n < 56320 then
                      (case low_surrogate r1 of
                         Some (m, r2) \<Rightarrow>
                           scan_string ((65536 + (n - 55296) * 1024 + (m - 56320)) # acc) r2
                       | None \<Rightarrow> scan_string (n # acc) r1)
                    else scan_string (n # acc) r1)
             else (case simple_escape e of
                     None \<Rightarrow> Inl ValueError
                   | Some x \<Rightarrow> scan_string (x # acc) r))
      else if c < 32 then Inl ValueError
      else scan_string (c # acc) cs)"
  by pat_completeness auto
termination
  by (relation "measure (\<lambda>(acc, s). length s)")
    (auto dest!: hex4_shorter low_surrogate_shorter)

definition is_dig :: "nat \<Rightarrow> bool" where
  "is_dig c \<longleftrightarrow> 48 \<le> c \<and> c \<le> 57"

text \<open>\<^verbatim>\<open>_match_number\<close>: sign, integer part without leading zeros, fraction, exponent.\<close>

definition num_int :: "pystr \<Rightarrow> (pystr \<times> pystr) option" where
  "num_int s =
     (case s of
        [] \<Rightarrow> None
      | c # cs \<Rightarrow> if c = 48 then Some ([48], cs)
                  else if is_dig c then Some (takeWhile is_dig s, dropWhile is_dig s) else None)"

definition num_frac :: "pystr \<Rightarrow> pystr \<times> pystr" where
  "num_frac s =
     (case s of
        p # c # cs \<Rightarrow> if p = 46 \<and> is_dig c then (p # takeWhile is_dig (c # cs), dropWhile is_dig (c # cs))
                      else ([], s)
      | _ \<Rightarrow> ([], s))"

definition num_exp :: "pystr \<Rightarrow> pystr \<times> pystr" where
  "num_exp s =
     (case s of
        e # t \<Rightarrow>
          if e = 101 \<or> e = 69 then
            (let (sg, u) = (case t of g # t' \<Rightarrow> if g = 43 \<or> g = 45 then ([g], t') else ([], t) | [] \<Rightarrow> ([], []))
             in if u \<noteq> [] \<and> is_dig (hd u) then (e # sg @ takeWhile is_dig u, dropWhile is_dig u) else ([], s))
          else ([], s)
      | [] \<Rightarrow> ([], s))"

definition num_sign :: "pystr \<Rightarrow> pystr \<times> pystr" where
  "num_sign s = (case s of c # cs \<Rightarrow> if c = 45 then ([45], cs) else ([], s) | [] \<Rightarrow> ([], []))"

definition scan_number :: "platform \<Rightarrow> pystr \<Rightarrow> (json \<times> pystr) res" where
  "scan_number pf s =
     (let (sg, t) = num_sign s
      in case num_int t of
           None \<Rightarrow> Inl ValueError
         | Some (ds, r1) \<Rightarrow>
             let (fr, r2) = num_frac r1; (ex, r3) = num_exp r2
             in if fr = [] \<and> ex = []
                then res_bind (int_of_str pf (sg @ ds)) (\<lambda>n. Inr (JInt n, r3))
                else Inr (JFloat (sg @ ds @ fr @ ex), r3))"

text \<open>
  \<^verbatim>\<open>scan_once\<close> and the container loops. The first argument bounds the number of calls (twice
  the length of the text is always enough, lemma \<open>parse_fuel\<close>); the second is
  the nesting still allowed.
\<close>

fun parse_value :: "platform \<Rightarrow> nat \<Rightarrow> nat \<Rightarrow> pystr \<Rightarrow> (json \<times> pystr) res"
  and parse_elems :: "platform \<Rightarrow> nat \<Rightarrow> nat \<Rightarrow> json list \<Rightarrow> pystr \<Rightarrow> (json \<times> pystr) res"
  and parse_members :: "platform \<Rightarrow> nat \<Rightarrow> nat \<Rightarrow> (pystr, json) dict \<Rightarrow> pystr \<Rightarrow> (json \<times> pystr) res"
where
  "parse_value pf 0 d s = Inl RuntimeError"
| "parse_value pf (Suc n) d s =
     (if s = [] then Inl ValueError
      else if hd s = 34 then res_bind (scan_string [] (tl s)) (\<lambda>(t, r). Inr (JStr t, r))
      else if hd s = 123 then
        (if d = 0 then Inl RuntimeError
         else if is_prefix [125] (skip_ws (tl s)) then Inr (JObj [], tl (skip_ws (tl s)))
         else parse_members pf n (d - 1) [] (skip_ws (tl s)))
      else if hd s = 91 then
        (if d = 0 then Inl RuntimeError
         else if is_prefix [93] (skip_ws (tl s)) then Inr (JArr [], tl (skip_ws (tl s)))
         else parse_elems pf n (d - 1) [] (skip_ws (tl s)))
      else if is_prefix (lit ''null'') s then Inr (JNull, drop 4 s)
      else if is_prefix (lit ''true'') s then Inr (JBool True, drop 4 s)
      else if is_prefix (lit ''false'') s then Inr (JBool False, drop 5 s)
      else if is_prefix (lit ''NaN'') s then Inr (JFloat (lit ''NaN''), drop 3 s)
      else if is_prefix (lit ''Infinity'') s then Inr (JFloat (lit ''Infinity''), drop 8 s)
      else if is_prefix (lit ''-Infinity'') s then Inr (JFloat (lit ''-Infinity''), drop 9 s)
      else scan_number pf s)"
| "parse_elems pf 0 d acc s = Inl RuntimeError"
| "parse_elems pf (Suc n) d acc s =
     res_bind (parse_value pf n d s) (\<lambda>(v, r0).
       let r = skip_ws r0
       in if is_prefix [93] r then Inr (JArr (rev (v # acc)), tl r)
          else if is_prefix [44] r then parse_elems pf n d (v # acc) (skip_ws (tl r))
          else Inl ValueError)"
| "parse_members pf 0 d acc s = Inl RuntimeError"
| "parse_members pf (Suc n) d acc s =
     (if \<not> is_prefix [34] s then Inl ValueError
      else res_bind (scan_string [] (tl s)) (\<lambda>(k, r0).
        let r1 = skip_ws r0
        in if \<not> is_prefix [58] r1 then Inl ValueError
           else res_bind (parse_value pf n d (skip_ws (tl r1))) (\<lambda>(v, r2).
             let r = skip_ws r2; acc' = dict_set k v acc
             in if is_prefix [125] r then Inr (JObj acc', tl r)
                else if is_prefix [44] r then parse_members pf n d acc' (skip_ws (tl r))
                else Inl ValueError)))"

text \<open>\<^verbatim>\<open>json.loads\<close>: one value between white space.\<close>

definition loads :: "platform \<Rightarrow> pystr \<Rightarrow> json res" where
  "loads pf s =
     res_bind (parse_value pf (Suc (2 * length s)) (json_depth pf) (skip_ws s)) (\<lambda>(v, r).
       if skip_ws r = [] then Inr v else Inl ValueError)"


section \<open>Enough calls\<close>

lemma scan_string_shorter: "scan_string acc s = Inr (t, r) \<Longrightarrow> length r < length s"
proof (induction "length s" arbitrary: acc s rule: less_induct)
  case less
  have ih: "length r < length s" if "scan_string a u = Inr (t, r)" "length u < length s" for a u
    using less.hyps [OF that(2,1)] that(2) by simp
  show ?case
  proof (cases s)
    case (Cons c cs)
    show ?thesis
      using less.prems ih unfolding Cons
      by (auto split: if_splits list.splits option.splits dest!: hex4_shorter low_surrogate_shorter)
  qed (use less in simp)
qed

lemma length_skip_ws: "length (skip_ws s) \<le> length s"
  by (simp add: skip_ws_def length_dropWhile_le)

lemma num_int_shorter: "num_int s = Some (ds, r) \<Longrightarrow> length r < length s"
  by (auto simp: num_int_def length_dropWhile_le less_Suc_eq_le split: list.splits if_splits)

lemma num_frac_le: "num_frac s = (f, r) \<Longrightarrow> length r \<le> length s"
  using length_dropWhile_le [of is_dig]
  by (auto simp: num_frac_def le_SucI split: list.splits if_splits)

lemma num_exp_le: "num_exp s = (f, r) \<Longrightarrow> length r \<le> length s"
  using length_dropWhile_le [of is_dig]
  by (auto simp: num_exp_def le_SucI Let_def split: list.splits if_splits)

lemma scan_number_shorter: "scan_number pf s = Inr (v, r) \<Longrightarrow> length r < length s"
proof -
  assume a: "scan_number pf s = Inr (v, r)"
  obtain sg t where st: "num_sign s = (sg, t)" by fastforce
  then have le: "length t \<le> length s" by (auto simp: num_sign_def split: list.splits if_splits)
  from a obtain ds r1 where n: "num_int t = Some (ds, r1)"
    by (auto simp: scan_number_def st Let_def split: option.splits)
  obtain fr r2 where f: "num_frac r1 = (fr, r2)" by fastforce
  obtain ex r3 where e: "num_exp r2 = (ex, r3)" by fastforce
  have "r3 = r" using a by (auto simp: scan_number_def st n f e Let_def res_simps split: if_splits)
  then show ?thesis
    using num_int_shorter [OF n] num_frac_le [OF f] num_exp_le [OF e] le by simp
qed


lemma tl_skip_less: "s \<noteq> [] \<Longrightarrow> length (skip_ws (tl s)) < length s"
  using length_skip_ws [of "tl s"] by (cases s) auto

lemma is_prefix_ne: "is_prefix (c # p) s \<Longrightarrow> s \<noteq> []"
  by (auto simp: is_prefix_def)

lemma parse_shorter:
  "parse_value pf n d s = Inr (v, r) \<Longrightarrow> length r < length s"
  "parse_elems pf n d vs s = Inr (v, r) \<Longrightarrow> length r < length s"
  "parse_members pf n d kvs s = Inr (v, r) \<Longrightarrow> length r < length s"
proof (induction n arbitrary: d s v r vs kvs)
  case (Suc n)
  {
    case 1
    then have ne: "s \<noteq> []" by (auto split: if_splits)
    have drops: "length (drop k s) < length s" if "0 < k" for k using ne that by simp
    have tls: "length (tl (skip_ws (tl s))) < length s"
      using tl_skip_less [OF ne] by simp
    have tl1: "length (tl s) < length s" using ne by simp
    show ?case
      using 1 ne Suc.IH(2,3) [of "d - 1" "[]" "skip_ws (tl s)" v r] tl_skip_less [OF ne] tls
        drops [of 3] drops [of 4] drops [of 5] drops [of 8] drops [of 9]
        scan_string_shorter [of "[]" "tl s" _ r] tl1 scan_number_shorter [of pf s v r]
      by (auto simp: res_simps split: if_splits)
  next
    case 2
    then obtain w r0 where v: "parse_value pf n d s = Inr (w, r0)"
      by (auto simp: res_simps)
    have l: "length (skip_ws r0) < length s"
      using Suc.IH(1) [OF v] length_skip_ws [of r0] by simp
    have l2: "length (tl (skip_ws r0)) < length s" using l by simp
    have l3: "length (skip_ws (tl (skip_ws r0))) < length s"
      using length_skip_ws [of "tl (skip_ws r0)"] l2 by simp
    show ?case
      using 2 l2 l3 Suc.IH(2) [of d "w # vs" "skip_ws (tl (skip_ws r0))" v r]
      by (auto simp: v Let_def split: if_splits)
  next
    case 3
    then have ne: "s \<noteq> []" by (auto simp: is_prefix_def)
    from 3 obtain k r0 where k: "scan_string [] (tl s) = Inr (k, r0)"
      by (auto simp: res_simps split: if_splits)
    let ?u = "skip_ws (tl (skip_ws r0))"
    from 3 obtain w r2 where v: "parse_value pf n d ?u = Inr (w, r2)"
      by (auto simp: res_simps k Let_def split: if_splits)
    have "length ?u < length s"
      using scan_string_shorter [OF k] length_skip_ws [of r0] length_skip_ws [of "tl (skip_ws r0)"]
        ne length_tl [of s] length_tl [of "skip_ws r0"] by linarith
    then have l: "length (tl (skip_ws r2)) < length s"
      using Suc.IH(1) [OF v] length_skip_ws [of r2] by simp
    have l2: "length (skip_ws (tl (skip_ws r2))) < length s"
      using length_skip_ws [of "tl (skip_ws r2)"] l by simp
    show ?case
      using 3 l l2 Suc.IH(3) [of d "dict_set k w kvs" "skip_ws (tl (skip_ws r2))" v r]
      by (auto simp: v k Let_def split: if_splits)
  }
qed simp_all

text \<open>Any two bounds above twice the length of the text give the same result.\<close>

lemma parse_fuel:
  "2 * length s < n \<Longrightarrow> 2 * length s < m \<Longrightarrow> parse_value pf n d s = parse_value pf m d s"
  "2 * length s + 1 < n \<Longrightarrow> 2 * length s + 1 < m \<Longrightarrow> parse_elems pf n d vs s = parse_elems pf m d vs s"
  "2 * length s + 1 < n \<Longrightarrow> 2 * length s + 1 < m \<Longrightarrow> parse_members pf n d kvs s = parse_members pf m d kvs s"
proof (induction n arbitrary: m d s vs kvs)
  case (Suc n)
  {
    case 1
    then obtain k where m: "m = Suc k" by (cases m) auto
    show ?case
    proof (cases "s = []")
      case False
      then have "2 * length (skip_ws (tl s)) + 1 < n" "2 * length (skip_ws (tl s)) + 1 < k"
        using 1 tl_skip_less [OF False] by (simp_all add: m)
      then have "parse_elems pf n (d - 1) [] (skip_ws (tl s)) = parse_elems pf k (d - 1) [] (skip_ws (tl s))"
        and "parse_members pf n (d - 1) [] (skip_ws (tl s)) = parse_members pf k (d - 1) [] (skip_ws (tl s))"
        by (auto intro: Suc.IH(2,3))
      then show ?thesis by (simp add: m)
    qed (simp add: m)
  next
    case 2
    then obtain k where m: "m = Suc k" by (cases m) auto
    have v: "parse_value pf n d s = parse_value pf k d s"
      using 2 by (intro Suc.IH(1)) (simp_all add: m)
    show ?case
    proof (cases "parse_value pf k d s")
      case (Inr p)
      obtain w r0 where p: "p = (w, r0)" by fastforce
      have "length (skip_ws (tl (skip_ws r0))) < length s"
        using parse_shorter(1) [OF Inr [unfolded p]] length_skip_ws [of r0]
          length_skip_ws [of "tl (skip_ws r0)"] length_tl [of "skip_ws r0"] by linarith
      then have "parse_elems pf n d (w # vs) (skip_ws (tl (skip_ws r0))) = parse_elems pf k d (w # vs) (skip_ws (tl (skip_ws r0)))"
        using 2 by (intro Suc.IH(2)) (simp_all add: m)
      then show ?thesis using v by (simp add: m Inr p Let_def)
    qed (use v in \<open>simp add: m\<close>)
  next
    case 3
    then obtain k where m: "m = Suc k" by (cases m) auto
    show ?case
    proof (cases "scan_string [] (tl s)")
      case (Inr p)
      obtain key r0 where p: "p = (key, r0)" by fastforce
      let ?u = "skip_ws (tl (skip_ws r0))"
      have lu: "length ?u < length s \<or> s = []"
        using scan_string_shorter [OF Inr [unfolded p]] length_skip_ws [of r0]
          length_skip_ws [of "tl (skip_ws r0)"] length_tl [of "skip_ws r0"] length_tl [of s] by linarith
      show ?thesis
      proof (cases "s = []")
        case False
        then have v: "parse_value pf n d ?u = parse_value pf k d ?u"
          using 3 lu by (intro Suc.IH(1)) (simp_all add: m)
        have "parse_members pf n d kvs' (skip_ws (tl (skip_ws r2))) = parse_members pf k d kvs' (skip_ws (tl (skip_ws r2)))"
          if "parse_value pf k d ?u = Inr (w, r2)" for w r2 kvs'
        proof -
          have "length (skip_ws (tl (skip_ws r2))) < length s"
            using parse_shorter(1) [OF that] length_skip_ws [of r2] lu False
              length_skip_ws [of "tl (skip_ws r2)"] length_tl [of "skip_ws r2"] by linarith
          then show ?thesis using 3 by (intro Suc.IH(3)) (simp_all add: m)
        qed
        then show ?thesis
          using v by (cases "parse_value pf k d ?u") (auto simp: m Inr p Let_def)
      qed (simp add: m is_prefix_def)
    qed (simp add: m)
  }
qed simp_all


section \<open>Round trip\<close>

text \<open>The strings that survive: code points of the Unicode range in which no high surrogate is
  followed by a low one (a pair of escapes is read as one character).\<close>

fun well_paired :: "pystr \<Rightarrow> bool" where
  "well_paired [] = True"
| "well_paired [c] = (c < 1114112)"
| "well_paired (c # e # s) =
     (c < 1114112 \<and> \<not> (55296 \<le> c \<and> c < 56320 \<and> 56320 \<le> e \<and> e < 57344) \<and> well_paired (e # s))"

lemma hex_val_digit: "d < 16 \<Longrightarrow> hex_val (hex_digit d) = Some d"
  by (auto simp: hex_val_def hex_digit_def)

lemma hex4_fixed: "n < 65536 \<Longrightarrow> hex4 (hex_fixed 4 n @ r) = Some (n, r)"
proof -
  assume n: "n < 65536"
  have e: "(4::nat) = Suc (Suc (Suc (Suc 0)))" by simp
  define a where "a = n div 16"
  define b where "b = a div 16"
  define c where "c = b div 16"
  have "c < 16" using n by (simp add: c_def b_def a_def less_mult_imp_div_less)
  then have "c mod 16 * 16 + b mod 16 = b" by (simp add: c_def)
  then have "((c mod 16 * 16 + b mod 16) * 16 + a mod 16) * 16 + n mod 16 = n"
    by (simp add: b_def a_def)
  then show ?thesis
    by (simp add: e hex_val_digit flip: a_def b_def c_def)
qed

lemma is_prefix_Cons [simp]: "is_prefix (a # p) (b # s) \<longleftrightarrow> a = b \<and> is_prefix p s"
  by (auto simp: is_prefix_def)

lemma is_prefix_Nil [simp]: "is_prefix [] s" "is_prefix (a # p) [] = False"
  by (simp_all add: is_prefix_def)

lemma low_surrogate_esc:
  assumes "e < 1114112" and "\<not> (56320 \<le> e \<and> e < 57344)"
  shows "low_surrogate (esc_char e @ t) = None"
proof -
  have "55296 + (e - 65536) div 1024 < 56320" using assms(1) by (simp add: less_mult_imp_div_less)
  then show ?thesis
    using assms by (auto simp: low_surrogate_def esc_char_def esc_u_def hex4_fixed)
qed

lemma scan_esc_u:
  "n < 55296 \<or> 56320 \<le> n \<Longrightarrow> n < 65536 \<Longrightarrow> scan_string acc (esc_u n @ t) = scan_string (n # acc) t"
  by (auto simp: esc_u_def hex4_fixed)

lemma scan_esc_char:
  assumes "c < 1114112" and "55296 \<le> c \<and> c < 56320 \<Longrightarrow> low_surrogate t = None"
  shows "scan_string acc (esc_char c @ t) = scan_string (c # acc) t"
proof (cases "c < 65536")
  case True
  then show ?thesis
    using assms by (auto simp: esc_char_def esc_u_def hex4_fixed simple_escape_def)
next
  case False
  define q where "q = (c - 65536) div 1024"
  define r where "r = (c - 65536) mod 1024"
  have qr: "c = 65536 + (q * 1024 + r)" and r: "r < 1024" and q: "q < 1024"
    using False assms(1) by (simp_all add: q_def r_def less_mult_imp_div_less)
  have "esc_char c = esc_u (55296 + q) @ esc_u (56320 + r)"
    using False by (simp add: esc_char_def q_def r_def)
  moreover have "low_surrogate (esc_u (56320 + r) @ t) = Some (56320 + r, t)"
    using r by (simp add: low_surrogate_def esc_u_def hex4_fixed)
  moreover have "scan_string acc (esc_u (55296 + q) @ u) =
      (case low_surrogate u of
         Some (m, v) \<Rightarrow> scan_string ((65536 + q * 1024 + (m - 56320)) # acc) v
       | None \<Rightarrow> scan_string ((55296 + q) # acc) u)" for u
    using q by (simp add: esc_u_def hex4_fixed split: option.split)
  ultimately show ?thesis using qr by (simp add: add.assoc)
qed

lemma scan_quote:
  "well_paired s \<Longrightarrow> scan_string acc (esc_string s @ 34 # r) = Inr (rev acc @ s, r)"
proof (induction s arbitrary: acc rule: well_paired.induct)
  case 1
  show ?case by (simp add: esc_string_def)
next
  case (2 c)
  then show ?case
    using scan_esc_char [of c "34 # r" acc] by (simp add: esc_string_def low_surrogate_def)
next
  case (3 c e s)
  have e: "e < 1114112" using 3(2) by (cases s) auto
  have "low_surrogate (esc_string (e # s) @ 34 # r) = None" if "55296 \<le> c \<and> c < 56320"
    using 3(2) that e low_surrogate_esc [of e "esc_string s @ 34 # r"]
    by (simp add: esc_string_def)
  then have "scan_string acc (esc_char c @ (esc_string (e # s) @ 34 # r)) =
      scan_string (c # acc) (esc_string (e # s) @ 34 # r)"
    using 3(2) by (intro scan_esc_char) auto
  then show ?case using 3 by (simp add: esc_string_def)
qed


text \<open>Integers.\<close>

lemma dec_digits_snoc: "10 \<le> n \<Longrightarrow> dec_digits n = dec_digits (n div 10) @ [48 + n mod 10]"
  by (subst dec_digits.simps) simp

lemma dec_digits_one: "n < 10 \<Longrightarrow> dec_digits n = [48 + n]"
  by (subst dec_digits.simps) simp

lemma dec_digits_ne [simp]: "dec_digits n \<noteq> []"
  by (subst dec_digits.simps) simp

lemma dec_digits_dig: "c \<in> set (dec_digits n) \<Longrightarrow> is_dig c"
proof (induction n rule: dec_digits.induct)
  case (1 n)
  then show ?case by (cases "n < 10") (auto simp: dec_digits_one dec_digits_snoc is_dig_def)
qed

lemma hd_dec_digits: "0 < n \<Longrightarrow> hd (dec_digits n) \<noteq> 48"
proof (induction n rule: dec_digits.induct)
  case (1 n)
  then show ?case by (cases "n < 10") (auto simp: dec_digits_one dec_digits_snoc)
qed

lemma digits_value_dec: "digits_value (digit_val pf 10) 10 0 False (dec_digits n) = Some n"
proof (induction n rule: dec_digits.induct)
  case (1 n)
  have dv: "digit_val pf 10 (48 + k) = Some k" if "k < 10" for k
    using that by (simp add: digit_val_def Let_def)
  show ?case
  proof (cases "n < 10")
    case False
    have nu: "\<forall>x\<in>set (dec_digits (n div 10)). x \<noteq> 95"
      using dec_digits_dig by (fastforce simp: is_dig_def)
    have "digits_value (digit_val pf 10) 10 0 False (dec_digits (n div 10) @ [48 + n mod 10])
        = map_option (\<lambda>m. m * 10 + n mod 10) (digits_value (digit_val pf 10) 10 0 False (dec_digits (n div 10)))"
      using digits_value_snoc [of "digit_val pf 10" "48 + n mod 10" "n mod 10" _ 10 0 False, OF dv _ nu]
        dec_digits_ne [of "n div 10"] by (simp split: list.splits)
    also have "\<dots> = Some n" using 1 False by simp
    finally show ?thesis using False by (simp add: dec_digits_snoc)
  qed (simp add: dec_digits_one dv)
qed

lemma int_str_chars: "c \<in> set (int_str n) \<Longrightarrow> is_dig c \<or> c = 45"
  by (auto simp: int_str_def dest: dec_digits_dig split: if_splits)

lemma int_of_int_str:
  assumes "length (dec_digits (nat \<bar>n\<bar>)) \<le> 4300"
  shows "int_of_str pf (int_str n) = Inr n"
proof -
  have "\<forall>c\<in>set (int_str n). \<not> py_space pf c"
    using int_str_chars by (fastforce simp: is_dig_def py_space_def)
  then have st: "strip_by (py_space pf) (int_str n) = int_str n" by (rule strip_by_none)
  have "hd (dec_digits (nat n)) \<noteq> 45 \<and> hd (dec_digits (nat n)) \<noteq> 43"
    using dec_digits_dig [OF hd_in_set [OF dec_digits_ne], of "nat n"] by (simp add: is_dig_def)
  then have sg: "split_sign (int_str n) = (n < 0, dec_digits (nat \<bar>n\<bar>))"
    using dec_digits_ne [of "nat n"] by (auto simp: split_sign_def int_str_def split: list.splits)
  have "filter (\<lambda>c. c \<noteq> 95) (dec_digits k) = dec_digits k" for k
    using dec_digits_dig by (fastforce simp: filter_id_conv is_dig_def)
  then show ?thesis
    using assms by (simp add: int_of_str_def st sg digits_value_dec apply_sign_def)
qed

text \<open>What may follow a value: nothing, a separator, a closing bracket or white space.\<close>

definition follows :: "pystr \<Rightarrow> bool" where
  "follows r \<longleftrightarrow> r = [] \<or> hd r = 44 \<or> hd r = 93 \<or> hd r = 125 \<or> json_ws (hd r)"

lemma num_int_dec:
  assumes "follows r"
  shows "num_int (dec_digits m @ r) = Some (dec_digits m, r)"
proof -
  have nd: "r = [] \<or> \<not> is_dig (hd r)" using assms by (auto simp: follows_def is_dig_def json_ws_def)
  have all: "\<forall>c\<in>set (dec_digits m). is_dig c" using dec_digits_dig by blast
  then have "takeWhile is_dig (dec_digits m @ r) = dec_digits m" "dropWhile is_dig (dec_digits m @ r) = r"
    using nd by (cases r; auto simp: takeWhile_append dropWhile_append)+
  moreover obtain c cs where c: "dec_digits m = c # cs" by (cases "dec_digits m") auto
  moreover have "is_dig c" using all c by simp
  moreover have "c \<noteq> 48" if "m \<noteq> 0" using hd_dec_digits [of m] that c by simp
  moreover have "dec_digits 0 = [48]" by (simp add: dec_digits_one)
  ultimately show ?thesis by (cases "m = 0") (auto simp: num_int_def)
qed

lemma scan_number_int:
  assumes "follows r" and "length (dec_digits (nat \<bar>n\<bar>)) \<le> 4300"
  shows "scan_number pf (int_str n @ r) = Inr (JInt n, r)"
proof -
  have "hd (dec_digits (nat n)) \<noteq> 45"
    using dec_digits_dig [OF hd_in_set [OF dec_digits_ne], of "nat n"] by (simp add: is_dig_def)
  then have "num_sign (int_str n @ r) = (if n < 0 then [45] else [], dec_digits (nat \<bar>n\<bar>) @ r)"
    by (cases "dec_digits (nat n)") (auto simp: num_sign_def int_str_def)
  moreover have "num_frac r = ([], r)" "num_exp r = ([], r)"
    using assms(1) by (auto simp: num_frac_def num_exp_def follows_def json_ws_def split: list.splits)
  moreover have "(if n < 0 then [45] else []) @ dec_digits (nat \<bar>n\<bar>) = int_str n"
    by (simp add: int_str_def)
  ultimately show ?thesis
    using int_of_int_str [OF assms(2)] num_int_dec [OF assms(1)]
    by (simp add: scan_number_def)
qed

text \<open>Values without floats.\<close>

fun dumpable :: "json \<Rightarrow> bool" where
  "dumpable (JInt n) = (length (dec_digits (nat \<bar>n\<bar>)) \<le> 4300)"
| "dumpable (JFloat l) = False"
| "dumpable (JStr s) = well_paired s"
| "dumpable (JArr vs) = list_all dumpable vs"
| "dumpable (JObj d) = (distinct (map fst d) \<and> list_all (\<lambda>(k, v). well_paired k \<and> dumpable v) d)"
| "dumpable _ = True"

fun jdepth :: "json \<Rightarrow> nat" where
  "jdepth (JArr vs) = Suc (fold max (map jdepth vs) 0)"
| "jdepth (JObj d) = Suc (fold max (map (\<lambda>(k, v). jdepth v) d) 0)"
| "jdepth _ = 0"

lemma fold_max_le: "fold max xs a \<le> d \<longleftrightarrow> a \<le> d \<and> (\<forall>x\<in>set xs. x \<le> (d::nat))"
  by (induction xs arbitrary: a) auto

lemma dump_hd: "dumpable v \<Longrightarrow> dump pf sp v \<noteq> [] \<and> \<not> json_ws (hd (dump pf sp v)) \<and> hd (dump pf sp v) \<noteq> 93 \<and> hd (dump pf sp v) \<noteq> 125"
proof (cases v)
  case (JInt n)
  have ne: "int_str n \<noteq> []" by (simp add: int_str_def)
  then show ?thesis using JInt int_str_chars [OF hd_in_set [OF ne]] by (auto simp: is_dig_def json_ws_def)
qed (auto simp: quote_def json_ws_def)

lemma skip_ws_id: "s \<noteq> [] \<Longrightarrow> \<not> json_ws (hd s) \<Longrightarrow> skip_ws s = s"
  by (cases s) (auto simp: skip_ws_def)

lemma skip_ws_dump: "dumpable v \<Longrightarrow> skip_ws (dump pf sp v @ r) = dump pf sp v @ r"
  using dump_hd [of v pf sp] by (intro skip_ws_id) auto

lemma skip_ws_sep [simp]: "list_all json_ws sp \<Longrightarrow> skip_ws (sp @ s) = skip_ws s"
  by (induction sp) (auto simp: skip_ws_def)

lemma skip_ws_other [simp]: "\<not> json_ws c \<Longrightarrow> skip_ws (c # s) = c # s"
  by (simp add: skip_ws_def)

lemma json_ws_seps [simp]: "\<not> json_ws 34" "\<not> json_ws 44" "\<not> json_ws 58" "\<not> json_ws 91" "\<not> json_ws 93" "\<not> json_ws 123" "\<not> json_ws 125"
  by (simp_all add: json_ws_def)

lemma follows_seps [simp]: "follows (44 # s)" "follows (93 # s)" "follows (125 # s)" "follows []"
  by (simp_all add: follows_def)


text \<open>The container loops, given that each value in them is read back.\<close>

definition reads_back :: "platform \<Rightarrow> pystr \<Rightarrow> json \<Rightarrow> bool" where
  "reads_back pf sp v \<longleftrightarrow>
     (\<forall>n d r. follows r \<longrightarrow> jdepth v \<le> d \<longrightarrow> 2 * length (dump pf sp v @ r) < n
        \<longrightarrow> parse_value pf n d (dump pf sp v @ r) = Inr (v, r))"

lemma reads_backD:
  "reads_back pf sp v \<Longrightarrow> follows r \<Longrightarrow> jdepth v \<le> d \<Longrightarrow> 2 * length (dump pf sp v @ r) < n
     \<Longrightarrow> parse_value pf n d (dump pf sp v @ r) = Inr (v, r)"
  by (simp add: reads_back_def)

lemma parse_elems_dump:
  assumes "list_all json_ws sp" and "\<forall>x\<in>set (v # vs). reads_back pf sp x \<and> dumpable x \<and> jdepth x \<le> d"
    and "2 * length (join_with (44 # sp) (map (dump pf sp) (v # vs)) @ 93 # r) + 1 < n"
  shows "parse_elems pf n d acc (join_with (44 # sp) (map (dump pf sp) (v # vs)) @ 93 # r)
    = Inr (JArr (rev acc @ v # vs), r)"
  using assms
proof (induction vs arbitrary: v acc n)
  case Nil
  then obtain m where "n = Suc m" by (cases n) auto
  with Nil show ?case by (simp add: reads_backD)
next
  case (Cons w ws)
  then obtain m where m: "n = Suc m" by (cases n) auto
  let ?rest = "join_with (44 # sp) (map (dump pf sp) (w # ws)) @ 93 # r"
  have "parse_value pf m d (dump pf sp v @ 44 # sp @ ?rest) = Inr (v, 44 # sp @ ?rest)"
    using Cons.prems by (intro reads_backD) (simp_all add: m)
  moreover have "skip_ws ?rest = ?rest"
    using Cons.prems skip_ws_dump [of w pf sp] by (cases ws) auto
  moreover have "parse_elems pf m d (v # acc) ?rest = Inr (JArr (rev (v # acc) @ w # ws), r)"
    using Cons.prems by (intro Cons.IH) (simp_all add: m)
  ultimately show ?case using Cons.prems(1) by (simp add: m)
qed

definition dump_pair :: "platform \<Rightarrow> pystr \<Rightarrow> pystr \<times> json \<Rightarrow> pystr" where
  "dump_pair pf sp p = quote (fst p) @ 58 # sp @ dump pf sp (snd p)"

lemma length_dump_pair: "length (dump_pair pf sp p) = length (quote (fst p)) + Suc (length sp) + length (dump pf sp (snd p))"
  by (simp add: dump_pair_def)

lemma dict_set_fresh: "k \<notin> fst ` set d \<Longrightarrow> dict_set k v d = d @ [(k, v)]"
  by (induction k v d rule: dict_set.induct) auto

lemma parse_members_dump:
  assumes "list_all json_ws sp" and "\<forall>x\<in>set (p # ps). reads_back pf sp (snd x) \<and> dumpable (snd x) \<and> jdepth (snd x) \<le> d \<and> well_paired (fst x)"
    and "distinct (map fst (acc @ p # ps))"
    and "2 * length (join_with (44 # sp) (map (dump_pair pf sp) (p # ps)) @ 125 # r) + 1 < n"
  shows "parse_members pf n d acc (join_with (44 # sp) (map (dump_pair pf sp) (p # ps)) @ 125 # r)
    = Inr (JObj (acc @ p # ps), r)"
  using assms
proof (induction ps arbitrary: p acc n)
  case Nil
  then obtain m where m: "n = Suc m" by (cases n) auto
  obtain k v where p: "p = (k, v)" by fastforce
  have "parse_value pf m d (dump pf sp v @ 125 # r) = Inr (v, 125 # r)"
    using Nil by (intro reads_backD) (simp_all add: m p length_dump_pair)
  moreover have "dict_set k v acc = acc @ [(k, v)]" using Nil(3) by (intro dict_set_fresh) (simp add: p)
  ultimately show ?case
    using Nil(1,2) scan_quote [of k "[]"] skip_ws_dump [of v pf sp]
    by (simp add: m p dump_pair_def quote_def)
next
  case (Cons q qs)
  then obtain m where m: "n = Suc m" by (cases n) auto
  obtain k v where p: "p = (k, v)" by fastforce
  let ?rest = "join_with (44 # sp) (map (dump_pair pf sp) (q # qs)) @ 125 # r"
  have "parse_value pf m d (dump pf sp v @ 44 # sp @ ?rest) = Inr (v, 44 # sp @ ?rest)"
    using Cons.prems by (intro reads_backD) (simp_all add: m p length_dump_pair)
  moreover have "skip_ws ?rest = ?rest"
    by (cases qs) (simp_all add: dump_pair_def quote_def)
  moreover have "parse_members pf m d (acc @ [(k, v)]) ?rest = Inr (JObj ((acc @ [(k, v)]) @ q # qs), r)"
    using Cons.prems by (intro Cons.IH) (simp_all add: m p length_dump_pair)
  moreover have "dict_set k v acc = acc @ [(k, v)]"
    using Cons.prems(3) by (intro dict_set_fresh) (simp add: p)
  moreover have "dump_pair pf sp (k, v) = 34 # esc_string k @ 34 # 58 # sp @ dump pf sp v"
    by (simp add: dump_pair_def quote_def)
  ultimately show ?case
    using Cons.prems(1,2) scan_quote [of k "[]"] skip_ws_dump [of v pf sp]
    by (simp add: m p)
qed

lemma dumpable_reads_back:
  assumes sp: "list_all json_ws sp"
  shows "dumpable v \<Longrightarrow> reads_back pf sp v"
proof (induction v)
  case (JInt n)
  have dig: "is_dig (hd (dec_digits k))" for k
    using dec_digits_dig [OF hd_in_set [OF dec_digits_ne]] .
  show ?case
    unfolding reads_back_def
  proof (intro allI impI)
    fix m d r assume "follows r" and "2 * length (dump pf sp (JInt n) @ r) < m"
    moreover obtain k where "m = Suc k" using calculation by (cases m) auto
    moreover obtain c cs where "dec_digits (nat \<bar>n\<bar>) = c # cs" by (cases "dec_digits (nat \<bar>n\<bar>)") auto
    moreover have "is_dig c" using dig [of "nat \<bar>n\<bar>"] calculation by simp
    ultimately show "parse_value pf m d (dump pf sp (JInt n) @ r) = Inr (JInt n, r)"
      using JInt scan_number_int [of r n pf] by (auto simp: is_dig_def int_str_def split: if_splits)
  qed
next
  case (JStr s)
  then show ?case
    using scan_quote [of s "[]"] by (auto simp: reads_back_def quote_def elim: less_natE)
next
  case (JArr vs)
  show ?case
    unfolding reads_back_def
  proof (intro allI impI)
    fix n d r assume a: "follows r" "jdepth (JArr vs) \<le> d" "2 * length (dump pf sp (JArr vs) @ r) < n"
    then obtain m where m: "n = Suc m" by (cases n) auto
    have le: "\<forall>x\<in>set vs. jdepth x \<le> d - 1" using a(2) by (cases d) (auto simp: fold_max_le)
    show "parse_value pf n d (dump pf sp (JArr vs) @ r) = Inr (JArr vs, r)"
    proof (cases vs)
      case (Cons v ws)
      let ?t = "join_with (44 # sp) (map (dump pf sp) (v # ws)) @ 93 # r"
      have "parse_elems pf m (d - 1) [] ?t = Inr (JArr (rev [] @ v # ws), r)"
        using sp a(3) le JArr Cons by (intro parse_elems_dump) (auto simp: m list_all_iff)
      moreover have "skip_ws ?t = ?t" "\<not> is_prefix [93] ?t"
        using JArr.prems Cons skip_ws_dump [of v pf sp] dump_hd [of v pf sp]
        by (cases ws; cases "dump pf sp v"; auto)+
      ultimately show ?thesis using a by (simp add: m Cons)
    qed (use a in \<open>simp add: m\<close>)
  qed
next
  case (JObj kvs)
  have dp: "map (\<lambda>(k, v). quote k @ 58 # sp @ dump pf sp v) kvs = map (dump_pair pf sp) kvs"
    by (auto simp: dump_pair_def)
  show ?case
    unfolding reads_back_def
  proof (intro allI impI)
    fix n d r assume a: "follows r" "jdepth (JObj kvs) \<le> d" "2 * length (dump pf sp (JObj kvs) @ r) < n"
    then obtain m where m: "n = Suc m" by (cases n) auto
    have le: "\<forall>x\<in>set kvs. jdepth (snd x) \<le> d - 1"
      using a(2) by (cases d) (auto simp: fold_max_le split_beta)
    have ok: "\<forall>x\<in>set kvs. reads_back pf sp (snd x) \<and> dumpable (snd x) \<and> well_paired (fst x)"
      using JObj by (fastforce simp: list_all_iff)
    show "parse_value pf n d (dump pf sp (JObj kvs) @ r) = Inr (JObj kvs, r)"
    proof (cases kvs)
      case (Cons p ps)
      let ?t = "join_with (44 # sp) (map (dump_pair pf sp) (p # ps)) @ 125 # r"
      have "parse_members pf m (d - 1) [] ?t = Inr (JObj ([] @ p # ps), r)"
        using sp a(3) le ok JObj.prems unfolding dump.simps dp
        by (intro parse_members_dump) (simp_all add: m Cons)
      moreover have "skip_ws ?t = ?t" "\<not> is_prefix [125] ?t"
        by (cases ps; simp add: dump_pair_def quote_def)+
      ultimately show ?thesis using a unfolding dump.simps dp by (simp add: m Cons)
    qed (use a in \<open>simp add: m\<close>)
  qed
next
  case (JBool b)
  have "parse_value pf n d (dump pf sp (JBool b) @ r) = Inr (JBool b, r)"
    if "2 * length (dump pf sp (JBool b) @ r) < n" for n d r
    using that by (cases n; cases b) simp_all
  then show ?case by (simp only: reads_back_def) blast
qed (auto simp: reads_back_def elim!: less_natE)

lemma loads_dumps:
  assumes "list_all json_ws sp" and "dumpable v" and "jdepth v \<le> json_depth pf"
  shows "dumps pf sp v = Inr (dump pf sp v)" and "loads pf (dump pf sp v) = Inr v"
proof -
  have "printable_ints v" using assms(2) by (induction v) (auto simp: list_all_iff)
  then show "dumps pf sp v = Inr (dump pf sp v)" by (simp add: dumps_def)
  have "parse_value pf (Suc (2 * length (dump pf sp v))) (json_depth pf) (dump pf sp v @ []) = Inr (v, [])"
    using assms by (intro reads_backD dumpable_reads_back) simp_all
  moreover have "skip_ws (dump pf sp v) = dump pf sp v" using skip_ws_dump [OF assms(2), of pf sp "[]"] by simp
  ultimately show "loads pf (dump pf sp v) = Inr v" by (simp add: loads_def skip_ws_def del: parse_value.simps)
qed

section \<open>Properties\<close>



text \<open>
  the parser needs at most twice as many calls as the text has characters: with any larger
  bound \<^verbatim>\<open>json.loads\<close> gives the same result, so the bound never decides it.
\<close>

theorem json_calls_suffice:
  assumes "2 * length s < n"
  shows "loads pf s = res_bind (parse_value pf n (json_depth pf) (skip_ws s))
    (\<lambda>(v, r). if skip_ws r = [] then Inr v else Inl ValueError)"
proof -
  have "2 * length (skip_ws s) < n" using assms length_skip_ws [of s] by simp
  moreover have "2 * length (skip_ws s) < Suc (2 * length s)" using length_skip_ws [of s] by simp
  ultimately have "parse_value pf (Suc (2 * length s)) (json_depth pf) (skip_ws s) = parse_value pf n (json_depth pf) (skip_ws s)"
    by (intro parse_fuel(1))
  then show ?thesis by (simp only: loads_def)
qed

theorem json_calls_suffice_witness:
  "loads ascii_platform [49] = res_bind (parse_value ascii_platform 3 990 [49])
    (\<lambda>(v, r). if skip_ws r = [] then Inr v else Inl ValueError)"
  using json_calls_suffice [of "[49]" 3 ascii_platform]
  by (simp add: ascii_platform_def json_ws_def del: parse_value.simps)

end
