(* ===== verification/Models.thy ===== *)
theory Models
  imports Framing Json Utf8
begin

text \<open>
  The wire protocol of \<^verbatim>\<open>protocol/models.py\<close>: message types, envelopes, the binary framing of
  control messages, and the payload classes that validate what a peer sent.
\<close>

definition MAGIC_BYTES :: bytes where "MAGIC_BYTES = blit ''FY''"
definition PROTOCOL_VERSION :: int where "PROTOCOL_VERSION = 1"
definition MAX_CONTROL_FRAME_SIZE :: nat where "MAX_CONTROL_FRAME_SIZE = 1048576"

datatype message_type =
    HELLO | AUTH_CHALLENGE | AUTH_RESPONSE | SESSION_ESTABLISHED | SESSION_ERROR | DISCONNECT
  | HANDSHAKE_INIT | HANDSHAKE_RESPONSE | PAIR_REQUEST | PAIR_CONFIRM | PAIR_DECISION
  | TRANSFER_REQUEST | TRANSFER_ACCEPT | TRANSFER_REJECT | TRANSFER_CHUNK | TRANSFER_PROGRESS
  | TRANSFER_CANCEL | TRANSFER_COMPLETE | TRANSFER_RESULT | TRANSFER_ERROR
  | TRANSFER_RESUME_REQUEST | TRANSFER_RESUME_ACCEPT | TRANSFER_RESUME_REJECT
  | BATCH_REQUEST | BATCH_ACCEPT | BATCH_REJECT | BATCH_CANCEL | BATCH_COMPLETE
  | CLIPBOARD_SYNC | CLIPBOARD_SYNC_ACK | CAPABILITIES | NOTIFICATION_POST | NOTIFICATION_REMOVE

fun message_value :: "message_type \<Rightarrow> pystr" where
  "message_value HELLO = lit ''HELLO''"
| "message_value AUTH_CHALLENGE = lit ''AUTH_CHALLENGE''"
| "message_value AUTH_RESPONSE = lit ''AUTH_RESPONSE''"
| "message_value SESSION_ESTABLISHED = lit ''SESSION_ESTABLISHED''"
| "message_value SESSION_ERROR = lit ''SESSION_ERROR''"
| "message_value DISCONNECT = lit ''DISCONNECT''"
| "message_value HANDSHAKE_INIT = lit ''HANDSHAKE_INIT''"
| "message_value HANDSHAKE_RESPONSE = lit ''HANDSHAKE_RESPONSE''"
| "message_value PAIR_REQUEST = lit ''PAIR_REQUEST''"
| "message_value PAIR_CONFIRM = lit ''PAIR_CONFIRM''"
| "message_value PAIR_DECISION = lit ''PAIR_DECISION''"
| "message_value TRANSFER_REQUEST = lit ''TRANSFER_REQUEST''"
| "message_value TRANSFER_ACCEPT = lit ''TRANSFER_ACCEPT''"
| "message_value TRANSFER_REJECT = lit ''TRANSFER_REJECT''"
| "message_value TRANSFER_CHUNK = lit ''TRANSFER_CHUNK''"
| "message_value TRANSFER_PROGRESS = lit ''TRANSFER_PROGRESS''"
| "message_value TRANSFER_CANCEL = lit ''TRANSFER_CANCEL''"
| "message_value TRANSFER_COMPLETE = lit ''TRANSFER_COMPLETE''"
| "message_value TRANSFER_RESULT = lit ''TRANSFER_RESULT''"
| "message_value TRANSFER_ERROR = lit ''TRANSFER_ERROR''"
| "message_value TRANSFER_RESUME_REQUEST = lit ''TRANSFER_RESUME_REQUEST''"
| "message_value TRANSFER_RESUME_ACCEPT = lit ''TRANSFER_RESUME_ACCEPT''"
| "message_value TRANSFER_RESUME_REJECT = lit ''TRANSFER_RESUME_REJECT''"
| "message_value BATCH_REQUEST = lit ''BATCH_REQUEST''"
| "message_value BATCH_ACCEPT = lit ''BATCH_ACCEPT''"
| "message_value BATCH_REJECT = lit ''BATCH_REJECT''"
| "message_value BATCH_CANCEL = lit ''BATCH_CANCEL''"
| "message_value BATCH_COMPLETE = lit ''BATCH_COMPLETE''"
| "message_value CLIPBOARD_SYNC = lit ''CLIPBOARD_SYNC''"
| "message_value CLIPBOARD_SYNC_ACK = lit ''CLIPBOARD_SYNC_ACK''"
| "message_value CAPABILITIES = lit ''CAPABILITIES''"
| "message_value NOTIFICATION_POST = lit ''NOTIFICATION_POST''"
| "message_value NOTIFICATION_REMOVE = lit ''NOTIFICATION_REMOVE''"

section \<open>Envelopes\<close>

text \<open>\<^verbatim>\<open>FerryEnvelope.from_dict\<close> copies the fields of the document without converting them, so they
  are JSON values.\<close>

record envelope =
  ev_type :: json
  ev_payload :: json
  ev_protocol_version :: json
  ev_message_id :: json
  ev_reply_to :: json
  ev_timestamp :: json

definition envelope_to_dict :: "envelope \<Rightarrow> json" where
  "envelope_to_dict e = JObj
     [(lit ''protocol_version'', ev_protocol_version e),
      (lit ''message_id'', ev_message_id e),
      (lit ''reply_to'', ev_reply_to e),
      (lit ''timestamp'', ev_timestamp e),
      (lit ''type'', ev_type e),
      (lit ''payload'', ev_payload e)]"

definition envelope_to_json :: "platform \<Rightarrow> envelope \<Rightarrow> pystr res" where
  "envelope_to_json pf e = dumps pf [32] (envelope_to_dict e)"

text \<open>\<open>fresh\<close> is \<^verbatim>\<open>str(uuid.uuid4())\<close> and \<open>now\<close> the clock, the defaults of missing fields.\<close>

definition envelope_from_dict :: "pystr \<Rightarrow> int \<Rightarrow> json \<Rightarrow> envelope res" where
  "envelope_from_dict fresh now data =
     res_bind (obj_get data (lit ''protocol_version'') (JInt PROTOCOL_VERSION)) (\<lambda>pv.
     res_bind (obj_get data (lit ''message_id'') (JStr fresh)) (\<lambda>mid.
     res_bind (obj_get data (lit ''reply_to'') JNull) (\<lambda>rt.
     res_bind (obj_get data (lit ''timestamp'') (JInt now)) (\<lambda>ts.
     res_bind (obj_item data (lit ''type'')) (\<lambda>ty.
     res_bind (obj_get data (lit ''payload'') (JObj [])) (\<lambda>pl.
       Inr \<lparr>ev_type = ty, ev_payload = pl, ev_protocol_version = pv, ev_message_id = mid,
            ev_reply_to = rt, ev_timestamp = ts\<rparr>))))))"

definition envelope_from_json :: "platform \<Rightarrow> pystr \<Rightarrow> int \<Rightarrow> pystr \<Rightarrow> envelope res" where
  "envelope_from_json pf fresh now s = res_bind (loads pf s) (envelope_from_dict fresh now)"

text \<open>\<^verbatim>\<open>FerryEnvelope(type=..., payload=...)\<close> with the default fields.\<close>

definition make_envelope :: "pystr \<Rightarrow> int \<Rightarrow> message_type \<Rightarrow> json \<Rightarrow> envelope" where
  "make_envelope fresh now ty pl =
     \<lparr>ev_type = JStr (message_value ty), ev_payload = pl, ev_protocol_version = JInt PROTOCOL_VERSION,
      ev_message_id = JStr fresh, ev_reply_to = JNull, ev_timestamp = JInt now\<rparr>"

section \<open>Control frames\<close>

definition encode_frame :: "platform \<Rightarrow> envelope \<Rightarrow> bytes res" where
  "encode_frame pf e =
     res_bind (envelope_to_json pf e) (\<lambda>js.
     res_bind (utf8_encode js) (\<lambda>payload_bytes.
       if MAX_CONTROL_FRAME_SIZE < length payload_bytes then Inl ValueError
       else res_bind (struct_pack 4 (int (length payload_bytes))) (\<lambda>len.
         Inr (MAGIC_BYTES @ len @ payload_bytes))))"

definition decode_frame :: "platform \<Rightarrow> pystr \<Rightarrow> int \<Rightarrow> bytes \<Rightarrow> (envelope option \<times> nat) res" where
  "decode_frame pf fresh now buffer =
     (if length buffer < 6 then Inr (None, 0)
      else if take 2 buffer \<noteq> MAGIC_BYTES then Inl ValueError
      else res_bind (struct_unpack 4 (take 4 (drop 2 buffer))) (\<lambda>len.
        if MAX_CONTROL_FRAME_SIZE < len then Inl ValueError
        else if length buffer < 6 + len then Inr (None, 0)
        else res_bind (utf8_decode (take len (drop 6 buffer))) (\<lambda>js.
             res_bind (envelope_from_json pf fresh now js) (\<lambda>e.
               Inr (Some e, 6 + len)))))"

text \<open>\<^verbatim>\<open>FerryService._recv_plain\<close>.\<close>

definition recv_plain :: "platform \<Rightarrow> pystr \<Rightarrow> int \<Rightarrow> bytes \<Rightarrow> (envelope \<times> bytes) res" where
  "recv_plain pf fresh now stream =
     res_bind (readexactly 6 stream) (\<lambda>(header, s1).
       if take 2 header \<noteq> MAGIC_BYTES then Inl ValueError
       else res_bind (struct_unpack 4 (take 4 (drop 2 header))) (\<lambda>len.
         if MAX_CONTROL_FRAME_SIZE < len then Inl ValueError
         else res_bind (readexactly len s1) (\<lambda>(payload_bytes, s2).
              res_bind (utf8_decode payload_bytes) (\<lambda>js.
              res_bind (envelope_from_json pf fresh now js) (\<lambda>e. Inr (e, s2))))))"


text \<open>The envelopes a peer reads back unchanged.\<close>

definition sendable_envelope :: "platform \<Rightarrow> envelope \<Rightarrow> bool" where
  "sendable_envelope pf e \<longleftrightarrow>
     dumpable (envelope_to_dict e) \<and> jdepth (envelope_to_dict e) \<le> json_depth pf"

lemma envelope_from_to_dict [simp]: "envelope_from_dict fresh now (envelope_to_dict e) = Inr e"
  by (simp add: envelope_from_dict_def envelope_to_dict_def)

lemma envelope_json_roundtrip:
  assumes "sendable_envelope pf e" and "envelope_to_json pf e = Inr js"
  shows "envelope_from_json pf fresh now js = Inr e"
proof -
  have "js = dump pf [32] (envelope_to_dict e)"
    using assms loads_dumps(1) [of "[32]" "envelope_to_dict e" pf]
    by (simp add: envelope_to_json_def sendable_envelope_def json_ws_def)
  then show ?thesis
    using assms loads_dumps(2) [of "[32]" "envelope_to_dict e" pf]
    by (simp add: envelope_from_json_def sendable_envelope_def json_ws_def)
qed

lemma encode_frame_okE:
  assumes "encode_frame pf e = Inr f"
  obtains js body where "envelope_to_json pf e = Inr js" and "utf8_encode js = Inr body"
    and "length body \<le> MAX_CONTROL_FRAME_SIZE"
    and "f = MAGIC_BYTES @ be_bytes 4 (length body) @ body"
  using assms
  by (auto simp: encode_frame_def res_simps struct_pack_def split: if_splits)

lemma length_MAGIC [simp]: "length MAGIC_BYTES = 2"
  by (simp add: MAGIC_BYTES_def)

lemma be_nat_control_length:
  "n \<le> MAX_CONTROL_FRAME_SIZE \<Longrightarrow> be_nat (be_bytes 4 n) = n"
  by (simp add: be_nat_be_bytes MAX_CONTROL_FRAME_SIZE_def)

lemma recv_plain_frame:
  assumes "sendable_envelope pf e" and "encode_frame pf e = Inr f"
  shows "recv_plain pf fresh now (f @ r) = Inr (e, r)"
proof -
  obtain js body where js: "envelope_to_json pf e = Inr js" and body: "utf8_encode js = Inr body"
    and le: "length body \<le> MAX_CONTROL_FRAME_SIZE" and f: "f = MAGIC_BYTES @ be_bytes 4 (length body) @ body"
    using assms(2) by (rule encode_frame_okE)
  have "f @ r = (MAGIC_BYTES @ be_bytes 4 (length body)) @ (body @ r)" by (simp add: f)
  then have "readexactly 6 (f @ r) = Inr (MAGIC_BYTES @ be_bytes 4 (length body), body @ r)"
    by (simp only: readexactly_append) (simp add: readexactly_def)
  then show ?thesis
    using le be_nat_control_length [OF le] utf8_decode_encode [OF body] envelope_json_roundtrip [OF assms(1) js]
    by (simp add: recv_plain_def struct_unpack_def)
qed

lemma recv_plain_cut:
  assumes "encode_frame pf e = Inr f" and "k < length f"
  shows "recv_plain pf fresh now (take k f) = Inl IncompleteReadError"
proof -
  obtain body where le: "length body \<le> MAX_CONTROL_FRAME_SIZE"
    and f: "f = (MAGIC_BYTES @ be_bytes 4 (length body)) @ body"
    using assms(1) by (auto elim: encode_frame_okE)
  let ?h = "MAGIC_BYTES @ be_bytes 4 (length body)"
  have lh: "length ?h = 6" by simp
  show ?thesis
  proof (cases "k < 6")
    case True
    then show ?thesis using assms(2) by (simp add: recv_plain_def readexactly_def)
  next
    case False
    then have "take k f = ?h @ take (k - 6) body" unfolding f using lh by simp
    moreover have "readexactly 6 (?h @ take (k - 6) body) = Inr (?h, take (k - 6) body)"
      using lh by (simp only: readexactly_append)
    moreover have "readexactly (length body) (take (k - 6) body) = Inl IncompleteReadError"
      using assms(2) False by (intro readexactly_short) (simp add: f)
    ultimately show ?thesis
      using le be_nat_control_length [OF le] by (simp add: recv_plain_def struct_unpack_def)
  qed
qed

interpretation plain: stream_codec "encode_frame pf" "recv_plain pf fresh now" "sendable_envelope pf"
  for pf fresh now
  by unfold_locales (simp_all add: recv_plain_frame recv_plain_cut)

text \<open>The buffer decoder and the stream reader accept the same frames.\<close>

lemma decode_frame_iff_recv_plain:
  "decode_frame pf fresh now buf = Inr (Some e, n) \<and> r = drop n buf
     \<longleftrightarrow> recv_plain pf fresh now buf = Inr (e, r) \<and> n = length buf - length r"
proof (cases "length buf < 6")
  case False
  define len where "len = be_nat (take 4 (drop 2 buf))"
  have t: "take 2 (take 6 buf) = take 2 buf" "take 4 (drop 2 (take 6 buf)) = take 4 (drop 2 buf)"
    "length (take 4 (drop 2 buf)) = 4"
    using False by (simp_all add: drop_take)
  show ?thesis
  proof (cases "length buf < 6 + len")
    case True
    then show ?thesis
      using False t by (auto simp: decode_frame_def recv_plain_def readexactly_def struct_unpack_def len_def [symmetric])
  next
    case ge: False
    then show ?thesis
      using False t
      by (auto simp: decode_frame_def recv_plain_def readexactly_def struct_unpack_def res_simps
          len_def [symmetric] add.commute)
  qed
qed (auto simp: decode_frame_def recv_plain_def readexactly_def)

section \<open>Properties\<close>

text \<open>
  C36: any sequence of envelopes sent with \<^verbatim>\<open>_send_plain\<close> is received by \<^verbatim>\<open>_recv_plain\<close>, in order and
  unchanged, whatever follows on the stream; and a stream cut anywhere inside the sequence raises
  \<^verbatim>\<open>IncompleteReadError\<close> instead of yielding a wrong message.
\<close>

theorem control_stream:
  assumes "list_all (sendable_envelope pf) es" and "write_all (encode_frame pf) es = Inr bs"
  shows "read_n (recv_plain pf fresh now) (length es) (bs @ r) = Inr (es, r)
    \<and> (k < length bs \<longrightarrow> read_n (recv_plain pf fresh now) (length es) (take k bs) = Inl IncompleteReadError)"
  using plain.read_n_write_all [OF assms] plain.read_n_cut [OF assms] by blast

text \<open>A small envelope.\<close>

definition sample_envelope :: envelope where
  "sample_envelope = make_envelope (lit ''id'') 3 HELLO (JObj [(lit ''a'', JNull)])"

lemma sample_envelope_sendable: "sendable_envelope ascii_platform sample_envelope"
  by (simp add: sendable_envelope_def sample_envelope_def make_envelope_def envelope_to_dict_def
      PROTOCOL_VERSION_def dec_digits_one ascii_platform_def)

lemma sample_envelope_encoded: "\<exists>f. encode_frame ascii_platform sample_envelope = Inr f \<and> f \<noteq> []"
proof -
  let ?s = "dump ascii_platform [32] (envelope_to_dict sample_envelope)"
  have s: "envelope_to_json ascii_platform sample_envelope = Inr ?s"
    using loads_dumps(1) [of "[32]" "envelope_to_dict sample_envelope" ascii_platform] sample_envelope_sendable
    by (simp add: envelope_to_json_def sendable_envelope_def json_ws_def)
  have a: "length ?s < 200" and c: "\<forall>c\<in>set ?s. c < 128"
    by (simp_all add: sample_envelope_def make_envelope_def envelope_to_dict_def PROTOCOL_VERSION_def
        quote_def esc_string_def esc_char_def int_str_def dec_digits_one)
  have "list_all scalar ?s" using c by (auto simp: list_all_iff scalar_def)
  moreover have "length (utf8_bytes x) = length x" if "\<forall>c\<in>set x. c < 128" for x
    using that by (induction x) (auto simp: utf8_cp_def)
  ultimately show ?thesis
    using s a c by (simp add: encode_frame_def utf8_encode_def MAX_CONTROL_FRAME_SIZE_def struct_pack_def MAGIC_BYTES_def)
qed

theorem control_stream_witness:
  "\<exists>bs. write_all (encode_frame ascii_platform) [sample_envelope, sample_envelope] = Inr bs
    \<and> read_n (recv_plain ascii_platform [] 0) 2 (bs @ [1, 2, 3]) = Inr ([sample_envelope, sample_envelope], [1, 2, 3])
    \<and> read_n (recv_plain ascii_platform [] 0) 2 (take 1 bs) = Inl IncompleteReadError"
proof -
  obtain f where f: "encode_frame ascii_platform sample_envelope = Inr f" "f \<noteq> []"
    using sample_envelope_encoded by blast
  then have w: "write_all (encode_frame ascii_platform) [sample_envelope, sample_envelope] = Inr (f @ f)" by simp
  have "1 < length (f @ f)" using f(2) by (cases f) auto
  then show ?thesis
    using control_stream [OF _ w, of "[]" 0 "[1, 2, 3]" 1] sample_envelope_sendable w
    by (simp add: numeral_2_eq_2 del: read_n.simps)
qed

text \<open>
  \<^verbatim>\<open>decode_frame\<close> on a buffer and \<^verbatim>\<open>_recv_plain\<close> on a stream accept the same frames and consume
  the same bytes.
\<close>

theorem decode_frame_agrees:
  "decode_frame pf fresh now buf = Inr (Some e, n) \<and> r = drop n buf
     \<longleftrightarrow> recv_plain pf fresh now buf = Inr (e, r) \<and> n = length buf - length r"
  by (rule decode_frame_iff_recv_plain)

end
