(* ===== verification/Payloads.thy ===== *)
theory Payloads
  imports Models
begin

text \<open>
  The payload classes of \<^verbatim>\<open>protocol/models.py\<close>: what each message carries, how it is written to a
  dictionary, and the validation of the dictionaries that arrive.
\<close>

section \<open>Transfer and batch payloads\<close>

record transfer_request =
  tr_transfer_id :: pystr
  tr_file_name :: pystr
  tr_file_size :: int
  tr_mime_type :: pystr
  tr_sha256 :: pystr
  tr_chunk_size :: int
  tr_chunk_count :: int
  tr_sender_identity :: pystr
  tr_created_at :: int
  tr_protocol_version :: int
  tr_batch_id :: pystr
  tr_relative_path :: pystr

definition transfer_request_to_dict :: "transfer_request \<Rightarrow> json" where
  "transfer_request_to_dict p = JObj
     [(lit ''transfer_id'', JStr (tr_transfer_id p)),
      (lit ''file_name'', JStr (tr_file_name p)),
      (lit ''file_size'', JInt (tr_file_size p)),
      (lit ''mime_type'', JStr (tr_mime_type p)),
      (lit ''sha256'', JStr (tr_sha256 p)),
      (lit ''chunk_size'', JInt (tr_chunk_size p)),
      (lit ''chunk_count'', JInt (tr_chunk_count p)),
      (lit ''sender_identity'', JStr (tr_sender_identity p)),
      (lit ''created_at'', JInt (tr_created_at p)),
      (lit ''protocol_version'', JInt (tr_protocol_version p)),
      (lit ''batch_id'', JStr (tr_batch_id p)),
      (lit ''relative_path'', JStr (tr_relative_path p))]"

definition transfer_request_from_dict :: "platform \<Rightarrow> json \<Rightarrow> transfer_request res" where
  "transfer_request_from_dict pf data =
     res_bind (item_str pf data ''transfer_id'') (\<lambda>transfer_id.
     res_bind (item_str pf data ''file_name'') (\<lambda>file_name.
     res_bind (item_int pf data ''file_size'') (\<lambda>file_size.
     res_bind (get_str pf data ''mime_type'' ''application/octet-stream'') (\<lambda>mime_type.
     res_bind (get_str pf data ''sha256'' '''') (\<lambda>sha256.
     res_bind (get_int pf data ''chunk_size'' 65536) (\<lambda>chunk_size.
     res_bind (get_int pf data ''chunk_count'' 0) (\<lambda>chunk_count.
     res_bind (get_str pf data ''sender_identity'' '''') (\<lambda>sender_identity.
     res_bind (get_int pf data ''created_at'' 0) (\<lambda>created_at.
     res_bind (get_int pf data ''protocol_version'' PROTOCOL_VERSION) (\<lambda>protocol_version.
     res_bind (get_str pf data ''batch_id'' '''') (\<lambda>batch_id.
     res_bind (get_str pf data ''relative_path'' '''') (\<lambda>relative_path.
       Inr \<lparr>tr_transfer_id = transfer_id, tr_file_name = file_name, tr_file_size = file_size,
            tr_mime_type = mime_type, tr_sha256 = sha256, tr_chunk_size = chunk_size,
            tr_chunk_count = chunk_count, tr_sender_identity = sender_identity,
            tr_created_at = created_at, tr_protocol_version = protocol_version,
            tr_batch_id = batch_id, tr_relative_path = relative_path\<rparr>))))))))))))"

text \<open>The payloads that are only written.\<close>

definition transfer_accept_to_dict :: "pystr \<Rightarrow> json" where
  "transfer_accept_to_dict transfer_id = JObj [(lit ''transfer_id'', JStr transfer_id)]"

definition transfer_reject_to_dict :: "pystr \<Rightarrow> pystr \<Rightarrow> json" where
  "transfer_reject_to_dict transfer_id reason =
     JObj [(lit ''transfer_id'', JStr transfer_id), (lit ''reason'', JStr reason)]"

definition transfer_progress_to_dict :: "pystr \<Rightarrow> int \<Rightarrow> int \<Rightarrow> int \<Rightarrow> json" where
  "transfer_progress_to_dict transfer_id bytes_transferred total_bytes speed_bytes_per_sec =
     JObj [(lit ''transfer_id'', JStr transfer_id), (lit ''bytes_transferred'', JInt bytes_transferred),
           (lit ''total_bytes'', JInt total_bytes), (lit ''speed_bytes_per_sec'', JInt speed_bytes_per_sec)]"

definition transfer_cancel_to_dict :: "pystr \<Rightarrow> pystr \<Rightarrow> json" where
  "transfer_cancel_to_dict transfer_id reason =
     JObj [(lit ''transfer_id'', JStr transfer_id), (lit ''reason'', JStr reason)]"

definition transfer_complete_to_dict :: "pystr \<Rightarrow> json" where
  "transfer_complete_to_dict transfer_id = JObj [(lit ''transfer_id'', JStr transfer_id)]"

definition transfer_result_to_dict :: "pystr \<Rightarrow> bool \<Rightarrow> pystr \<Rightarrow> pystr \<Rightarrow> json" where
  "transfer_result_to_dict transfer_id success sha256 err =
     JObj [(lit ''transfer_id'', JStr transfer_id), (lit ''success'', JBool success),
           (lit ''sha256'', JStr sha256), (lit ''error'', JStr err)]"

definition transfer_error_to_dict :: "pystr \<Rightarrow> pystr \<Rightarrow> pystr \<Rightarrow> json" where
  "transfer_error_to_dict transfer_id error_code message =
     JObj [(lit ''transfer_id'', JStr transfer_id), (lit ''error_code'', JStr error_code),
           (lit ''message'', JStr message)]"

record batch_request =
  br_batch_id :: pystr
  br_batch_name :: pystr
  br_total_items :: int
  br_total_bytes :: int
  br_sender_identity :: pystr
  br_created_at :: int
  br_protocol_version :: int

definition batch_request_to_dict :: "batch_request \<Rightarrow> json" where
  "batch_request_to_dict p = JObj
     [(lit ''batch_id'', JStr (br_batch_id p)),
      (lit ''batch_name'', JStr (br_batch_name p)),
      (lit ''total_items'', JInt (br_total_items p)),
      (lit ''total_bytes'', JInt (br_total_bytes p)),
      (lit ''sender_identity'', JStr (br_sender_identity p)),
      (lit ''created_at'', JInt (br_created_at p)),
      (lit ''protocol_version'', JInt (br_protocol_version p))]"

definition batch_request_from_dict :: "platform \<Rightarrow> json \<Rightarrow> batch_request res" where
  "batch_request_from_dict pf data =
     res_bind (item_str pf data ''batch_id'') (\<lambda>batch_id.
     res_bind (item_str pf data ''batch_name'') (\<lambda>batch_name.
     res_bind (item_int pf data ''total_items'') (\<lambda>total_items.
     res_bind (item_int pf data ''total_bytes'') (\<lambda>total_bytes.
     res_bind (get_str pf data ''sender_identity'' '''') (\<lambda>sender_identity.
     res_bind (get_int pf data ''created_at'' 0) (\<lambda>created_at.
     res_bind (get_int pf data ''protocol_version'' PROTOCOL_VERSION) (\<lambda>protocol_version.
       Inr \<lparr>br_batch_id = batch_id, br_batch_name = batch_name, br_total_items = total_items,
            br_total_bytes = total_bytes, br_sender_identity = sender_identity,
            br_created_at = created_at, br_protocol_version = protocol_version\<rparr>)))))))"

definition batch_accept_to_dict :: "pystr \<Rightarrow> json" where
  "batch_accept_to_dict batch_id = JObj [(lit ''batch_id'', JStr batch_id)]"

definition batch_reject_to_dict :: "pystr \<Rightarrow> pystr \<Rightarrow> json" where
  "batch_reject_to_dict batch_id reason =
     JObj [(lit ''batch_id'', JStr batch_id), (lit ''reason'', JStr reason)]"

definition batch_cancel_to_dict :: "pystr \<Rightarrow> pystr \<Rightarrow> json" where
  "batch_cancel_to_dict batch_id reason =
     JObj [(lit ''batch_id'', JStr batch_id), (lit ''reason'', JStr reason)]"

definition batch_complete_to_dict :: "pystr \<Rightarrow> json" where
  "batch_complete_to_dict batch_id = JObj [(lit ''batch_id'', JStr batch_id)]"

section \<open>Resume payloads\<close>

datatype resume_reject_reason =
  SOURCE_MODIFIED | TRANSFER_NOT_FOUND | PARTIAL_CORRUPT | WRONG_PEER | STALE | PEER_CANCELLED

fun reject_reason_value :: "resume_reject_reason \<Rightarrow> pystr" where
  "reject_reason_value SOURCE_MODIFIED = lit ''SOURCE_MODIFIED''"
| "reject_reason_value TRANSFER_NOT_FOUND = lit ''TRANSFER_NOT_FOUND''"
| "reject_reason_value PARTIAL_CORRUPT = lit ''PARTIAL_CORRUPT''"
| "reject_reason_value WRONG_PEER = lit ''WRONG_PEER''"
| "reject_reason_value STALE = lit ''STALE''"
| "reject_reason_value PEER_CANCELLED = lit ''PEER_CANCELLED''"

definition reject_reasons :: "pystr list" where
  "reject_reasons = map reject_reason_value
     [SOURCE_MODIFIED, TRANSFER_NOT_FOUND, PARTIAL_CORRUPT, WRONG_PEER, STALE, PEER_CANCELLED]"

record resume_request =
  rr_transfer_id :: pystr
  rr_resume_offset_bytes :: int
  rr_resume_chunk_index :: int
  rr_partial_sha256 :: pystr
  rr_protocol_version :: int

text \<open>\<^verbatim>\<open>validate\<close>: the fields already have their types, so the \<^verbatim>\<open>isinstance\<close> tests hold.\<close>

definition resume_request_validate :: "platform \<Rightarrow> int \<Rightarrow> resume_request \<Rightarrow> unit res" where
  "resume_request_validate pf chunk_size p =
     (if rr_transfer_id p = [] then Inl ValueError
      else if \<not> is_ok (uuid_parse pf (rr_transfer_id p)) then Inl ValueError
      else if rr_resume_offset_bytes p < 0 then Inl ValueError
      else if 10 * 1024 ^ 3 < rr_resume_offset_bytes p then Inl ValueError
      else if rr_resume_chunk_index p < 0 then Inl ValueError
      else if rr_protocol_version p \<noteq> PROTOCOL_VERSION then Inl ValueError
      else if length (rr_partial_sha256 p) \<noteq> 64 \<or> \<not> list_all hex_lower (rr_partial_sha256 p)
      then Inl ValueError
      else if chunk_size \<le> 0 then Inl ValueError
      else if rr_resume_chunk_index p = 0 \<and> rr_resume_offset_bytes p \<noteq> 0 then Inl ValueError
      else if rr_resume_offset_bytes p \<noteq> rr_resume_chunk_index p * chunk_size then Inl ValueError
      else Inr ())"

text \<open>The constructor validates with the default chunk size of 65536 bytes.\<close>

definition make_resume_request :: "platform \<Rightarrow> pystr \<Rightarrow> int \<Rightarrow> int \<Rightarrow> pystr \<Rightarrow> int \<Rightarrow> resume_request res" where
  "make_resume_request pf transfer_id offset index sha version =
     (let p = \<lparr>rr_transfer_id = transfer_id, rr_resume_offset_bytes = offset,
               rr_resume_chunk_index = index, rr_partial_sha256 = sha, rr_protocol_version = version\<rparr>
      in res_bind (resume_request_validate pf 65536 p) (\<lambda>_. Inr p))"

definition resume_request_to_dict :: "resume_request \<Rightarrow> json" where
  "resume_request_to_dict p = JObj
     [(lit ''transfer_id'', JStr (rr_transfer_id p)),
      (lit ''resume_offset_bytes'', JInt (rr_resume_offset_bytes p)),
      (lit ''resume_chunk_index'', JInt (rr_resume_chunk_index p)),
      (lit ''partial_sha256'', JStr (rr_partial_sha256 p)),
      (lit ''protocol_version'', JInt (rr_protocol_version p))]"

text \<open>The required fields, tested in order.\<close>

fun require_fields :: "pystr list \<Rightarrow> json \<Rightarrow> unit res" where
  "require_fields [] data = Inr ()"
| "require_fields (f # fs) data =
     res_bind (obj_has data f) (\<lambda>b. if b then require_fields fs data else Inl ValueError)"

definition resume_request_from_dict :: "platform \<Rightarrow> int \<Rightarrow> json \<Rightarrow> resume_request res" where
  "resume_request_from_dict pf chunk_size data =
     res_bind (require_fields (map lit [''transfer_id'', ''resume_offset_bytes'', ''resume_chunk_index'',
        ''partial_sha256'', ''protocol_version'']) data) (\<lambda>_.
     res_bind (item_str pf data ''transfer_id'') (\<lambda>transfer_id.
     res_bind (item_int pf data ''resume_offset_bytes'') (\<lambda>offset.
     res_bind (item_int pf data ''resume_chunk_index'') (\<lambda>index.
     res_bind (item_str pf data ''partial_sha256'') (\<lambda>sha.
     res_bind (item_int pf data ''protocol_version'') (\<lambda>version.
     res_bind (make_resume_request pf transfer_id offset index sha version) (\<lambda>inst.
     res_bind (resume_request_validate pf chunk_size inst) (\<lambda>_. Inr inst))))))))"

record resume_accept =
  ra_transfer_id :: pystr
  ra_resume_chunk_index :: int
  ra_protocol_version :: int

definition resume_accept_validate :: "platform \<Rightarrow> resume_accept \<Rightarrow> unit res" where
  "resume_accept_validate pf p =
     (if ra_transfer_id p = [] then Inl ValueError
      else if \<not> is_ok (uuid_parse pf (ra_transfer_id p)) then Inl ValueError
      else if ra_resume_chunk_index p < 0 then Inl ValueError
      else if ra_protocol_version p \<noteq> PROTOCOL_VERSION then Inl ValueError
      else Inr ())"

definition make_resume_accept :: "platform \<Rightarrow> pystr \<Rightarrow> int \<Rightarrow> int \<Rightarrow> resume_accept res" where
  "make_resume_accept pf transfer_id index version =
     (let p = \<lparr>ra_transfer_id = transfer_id, ra_resume_chunk_index = index, ra_protocol_version = version\<rparr>
      in res_bind (resume_accept_validate pf p) (\<lambda>_. Inr p))"

definition resume_accept_to_dict :: "resume_accept \<Rightarrow> json" where
  "resume_accept_to_dict p = JObj
     [(lit ''transfer_id'', JStr (ra_transfer_id p)),
      (lit ''resume_chunk_index'', JInt (ra_resume_chunk_index p)),
      (lit ''protocol_version'', JInt (ra_protocol_version p))]"

definition resume_accept_from_dict :: "platform \<Rightarrow> json \<Rightarrow> resume_accept res" where
  "resume_accept_from_dict pf data =
     res_bind (require_fields (map lit [''transfer_id'', ''resume_chunk_index'', ''protocol_version'']) data) (\<lambda>_.
     res_bind (item_str pf data ''transfer_id'') (\<lambda>transfer_id.
     res_bind (item_int pf data ''resume_chunk_index'') (\<lambda>index.
     res_bind (item_int pf data ''protocol_version'') (\<lambda>version.
     res_bind (make_resume_accept pf transfer_id index version) (\<lambda>inst.
     res_bind (resume_accept_validate pf inst) (\<lambda>_. Inr inst))))))"

record resume_reject =
  rj_transfer_id :: pystr
  rj_reason :: pystr

definition resume_reject_validate :: "platform \<Rightarrow> resume_reject \<Rightarrow> unit res" where
  "resume_reject_validate pf p =
     (if rj_transfer_id p = [] then Inl ValueError
      else if \<not> is_ok (uuid_parse pf (rj_transfer_id p)) then Inl ValueError
      else if rj_reason p \<notin> set reject_reasons then Inl ValueError
      else Inr ())"

definition make_resume_reject :: "platform \<Rightarrow> pystr \<Rightarrow> pystr \<Rightarrow> resume_reject res" where
  "make_resume_reject pf transfer_id reason =
     (let p = \<lparr>rj_transfer_id = transfer_id, rj_reason = reason\<rparr>
      in res_bind (resume_reject_validate pf p) (\<lambda>_. Inr p))"

definition resume_reject_to_dict :: "resume_reject \<Rightarrow> json" where
  "resume_reject_to_dict p =
     JObj [(lit ''transfer_id'', JStr (rj_transfer_id p)), (lit ''reason'', JStr (rj_reason p))]"

definition resume_reject_from_dict :: "platform \<Rightarrow> json \<Rightarrow> resume_reject res" where
  "resume_reject_from_dict pf data =
     res_bind (require_fields (map lit [''transfer_id'', ''reason'']) data) (\<lambda>_.
     res_bind (item_str pf data ''transfer_id'') (\<lambda>transfer_id.
     res_bind (item_str pf data ''reason'') (\<lambda>reason.
     res_bind (make_resume_reject pf transfer_id reason) (\<lambda>inst.
     res_bind (resume_reject_validate pf inst) (\<lambda>_. Inr inst)))))"

section \<open>Notification payloads\<close>

definition MAX_NOTIFICATION_FRAME_BYTES :: nat where "MAX_NOTIFICATION_FRAME_BYTES = 8 * 1024"
definition NOTIF_MAX_TITLE :: nat where "NOTIF_MAX_TITLE = 200"
definition NOTIF_MAX_BODY :: nat where "NOTIF_MAX_BODY = 1000"
definition NOTIF_MAX_PKG :: nat where "NOTIF_MAX_PKG = 255"
definition NOTIF_MAX_LABEL :: nat where "NOTIF_MAX_LABEL = 100"

record notification_post =
  np_ferry_id :: pystr
  np_package :: pystr
  np_app_label :: pystr
  np_title :: pystr
  np_body :: pystr
  np_posted_at :: int
  np_category :: pystr

definition notification_post_from_dict :: "platform \<Rightarrow> json \<Rightarrow> notification_post res" where
  "notification_post_from_dict pf d =
     res_bind (require_fields (map lit [''ferry_id'', ''package'', ''app_label'', ''title'', ''body'',
        ''posted_at'']) d) (\<lambda>_.
     res_bind (item_str pf d ''ferry_id'') (\<lambda>ferry_id.
     res_bind (item_str pf d ''package'') (\<lambda>package.
     res_bind (item_str pf d ''app_label'') (\<lambda>app_label.
     res_bind (item_str pf d ''title'') (\<lambda>title.
     res_bind (item_str pf d ''body'') (\<lambda>body.
     res_bind (item_int pf d ''posted_at'') (\<lambda>posted_at.
     res_bind (get_str pf d ''category'' '''') (\<lambda>category.
       if take 64 ferry_id = [] then Inl ValueError
       else if take NOTIF_MAX_PKG package = [] then Inl ValueError
       else Inr \<lparr>np_ferry_id = take 64 ferry_id, np_package = take NOTIF_MAX_PKG package,
                 np_app_label = take NOTIF_MAX_LABEL app_label, np_title = take NOTIF_MAX_TITLE title,
                 np_body = take NOTIF_MAX_BODY body, np_posted_at = posted_at,
                 np_category = take 64 category\<rparr>))))))))"

definition notification_post_to_dict :: "notification_post \<Rightarrow> json" where
  "notification_post_to_dict p = JObj
     [(lit ''ferry_id'', JStr (np_ferry_id p)),
      (lit ''package'', JStr (np_package p)),
      (lit ''app_label'', JStr (np_app_label p)),
      (lit ''title'', JStr (np_title p)),
      (lit ''body'', JStr (np_body p)),
      (lit ''posted_at'', JInt (np_posted_at p)),
      (lit ''category'', JStr (np_category p))]"

text \<open>\<^verbatim>\<open>NotificationRemovePayload\<close> has the one field \<^verbatim>\<open>ferry_id\<close>.\<close>

definition notification_remove_from_dict :: "platform \<Rightarrow> json \<Rightarrow> pystr res" where
  "notification_remove_from_dict pf d =
     res_bind (get_str pf d ''ferry_id'' '''') (\<lambda>ferry_id.
       if ferry_id = [] then Inl ValueError else Inr (take 64 ferry_id))"

definition notification_remove_to_dict :: "pystr \<Rightarrow> json" where
  "notification_remove_to_dict ferry_id = JObj [(lit ''ferry_id'', JStr ferry_id)]"

section \<open>Validated payloads\<close>

definition resume_request_ok :: "platform \<Rightarrow> int \<Rightarrow> resume_request \<Rightarrow> bool" where
  "resume_request_ok pf chunk_size p \<longleftrightarrow>
     is_ok (uuid_parse pf (rr_transfer_id p)) \<and> rr_protocol_version p = 1
     \<and> 0 \<le> rr_resume_chunk_index p \<and> 0 < chunk_size
     \<and> rr_resume_offset_bytes p = rr_resume_chunk_index p * chunk_size
     \<and> rr_resume_offset_bytes p \<le> 10 * 1024 ^ 3
     \<and> length (rr_partial_sha256 p) = 64 \<and> list_all hex_lower (rr_partial_sha256 p)"

lemma uuid_parse_Nil [simp]: "uuid_parse pf [] = Inl ValueError"
  by (simp add: uuid_parse_def strip_by_def lstrip_by_def rstrip_by_def)

lemma resume_request_validate_iff:
  "resume_request_validate pf cs p = Inr () \<longleftrightarrow> resume_request_ok pf cs p"
proof -
  have "rr_transfer_id p = [] \<Longrightarrow> \<not> is_ok (uuid_parse pf (rr_transfer_id p))" by simp
  then show ?thesis
    unfolding resume_request_validate_def resume_request_ok_def PROTOCOL_VERSION_def
    by (auto simp: mult_less_0_iff split: if_splits)
qed

lemma resume_request_validate_err:
  "\<not> resume_request_ok pf cs p \<Longrightarrow> resume_request_validate pf cs p = Inl ValueError"
  using resume_request_validate_iff [of pf cs p]
  by (auto simp: resume_request_validate_def split: if_splits)

lemma make_resume_request_iff:
  "make_resume_request pf tid off ix sha ver = Inr p \<longleftrightarrow>
     p = \<lparr>rr_transfer_id = tid, rr_resume_offset_bytes = off, rr_resume_chunk_index = ix,
          rr_partial_sha256 = sha, rr_protocol_version = ver\<rparr> \<and> resume_request_ok pf 65536 p"
  using resume_request_validate_iff [of pf 65536]
  by (auto simp: make_resume_request_def Let_def res_simps)

text \<open>Since the constructor uses the default chunk size, another chunk size is only accepted at
  the start of the file.\<close>

lemma resume_request_from_dict_ok:
  assumes "resume_request_from_dict pf cs data = Inr p"
  shows "resume_request_ok pf 65536 p \<and> resume_request_ok pf cs p"
  using assms resume_request_validate_iff [of pf cs]
  by (auto simp: resume_request_from_dict_def res_simps make_resume_request_iff)

lemma resume_request_roundtrip:
  assumes "resume_request_ok pf 65536 p"
  shows "resume_request_from_dict pf 65536 (resume_request_to_dict p) = Inr p"
proof -
  have "resume_request_validate pf 65536 p = Inr ()" using assms resume_request_validate_iff by blast
  then show ?thesis
    by (cases p) (simp add: resume_request_from_dict_def resume_request_to_dict_def make_resume_request_def dict_has_def)
qed

lemma notification_post_bounds:
  assumes "notification_post_from_dict pf d = Inr p"
  shows "np_ferry_id p \<noteq> [] \<and> length (np_ferry_id p) \<le> 64 \<and> np_package p \<noteq> []
    \<and> length (np_package p) \<le> 255 \<and> length (np_app_label p) \<le> 100 \<and> length (np_title p) \<le> 200
    \<and> length (np_body p) \<le> 1000 \<and> length (np_category p) \<le> 64"
  using assms
  by (auto simp: notification_post_from_dict_def res_bind_ok_iff NOTIF_MAX_TITLE_def NOTIF_MAX_BODY_def
      NOTIF_MAX_PKG_def NOTIF_MAX_LABEL_def simp del: lit_simps require_fields.simps split: if_splits)

lemma notification_post_roundtrip:
  assumes "np_ferry_id p \<noteq> []" "length (np_ferry_id p) \<le> 64" "np_package p \<noteq> []"
    "length (np_package p) \<le> 255" "length (np_app_label p) \<le> 100" "length (np_title p) \<le> 200"
    "length (np_body p) \<le> 1000" "length (np_category p) \<le> 64"
  shows "notification_post_from_dict pf (notification_post_to_dict p) = Inr p"
  using assms
  by (simp add: notification_post_from_dict_def notification_post_to_dict_def dict_has_def NOTIF_MAX_TITLE_def
      NOTIF_MAX_BODY_def NOTIF_MAX_PKG_def NOTIF_MAX_LABEL_def)

section \<open>Properties\<close>

text \<open>
  A \<^verbatim>\<open>TRANSFER_RESUME_REQUEST\<close> that parses is consistent: a UUID, version 1, an offset equal
  to the chunk index times the chunk size and of at most 10 GiB, a lower-case SHA-256. Because the
  constructor checks the default chunk size as well, any other chunk size is refused unless the
  transfer starts over at chunk 0.
\<close>

theorem resume_request_consistent:
  assumes "resume_request_from_dict pf cs data = Inr p"
  shows "resume_request_ok pf cs p \<and> (cs \<noteq> 65536 \<longrightarrow> rr_resume_chunk_index p = 0 \<and> rr_resume_offset_bytes p = 0)"
  using resume_request_from_dict_ok [OF assms] by (auto simp: resume_request_ok_def)

definition sample_resume :: resume_request where
  "sample_resume = \<lparr>rr_transfer_id = uuid_str 7, rr_resume_offset_bytes = 131072, rr_resume_chunk_index = 2,
     rr_partial_sha256 = replicate 64 97, rr_protocol_version = 1\<rparr>"

lemma sample_resume_ok: "resume_request_ok pf 65536 sample_resume"
proof -
  have "uuid_parse pf (uuid_str 7) = Inr 7" by (rule uuid_parse_str) simp
  then show ?thesis
    by (simp add: resume_request_ok_def sample_resume_def list_all_iff hex_lower_def)
qed

theorem resume_request_consistent_witness:
  "resume_request_from_dict ascii_platform 65536 (resume_request_to_dict sample_resume) = Inr sample_resume
    \<and> rr_resume_offset_bytes sample_resume = rr_resume_chunk_index sample_resume * 65536"
  using resume_request_consistent [OF resume_request_roundtrip [OF sample_resume_ok [of ascii_platform]]]
    resume_request_roundtrip [OF sample_resume_ok [of ascii_platform]]
  by (simp add: resume_request_ok_def)

text \<open>
  The fields of a parsed \<^verbatim>\<open>NOTIFICATION_POST\<close> are within their limits, and a notification within
  the limits survives \<^verbatim>\<open>to_dict\<close> and \<^verbatim>\<open>from_dict\<close>.
\<close>

theorem notification_limits:
  "(notification_post_from_dict pf d = Inr p \<longrightarrow>
      np_ferry_id p \<noteq> [] \<and> length (np_ferry_id p) \<le> 64 \<and> np_package p \<noteq> [] \<and> length (np_package p) \<le> 255
      \<and> length (np_app_label p) \<le> 100 \<and> length (np_title p) \<le> 200 \<and> length (np_body p) \<le> 1000
      \<and> length (np_category p) \<le> 64
      \<and> notification_post_from_dict pf (notification_post_to_dict p) = Inr p)"
  using notification_post_bounds notification_post_roundtrip by blast

definition sample_notification :: notification_post where
  "sample_notification = \<lparr>np_ferry_id = lit ''f'', np_package = lit ''org.x'', np_app_label = lit ''X'',
     np_title = lit ''t'', np_body = lit ''b'', np_posted_at = 9, np_category = []\<rparr>"

theorem notification_limits_witness:
  "notification_post_from_dict ascii_platform (notification_post_to_dict sample_notification) = Inr sample_notification
    \<and> length (np_title sample_notification) \<le> 200"
proof -
  have "notification_post_from_dict ascii_platform (notification_post_to_dict sample_notification) = Inr sample_notification"
    by (rule notification_post_roundtrip) (simp_all add: sample_notification_def)
  with notification_limits [of ascii_platform "notification_post_to_dict sample_notification" sample_notification]
  show ?thesis by blast
qed

end
