(* ===== verification/Incoming.thy ===== *)
theory Incoming
  imports Filesystem Transfer_State Sha256 Payloads
begin

text \<open>
  \<^verbatim>\<open>IncomingTransfer\<close> of \<^verbatim>\<open>core/transfer.py\<close>: one file being received. Its methods are computations on
  the object and the file system; the running SHA-256 is the list of bytes fed to it.
\<close>

section \<open>State\<close>

record incoming =
  in_meta :: metadata
  in_download_dir :: path
  in_staging_dir :: path
  in_state :: transfer_state
  in_temp_path :: "path option"
  in_final_path :: "path option"
  in_hasher :: bytes
  in_bytes_received :: int
  in_next_seq :: int
  in_temp_fh :: "handle option"

type_synonym rx = "incoming \<times> fs"

definition new_incoming :: "metadata \<Rightarrow> path \<Rightarrow> incoming" where
  "new_incoming meta download_dir =
     \<lparr>in_meta = meta, in_download_dir = download_dir,
      in_staging_dir = path_join download_dir (lit ''staging''),
      in_state = IDLE, in_temp_path = None, in_final_path = None, in_hasher = [],
      in_bytes_received = 0, in_next_seq = 0, in_temp_fh = None\<rparr>"

abbreviation obj :: "(incoming \<Rightarrow> incoming) \<Rightarrow> (rx, unit) eff" where
  "obj f \<equiv> upd (\<lambda>(t, fs). (f t, fs))"

text \<open>A call that touches only the file system.\<close>

definition sys :: "(fs \<Rightarrow> 'a res \<times> fs) \<Rightarrow> (rx, 'a) eff" where
  "sys f = (\<lambda>(t, fs). case f fs of (r, fs') \<Rightarrow> (r, (t, fs')))"

text \<open>A call on the open file handle; without one the attribute is \<^verbatim>\<open>None\<close>.\<close>

definition on_handle :: "(handle \<Rightarrow> fs \<Rightarrow> unit res \<times> handle \<times> fs) \<Rightarrow> (rx, unit) eff" where
  "on_handle f = (\<lambda>(t, fs).
     case in_temp_fh t of
       None \<Rightarrow> (Inl AttributeError, (t, fs))
     | Some h \<Rightarrow> (case f h fs of (r, h', fs') \<Rightarrow> (r, (t\<lparr>in_temp_fh := Some h'\<rparr>, fs'))))"

text \<open>\<^verbatim>\<open>self._state = _transfer_transition(self._state, new)\<close>.\<close>

definition goto :: "transfer_state \<Rightarrow> (rx, unit) eff" where
  "goto new = reads (\<lambda>(t, fs). bind (lift (transfer_transition (in_state t) new))
     (\<lambda>s. obj (in_state_update (\<lambda>_. s))))"

definition set_state :: "transfer_state \<Rightarrow> (rx, unit) eff" where
  "set_state s = obj (in_state_update (\<lambda>_. s))"

section \<open>Cleaning up\<close>

definition cleanup_temp :: "os_env \<Rightarrow> (rx, unit) eff" where
  "cleanup_temp env = reads (\<lambda>(t, fs).
     case in_temp_path t of
       None \<Rightarrow> ret ()
     | Some p \<Rightarrow> if exists_path fs p then catch (sys (unlink_file env p)) (\<lambda>_. ret ()) else ret ())"

text \<open>\<^verbatim>\<open>if self._temp_fh: try: close() except: pass; self._temp_fh = None\<close>.\<close>

definition drop_handle :: "os_env \<Rightarrow> (rx, unit) eff" where
  "drop_handle env = reads (\<lambda>(t, fs).
     if in_temp_fh t \<noteq> None
     then seq (catch (on_handle (fh_close env)) (\<lambda>_. ret ())) (obj (in_temp_fh_update (\<lambda>_. None)))
     else ret ())"

definition cleanup_on_io_error :: "os_env \<Rightarrow> (rx, unit) eff" where
  "cleanup_on_io_error env = seq (drop_handle env) (seq (cleanup_temp env) (set_state FAILED))"

definition cancel_incoming :: "os_env \<Rightarrow> (rx, unit) eff" where
  "cancel_incoming env = seq (drop_handle env) (seq (cleanup_temp env) (set_state CANCELLED))"

section \<open>Receiving\<close>

definition part_path :: "incoming \<Rightarrow> path" where
  "part_path t = path_join (in_staging_dir t) (md_transfer_id (in_meta t) @ lit ''.part'')"

text \<open>The body of the \<^verbatim>\<open>try\<close> in \<^verbatim>\<open>begin\<close>.\<close>

definition begin_try :: "os_env \<Rightarrow> (rx, unit) eff" where
  "begin_try env =
     bind (gets fst) (\<lambda>t.
        seq (sys (mkdir_p env (in_staging_dir t)))
       (seq (sys (mkdir_p env (in_download_dir t)))
       (seq (obj (in_temp_path_update (\<lambda>_. Some (part_path t))))
       (bind (lift (resolve_safe_destination (os_resolve env) (in_download_dir t)
                (md_file_name (in_meta t)) (md_relative_path (in_meta t)))) (\<lambda>final.
        seq (obj (in_final_path_update (\<lambda>_. Some final)))
       (seq (sys (mkdir_p env (butlast final)))
       (bind (sys (open_wb env (part_path t))) (\<lambda>h.
        obj (in_temp_fh_update (\<lambda>_. Some h))))))))))"

definition begin_incoming :: "os_env \<Rightarrow> (rx, unit) eff" where
  "begin_incoming env =
     seq (goto ACCEPTED)
    (seq (catch (begin_try env)
            (\<lambda>e. if is_oserror e then seq (goto FAILED) (raise TransferError) else raise e))
         (goto TRANSFERRING))"

definition receive_chunk :: "os_env \<Rightarrow> chunk_frame \<Rightarrow> (rx, unit) eff" where
  "receive_chunk env fr = reads (\<lambda>(t, fs).
     if in_state t \<noteq> TRANSFERRING \<and> in_state t \<noteq> RESUMING then raise RuntimeError
     else if cf_transfer_id fr \<noteq> md_transfer_id (in_meta t) then raise ValueError
     else if cf_seq fr \<noteq> in_next_seq t then raise ValueError
     else if md_chunk_size (in_meta t) < int (length (cf_data fr)) then raise ValueError
     else seq (catch (on_handle (fh_write env (cf_data fr)))
                 (\<lambda>e. if is_oserror e then seq (cleanup_on_io_error env) (raise TransferError) else raise e))
              (obj (\<lambda>t. t\<lparr>in_hasher := in_hasher t @ cf_data fr,
                        in_bytes_received := in_bytes_received t + int (length (cf_data fr)),
                        in_next_seq := in_next_seq t + 1\<rparr>)))"

text \<open>The name used when the destination exists: \<^verbatim>\<open>f"{transfer_id[:8]}_{dest.name}"\<close> in the same
  directory.\<close>

definition conflict_path :: "pystr \<Rightarrow> path \<Rightarrow> path" where
  "conflict_path tid dest =
     path_join (butlast dest) (take 8 tid @ [95] @ (if dest = [] then [] else last dest))"

definition flush_close :: "os_env \<Rightarrow> (rx, unit) eff" where
  "flush_close env = reads (\<lambda>(t, fs).
     if in_temp_fh t \<noteq> None
     then seq (on_handle (fh_flush env)) (seq (on_handle (fh_close env)) (obj (in_temp_fh_update (\<lambda>_. None))))
     else ret ())"

definition rename_verified :: "os_env \<Rightarrow> (rx, bool) eff" where
  "rename_verified env = reads (\<lambda>(t, fs).
     case (in_temp_path t, in_final_path t) of
       (Some temp, Some final) \<Rightarrow>
         (let dest = (if exists_path fs final then conflict_path (md_transfer_id (in_meta t)) final else final)
          in seq (sys (rename_file env temp dest)) (seq (goto COMPLETED) (ret True)))
     | _ \<Rightarrow> raise AssertionError)"

definition finalise :: "os_env \<Rightarrow> (rx, bool) eff" where
  "finalise env =
     seq (flush_close env) (reads (\<lambda>(t, fs).
       if sha256_hex (in_hasher t) \<noteq> ascii_lower (md_sha256 (in_meta t))
       then seq (cleanup_temp env) (seq (goto FAILED) (ret False))
       else rename_verified env))"

section \<open>Interruption and resumption\<close>

text \<open>The size \<^verbatim>\<open>interrupt\<close> measures: 0 when the file is missing or \<^verbatim>\<open>stat\<close> fails.\<close>

definition bytes_on_disk :: "os_env \<Rightarrow> incoming \<Rightarrow> fs \<Rightarrow> int" where
  "bytes_on_disk env t fs =
     (case in_temp_path t of
        None \<Rightarrow> 0
      | Some p \<Rightarrow> if exists_path fs p then (case stat_size env p fs of Inr n \<Rightarrow> n | Inl _ \<Rightarrow> 0) else 0)"

text \<open>Truncation to the last chunk boundary.\<close>

definition align_temp :: "os_env \<Rightarrow> int \<Rightarrow> (rx, unit) eff" where
  "align_temp env actual = reads (\<lambda>(t, fs).
     let aligned = in_next_seq t * md_chunk_size (in_meta t)
     in case in_temp_path t of
          Some p \<Rightarrow>
            if aligned < actual
            then catch (seq (sys (truncate_file env p (nat aligned)))
                            (obj (in_bytes_received_update (\<lambda>_. aligned))))
                   (\<lambda>e. if is_oserror e then ret () else raise e)
            else ret ()
        | None \<Rightarrow> ret ())"

definition interrupt_close :: "os_env \<Rightarrow> (rx, unit) eff" where
  "interrupt_close env = reads (\<lambda>(t, fs).
     if in_temp_fh t \<noteq> None
     then seq (catch (seq (on_handle (fh_flush env)) (on_handle (fh_close env))) (\<lambda>_. ret ()))
              (obj (in_temp_fh_update (\<lambda>_. None)))
     else ret ())"

definition interrupt_measured :: "os_env \<Rightarrow> (rx, unit) eff" where
  "interrupt_measured env = reads (\<lambda>(t, fs).
     let actual = bytes_on_disk env t fs; cs = md_chunk_size (in_meta t)
     in if actual = 0 \<and> in_bytes_received t = 0 then set_state FAILED
        else seq (obj (in_bytes_received_update (\<lambda>_. actual)))
            (seq (if 0 < cs then obj (in_next_seq_update (\<lambda>_. actual div cs)) else ret ())
            (seq (align_temp env actual)
                 (goto INTERRUPTED))))"

definition interrupt :: "os_env \<Rightarrow> (rx, unit) eff" where
  "interrupt env = reads (\<lambda>(t, fs).
     if in_state t \<in> {INTERRUPTED, COMPLETED, FAILED, CANCELLED} then ret ()
     else if in_state t \<noteq> TRANSFERRING \<and> in_state t \<noteq> ACCEPTED then set_state FAILED
     else if md_file_size (in_meta t) = 0 then set_state FAILED
     else seq (interrupt_close env) (interrupt_measured env))"

definition interrupt_info :: "platform \<Rightarrow> incoming \<Rightarrow> json option res" where
  "interrupt_info pf t =
     (if in_state t \<noteq> INTERRUPTED then Inr None
      else res_bind (dumps pf [32] (metadata_to_dict (in_meta t))) (\<lambda>js.
        Inr (Some (JObj
          [(lit ''transfer_id'', JStr (md_transfer_id (in_meta t))),
           (lit ''bytes_received'', JInt (in_bytes_received t)),
           (lit ''resume_chunk_index'', JInt (in_next_seq t)),
           (lit ''partial_sha256'', JStr (sha256_hex (in_hasher t))),
           (lit ''sender_identity'', JStr (md_sender_identity (in_meta t))),
           (lit ''original_metadata_json'', JStr js)]))))"

text \<open>The checks of \<^verbatim>\<open>prepare_resume_request\<close> on the size found on disk.\<close>

definition check_resume :: "metadata \<Rightarrow> int \<Rightarrow> int option \<Rightarrow> int option \<Rightarrow> unit res" where
  "check_resume meta disk_size expected_bytes expected_index =
     (if disk_size = 0 then Inl ValueError
      else if md_file_size meta \<le> 0 then Inl ValueError
      else if md_file_size meta < disk_size then Inl ValueError
      else if md_chunk_size meta \<le> 0 then Inl ValueError
      else if disk_size mod md_chunk_size meta \<noteq> 0 then Inl ValueError
      else if expected_bytes \<noteq> None \<and> expected_bytes \<noteq> Some disk_size then Inl ValueError
      else if expected_index \<noteq> None \<and> expected_index \<noteq> Some (disk_size div md_chunk_size meta)
      then Inl ValueError
      else Inr ())"

definition prepare_resume_request ::
    "platform \<Rightarrow> os_env \<Rightarrow> int option \<Rightarrow> int option \<Rightarrow> (rx, resume_request) eff" where
  "prepare_resume_request pf env expected_bytes expected_index = reads (\<lambda>(t, fs).
     if in_state t \<noteq> INTERRUPTED then raise RuntimeError
     else case in_temp_path t of
       None \<Rightarrow> raise FileNotFoundError
     | Some p \<Rightarrow>
         if \<not> exists_path fs p then raise FileNotFoundError
         else bind (lift (stat_size env p fs)) (\<lambda>disk_size.
              let index = disk_size div md_chunk_size (in_meta t)
              in bind (lift (check_resume (in_meta t) disk_size expected_bytes expected_index)) (\<lambda>_.
                 bind (lift (read_file env p fs)) (\<lambda>content.
                 seq (obj (\<lambda>t. t\<lparr>in_bytes_received := disk_size, in_next_seq := index\<rparr>))
                     (lift (make_resume_request pf (md_transfer_id (in_meta t)) disk_size index
                              (sha256_hex (fed_blocks content)) 1))))))"

text \<open>Re-opening the file and feeding its contents to a fresh hasher; a failed re-read leaves the
  hasher empty (the read is modelled as one call).\<close>

definition resume_reopen :: "os_env \<Rightarrow> int \<Rightarrow> path \<Rightarrow> (rx, unit) eff" where
  "resume_reopen env chunk_index p =
     bind (catch (sys (open_ab env p))
            (\<lambda>e. if is_oserror e then seq (set_state FAILED) (raise TransferError) else raise e))
      (\<lambda>h. seq (obj (in_temp_fh_update (\<lambda>_. Some h)))
          (reads (\<lambda>(t, fs).
             seq (obj (in_hasher_update (\<lambda>_. case read_file env p fs of Inr c \<Rightarrow> fed_blocks c | Inl _ \<Rightarrow> [])))
            (bind (lift (stat_size env p fs)) (\<lambda>disk_size.
             seq (obj (\<lambda>t. t\<lparr>in_bytes_received := disk_size, in_next_seq := chunk_index\<rparr>))
                 (goto RESUMING))))))"

definition resume :: "os_env \<Rightarrow> int \<Rightarrow> (rx, unit) eff" where
  "resume env chunk_index = reads (\<lambda>(t, fs).
     if in_state t \<noteq> INTERRUPTED \<and> in_state t \<noteq> RESUME_REQUESTED then raise RuntimeError
     else seq (if in_state t = INTERRUPTED then goto RESUME_REQUESTED else ret ())
       (case in_temp_path t of
          None \<Rightarrow> seq (set_state FAILED) (raise FileNotFoundError)
        | Some p \<Rightarrow>
            if \<not> exists_path fs p then seq (set_state FAILED) (raise FileNotFoundError)
            else resume_reopen env chunk_index p))"

section \<open>Effects of the building blocks\<close>

lemma sys_apply [simp]: "sys f (t, fs) = (fst (f fs), (t, snd (f fs)))"
  by (simp add: sys_def split: prod.splits)

lemma goto_apply:
  "goto new (t, fs) =
     (if new \<in> set (valid_transitions (in_state t)) then (Inr (), (t\<lparr>in_state := new\<rparr>, fs))
      else (Inl RuntimeError, (t, fs)))"
  by (simp add: goto_def eff_defs transfer_transition_def)

lemma set_state_apply [simp]: "set_state s (t, fs) = (Inr (), (t\<lparr>in_state := s\<rparr>, fs))"
  by (simp add: set_state_def eff_defs)

lemma on_handle_apply:
  "on_handle f (t, fs) =
     (case in_temp_fh t of
        None \<Rightarrow> (Inl AttributeError, (t, fs))
      | Some h \<Rightarrow> (fst (f h fs), (t\<lparr>in_temp_fh := Some (fst (snd (f h fs)))\<rparr>, snd (snd (f h fs)))))"
  by (simp add: on_handle_def split: option.splits prod.splits)

text \<open>A file system changed at most at the path \<open>p\<close>.\<close>

definition only_at :: "path \<Rightarrow> fs \<Rightarrow> fs \<Rightarrow> bool" where
  "only_at p fs fs' \<longleftrightarrow> (\<forall>q. q \<noteq> p \<longrightarrow> fs' q = fs q)"

lemma only_at_refl [simp]: "only_at p fs fs"
  by (simp add: only_at_def)

lemma only_at_trans: "only_at p a b \<Longrightarrow> only_at p b c \<Longrightarrow> only_at p a c"
  by (simp add: only_at_def)

lemma only_at_append [simp]: "only_at p fs (append_file p bs fs)"
  by (simp add: only_at_def append_file_def split: option.splits node.splits)

lemma only_at_unlink [simp]: "only_at p fs (snd (unlink_file env p fs))"
  by (simp add: only_at_def unlink_file_def split: option.splits node.splits)

lemma only_at_truncate [simp]: "only_at p fs (snd (truncate_file env p n fs))"
  by (simp add: only_at_def truncate_file_def split: option.splits node.splits)

lemma only_at_open [simp]:
  "only_at p fs (snd (open_wb env p fs))" "only_at p fs (snd (open_ab env p fs))"
  by (simp_all add: only_at_def open_wb_def open_ab_def)

lemma append_file_same: "append_file p bs fs p = map_option (\<lambda>n. case n of File c \<Rightarrow> File (c @ bs) | Dir \<Rightarrow> Dir) (fs p)"
  by (auto simp: append_file_def split: option.splits node.splits)

lemma append_file_File [simp]: "fs p = Some (File c) \<Longrightarrow> append_file p bs fs p = Some (File (c @ bs))"
  by (simp add: append_file_same)

lemma handle_path [simp]:
  "h_path (fst (snd (fh_write env d h fs))) = h_path h"
  "h_path (fst (snd (fh_flush env h fs))) = h_path h"
  "h_path (fst (snd (fh_close env h fs))) = h_path h"
  by (simp_all add: fh_write_def fh_flush_def fh_close_def Let_def)

lemma handle_only_at [simp]:
  "only_at (h_path h) fs (snd (snd (fh_write env d h fs)))"
  "only_at (h_path h) fs (snd (snd (fh_flush env h fs)))"
  "only_at (h_path h) fs (snd (snd (fh_close env h fs)))"
  by (simp_all add: fh_write_def fh_flush_def fh_close_def Let_def)

section \<open>The staging file holds what was hashed\<close>

text \<open>
  The invariant of a transfer: nothing is hashed before chunks are received; while they are,
  with an open handle the file followed by the bytes still buffered is exactly what the hasher
  has seen, and without one the file, if it is there, is.
\<close>

definition staged :: "rx \<Rightarrow> bool" where
  "staged s \<longleftrightarrow> (case s of (t, fs) \<Rightarrow>
     (in_state t \<in> {IDLE, REQUESTED, ACCEPTED} \<longrightarrow> in_hasher t = []) \<and>
     (in_state t \<in> {TRANSFERRING, RESUMING} \<longrightarrow>
       (case in_temp_fh t of
          Some h \<Rightarrow> in_temp_path t = Some (h_path h) \<and>
            (h_closed h \<or> (\<exists>c. fs (h_path h) = Some (File c) \<and> c @ h_buf h = in_hasher t))
        | None \<Rightarrow> (\<forall>p c. in_temp_path t = Some p \<longrightarrow> fs p = Some (File c) \<longrightarrow> c = in_hasher t))))"

lemma cleanup_temp_state [simp]: "in_state (fst (snd (cleanup_temp env (t, fs)))) = in_state t"
  by (auto simp: cleanup_temp_def eff_defs sys_def split: option.splits prod.splits sum.splits)

lemma cleanup_on_io_error_state:
  "\<exists>t' fs'. cleanup_on_io_error env (t, fs) = (Inr (), (t', fs')) \<and> in_state t' = FAILED"
  by (auto simp: cleanup_on_io_error_def drop_handle_def cleanup_temp_def eff_defs sys_def on_handle_def set_state_def
      split: option.splits prod.splits sum.splits)

lemma staged_write:
  assumes "staged (t, fs)" and "in_state t \<in> {TRANSFERRING, RESUMING}" and "in_temp_fh t = Some h"
    and "fh_write env d h fs = (Inr (), h', fs')"
  shows "staged (t\<lparr>in_temp_fh := Some h', in_hasher := in_hasher t @ d, in_bytes_received := b, in_next_seq := n\<rparr>, fs')"
proof -
  from assms(4) have nc: "\<not> h_closed h" and h': "h' = h\<lparr>h_buf := drop (os_written env) (h_buf h @ d)\<rparr>"
    and fs': "fs' = append_file (h_path h) (take (os_written env) (h_buf h @ d)) fs"
    by (auto simp: fh_write_def Let_def split: if_splits)
  from assms nc obtain c where c: "fs (h_path h) = Some (File c)" "c @ h_buf h = in_hasher t"
    and p: "in_temp_path t = Some (h_path h)"
    by (auto simp: staged_def)
  have "fs' (h_path h) = Some (File (c @ take (os_written env) (h_buf h @ d)))"
    using c by (simp add: fs')
  moreover have "(c @ take (os_written env) (h_buf h @ d)) @ drop (os_written env) (h_buf h @ d) = in_hasher t @ d"
    using c(2) by (metis append.assoc append_take_drop_id)
  ultimately show ?thesis using p assms(2) by (auto simp: staged_def h')
qed

lemma cleanup_on_io_error_ok: "fst (cleanup_on_io_error env s) = Inr ()"
  using cleanup_on_io_error_state [of env "fst s" "snd s"] by auto

text \<open>Every branch of \<^verbatim>\<open>receive_chunk\<close>.\<close>

lemma receive_chunk_apply:
  "receive_chunk env fr (t, fs) =
     (if in_state t \<noteq> TRANSFERRING \<and> in_state t \<noteq> RESUMING then (Inl RuntimeError, (t, fs))
      else if cf_transfer_id fr \<noteq> md_transfer_id (in_meta t) \<or> cf_seq fr \<noteq> in_next_seq t
              \<or> md_chunk_size (in_meta t) < int (length (cf_data fr))
      then (Inl ValueError, (t, fs))
      else case in_temp_fh t of
             None \<Rightarrow> (Inl AttributeError, (t, fs))
           | Some h \<Rightarrow>
               (case fh_write env (cf_data fr) h fs of
                  (Inr _, h', fs') \<Rightarrow>
                    (Inr (), (t\<lparr>in_temp_fh := Some h', in_hasher := in_hasher t @ cf_data fr,
                       in_bytes_received := in_bytes_received t + int (length (cf_data fr)),
                       in_next_seq := in_next_seq t + 1\<rparr>, fs'))
                | (Inl e, h', fs') \<Rightarrow>
                    if is_oserror e
                    then (Inl TransferError, snd (cleanup_on_io_error env (t\<lparr>in_temp_fh := Some h'\<rparr>, fs')))
                    else (Inl e, (t\<lparr>in_temp_fh := Some h'\<rparr>, fs'))))"
proof -
  have c: "seq (cleanup_on_io_error env) (raise TransferError) s
      = (Inl TransferError, snd (cleanup_on_io_error env s))" for s
    by (simp add: seq_ok cleanup_on_io_error_ok raise_def)
  show ?thesis
    by (auto simp: receive_chunk_def on_handle_apply seq_apply [of "catch _ _"] catch_apply c
        is_oserror_def [of AttributeError] split: option.splits prod.splits sum.splits)
qed

lemma receive_chunk_ok:
  assumes "receive_chunk env fr (t, fs) = (Inr (), (t', fs'))"
  obtains h h' where "in_state t \<in> {TRANSFERRING, RESUMING}" and "cf_transfer_id fr = md_transfer_id (in_meta t)"
    and "cf_seq fr = in_next_seq t" and "int (length (cf_data fr)) \<le> md_chunk_size (in_meta t)"
    and "in_temp_fh t = Some h" and "fh_write env (cf_data fr) h fs = (Inr (), h', fs')"
    and "t' = t\<lparr>in_temp_fh := Some h', in_hasher := in_hasher t @ cf_data fr,
        in_bytes_received := in_bytes_received t + int (length (cf_data fr)), in_next_seq := in_next_seq t + 1\<rparr>"
  using assms that
  by (auto simp: receive_chunk_apply split: if_splits option.splits prod.splits sum.splits)

lemma fh_write_err: "fh_write env d h fs = (Inl e, h', fs') \<Longrightarrow> \<not> is_oserror e \<Longrightarrow> h' = h \<and> fs' = fs"
  by (auto simp: fh_write_def Let_def is_oserror_def split: if_splits)

lemma staged_same_handle: "staged (t, fs) \<Longrightarrow> in_temp_fh t = Some h \<Longrightarrow> staged (t\<lparr>in_temp_fh := Some h\<rparr>, fs)"
  by (simp add: staged_def)

lemma staged_receive_chunk: "staged s \<Longrightarrow> staged (snd (receive_chunk env fr s))"
proof -
  assume st: "staged s"
  obtain t fs where s: "s = (t, fs)" by fastforce
  show ?thesis
  proof (cases "fst (receive_chunk env fr s)")
    case (Inr u)
    then obtain t' fs' where ok: "receive_chunk env fr (t, fs) = (Inr (), (t', fs'))"
      by (cases "receive_chunk env fr (t, fs)") (auto simp: s)
    then show ?thesis using st staged_write by (auto simp: s elim!: receive_chunk_ok)
  next
    case (Inl e)
    have "staged (snd (cleanup_on_io_error env (u, fs1)))" for u fs1
      using cleanup_on_io_error_state [of env u fs1] by (auto simp: staged_def)
    then show ?thesis
      using st Inl staged_same_handle [of t fs]
      by (auto simp: s receive_chunk_apply dest!: fh_write_err
          split: if_splits option.splits prod.splits sum.splits)
  qed
qed


section \<open>Beginning\<close>

text \<open>The file system after the three \<^verbatim>\<open>mkdir\<close> calls.\<close>

definition begin_dirs :: "os_env \<Rightarrow> incoming \<Rightarrow> path \<Rightarrow> fs \<Rightarrow> fs" where
  "begin_dirs env t final fs =
     snd (mkdir_p env (butlast final) (snd (mkdir_p env (in_download_dir t) (snd (mkdir_p env (in_staging_dir t) fs)))))"

lemma begin_try_ok:
  assumes "begin_try env (t, fs) = (Inr (), (t', fs'))"
  shows "\<exists>final h. resolve_safe_destination (os_resolve env) (in_download_dir t) (md_file_name (in_meta t))
           (md_relative_path (in_meta t)) = Inr final
    \<and> open_wb env (part_path t) (begin_dirs env t final fs) = (Inr h, fs')
    \<and> t' = t\<lparr>in_temp_path := Some (part_path t), in_final_path := Some final, in_temp_fh := Some h\<rparr>
    \<and> fst (mkdir_p env (in_staging_dir t) fs) = Inr ()
    \<and> fst (mkdir_p env (in_download_dir t) (snd (mkdir_p env (in_staging_dir t) fs))) = Inr ()
    \<and> fst (mkdir_p env (butlast final) (snd (mkdir_p env (in_download_dir t) (snd (mkdir_p env (in_staging_dir t) fs))))) = Inr ()"
proof -
  obtain r1 fs1 where m1: "mkdir_p env (in_staging_dir t) fs = (r1, fs1)" by fastforce
  obtain r2 fs2 where m2: "mkdir_p env (in_download_dir t) fs1 = (r2, fs2)" by fastforce
  from assms obtain final where d: "resolve_safe_destination (os_resolve env) (in_download_dir t)
      (md_file_name (in_meta t)) (md_relative_path (in_meta t)) = Inr final" and r: "r1 = Inr ()" "r2 = Inr ()"
    by (auto simp: begin_try_def eff_apply m1 m2 split: sum.splits)
  obtain r3 fs3 where m3: "mkdir_p env (butlast final) fs2 = (r3, fs3)" by fastforce
  obtain r4 fs4 where m4: "open_wb env (part_path t) fs3 = (r4, fs4)" by fastforce
  from assms show ?thesis
    by (cases r3; cases r4) (auto simp: begin_try_def eff_apply begin_dirs_def m1 m2 m3 m4 r d)
qed

lemma begin_incoming_ok:
  assumes "begin_incoming env (t, fs) = (Inr (), (t', fs'))"
  shows "in_state t \<in> {IDLE, REQUESTED} \<and> (\<exists>t1. begin_try env (t\<lparr>in_state := ACCEPTED\<rparr>, fs) = (Inr (), (t1, fs'))
    \<and> t' = t1\<lparr>in_state := TRANSFERRING\<rparr>)"
proof -
  have st: "ACCEPTED \<in> set (valid_transitions (in_state t))"
    using assms by (auto simp: begin_incoming_def seq_apply goto_apply split: if_splits)
  then have "in_state t \<in> {IDLE, REQUESTED}" by (cases "in_state t") auto
  moreover obtain r t1 fs1 where b: "begin_try env (t\<lparr>in_state := ACCEPTED\<rparr>, fs) = (r, (t1, fs1))"
    by (metis prod.exhaust)
  ultimately show ?thesis
    using assms st
    by (cases r) (auto simp: begin_incoming_def eff_apply goto_apply b split: if_splits)
qed

lemma begin_try_state:
  "in_state (fst (snd (begin_try env (t, fs)))) = in_state t \<and> in_hasher (fst (snd (begin_try env (t, fs)))) = in_hasher t"
  by (auto simp: begin_try_def eff_apply split: prod.splits sum.splits)


lemma open_wb_ok:
  "open_wb env p fs = (Inr h, fs') \<Longrightarrow>
     h = \<lparr>h_path = p, h_buf = [], h_closed = False\<rparr> \<and> fs' = fs(p \<mapsto> File []) \<and> is_dir fs (butlast p)"
  by (auto simp: open_wb_def split: if_splits)

text \<open>Whether it returns or raises, \<^verbatim>\<open>begin\<close> leaves one of these states.\<close>

lemma begin_incoming_cases:
  obtains (refused) "begin_incoming env (t, fs) = (Inl RuntimeError, (t, fs))" and "in_state t \<notin> {IDLE, REQUESTED}"
  | (failed) t1 fs1 where "begin_incoming env (t, fs) = (Inl TransferError, (t1\<lparr>in_state := FAILED\<rparr>, fs1))"
      and "in_state t \<in> {IDLE, REQUESTED}"
  | (raised) e t1 fs1 where "begin_incoming env (t, fs) = (Inl e, (t1, fs1))" and "in_state t1 = ACCEPTED"
      and "in_hasher t1 = in_hasher t" and "\<not> is_oserror e" and "in_state t \<in> {IDLE, REQUESTED}"
  | (started) t1 fs1 where "begin_incoming env (t, fs) = (Inr (), (t1, fs1))"
proof (cases "in_state t \<in> {IDLE, REQUESTED}")
  case False
  then have "ACCEPTED \<notin> set (valid_transitions (in_state t))" by (cases "in_state t") auto
  then show ?thesis using False refused by (simp add: begin_incoming_def seq_apply goto_apply)
next
  case True
  then have acc: "ACCEPTED \<in> set (valid_transitions (in_state t))" by auto
  obtain r t1 fs1 where b: "begin_try env (t\<lparr>in_state := ACCEPTED\<rparr>, fs) = (r, (t1, fs1))"
    by (metis prod.exhaust)
  have st: "in_state t1 = ACCEPTED" "in_hasher t1 = in_hasher t"
    using begin_try_state [of env "t\<lparr>in_state := ACCEPTED\<rparr>" fs] by (simp_all add: b)
  show ?thesis
  proof (cases r)
    case (Inl e)
    then show ?thesis
      using acc b st True failed [of t1 fs1] raised [of e t1 fs1]
      by (cases "is_oserror e") (simp_all add: begin_incoming_def eff_apply goto_apply)
  next
    case (Inr u)
    then show ?thesis
      using acc b st started [of "t1\<lparr>in_state := TRANSFERRING\<rparr>" fs1]
      by (simp add: begin_incoming_def eff_apply goto_apply)
  qed
qed

lemma staged_begin: assumes "staged s" shows "staged (snd (begin_incoming env s))"
proof -
  obtain t fs where s: "s = (t, fs)" by fastforce
  show ?thesis
    unfolding s
  proof (cases rule: begin_incoming_cases [of env t fs])
    case refused
    then show "staged (snd (begin_incoming env (t, fs)))" using assms by (simp add: s)
  next
    case (failed t1 fs1)
    then show "staged (snd (begin_incoming env (t, fs)))" by (simp add: staged_def)
  next
    case (raised e t1 fs1)
    then show "staged (snd (begin_incoming env (t, fs)))" using assms by (auto simp: s staged_def)
  next
    case (started t1 fs1)
    then show "staged (snd (begin_incoming env (t, fs)))"
      using assms begin_incoming_ok [OF started]
      by (auto simp: s staged_def dest!: begin_try_ok open_wb_ok)
  qed
qed

section \<open>Finalising\<close>

lemma flush_close_ok:
  assumes "staged (t, fs)" and "in_state t \<in> {TRANSFERRING, RESUMING}"
    and "flush_close env (t, fs) = (Inr (), (t', fs'))"
  shows "t' = t\<lparr>in_temp_fh := None\<rparr> \<and> staged (t', fs') \<and> (\<forall>p. in_temp_path t = Some p \<longrightarrow> only_at p fs fs')
     \<and> (\<forall>q. exists_path fs' q = exists_path fs q)"
proof (cases "in_temp_fh t")
  case None
  then show ?thesis using assms by (auto simp: flush_close_def)
next
  case (Some h)
  then have nc: "\<not> h_closed h" and ok: "os_flush_ok env" "os_close_ok env"
    and t': "t' = t\<lparr>in_temp_fh := None\<rparr>" and fs': "fs' = append_file (h_path h) [] (append_file (h_path h) (h_buf h) fs)"
    using assms(3)
    by (auto simp: flush_close_def seq_apply on_handle_apply fh_flush_def fh_close_def split: if_splits)
  obtain c where c: "fs (h_path h) = Some (File c)" "c @ h_buf h = in_hasher t" and p: "in_temp_path t = Some (h_path h)"
    using assms(1,2) Some nc by (auto simp: staged_def)
  have "fs' = fs(h_path h \<mapsto> File (in_hasher t))"
    using c by (auto simp: fs' append_file_def)
  then show ?thesis
    using assms(2) p c by (auto simp: staged_def t' only_at_def exists_path_def)
qed

lemma flush_close_state:
  "in_state (fst (snd (flush_close env (t, fs)))) = in_state t"
  "in_hasher (fst (snd (flush_close env (t, fs)))) = in_hasher t"
  "in_meta (fst (snd (flush_close env (t, fs)))) = in_meta t"
  by (auto simp: flush_close_def seq_apply on_handle_apply split: option.splits prod.splits sum.splits)

text \<open>What a completed transfer has done to the file system.\<close>

lemma finalise_True:
  assumes "staged (t, fs)" and "finalise env (t, fs) = (Inr True, (t', fs'))"
  shows "in_state t' = COMPLETED \<and> in_state t \<in> {TRANSFERRING, RESUMING}
    \<and> sha256_hex (in_hasher t) = ascii_lower (md_sha256 (in_meta t))
    \<and> (\<exists>temp final dest. in_temp_path t = Some temp \<and> in_final_path t = Some final
        \<and> dest = (if exists_path fs final then conflict_path (md_transfer_id (in_meta t)) final else final)
        \<and> fs' dest = Some (File (in_hasher t)) \<and> (temp \<noteq> dest \<longrightarrow> fs' temp = None)
        \<and> (\<forall>q. q \<noteq> temp \<and> q \<noteq> dest \<longrightarrow> fs' q = fs q))"
proof -
  obtain r t1 fs1 where fc: "flush_close env (t, fs) = (r, (t1, fs1))" by (metis prod.exhaust)
  have st: "in_state t1 = in_state t" "in_hasher t1 = in_hasher t" "in_meta t1 = in_meta t"
    using flush_close_state [of env t fs] by (simp_all add: fc)
  from assms(2) have r: "r = Inr ()" and eq: "sha256_hex (in_hasher t1) = ascii_lower (md_sha256 (in_meta t1))"
    and rn: "rename_verified env (t1, fs1) = (Inr True, (t', fs'))"
    by (auto simp: finalise_def eff_apply fc goto_apply split: if_splits sum.splits prod.splits)
  from rn obtain temp final where tp: "in_temp_path t1 = Some temp" "in_final_path t1 = Some final"
    by (auto simp: rename_verified_def split: option.splits)
  define dest where "dest = (if exists_path fs1 final then conflict_path (md_transfer_id (in_meta t1)) final else final)"
  from rn have ren: "rename_file env temp dest fs1 = (Inr (), fs')" and gt: "COMPLETED \<in> set (valid_transitions (in_state t1))"
    and t': "t' = t1\<lparr>in_state := COMPLETED\<rparr>"
    by (auto simp: rename_verified_def tp Let_def eff_apply goto_apply dest_def prod_eq_iff split: if_splits prod.splits sum.splits)
  have run: "in_state t \<in> {TRANSFERRING, RESUMING}" using completed_from [OF gt] st by simp
  have fl: "t1 = t\<lparr>in_temp_fh := None\<rparr>" "staged (t1, fs1)" "\<And>p. in_temp_path t = Some p \<Longrightarrow> only_at p fs fs1"
      "\<And>q. exists_path fs1 q = exists_path fs q"
    using flush_close_ok [OF assms(1) run] fc r by auto
  from ren obtain c where c: "fs1 temp = Some (File c)" and fs': "fs' = (fs1(temp := None))(dest \<mapsto> File c)"
    by (auto simp: rename_file_def split: option.splits node.splits if_splits)
  have "c = in_hasher t" using fl(1,2) run tp c by (auto simp: staged_def)
  moreover have "only_at temp fs fs1" using fl(1,3) tp by simp
  ultimately show ?thesis
    using run eq st tp fl(1,4) t' by (auto simp: fs' dest_def only_at_def)
qed


section \<open>The invariant under every method\<close>

text \<open>States in which the invariant asks for nothing.\<close>

definition resting :: "transfer_state \<Rightarrow> bool" where
  "resting s \<longleftrightarrow> s \<notin> {IDLE, REQUESTED, ACCEPTED, TRANSFERRING, RESUMING}"

lemma staged_resting: "resting (in_state t) \<Longrightarrow> staged (t, fs)"
  by (auto simp: staged_def resting_def)

lemma staged_other_fs: "staged (t, fs) \<Longrightarrow> in_state t \<notin> {TRANSFERRING, RESUMING} \<Longrightarrow> staged (t, fs')"
  by (auto simp: staged_def)

lemma staged_cancel: "staged (snd (cancel_incoming env s))"
proof -
  obtain t fs where s: "s = (t, fs)" by fastforce
  show ?thesis
    by (auto simp: s cancel_incoming_def drop_handle_def cleanup_temp_def eff_apply on_handle_apply staged_def
        split: option.splits prod.splits sum.splits)
qed

lemma staged_flush_close:
  assumes "staged (t, fs)" shows "staged (snd (flush_close env (t, fs)))"
proof (cases "in_state t \<in> {TRANSFERRING, RESUMING}")
  case False
  then show ?thesis
    using assms flush_close_state [of env t fs]
    by (cases "snd (flush_close env (t, fs))") (auto simp: staged_def)
next
  case run: True
  show ?thesis
  proof (cases "in_temp_fh t")
    case None
    then show ?thesis using assms by (simp add: flush_close_def)
  next
    case (Some h)
    show ?thesis
    proof (cases "h_closed h")
      case True
      then show ?thesis using assms Some run
        by (auto simp: flush_close_def seq_apply on_handle_apply fh_flush_def staged_def)
    next
      case False
      then obtain c where "fs (h_path h) = Some (File c)" "c @ h_buf h = in_hasher t" "in_temp_path t = Some (h_path h)"
        using assms Some run by (auto simp: staged_def)
      then show ?thesis using Some run False
        by (auto simp: flush_close_def seq_apply on_handle_apply fh_flush_def fh_close_def staged_def)
    qed
  qed
qed

lemma cleanup_temp_apply:
  "\<exists>fs'. cleanup_temp env (t, fs) = (Inr (), (t, fs'))"
  by (auto simp: cleanup_temp_def eff_apply split: option.splits prod.splits sum.splits)

text \<open>\<^verbatim>\<open>cancel\<close> does not raise.\<close>

lemma cancel_incoming_result:
  "\<exists>t' fs'. cancel_incoming env (t, fs) = (Inr (), (t', fs')) \<and> in_state t' = CANCELLED \<and> in_temp_fh t' = None
    \<and> in_meta t' = in_meta t \<and> in_temp_path t' = in_temp_path t"
proof -
  obtain fs1 where d: "drop_handle env (t, fs) = (Inr (), (t\<lparr>in_temp_fh := None\<rparr>, fs1))"
  proof (cases "in_temp_fh t")
    case (Some h)
    then show ?thesis using that
      by (cases "fst (fh_close env h fs)") (simp_all add: drop_handle_def eff_apply on_handle_apply)
  qed (simp add: that [of fs] drop_handle_def)
  obtain fs2 where "cleanup_temp env (t\<lparr>in_temp_fh := None\<rparr>, fs1) = (Inr (), (t\<lparr>in_temp_fh := None\<rparr>, fs2))"
    using cleanup_temp_apply by blast
  with d show ?thesis by (simp add: cancel_incoming_def seq_apply)
qed

lemma staged_finalise: assumes "staged s" shows "staged (snd (finalise env s))"
proof -
  obtain t fs where s: "s = (t, fs)" by fastforce
  obtain r t1 fs1 where fc: "flush_close env (t, fs) = (r, (t1, fs1))" by (metis prod.exhaust)
  have st1: "staged (t1, fs1)" using staged_flush_close [of t fs env] assms by (simp add: fc s)
  have mism: "staged (snd (seq (cleanup_temp env) (seq (goto FAILED) (ret False)) (t1, fs1)))"
  proof -
    obtain fs2 where ct: "cleanup_temp env (t1, fs1) = (Inr (), (t1, fs2))" using cleanup_temp_apply by blast
    show ?thesis
    proof (cases "FAILED \<in> set (valid_transitions (in_state t1))")
      case True
      then show ?thesis by (simp add: eff_apply ct goto_apply staged_def)
    next
      case False
      then have "resting (in_state t1)" by (cases "in_state t1") (auto simp: resting_def)
      then show ?thesis using False by (simp add: eff_apply ct goto_apply staged_resting)
    qed
  qed
  have ren: "staged (snd (rename_verified env (t1, fs1)))"
  proof (cases "in_temp_path t1 = None \<or> in_final_path t1 = None")
    case False
    then obtain temp final where p: "in_temp_path t1 = Some temp" "in_final_path t1 = Some final" by auto
    have fail: "fst (rename_file env temp d fs1) = Inl e \<Longrightarrow> snd (rename_file env temp d fs1) = fs1" for d e
      by (auto simp: rename_file_def split: option.splits node.splits if_splits)
    have other: "staged (t1, fs2)" if "COMPLETED \<notin> set (valid_transitions (in_state t1))" for fs2
      using that st1 by (intro staged_other_fs [OF st1]) auto
    show ?thesis
      using fail other st1
      by (auto simp: rename_verified_def p Let_def eff_apply goto_apply staged_resting resting_def split: sum.splits)
  qed (use st1 in \<open>auto simp: rename_verified_def split: option.splits\<close>)
  show ?thesis
    using st1 mism ren by (cases r) (auto simp: s finalise_def seq_apply [of "flush_close env"] fc)
qed


lemma interrupt_close_apply:
  "\<exists>fs'. interrupt_close env (t, fs) = (Inr (), (t\<lparr>in_temp_fh := None\<rparr>, fs'))"
  by (cases "in_temp_fh t") (auto simp: interrupt_close_def eff_apply on_handle_apply split: prod.splits sum.splits)

text \<open>The next state after \<^verbatim>\<open>interrupt\<close>.\<close>

lemma align_temp_apply:
  "\<exists>b fs'. align_temp env n (t, fs) = (Inr (), (t\<lparr>in_bytes_received := b\<rparr>, fs'))"
proof (cases "in_temp_path t")
  case (Some p)
  have "is_oserror e" if "fst (truncate_file env p k fs) = Inl e" for k e
    using that by (auto simp: truncate_file_def is_oserror_def split: option.splits node.splits if_splits)
  then show ?thesis
    using exI [of "\<lambda>b. t = t\<lparr>in_bytes_received := b\<rparr>" "in_bytes_received t"]
    by (auto simp: align_temp_def Some Let_def eff_apply split: sum.splits prod.splits)
qed (auto simp: align_temp_def intro!: exI [of _ "in_bytes_received t"])

lemma interrupt_measured_apply:
  assumes "in_state t \<in> {TRANSFERRING, ACCEPTED}"
  shows "(\<exists>fs'. interrupt_measured env (t, fs) = (Inr (), (t\<lparr>in_state := FAILED\<rparr>, fs')))
    \<or> (\<exists>b n fs'. interrupt_measured env (t, fs) =
         (if in_state t = TRANSFERRING
          then (Inr (), (t\<lparr>in_bytes_received := b, in_next_seq := n, in_state := INTERRUPTED\<rparr>, fs'))
          else (Inl RuntimeError, (t\<lparr>in_bytes_received := b, in_next_seq := n\<rparr>, fs'))))"
proof -
  define a where "a = bytes_on_disk env t fs"
  define n where "n = (if 0 < md_chunk_size (in_meta t) then a div md_chunk_size (in_meta t) else in_next_seq t)"
  let ?t = "t\<lparr>in_bytes_received := a, in_next_seq := n\<rparr>"
  show ?thesis
  proof (cases "a = 0 \<and> in_bytes_received t = 0")
    case True
    then have "interrupt_measured env (t, fs) = (Inr (), (t\<lparr>in_state := FAILED\<rparr>, fs))"
      by (simp add: interrupt_measured_def a_def)
    then show ?thesis by blast
  next
    case False
    obtain b fs' where al: "align_temp env a (?t, fs) = (Inr (), (?t\<lparr>in_bytes_received := b\<rparr>, fs'))"
      using align_temp_apply by blast
    have nx: "(if 0 < md_chunk_size (in_meta t) then obj (in_next_seq_update (\<lambda>_. a div md_chunk_size (in_meta t))) else ret ())
        (t\<lparr>in_bytes_received := a\<rparr>, fs) = (Inr (), (?t, fs))" by (simp add: n_def)
    have "interrupt_measured env (t, fs) = goto INTERRUPTED (?t\<lparr>in_bytes_received := b\<rparr>, fs')"
      using False
      by (simp only: interrupt_measured_def basic_apply Let_def a_def [symmetric] if_False prod.case
          seq_apply nx al sum.case)
    moreover have "?t\<lparr>in_bytes_received := b\<rparr> = t\<lparr>in_bytes_received := b, in_next_seq := n\<rparr>" by simp
    ultimately have "interrupt_measured env (t, fs) = goto INTERRUPTED (t\<lparr>in_bytes_received := b, in_next_seq := n\<rparr>, fs')"
      by simp
    then have "interrupt_measured env (t, fs) =
         (if in_state t = TRANSFERRING
          then (Inr (), (t\<lparr>in_bytes_received := b, in_next_seq := n, in_state := INTERRUPTED\<rparr>, fs'))
          else (Inl RuntimeError, (t\<lparr>in_bytes_received := b, in_next_seq := n\<rparr>, fs')))"
      using assms by (auto simp: goto_apply)
    then show ?thesis by blast
  qed
qed

lemma interrupt_state:
  assumes "interrupt env (t, fs) = (r, (t', fs'))"
  shows "(in_state t' = ACCEPTED \<and> in_state t = ACCEPTED \<and> in_hasher t' = in_hasher t) \<or> resting (in_state t')"
proof (cases "in_state t \<in> {TRANSFERRING, ACCEPTED} \<and> md_file_size (in_meta t) \<noteq> 0")
  case True
  obtain fs1 where "interrupt_close env (t, fs) = (Inr (), (t\<lparr>in_temp_fh := None\<rparr>, fs1))"
    using interrupt_close_apply by blast
  then have "interrupt env (t, fs) = interrupt_measured env (t\<lparr>in_temp_fh := None\<rparr>, fs1)"
    using True by (auto simp: interrupt_def seq_apply)
  then show ?thesis
    using True assms interrupt_measured_apply [of "t\<lparr>in_temp_fh := None\<rparr>" env fs1]
    by (auto simp: resting_def split: if_splits)
qed (use assms in \<open>auto simp: interrupt_def resting_def split: if_splits\<close>)

lemma staged_interrupt: assumes "staged s" shows "staged (snd (interrupt env s))"
proof -
  obtain t fs where s: "s = (t, fs)" by fastforce
  obtain r t' fs' where i: "interrupt env (t, fs) = (r, (t', fs'))" by (metis prod.exhaust)
  from interrupt_state [OF i] show ?thesis
  proof
    assume "resting (in_state t')"
    then show ?thesis by (simp add: s i staged_resting)
  next
    assume "in_state t' = ACCEPTED \<and> in_state t = ACCEPTED \<and> in_hasher t' = in_hasher t"
    then show ?thesis using assms by (simp add: s i staged_def)
  qed
qed

lemma not_Dir_iff: "n \<noteq> Dir \<longleftrightarrow> (\<exists>c. n = File c)"
  by (cases n) auto

text \<open>Re-opening the staging file feeds the hasher with exactly what is on disk.\<close>

lemma resume_reopen_cases:
  assumes "resume_reopen env ix p (t, fs) = (r, (t', fs'))" and "in_state t = RESUME_REQUESTED"
  shows "resting (in_state t') \<or> (\<exists>h n. open_ab env p fs = (Inr h, fs')
    \<and> t' = t\<lparr>in_temp_fh := Some h, in_hasher := (case read_file env p fs' of Inr c \<Rightarrow> fed_blocks c | Inl _ \<Rightarrow> []),
        in_bytes_received := n, in_next_seq := ix, in_state := RESUMING\<rparr>)"
proof (cases "open_ab env p fs")
  case o: (Pair r1 fs1)
  show ?thesis
  proof (cases r1)
    case (Inl e)
    then have "is_oserror e" using o by (auto simp: open_ab_def is_oserror_def split: if_splits)
    then show ?thesis using assms by (auto simp: resume_reopen_def eff_apply o Inl resting_def)
  next
    case (Inr h)
    then show ?thesis
      using assms
      by (cases "stat_size env p fs1") (auto simp: resume_reopen_def eff_apply o goto_apply resting_def)
  qed
qed

lemma resume_cases:
  assumes "resume env ix (t, fs) = (r, (t', fs'))"
  shows "(t' = t \<and> fs' = fs) \<or> resting (in_state t')
    \<or> (\<exists>p h n. in_temp_path t = Some p \<and> open_ab env p fs = (Inr h, fs')
         \<and> t' = t\<lparr>in_temp_fh := Some h, in_hasher := (case read_file env p fs' of Inr c \<Rightarrow> fed_blocks c | Inl _ \<Rightarrow> []),
             in_bytes_received := n, in_next_seq := ix, in_state := RESUMING\<rparr>)"
proof (cases "in_state t \<in> {INTERRUPTED, RESUME_REQUESTED}")
  case True
  have g: "(if in_state t = INTERRUPTED then goto RESUME_REQUESTED else ret ()) (t, fs)
      = (Inr (), (t\<lparr>in_state := RESUME_REQUESTED\<rparr>, fs))"
    using True by (auto simp: goto_apply)
  define k where "k = (case in_temp_path t of
          None \<Rightarrow> seq (set_state FAILED) (raise FileNotFoundError)
        | Some p \<Rightarrow> if \<not> exists_path fs p then seq (set_state FAILED) (raise FileNotFoundError)
            else resume_reopen env ix p)"
  have "resume env ix (t, fs) = seq (if in_state t = INTERRUPTED then goto RESUME_REQUESTED else ret ()) k (t, fs)"
    using True by (auto simp: resume_def k_def simp del: seq_simps)
  also have "\<dots> = k (t\<lparr>in_state := RESUME_REQUESTED\<rparr>, fs)" by (simp only: seq_apply g prod.case sum.case)
  finally have body: "k (t\<lparr>in_state := RESUME_REQUESTED\<rparr>, fs) = (r, (t', fs'))" using assms by simp
  show ?thesis
  proof (cases "\<exists>p. in_temp_path t = Some p \<and> exists_path fs p")
    case True
    then obtain p where "in_temp_path t = Some p" "exists_path fs p" by blast
    then show ?thesis
      using body resume_reopen_cases [of env ix p "t\<lparr>in_state := RESUME_REQUESTED\<rparr>" fs] by (auto simp: k_def)
  next
    case False
    then show ?thesis using body by (auto simp: k_def seq_apply resting_def split: option.splits)
  qed
qed (use assms in \<open>auto simp: resume_def\<close>)

lemma staged_resume:
  assumes "staged s" and "os_read_ok env" shows "staged (snd (resume env ix s))"
proof -
  obtain t fs where s: "s = (t, fs)" by fastforce
  obtain r t' fs' where i: "resume env ix (t, fs) = (r, (t', fs'))" by (metis prod.exhaust)
  have oab: "open_ab env p fs = (Inr h, fs') \<Longrightarrow> h_path h = p \<and> h_buf h = [] \<and> (\<exists>c. fs' p = Some (File c))" for p h
    by (auto simp: open_ab_def is_dir_def not_Dir_iff split: if_splits)
  from resume_cases [OF i] show ?thesis
  proof (elim disjE conjE exE)
    assume "t' = t" "fs' = fs" then show ?thesis using assms by (simp add: s i)
  next
    assume "resting (in_state t')" then show ?thesis by (simp add: s i staged_resting)
  next
    fix p h n
    assume t': "t' = t\<lparr>in_temp_fh := Some h, in_hasher := (case read_file env p fs' of Inr c \<Rightarrow> fed_blocks c | Inl _ \<Rightarrow> []),
        in_bytes_received := n, in_next_seq := ix, in_state := RESUMING\<rparr>"
      and p: "in_temp_path t = Some p" and o: "open_ab env p fs = (Inr h, fs')"
    from oab [OF o] obtain c where "fs' p = Some (File c)" "h_path h = p" "h_buf h = []" by blast
    then show ?thesis
      using p assms(2) by (simp add: s i t' staged_def read_file_def)
  qed
qed

lemma staged_prepare: assumes "staged s" shows "staged (snd (prepare_resume_request pf env eb ei s))"
proof -
  obtain t fs where s: "s = (t, fs)" by fastforce
  obtain r t' fs' where i: "prepare_resume_request pf env eb ei (t, fs) = (r, (t', fs'))" by (metis prod.exhaust)
  have "(t' = t \<and> fs' = fs) \<or> (in_state t' = INTERRUPTED)"
    using i by (auto simp: prepare_resume_request_def eff_apply Let_def split: if_splits option.splits sum.splits)
  then show ?thesis using assms by (auto simp: s i staged_resting resting_def)
qed

end
