(* ===== verification/Incoming_Safety.thy ===== *)
theory Incoming_Safety
  imports Incoming
begin

text \<open>
  What an incoming transfer can do to the file system over its whole life: the runs of the
  methods in any order and under any faults, the files they may touch, where a finished file
  ends up and what it contains.
\<close>

section \<open>Runs\<close>

datatype rx_op =
    RxBegin os_env
  | RxChunk os_env chunk_frame
  | RxFinalise os_env
  | RxInterrupt os_env
  | RxPrepare os_env "int option" "int option"
  | RxResume os_env int
  | RxCancel os_env

fun op_env :: "rx_op \<Rightarrow> os_env" where
  "op_env (RxBegin env) = env"
| "op_env (RxChunk env _) = env"
| "op_env (RxFinalise env) = env"
| "op_env (RxInterrupt env) = env"
| "op_env (RxPrepare env _ _) = env"
| "op_env (RxResume env _) = env"
| "op_env (RxCancel env) = env"

fun rx_step :: "platform \<Rightarrow> rx_op \<Rightarrow> rx \<Rightarrow> rx" where
  "rx_step pf (RxBegin env) s = snd (begin_incoming env s)"
| "rx_step pf (RxChunk env fr) s = snd (receive_chunk env fr s)"
| "rx_step pf (RxFinalise env) s = snd (finalise env s)"
| "rx_step pf (RxInterrupt env) s = snd (interrupt env s)"
| "rx_step pf (RxPrepare env eb ei) s = snd (prepare_resume_request pf env eb ei s)"
| "rx_step pf (RxResume env ix) s = snd (resume env ix s)"
| "rx_step pf (RxCancel env) s = snd (cancel_incoming env s)"

text \<open>The states reachable from a fresh object; the parameter \<open>R\<close> is \<^verbatim>\<open>Path.resolve\<close>. The flag says
  whether the re-read of the staging file in \<^verbatim>\<open>resume\<close> may fail.\<close>

inductive rx_run :: "platform \<Rightarrow> (path \<Rightarrow> path) \<Rightarrow> bool \<Rightarrow> metadata \<Rightarrow> path \<Rightarrow> fs \<Rightarrow> rx \<Rightarrow> bool"
  for pf R lossy meta dir fs0
where
  rx_start: "rx_run pf R lossy meta dir fs0 (new_incoming meta dir, fs0)"
| rx_next: "rx_run pf R lossy meta dir fs0 s \<Longrightarrow> os_resolve (op_env op) = R
     \<Longrightarrow> lossy \<or> os_read_ok (op_env op) \<Longrightarrow> rx_run pf R lossy meta dir fs0 (rx_step pf op s)"

inductive_cases rx_runE: "rx_run pf R lossy meta dir fs0 s"

lemma staged_new: "staged (new_incoming meta dir, fs)"
  by (simp add: staged_def new_incoming_def)

lemma run_staged: "rx_run pf R False meta dir fs0 s \<Longrightarrow> staged s"
proof (induction rule: rx_run.induct)
  case (rx_next s op)
  then show ?case
    by (cases op) (simp_all add: staged_begin staged_receive_chunk staged_finalise staged_interrupt
        staged_prepare staged_resume staged_cancel)
qed (rule staged_new)

section \<open>Confinement\<close>

text \<open>The staging file of a transfer, and the destination \<^verbatim>\<open>begin\<close> computes for it.\<close>

definition part_of :: "metadata \<Rightarrow> path \<Rightarrow> path" where
  "part_of meta dir = path_join (path_join dir (lit ''staging'')) (md_transfer_id meta @ lit ''.part'')"

definition dest_of :: "(path \<Rightarrow> path) \<Rightarrow> metadata \<Rightarrow> path \<Rightarrow> path res" where
  "dest_of R meta dir = resolve_safe_destination R dir (md_file_name meta) (md_relative_path meta)"

text \<open>The invariant of a run: the object keeps its identity and its paths, and every entry that
  existed before is as it was, except the staging file and the name used on a conflict.\<close>

definition confined :: "(path \<Rightarrow> path) \<Rightarrow> metadata \<Rightarrow> path \<Rightarrow> fs \<Rightarrow> rx \<Rightarrow> bool" where
  "confined R meta dir fs0 s \<longleftrightarrow> (case s of (t, fs) \<Rightarrow>
     in_meta t = meta \<and> in_download_dir t = dir \<and> in_staging_dir t = path_join dir (lit ''staging'')
     \<and> in_temp_path t \<in> {None, Some (part_of meta dir)}
     \<and> (\<forall>h. in_temp_fh t = Some h \<longrightarrow> h_path h = part_of meta dir)
     \<and> (\<forall>final. in_final_path t = Some final \<longrightarrow> dest_of R meta dir = Inr final)
     \<and> (\<forall>q n. fs0 q = Some n \<longrightarrow> q \<noteq> part_of meta dir
          \<longrightarrow> (\<forall>final. dest_of R meta dir = Inr final \<longrightarrow> q \<noteq> conflict_path (md_transfer_id meta) final)
          \<longrightarrow> fs q = Some n))"

lemma confined_new: "confined R meta dir fs0 (new_incoming meta dir, fs0)"
  by (simp add: confined_def new_incoming_def)

lemma keeps_goto [keeps_intros]: "keeps (confined R meta dir fs0) (goto st)"
  by (auto simp: keeps_def goto_apply confined_def)

lemma keeps_set_state [keeps_intros]: "keeps (confined R meta dir fs0) (set_state st)"
  by (auto simp: keeps_def confined_def)

lemma keeps_obj_plain [keeps_intros]:
  "keeps (confined R meta dir fs0) (obj (in_hasher_update f))"
  "keeps (confined R meta dir fs0) (obj (in_bytes_received_update g))"
  "keeps (confined R meta dir fs0) (obj (in_next_seq_update g))"
  "keeps (confined R meta dir fs0) (obj (in_temp_fh_update (\<lambda>_. None)))"
  "keeps (confined R meta dir fs0) (obj (\<lambda>t. t\<lparr>in_bytes_received := b, in_next_seq := n\<rparr>))"
  by (auto simp: keeps_def confined_def)

text \<open>System calls on the staging file.\<close>

lemma keeps_sys_only_at:
  assumes "\<And>fs. only_at (part_of meta dir) fs (snd (f fs))"
  shows "keeps (confined R meta dir fs0) (sys f)"
proof -
  have "confined R meta dir fs0 (t, snd (f fs))" if "confined R meta dir fs0 (t, fs)" for t fs
    using that assms [of fs] by (auto simp: confined_def only_at_def)
  then show ?thesis by (auto simp: keeps_def)
qed

lemma keeps_on_handle:
  assumes "\<And>h fs. only_at (h_path h) fs (snd (snd (f h fs)))" and "\<And>h fs. h_path (fst (snd (f h fs))) = h_path h"
  shows "keeps (confined R meta dir fs0) (on_handle f)"
proof -
  have "confined R meta dir fs0 (snd (on_handle f (t, fs)))" if c: "confined R meta dir fs0 (t, fs)" for t fs
  proof (cases "in_temp_fh t")
    case (Some h)
    then have p: "h_path h = part_of meta dir" using c by (simp add: confined_def)
    show ?thesis
      using c Some p assms(1) [of h fs] assms(2) [of h fs]
      by (auto simp: on_handle_apply confined_def only_at_def)
  qed (use c in \<open>simp add: on_handle_apply\<close>)
  then show ?thesis by (auto simp: keeps_def)
qed

lemma keeps_fh [keeps_intros]:
  "keeps (confined R meta dir fs0) (on_handle (fh_write env d))"
  "keeps (confined R meta dir fs0) (on_handle (fh_flush env))"
  "keeps (confined R meta dir fs0) (on_handle (fh_close env))"
  by (rule keeps_on_handle; simp)+

text \<open>Creating directories only fills empty places.\<close>

lemma mkdir_from_keeps: "fs q = Some n \<Longrightarrow> snd (mkdir_from env base ws fs) q = Some n"
proof (induction env base ws fs rule: mkdir_from.induct)
  case (2 env base w ws fs)
  show ?case
  proof (cases "fs (base @ [w])")
    case None
    moreover from this have "q \<noteq> base @ [w]" using 2(3) by auto
    ultimately show ?thesis using 2 by (auto simp: Let_def fun_upd_def)
  next
    case (Some m)
    then show ?thesis using 2 by (cases m) (auto simp: Let_def)
  qed
qed simp

lemma keeps_mkdir [keeps_intros]: "keeps (confined R meta dir fs0) (sys (mkdir_p env p))"
  by (auto simp: keeps_def confined_def mkdir_p_def mkdir_from_keeps)

text \<open>A method that looks at the object: its body may use what the invariant says of it.\<close>

lemma keeps_reads_confined:
  assumes "\<And>t fs. confined R meta dir fs0 (t, fs) \<Longrightarrow> keeps (confined R meta dir fs0) (f (t, fs))"
  shows "keeps (confined R meta dir fs0) (reads f)"
  using assms by (auto simp: keeps_def)

lemma confined_temp: "confined R meta dir fs0 (t, fs) \<Longrightarrow> in_temp_path t = Some p \<Longrightarrow> p = part_of meta dir"
  by (auto simp: confined_def)

lemma keeps_cleanup_temp [keeps_intros]: "keeps (confined R meta dir fs0) (cleanup_temp env)"
  unfolding cleanup_temp_def
proof (rule keeps_reads_confined)
  fix t fs assume c: "confined R meta dir fs0 (t, fs)"
  have "keeps (confined R meta dir fs0) (sys (unlink_file env p))" if "in_temp_path t = Some p" for p
    using confined_temp [OF c that] by (intro keeps_sys_only_at) simp
  then show "keeps (confined R meta dir fs0) (case (t, fs) of (t, fs) \<Rightarrow>
      case in_temp_path t of None \<Rightarrow> ret ()
      | Some p \<Rightarrow> if exists_path fs p then catch (sys (unlink_file env p)) (\<lambda>_. ret ()) else ret ())"
    by (auto intro!: keeps_intros)
qed

lemma keeps_drop_handle [keeps_intros]: "keeps (confined R meta dir fs0) (drop_handle env)"
  unfolding drop_handle_def by (intro keeps_reads_confined) (auto intro!: keeps_intros)

lemma keeps_cleanup_on_io_error [keeps_intros]: "keeps (confined R meta dir fs0) (cleanup_on_io_error env)"
  unfolding cleanup_on_io_error_def by (intro keeps_intros)

lemma keeps_cancel: "keeps (confined R meta dir fs0) (cancel_incoming env)"
  unfolding cancel_incoming_def by (intro keeps_intros)

lemma keeps_receive_chunk: "keeps (confined R meta dir fs0) (receive_chunk env fr)"
proof -
  have "keeps (confined R meta dir fs0) (obj (\<lambda>t. t\<lparr>in_hasher := in_hasher t @ d, in_bytes_received := in_bytes_received t + k,
      in_next_seq := in_next_seq t + 1\<rparr>))" for d k
    by (auto simp: keeps_def confined_def)
  then show ?thesis
    unfolding receive_chunk_def by (intro keeps_reads_confined) (auto intro!: keeps_intros)
qed

lemma keeps_interrupt: "keeps (confined R meta dir fs0) (interrupt env)"
proof -
  have "keeps (confined R meta dir fs0) (align_temp env n)" for n
    unfolding align_temp_def
  proof (rule keeps_reads_confined)
    fix t fs assume c: "confined R meta dir fs0 (t, fs)"
    have tr: "keeps (confined R meta dir fs0) (sys (truncate_file env p k))" if "in_temp_path t = Some p" for p k
      using confined_temp [OF c that] by (intro keeps_sys_only_at) simp
    show "keeps (confined R meta dir fs0) (case (t, fs) of (t, fs) \<Rightarrow>
        let aligned = in_next_seq t * md_chunk_size (in_meta t)
        in case in_temp_path t of
          Some p \<Rightarrow> if aligned < n then catch (seq (sys (truncate_file env p (nat aligned)))
                (obj (in_bytes_received_update (\<lambda>_. aligned)))) (\<lambda>e. if is_oserror e then ret () else raise e)
            else ret ()
        | None \<Rightarrow> ret ())"
      by (auto simp: Let_def intro!: keeps_intros tr split: option.split)
  qed
  moreover have "keeps (confined R meta dir fs0) (interrupt_close env)"
    unfolding interrupt_close_def by (intro keeps_reads_confined) (auto intro!: keeps_intros)
  ultimately show ?thesis
    unfolding interrupt_def interrupt_measured_def
    by (intro keeps_reads_confined) (auto simp: Let_def intro!: keeps_intros keeps_reads_confined)
qed

lemma keeps_prepare: "keeps (confined R meta dir fs0) (prepare_resume_request pf env eb ei)"
  unfolding prepare_resume_request_def
  by (intro keeps_reads_confined) (auto simp: Let_def intro!: keeps_intros split: option.split)


lemma keeps_bind_gets:
  assumes "\<And>t fs. confined R meta dir fs0 (t, fs) \<Longrightarrow> keeps (confined R meta dir fs0) (f t)"
  shows "keeps (confined R meta dir fs0) (bind (gets fst) f)"
  using assms by (auto simp: keeps_def)

lemma keeps_bind_lift:
  assumes "\<And>x. r = Inr x \<Longrightarrow> keeps I (f x)"
  shows "keeps I (bind (lift r) f)"
  using assms by (cases r) (auto simp: keeps_def bind_apply)

lemma confined_part: "confined R meta dir fs0 (t, fs) \<Longrightarrow> part_path t = part_of meta dir"
  by (simp add: confined_def part_path_def part_of_def)

lemma open_handle_path:
  "open_wb env p fs = (Inr h, fs') \<Longrightarrow> h_path h = p" "open_ab env p fs = (Inr h, fs') \<Longrightarrow> h_path h = p"
  by (auto simp: open_wb_def open_ab_def split: if_splits)

lemma keeps_begin: 
  assumes "os_resolve env = R" shows "keeps (confined R meta dir fs0) (begin_incoming env)"
proof -
  have opened: "keeps (confined R meta dir fs0) (bind (sys (open_wb env (part_of meta dir))) (\<lambda>h. obj (in_temp_fh_update (\<lambda>_. Some h))))"
  proof -
    have "confined R meta dir fs0 (snd (bind (sys (open_wb env (part_of meta dir))) (\<lambda>h. obj (in_temp_fh_update (\<lambda>_. Some h))) (t, fs)))"
      if c: "confined R meta dir fs0 (t, fs)" for t fs
    proof -
      obtain r fs1 where o: "open_wb env (part_of meta dir) fs = (r, fs1)" by fastforce
      have c1: "confined R meta dir fs0 (t, fs1)"
        using keepsD [OF keeps_sys_only_at c, of "open_wb env (part_of meta dir)"] by (simp add: o)
      show ?thesis
      proof (cases r)
        case (Inr h)
        then have "h_path h = part_of meta dir" using o open_handle_path(1) by blast
        then show ?thesis using c1 Inr by (simp add: bind_apply o confined_def)
      qed (use c1 in \<open>simp add: bind_apply o\<close>)
    qed
    then show ?thesis by (auto simp: keeps_def)
  qed
  have "keeps (confined R meta dir fs0) (begin_try env)"
    unfolding begin_try_def
  proof (rule keeps_bind_gets)
    fix t fs assume c: "confined R meta dir fs0 (t, fs)"
    have d: "in_download_dir t = dir" "in_meta t = meta" using c by (simp_all add: confined_def)
    have tp: "keeps (confined R meta dir fs0) (obj (in_temp_path_update (\<lambda>_. Some (part_of meta dir))))"
      by (auto simp: keeps_def confined_def)
    have fp: "keeps (confined R meta dir fs0) (obj (in_final_path_update (\<lambda>_. Some final)))"
      if "resolve_safe_destination R dir (md_file_name meta) (md_relative_path meta) = Inr final" for final
      using that by (auto simp: keeps_def confined_def dest_of_def)
    show "keeps (confined R meta dir fs0)
        (seq (sys (mkdir_p env (in_staging_dir t)))
        (seq (sys (mkdir_p env (in_download_dir t)))
        (seq (obj (in_temp_path_update (\<lambda>_. Some (part_path t))))
        (bind (lift (resolve_safe_destination (os_resolve env) (in_download_dir t)
                (md_file_name (in_meta t)) (md_relative_path (in_meta t)))) (\<lambda>final.
         seq (obj (in_final_path_update (\<lambda>_. Some final)))
        (seq (sys (mkdir_p env (butlast final)))
        (bind (sys (open_wb env (part_path t))) (\<lambda>h. obj (in_temp_fh_update (\<lambda>_. Some h)))))))))) "
      unfolding confined_part [OF c] d assms
      by (intro keeps_seq keeps_mkdir tp keeps_bind_lift fp opened)
  qed
  then show ?thesis unfolding begin_incoming_def by (auto intro!: keeps_intros)
qed

lemma keeps_finalise: "keeps (confined R meta dir fs0) (finalise env)"
proof -
  have rn: "confined R meta dir fs0 (snd (rename_verified env (t, fs)))" if c: "confined R meta dir fs0 (t, fs)" for t fs
  proof (cases "in_temp_path t = None \<or> in_final_path t = None")
    case False
    then obtain temp final where p: "in_temp_path t = Some temp" "in_final_path t = Some final" by auto
    have tp: "temp = part_of meta dir" and fp: "dest_of R meta dir = Inr final" and mt: "in_meta t = meta"
      using c p by (auto simp: confined_def)
    define dest where "dest = (if exists_path fs final then conflict_path (md_transfer_id meta) final else final)"
    have "confined R meta dir fs0 (t, snd (rename_file env temp dest fs))"
      using c fp unfolding tp confined_def
      by (auto simp: rename_file_def dest_def exists_path_def split: option.splits node.splits if_splits)
    then have "keeps (\<lambda>s. confined R meta dir fs0 s) (seq (goto COMPLETED) (ret True))"
      "confined R meta dir fs0 (t, snd (rename_file env temp dest fs))"
      by (auto intro!: keeps_intros)
    moreover have "rename_verified env (t, fs) = seq (sys (rename_file env temp dest)) (seq (goto COMPLETED) (ret True)) (t, fs)"
      by (simp add: rename_verified_def p mt dest_def)
    ultimately show ?thesis
      by (cases "fst (rename_file env temp dest fs)") (auto simp: seq_apply [of "sys _"] dest: keepsD)
  qed (use c in \<open>auto simp: rename_verified_def split: option.splits\<close>)
  have "keeps (confined R meta dir fs0) (flush_close env)"
    unfolding flush_close_def by (intro keeps_reads_confined) (auto intro!: keeps_intros)
  moreover have "keeps (confined R meta dir fs0) (rename_verified env)" using rn by (auto simp: keeps_def)
  ultimately show ?thesis
    unfolding finalise_def by (intro keeps_seq keeps_reads_confined) (auto intro!: keeps_intros)
qed

lemma keeps_reopen: "keeps (confined R meta dir fs0) (resume_reopen env ix (part_of meta dir))"
proof -
  let ?P = "part_of meta dir"
  let ?rest = "\<lambda>h. seq (obj (in_temp_fh_update (\<lambda>_. Some h)))
          (reads (\<lambda>(t, fs).
             seq (obj (in_hasher_update (\<lambda>_. case read_file env ?P fs of Inr c \<Rightarrow> fed_blocks c | Inl _ \<Rightarrow> [])))
            (bind (lift (stat_size env ?P fs)) (\<lambda>disk_size.
             seq (obj (\<lambda>t. t\<lparr>in_bytes_received := disk_size, in_next_seq := ix\<rparr>))
                 (goto RESUMING)))))"
  let ?open = "catch (sys (open_ab env ?P))
            (\<lambda>e. if is_oserror e then seq (set_state FAILED) (raise TransferError) else raise e)"
  have o: "keeps (confined R meta dir fs0) ?open"
    by (intro keeps_intros keeps_sys_only_at) simp_all
  have rest: "keeps (confined R meta dir fs0) (?rest h)" if "h_path h = ?P" for h
  proof -
    have "keeps (confined R meta dir fs0) (obj (in_temp_fh_update (\<lambda>_. Some h)))"
      using that by (auto simp: keeps_def confined_def)
    then show ?thesis by (intro keeps_seq keeps_reads_confined) (auto intro!: keeps_intros)
  qed
  have path: "h_path h = ?P" if "?open s = (Inr h, s')" for s s' h
    using that open_handle_path(2) [of env ?P "snd s"]
    by (cases s) (auto simp: catch_apply seq_apply prod_eq_iff split: sum.splits if_splits)
  show ?thesis
    unfolding resume_reopen_def using o by (rule keeps_bind_post) (rule rest, rule path)
qed

lemma keeps_resume: "keeps (confined R meta dir fs0) (resume env ix)"
  unfolding resume_def
proof (rule keeps_reads_confined)
  fix t fs assume c: "confined R meta dir fs0 (t, fs)"
  have "keeps (confined R meta dir fs0) (resume_reopen env ix p)" if "in_temp_path t = Some p" for p
    using keeps_reopen confined_temp [OF c that] by simp
  then show "keeps (confined R meta dir fs0) (case (t, fs) of (t, fs) \<Rightarrow>
     if in_state t \<noteq> INTERRUPTED \<and> in_state t \<noteq> RESUME_REQUESTED then raise RuntimeError
     else seq (if in_state t = INTERRUPTED then goto RESUME_REQUESTED else ret ())
       (case in_temp_path t of
          None \<Rightarrow> seq (set_state FAILED) (raise FileNotFoundError)
        | Some p \<Rightarrow>
            if \<not> exists_path fs p then seq (set_state FAILED) (raise FileNotFoundError)
            else resume_reopen env ix p))"
    by (auto intro!: keeps_intros)
qed

lemma run_confined: "rx_run pf R lossy meta dir fs0 s \<Longrightarrow> confined R meta dir fs0 s"
proof (induction rule: rx_run.induct)
  case (rx_next s op)
  then show ?case
    by (cases op) (auto intro: keepsD keeps_begin keeps_receive_chunk keeps_finalise keeps_interrupt
        keeps_prepare keeps_resume keeps_cancel)
qed (rule confined_new)

section \<open>Paths of a transfer\<close>

lemma part_of_uuid:
  assumes "uuid_parse pf (md_transfer_id meta) = Inr u"
  shows "part_of meta dir = dir @ [lit ''staging'', md_transfer_id meta @ lit ''.part'']"
proof -
  have "47 \<notin> set (md_transfer_id meta)" using uuid_parse_no_path_char [OF assms, of 47] by (simp add: path_char_def)
  then have "plain_comp (md_transfer_id meta @ lit ''.part'')"
    by (auto simp: plain_comp_def slash_free_def append_eq_Cons_conv)
  moreover have "plain_comp (lit ''staging'')" by (simp add: plain_comp_def slash_free_def)
  ultimately show ?thesis
    by (simp add: part_of_def path_join_plain del: lit_simps)
qed

section \<open>A sample run\<close>

definition sample_incoming_meta :: metadata where
  "sample_incoming_meta =
     \<lparr>md_transfer_id = uuid_str 7, md_file_name = lit ''a.txt'', md_file_size = 3,
      md_mime_type = lit ''text/plain'', md_sha256 = sha256_hex [1, 2, 3], md_chunk_size = 65536,
      md_chunk_count = 1, md_sender_identity = lit ''k'', md_created_at = 5, md_protocol_version = 1,
      md_batch_id = [], md_relative_path = []\<rparr>"

abbreviation sample_part :: path where
  "sample_part \<equiv> [lit ''d'', lit ''staging'', uuid_str 7 @ lit ''.part'']"

definition sample_fs :: fs where
  "sample_fs = [[lit ''d''] \<mapsto> Dir, [lit ''d'', lit ''staging''] \<mapsto> Dir, [lit ''d'', lit ''b.txt''] \<mapsto> File [9]]"

definition sample_started :: incoming where
  "sample_started = new_incoming sample_incoming_meta [lit ''d'']
     \<lparr>in_temp_path := Some sample_part, in_final_path := Some [lit ''d'', lit ''a.txt''],
      in_temp_fh := Some \<lparr>h_path = sample_part, h_buf = [], h_closed = False\<rparr>, in_state := TRANSFERRING\<rparr>"

lemma sample_part_of: "part_of sample_incoming_meta [lit ''d''] = sample_part"
  using part_of_uuid [of ascii_platform sample_incoming_meta 7 "[lit ''d'']"] uuid_parse_str [of 7]
  by (simp add: sample_incoming_meta_def)

lemma sample_dest: "dest_of calm_resolve sample_incoming_meta [lit ''d''] = Inr [lit ''d'', lit ''a.txt'']"
proof -
  have "proper_path [lit ''d'']" by code_simp
  moreover have "sanitise_filename (lit ''a.txt'') = Inr (lit ''a.txt'')"
    by (rule sanitise_safe_name [OF sample_names(1)]) simp
  ultimately show ?thesis
    using resolve_plain_name [of calm_resolve "[lit ''d'']" "lit ''a.txt''" "lit ''a.txt''"] sample_names(1) resolves_calm(2)
    by (simp add: dest_of_def sample_incoming_meta_def del: lit_simps)
qed

lemma sample_begin:
  "begin_incoming calm (new_incoming sample_incoming_meta [lit ''d''], sample_fs)
    = (Inr (), (sample_started, sample_fs(sample_part \<mapsto> File [])))"
proof -
  have st: "in_staging_dir (new_incoming sample_incoming_meta [lit ''d'']) = [lit ''d'', lit ''staging'']"
    by (simp add: new_incoming_def path_join_plain plain_comp_def slash_free_def)
  have p: "part_path (new_incoming sample_incoming_meta [lit ''d'']\<lparr>in_state := ACCEPTED\<rparr>) = sample_part"
    using sample_part_of by (simp add: part_path_def part_of_def new_incoming_def)
  have d: "resolve_safe_destination calm_resolve [lit ''d''] (md_file_name sample_incoming_meta) (md_relative_path sample_incoming_meta)
      = Inr [lit ''d'', lit ''a.txt'']"
    using sample_dest by (simp add: dest_of_def)
  have m: "mkdir_p calm [lit ''d'', lit ''staging''] sample_fs = (Inr (), sample_fs)"
    "mkdir_p calm [lit ''d''] sample_fs = (Inr (), sample_fs)"
    by (simp_all add: mkdir_p_def sample_fs_def)
  have o: "open_wb calm sample_part sample_fs = (Inr \<lparr>h_path = sample_part, h_buf = [], h_closed = False\<rparr>, sample_fs(sample_part \<mapsto> File []))"
    by (simp add: open_wb_def calm_def is_dir_def sample_fs_def)
  have n: "in_state (new_incoming M D) = IDLE" "in_meta (new_incoming M D) = M" "in_download_dir (new_incoming M D) = D" for M D
    by (simp_all add: new_incoming_def)
  show ?thesis
    unfolding begin_incoming_def begin_try_def
    by (simp add: eff_apply goto_apply n st p d m o calm_def [THEN arg_cong, of os_resolve] sample_started_def del: lit_simps)
qed

definition sample_chunk :: chunk_frame where
  "sample_chunk = \<lparr>cf_transfer_id = uuid_str 7, cf_seq = 0, cf_data = [1, 2, 3]\<rparr>"

definition sample_received :: incoming where
  "sample_received = sample_started
     \<lparr>in_temp_fh := Some \<lparr>h_path = sample_part, h_buf = [1, 2, 3], h_closed = False\<rparr>,
      in_hasher := [1, 2, 3], in_bytes_received := 3, in_next_seq := 1\<rparr>"

lemma sample_receive:
  "receive_chunk calm sample_chunk (sample_started, sample_fs(sample_part \<mapsto> File []))
    = (Inr (), (sample_received, sample_fs(sample_part \<mapsto> File [])))"
proof -
  have "append_file sample_part [] (sample_fs(sample_part \<mapsto> File [])) = sample_fs(sample_part \<mapsto> File [])"
    by (simp add: append_file_def)
  then show ?thesis
    by (simp add: receive_chunk_apply sample_started_def sample_received_def sample_chunk_def new_incoming_def
        sample_incoming_meta_def fh_write_def calm_def Let_def del: lit_simps)
qed

lemma sample_run:
  "rx_run ascii_platform calm_resolve False sample_incoming_meta [lit ''d''] sample_fs (sample_received, sample_fs(sample_part \<mapsto> File []))"
proof -
  have c: "os_resolve calm = calm_resolve" "os_read_ok calm" by (simp_all add: calm_def)
  have "rx_run ascii_platform calm_resolve False sample_incoming_meta [lit ''d''] sample_fs
      (rx_step ascii_platform (RxChunk calm sample_chunk) (rx_step ascii_platform (RxBegin calm)
        (new_incoming sample_incoming_meta [lit ''d''], sample_fs)))"
    using c by (auto intro!: rx_run.intros simp del: rx_step.simps)
  then show ?thesis by (simp add: sample_begin sample_receive del: lit_simps)
qed

lemma sample_finalise:
  "finalise calm (sample_received, sample_fs(sample_part \<mapsto> File [])) =
     (Inr True, (sample_received\<lparr>in_temp_fh := None, in_state := COMPLETED\<rparr>,
        sample_fs([lit ''d'', lit ''a.txt''] \<mapsto> File [1, 2, 3])))"
proof -
  let ?fs = "sample_fs(sample_part \<mapsto> File [1, 2, 3])"
  have fc: "flush_close calm (sample_received, sample_fs(sample_part \<mapsto> File [])) = (Inr (), (sample_received\<lparr>in_temp_fh := None\<rparr>, ?fs))"
    by (simp add: flush_close_def seq_apply on_handle_apply fh_flush_def fh_close_def calm_def sample_received_def
        append_file_def del: lit_simps)
  have ren: "rename_file calm sample_part [lit ''d'', lit ''a.txt''] ?fs
      = (Inr (), sample_fs([lit ''d'', lit ''a.txt''] \<mapsto> File [1, 2, 3]))"
    by (auto simp: rename_file_def calm_def is_dir_def sample_fs_def fun_upd_def)
  have ex: "\<not> exists_path ?fs [lit ''d'', lit ''a.txt'']" by (simp add: exists_path_def sample_fs_def)
  have lo: "ascii_lower (sha256_hex x) = sha256_hex x" for x by (intro ascii_lower_id) simp
  have r: "in_hasher sample_received = [1, 2, 3]" "in_meta sample_received = sample_incoming_meta"
      "in_temp_path sample_received = Some sample_part" "in_final_path sample_received = Some [lit ''d'', lit ''a.txt'']"
      "in_state sample_received = TRANSFERRING" "md_sha256 sample_incoming_meta = sha256_hex [1, 2, 3]"
    by (simp_all add: sample_received_def sample_started_def new_incoming_def sample_incoming_meta_def)
  show ?thesis
    by (simp add: finalise_def seq_apply [of "flush_close _"] fc rename_verified_def r lo ex seq_apply [of "sys _"] ren
        seq_apply [of "goto _"] goto_apply del: lit_simps)
qed

section \<open>Properties\<close>

text \<open>
  C8: integrity of a received file. Whatever methods were called before, in any order, with any
  faults of the system (except a failing re-read in \<^verbatim>\<open>resume\<close>), when \<^verbatim>\<open>finalise\<close> returns \<^verbatim>\<open>True\<close> the
  file it installed has exactly the announced SHA-256, it stands at the computed destination or at
  the conflict name beside it, the staging file is gone, nothing else changed and the state is
  \<^verbatim>\<open>COMPLETED\<close>.
\<close>

theorem finalise_verified:
  assumes "rx_run pf R False meta dir fs0 (t, fs)" and "finalise env (t, fs) = (Inr True, (t', fs'))"
  shows "in_state t' = COMPLETED \<and> (\<exists>final dest c. dest_of R meta dir = Inr final
    \<and> dest = (if exists_path fs final then conflict_path (md_transfer_id meta) final else final)
    \<and> fs' dest = Some (File c) \<and> sha256_hex c = ascii_lower (md_sha256 meta)
    \<and> (part_of meta dir \<noteq> dest \<longrightarrow> fs' (part_of meta dir) = None)
    \<and> (\<forall>q. q \<noteq> part_of meta dir \<and> q \<noteq> dest \<longrightarrow> fs' q = fs q))"
proof -
  have c: "confined R meta dir fs0 (t, fs)" using assms(1) by (rule run_confined)
  then have id: "in_meta t = meta" by (simp add: confined_def)
  obtain temp final where f: "in_temp_path t = Some temp" "in_final_path t = Some final"
    and rest: "in_state t' = COMPLETED" "sha256_hex (in_hasher t) = ascii_lower (md_sha256 meta)"
      "let dest = (if exists_path fs final then conflict_path (md_transfer_id meta) final else final)
       in fs' dest = Some (File (in_hasher t)) \<and> (temp \<noteq> dest \<longrightarrow> fs' temp = None)
          \<and> (\<forall>q. q \<noteq> temp \<and> q \<noteq> dest \<longrightarrow> fs' q = fs q)"
    using finalise_True [OF run_staged [OF assms(1)] assms(2)] id by (auto simp: Let_def)
  have "temp = part_of meta dir" "dest_of R meta dir = Inr final" using c f by (auto simp: confined_def)
  then show ?thesis using rest unfolding Let_def by blast
qed

theorem finalise_verified_witness:
  "\<exists>t' fs' c. finalise calm (sample_received, sample_fs(sample_part \<mapsto> File [])) = (Inr True, (t', fs'))
    \<and> in_state t' = COMPLETED \<and> fs' [lit ''d'', lit ''a.txt''] = Some (File c) \<and> sha256_hex c = sha256_hex [1, 2, 3]"
proof -
  have ex: "\<not> exists_path (sample_fs(sample_part \<mapsto> File [])) [lit ''d'', lit ''a.txt'']"
    by (simp add: exists_path_def sample_fs_def)
  have lo: "ascii_lower (md_sha256 sample_incoming_meta) = sha256_hex [1, 2, 3]"
    using ascii_lower_id [of "sha256_hex [1, 2, 3]"] by (simp add: sample_incoming_meta_def)
  from finalise_verified [OF sample_run sample_finalise] sample_finalise show ?thesis
    by (auto simp: sample_dest ex lo simp del: lit_simps)
qed

text \<open>
  C21: confinement. Whatever methods are called, in any order and with any faults, every file and
  directory that existed before the transfer is as it was, except the staging file and the
  conflict name of the destination.
\<close>

theorem existing_entries_untouched:
  assumes "rx_run pf R lossy meta dir fs0 (t, fs)" and "fs0 q = Some n" and "q \<noteq> part_of meta dir"
    and "\<forall>final. dest_of R meta dir = Inr final \<longrightarrow> q \<noteq> conflict_path (md_transfer_id meta) final"
  shows "fs q = Some n"
  using run_confined [OF assms(1)] assms(2-4) by (auto simp: confined_def)

theorem existing_entries_untouched_witness:
  "(sample_fs(sample_part \<mapsto> File [])) [lit ''d'', lit ''b.txt''] = Some (File [9])"
proof -
  have "conflict_path (uuid_str 7) [lit ''d'', lit ''a.txt''] = [lit ''d'', take 8 (uuid_str 7) @ lit ''_a.txt'']"
  proof -
    have "47 \<notin> set (uuid_str 7)" using uuid_str_chars [of 47 7] by (auto simp: hex_lower_def)
    then have "47 \<notin> set (take 8 (uuid_str 7))" by (auto dest: in_set_takeD)
    then have "plain_comp (take 8 (uuid_str 7) @ lit ''_a.txt'')"
      by (auto simp: plain_comp_def slash_free_def append_eq_Cons_conv)
    then show ?thesis by (simp add: conflict_path_def path_join_plain)
  qed
  moreover have "length (take 8 (uuid_str 7) @ lit ''_a.txt'') \<noteq> length (lit ''b.txt'')" by simp
  ultimately have "[lit ''d'', lit ''b.txt''] \<noteq> conflict_path (md_transfer_id sample_incoming_meta) [lit ''d'', lit ''a.txt'']"
    by (auto simp: sample_incoming_meta_def simp del: lit_simps length_lit)
  then have c: "\<forall>final. dest_of calm_resolve sample_incoming_meta [lit ''d''] = Inr final
      \<longrightarrow> [lit ''d'', lit ''b.txt''] \<noteq> conflict_path (md_transfer_id sample_incoming_meta) final"
    by (simp add: sample_dest del: lit_simps)
  have "sample_fs [lit ''d'', lit ''b.txt''] = Some (File [9])" by (simp add: sample_fs_def)
  moreover have "[lit ''d'', lit ''b.txt''] \<noteq> part_of sample_incoming_meta [lit ''d'']"
    unfolding sample_part_of by simp
  ultimately show ?thesis using c by (rule existing_entries_untouched [OF sample_run])
qed

text \<open>
  C23: the staging file of an accepted request is one file directly in the staging directory, and
  the destination the object holds lies in the resolved download directory.
\<close>

theorem transfer_paths_contained:
  assumes "metadata_from_dict pf now data = Inr meta" and "resolves R" and "rx_run pf R lossy meta dir fs0 (t, fs)"
  shows "in_temp_path t \<in> {None, Some (dir @ [lit ''staging'', md_transfer_id meta @ lit ''.part''])}
    \<and> (\<forall>final. in_final_path t = Some final \<longrightarrow> (\<exists>r. final = R dir @ r \<and> proper_path r))"
proof -
  obtain u where "uuid_parse pf (md_transfer_id meta) = Inr u"
    using metadata_from_dict_ok(1) [OF assms(1)] by (auto simp: metadata_ok_def is_ok_iff)
  then show ?thesis
    using run_confined [OF assms(3)] part_of_uuid resolve_contained [OF assms(2)]
    by (auto simp: confined_def dest_of_def)
qed

lemma sample_incoming_parsed:
  "metadata_from_dict ascii_platform 0 (metadata_to_dict sample_incoming_meta) = Inr sample_incoming_meta"
proof -
  have "uuid_parse ascii_platform (uuid_str 7) = Inr 7" by (rule uuid_parse_str) simp
  then have "metadata_ok ascii_platform sample_incoming_meta"
    by (simp add: metadata_ok_def sample_incoming_meta_def ten_gib_def expected_chunks_def)
  then show ?thesis
    using sample_names(1) by (intro metadata_roundtrip) (simp_all add: sample_incoming_meta_def)
qed

theorem transfer_paths_contained_witness:
  "\<exists>r. [lit ''d'', lit ''a.txt''] = calm_resolve [lit ''d''] @ r \<and> proper_path r"
proof -
  have "in_final_path sample_received = Some [lit ''d'', lit ''a.txt'']"
    by (simp add: sample_received_def sample_started_def new_incoming_def)
  then show ?thesis
    using transfer_paths_contained [OF sample_incoming_parsed resolves_calm(1) sample_run] by blast
qed




end
