(* ===== verification/Outgoing.thy ===== *)
theory Outgoing
  imports Incoming
begin

text \<open>
  \<^verbatim>\<open>OutgoingTransfer\<close> of \<^verbatim>\<open>core/transfer.py\<close>: the metadata of the source file and the stream of chunk
  frames. The generator may be cancelled between two chunks, and any read may fail.
\<close>

section \<open>State\<close>

record outgoing =
  og_transfer_id :: pystr
  og_source_path :: path
  og_receiver_identity :: pystr
  og_batch_id :: pystr
  og_relative_path :: pystr
  og_state :: transfer_state
  og_bytes_sent :: int
  og_cancelled :: bool

text \<open>\<open>fresh\<close> is \<^verbatim>\<open>str(uuid.uuid4())\<close>, used when no id (or an empty one) is given.\<close>

definition new_outgoing :: "pystr \<Rightarrow> path \<Rightarrow> pystr \<Rightarrow> pystr option \<Rightarrow> pystr \<Rightarrow> pystr \<Rightarrow> outgoing" where
  "new_outgoing fresh source_path receiver_identity transfer_id batch_id relative_path =
     \<lparr>og_transfer_id = (case transfer_id of Some t \<Rightarrow> if t = [] then fresh else t | None \<Rightarrow> fresh),
      og_source_path = source_path, og_receiver_identity = receiver_identity, og_batch_id = batch_id,
      og_relative_path = relative_path, og_state = IDLE, og_bytes_sent = 0, og_cancelled = False\<rparr>"

section \<open>Metadata\<close>

definition sha256_file :: "os_env \<Rightarrow> path \<Rightarrow> fs \<Rightarrow> pystr res" where
  "sha256_file env p fs = res_bind (read_file env p fs) (\<lambda>c. Inr (sha256_hex (fed_blocks c)))"

text \<open>\<open>mime\<close> stands for \<^verbatim>\<open>mimetypes.guess_type\<close>, which reads the system's tables.\<close>

definition guess_mime_type :: "(pystr \<Rightarrow> pystr option) \<Rightarrow> path \<Rightarrow> pystr" where
  "guess_mime_type mime p =
     (case mime (path_str p) of Some m \<Rightarrow> if m = [] then lit ''application/octet-stream'' else m
      | None \<Rightarrow> lit ''application/octet-stream'')"

definition path_name :: "path \<Rightarrow> pystr" where
  "path_name p = (if p = [] then [] else last p)"

definition build_metadata ::
    "(pystr \<Rightarrow> pystr option) \<Rightarrow> int \<Rightarrow> os_env \<Rightarrow> fs \<Rightarrow> outgoing \<Rightarrow> pystr \<Rightarrow> metadata res" where
  "build_metadata mime now env fs og sender_identity =
     res_bind (stat_size env (og_source_path og) fs) (\<lambda>file_size.
       if file_size < 0 then Inl ValueError
       else let chunk_count = (if 0 < file_size then (file_size + int CHUNK_SIZE - 1) div int CHUNK_SIZE else 0)
            in res_bind (sha256_file env (og_source_path og) fs) (\<lambda>sha.
              Inr \<lparr>md_transfer_id = og_transfer_id og, md_file_name = path_name (og_source_path og),
                   md_file_size = file_size, md_mime_type = guess_mime_type mime (og_source_path og),
                   md_sha256 = sha, md_chunk_size = int CHUNK_SIZE, md_chunk_count = chunk_count,
                   md_sender_identity = sender_identity, md_created_at = now, md_protocol_version = 1,
                   md_batch_id = og_batch_id og, md_relative_path = og_relative_path og\<rparr>))"

section \<open>Streaming\<close>

datatype stream_end = Finished | Cancelled_at_chunk | Raised pyerr

text \<open>
  The loop of \<^verbatim>\<open>_stream_chunks_internal\<close> over the blocks that are left: the frames it yields, how
  it ends, and the bytes sent. \<open>cancelled k\<close> is the flag \<^verbatim>\<open>_cancelled\<close> at the test of the \<open>k\<close>-th
  iteration, \<open>read_ok k\<close> whether its \<^verbatim>\<open>read\<close> succeeds.
\<close>

fun stream_loop ::
    "platform \<Rightarrow> pystr \<Rightarrow> (nat \<Rightarrow> bool) \<Rightarrow> (nat \<Rightarrow> bool) \<Rightarrow> nat \<Rightarrow> int \<Rightarrow> int \<Rightarrow> bytes list
       \<Rightarrow> bytes list \<times> stream_end \<times> int" where
  "stream_loop pf tid cancelled read_ok k sq sent [] =
     (if cancelled k then ([], Cancelled_at_chunk, sent)
      else if \<not> read_ok k then ([], Raised TransferError, sent)
      else ([], Finished, sent))"
| "stream_loop pf tid cancelled read_ok k sq sent (chunk # chunks) =
     (if cancelled k then ([], Cancelled_at_chunk, sent)
      else if \<not> read_ok k then ([], Raised TransferError, sent)
      else case encode_chunk_frame pf tid sq chunk of
             Inl e \<Rightarrow> ([], Raised e, sent)
           | Inr frame_bytes \<Rightarrow>
               (let (frames, fin, tot) =
                      stream_loop pf tid cancelled read_ok (Suc k) (sq + 1) (sent + int (length chunk)) chunks
                in (frame_bytes # frames, fin, tot)))"

text \<open>The whole generator: the frames, the exception if it ends with one, and the object. An
  exception of \<^verbatim>\<open>encode_chunk_frame\<close> passes through without a state change.\<close>

definition stream_chunks_internal ::
    "platform \<Rightarrow> (nat \<Rightarrow> bool) \<Rightarrow> (nat \<Rightarrow> bool) \<Rightarrow> os_env \<Rightarrow> bool \<Rightarrow> fs \<Rightarrow> int \<Rightarrow> outgoing
       \<Rightarrow> bytes list \<times> unit res \<times> outgoing" where
  "stream_chunks_internal pf cancelled read_ok env seek_ok fs resume_chunk_index og =
     (case transfer_transition (og_state og) TRANSFERRING of
        Inl e \<Rightarrow> ([], Inl e, og)
      | Inr st \<Rightarrow>
          (let o1 = og\<lparr>og_state := st\<rparr>; offset = resume_chunk_index * int CHUNK_SIZE
           in case (if os_open_ok env (og_source_path og) then fs (og_source_path og) else None) of
                Some (File c) \<Rightarrow>
                  if 0 < offset \<and> \<not> seek_ok then ([], Inl TransferError, o1\<lparr>og_state := FAILED\<rparr>)
                  else (let (frames, fin, tot) =
                              stream_loop pf (og_transfer_id og) cancelled read_ok 0 resume_chunk_index
                                (og_bytes_sent og) (read_blocks CHUNK_SIZE (drop (nat offset) c));
                            o2 = o1\<lparr>og_bytes_sent := tot\<rparr>
                        in case fin of
                             Cancelled_at_chunk \<Rightarrow> (frames, Inr (), o2\<lparr>og_state := CANCELLING, og_cancelled := True\<rparr>)
                           | Raised e \<Rightarrow>
                               (frames, Inl e, if e = TransferError then o2\<lparr>og_state := FAILED\<rparr> else o2)
                           | Finished \<Rightarrow>
                               (case transfer_transition (og_state o2) COMPLETED of
                                  Inr st' \<Rightarrow> (frames, Inr (), o2\<lparr>og_state := st'\<rparr>)
                                | Inl e \<Rightarrow> (frames, Inl e, o2)))
              | _ \<Rightarrow> ([], Inl TransferError, o1\<lparr>og_state := FAILED\<rparr>)))"

definition stream_chunks where
  "stream_chunks pf cancelled read_ok env fs og =
     stream_chunks_internal pf cancelled read_ok env True fs 0 og"

definition stream_chunks_from where
  "stream_chunks_from pf cancelled read_ok env seek_ok fs resume_chunk_index og =
     (if resume_chunk_index < 0 then ([], Inl ValueError, og)
      else stream_chunks_internal pf cancelled read_ok env seek_ok fs resume_chunk_index og)"

definition cancel_outgoing :: "outgoing \<Rightarrow> outgoing" where
  "cancel_outgoing og = og\<lparr>og_cancelled := True\<rparr>"

section \<open>Batches\<close>

record batch_incoming =
  bi_batch_id :: pystr
  bi_batch_name :: pystr
  bi_total_items :: int
  bi_total_bytes :: int
  bi_state :: batch_state
  bi_items_completed :: int
  bi_items_failed :: int
  bi_bytes_transferred :: int

definition new_batch_incoming :: "pystr \<Rightarrow> pystr \<Rightarrow> int \<Rightarrow> int \<Rightarrow> batch_incoming" where
  "new_batch_incoming batch_id batch_name total_items total_bytes =
     \<lparr>bi_batch_id = batch_id, bi_batch_name = batch_name, bi_total_items = total_items,
      bi_total_bytes = total_bytes, bi_state = B_REQUESTED, bi_items_completed = 0,
      bi_items_failed = 0, bi_bytes_transferred = 0\<rparr>"

record batch_outgoing = batch_incoming +
  bo_paths :: "path list"

definition new_batch_outgoing :: "pystr \<Rightarrow> pystr \<Rightarrow> int \<Rightarrow> int \<Rightarrow> path list \<Rightarrow> batch_outgoing" where
  "new_batch_outgoing batch_id batch_name total_items total_bytes paths =
     batch_incoming.extend (new_batch_incoming batch_id batch_name total_items total_bytes)
       (batch_outgoing.fields paths)"

section \<open>What the stream carries\<close>

fun number_chunks :: "pystr \<Rightarrow> int \<Rightarrow> bytes list \<Rightarrow> chunk_frame list" where
  "number_chunks tid sq [] = []"
| "number_chunks tid sq (c # cs) =
     \<lparr>cf_transfer_id = tid, cf_seq = sq, cf_data = c\<rparr> # number_chunks tid (sq + 1) cs"

lemma encode_chunk_total:
  assumes "uuid_parse pf tid = Inr u" and "0 \<le> sq" and "sq < 2 ^ 32" and "length c \<le> CHUNK_SIZE"
  shows "\<exists>fr. encode_chunk_frame pf tid sq c = Inr fr"
  using assms by (simp add: encode_chunk_frame_ok_iff MAX_CHUNK_PAYLOAD_def)

text \<open>Undisturbed, the loop yields every block once, in order, numbered consecutively.\<close>

lemma stream_loop_complete:
  assumes "uuid_parse pf tid = Inr u" and "0 \<le> sq" and "sq + int (length chunks) \<le> 2 ^ 32"
    and "\<forall>c\<in>set chunks. length c \<le> CHUNK_SIZE" and "\<And>i. \<not> cancelled i" and "\<And>i. read_ok i"
  shows "\<exists>frames. stream_loop pf tid cancelled read_ok k sq sent chunks =
      (frames, Finished, sent + int (length (concat chunks)))
    \<and> map decode_chunk_frame frames = map Inr (number_chunks (uuid_str u) sq chunks)"
  using assms(2-4)
proof (induction chunks arbitrary: k sq sent)
  case (Cons c cs)
  obtain fr where fr: "encode_chunk_frame pf tid sq c = Inr fr"
    using encode_chunk_total [OF assms(1), of sq c] Cons.prems by auto
  obtain frames where fs: "stream_loop pf tid cancelled read_ok (Suc k) (sq + 1) (sent + int (length c)) cs =
      (frames, Finished, sent + int (length c) + int (length (concat cs)))"
    and dec: "map decode_chunk_frame frames = map Inr (number_chunks (uuid_str u) (sq + 1) cs)"
    using Cons.IH [of "sq + 1" "Suc k" "sent + int (length c)"] Cons.prems by auto
  have "decode_chunk_frame fr = Inr \<lparr>cf_transfer_id = uuid_str u, cf_seq = sq, cf_data = c\<rparr>"
    using decode_encode_chunk [OF fr assms(1), of "[]"] by simp
  then show ?case using fr fs dec assms(5) [of k] assms(6) [of k] by simp
qed (use assms(5,6) in simp)

text \<open>However it ends, what was yielded is an initial part of that.\<close>

lemma stream_loop_prefix:
  assumes "uuid_parse pf tid = Inr u"
    and "stream_loop pf tid cancelled read_ok k sq sent chunks = (frames, fin, tot)"
  shows "\<exists>n\<le>length chunks. map decode_chunk_frame frames = map Inr (number_chunks (uuid_str u) sq (take n chunks))
    \<and> tot = sent + int (length (concat (take n chunks))) \<and> (fin = Finished \<longrightarrow> n = length chunks)"
  using assms(2)
proof (induction chunks arbitrary: k sq sent frames tot)
  case (Cons c cs)
  show ?case
  proof (cases "cancelled k \<or> \<not> read_ok k \<or> (\<exists>e. encode_chunk_frame pf tid sq c = Inl e)")
    case True
    then have "frames = [] \<and> tot = sent \<and> fin \<noteq> Finished" using Cons.prems by (auto split: if_splits)
    then show ?thesis by (intro exI [of _ 0]) simp
  next
    case False
    then obtain fr where fr: "encode_chunk_frame pf tid sq c = Inr fr"
      by (cases "encode_chunk_frame pf tid sq c") auto
    obtain frames' where fs: "stream_loop pf tid cancelled read_ok (Suc k) (sq + 1) (sent + int (length c)) cs =
        (frames', fin, tot)" and f: "frames = fr # frames'"
      using Cons.prems False fr by (auto split: prod.splits)
    obtain n where "n \<le> length cs" "map decode_chunk_frame frames' = map Inr (number_chunks (uuid_str u) (sq + 1) (take n cs))"
      "tot = sent + int (length c) + int (length (concat (take n cs)))" "fin = Finished \<longrightarrow> n = length cs"
      using Cons.IH [OF fs] by blast
    moreover have "decode_chunk_frame fr = Inr \<lparr>cf_transfer_id = uuid_str u, cf_seq = sq, cf_data = c\<rparr>"
      using decode_encode_chunk [OF fr assms(1), of "[]"] by simp
    ultimately show ?thesis by (intro exI [of _ "Suc n"]) (simp add: f)
  qed
qed (auto split: if_splits)

text \<open>The metadata agrees with the stream.\<close>

lemma build_metadata_ok:
  assumes "build_metadata mime now env fs og sid = Inr m"
  shows "\<exists>c. fs (og_source_path og) = Some (File c) \<and> md_file_size m = int (length c)
    \<and> md_sha256 m = sha256_hex c \<and> md_chunk_size m = int CHUNK_SIZE
    \<and> md_chunk_count m = int (length (read_blocks CHUNK_SIZE c))
    \<and> md_chunk_count m = expected_chunks (md_file_size m) (md_chunk_size m)
    \<and> md_transfer_id m = og_transfer_id og \<and> md_file_name m = path_name (og_source_path og)
    \<and> md_relative_path m = og_relative_path og"
proof -
  from assms obtain c where c: "fs (og_source_path og) = Some (File c)"
    by (auto simp: build_metadata_def sha256_file_def read_file_def res_simps Let_def
        split: if_splits option.splits node.splits)
  have "int (length (read_blocks CHUNK_SIZE c)) = (int (length c) + int CHUNK_SIZE - 1) div int CHUNK_SIZE"
    by (simp add: length_read_blocks CHUNK_SIZE_def zdiv_int of_nat_diff)
  then have "int (length (read_blocks CHUNK_SIZE c)) = expected_chunks (int (length c)) (int CHUNK_SIZE)"
    by (auto simp: expected_chunks_def CHUNK_SIZE_def)
  then show ?thesis
    using assms c
    by (auto simp: build_metadata_def sha256_file_def read_file_def stat_size_def res_simps Let_def expected_chunks_def
        split: if_splits)
qed

end
