(* ===== verification/Delivery.thy ===== *)
theory Delivery
  imports Incoming_Safety Outgoing
begin

text \<open>
  Sender and receiver together: the frames of \<^verbatim>\<open>OutgoingTransfer\<close>, decoded and handed to
  \<^verbatim>\<open>IncomingTransfer\<close>, rebuild the source file, at once and after an interruption.
\<close>

text \<open>The receiver's loop over the frames of a stream; \<open>envs k\<close> is the system at the \<open>k\<close>-th write.\<close>

fun receive_frames :: "(nat \<Rightarrow> os_env) \<Rightarrow> nat \<Rightarrow> bytes list \<Rightarrow> (rx, unit) eff" where
  "receive_frames envs k [] = ret ()"
| "receive_frames envs k (f # fs) =
     bind (lift (decode_chunk_frame f)) (\<lambda>fr. seq (receive_chunk (envs k) fr) (receive_frames envs (Suc k) fs))"

text \<open>A receiver with an open staging file.\<close>

definition receiving :: "incoming \<Rightarrow> bool" where
  "receiving t \<longleftrightarrow> in_state t \<in> {TRANSFERRING, RESUMING}
     \<and> (\<exists>h. in_temp_fh t = Some h \<and> \<not> h_closed h)"

lemma receive_chunk_step:
  assumes "receiving t" and "os_write_ok env" and "cf_transfer_id fr = md_transfer_id (in_meta t)"
    and "cf_seq fr = in_next_seq t" and "int (length (cf_data fr)) \<le> md_chunk_size (in_meta t)"
  shows "\<exists>t' fs' h'. receive_chunk env fr (t, fs) = (Inr (), (t', fs')) \<and> receiving t'
    \<and> t' = t\<lparr>in_temp_fh := Some h', in_hasher := in_hasher t @ cf_data fr,
        in_bytes_received := in_bytes_received t + int (length (cf_data fr)), in_next_seq := in_next_seq t + 1\<rparr>
    \<and> (\<forall>q. exists_path fs' q = exists_path fs q) \<and> (\<forall>q. is_dir fs' q = is_dir fs q)"
proof -
  obtain h where h: "in_temp_fh t = Some h" "\<not> h_closed h" using assms(1) by (auto simp: receiving_def)
  have "exists_path (append_file p bs fs) q = exists_path fs q \<and> is_dir (append_file p bs fs) q = is_dir fs q" for p bs q
    by (auto simp: append_file_def exists_path_def is_dir_def split: option.splits node.splits)
  then show ?thesis
    using assms h by (auto simp: receive_chunk_apply fh_write_def Let_def receiving_def)
qed

lemma receive_frames_ok:
  assumes "map decode_chunk_frame frames = map Inr (number_chunks (md_transfer_id (in_meta t)) (in_next_seq t) chunks)"
    and "\<And>k. os_write_ok (envs k)" and "\<forall>c\<in>set chunks. int (length c) \<le> md_chunk_size (in_meta t)"
    and "receiving t" and "staged (t, fs)"
  shows "\<exists>t' fs'. receive_frames envs k frames (t, fs) = (Inr (), (t', fs')) \<and> receiving t' \<and> staged (t', fs')
    \<and> in_hasher t' = in_hasher t @ concat chunks \<and> in_next_seq t' = in_next_seq t + int (length chunks)
    \<and> in_bytes_received t' = in_bytes_received t + int (length (concat chunks))
    \<and> in_meta t' = in_meta t \<and> in_temp_path t' = in_temp_path t \<and> in_final_path t' = in_final_path t \<and> in_state t' = in_state t
    \<and> (\<forall>q. exists_path fs' q = exists_path fs q) \<and> (\<forall>q. is_dir fs' q = is_dir fs q)"
  using assms(1,3-5)
proof (induction chunks arbitrary: frames t fs k)
  case (Cons c cs)
  then obtain f frames' where f: "frames = f # frames'" by (cases frames) auto
  define fr where "fr = \<lparr>cf_transfer_id = md_transfer_id (in_meta t), cf_seq = in_next_seq t, cf_data = c\<rparr>"
  have d: "decode_chunk_frame f = Inr fr"
    and ds: "map decode_chunk_frame frames' = map Inr (number_chunks (md_transfer_id (in_meta t)) (in_next_seq t + 1) cs)"
    using Cons.prems(1) by (simp_all add: f fr_def)
  obtain t1 fs1 h1 where r: "receive_chunk (envs k) fr (t, fs) = (Inr (), (t1, fs1))" "receiving t1"
    and t1: "t1 = t\<lparr>in_temp_fh := Some h1, in_hasher := in_hasher t @ c,
        in_bytes_received := in_bytes_received t + int (length c), in_next_seq := in_next_seq t + 1\<rparr>"
    and ex: "\<And>q. exists_path fs1 q = exists_path fs q" "\<And>q. is_dir fs1 q = is_dir fs q"
    using receive_chunk_step [of t "envs k" fr fs] assms(2) Cons.prems(2,3) by (auto simp: fr_def)
  have st: "staged (t1, fs1)" using staged_receive_chunk [OF Cons.prems(4), of "envs k" fr] r by simp
  obtain t' fs' where "receive_frames envs (Suc k) frames' (t1, fs1) = (Inr (), (t', fs'))" "receiving t'" "staged (t', fs')"
    "in_hasher t' = in_hasher t1 @ concat cs" "in_next_seq t' = in_next_seq t1 + int (length cs)"
    "in_bytes_received t' = in_bytes_received t1 + int (length (concat cs))"
    "in_meta t' = in_meta t1" "in_temp_path t' = in_temp_path t1" "in_final_path t' = in_final_path t1" "in_state t' = in_state t1"
    "\<forall>q. exists_path fs' q = exists_path fs1 q" "\<forall>q. is_dir fs' q = is_dir fs1 q"
    using Cons.IH [of frames' t1 fs1 "Suc k"] ds Cons.prems(2) r(2) st by (auto simp: t1)
  then show ?case by (intro exI [of _ t'] exI [of _ fs']) (simp add: f d bind_apply seq_apply r(1) ex t1)
qed auto

text \<open>Finalising with a cooperative system.\<close>

definition finish_ok :: "os_env \<Rightarrow> bool" where
  "finish_ok env \<longleftrightarrow> os_flush_ok env \<and> os_close_ok env \<and> os_rename_ok env"

lemma finalise_delivers:
  assumes "receiving t" and "staged (t, fs)" and "finish_ok env"
    and "in_final_path t = Some final" and "\<not> exists_path fs final" and "is_dir fs (butlast final)"
    and "md_sha256 (in_meta t) = sha256_hex (in_hasher t)"
  shows "\<exists>t' fs'. finalise env (t, fs) = (Inr True, (t', fs')) \<and> in_state t' = COMPLETED
    \<and> fs' final = Some (File (in_hasher t))"
proof -
  obtain h where h: "in_temp_fh t = Some h" "\<not> h_closed h" and run: "in_state t \<in> {TRANSFERRING, RESUMING}"
    using assms(1) by (auto simp: receiving_def)
  obtain c where c: "fs (h_path h) = Some (File c)" "c @ h_buf h = in_hasher t" and p: "in_temp_path t = Some (h_path h)"
    using assms(2) h run by (auto simp: staged_def)
  let ?fs = "fs(h_path h \<mapsto> File (in_hasher t))"
  have ap: "append_file (h_path h) [] (append_file (h_path h) (h_buf h) fs) = ?fs"
    using c by (auto simp: append_file_def)
  have fc: "flush_close env (t, fs) = (Inr (), (t\<lparr>in_temp_fh := None\<rparr>, ?fs))"
    using h assms(3) ap
    by (simp add: flush_close_def seq_apply on_handle_apply fh_flush_def fh_close_def finish_ok_def)
  have nf: "h_path h \<noteq> final" using c(1) assms(5) by (auto simp: exists_path_def)
  have nb: "h_path h \<noteq> butlast final \<or> butlast final = []" using c(1) assms(6) by (auto simp: is_dir_def)
  have ne: "\<not> exists_path ?fs final" using assms(5) nf by (auto simp: exists_path_def)
  have "\<not> is_dir ?fs final" using ne by (auto simp: exists_path_def is_dir_def)
  moreover have "is_dir ?fs (butlast final)" using assms(6) nb by (auto simp: is_dir_def)
  ultimately have ren: "rename_file env (h_path h) final ?fs = (Inr (), (?fs(h_path h := None))(final \<mapsto> File (in_hasher t)))"
    using assms(3) by (simp add: rename_file_def finish_ok_def)
  have lo: "ascii_lower (sha256_hex x) = sha256_hex x" for x by (intro ascii_lower_id) simp
  have gt: "COMPLETED \<in> set (valid_transitions (in_state t))" using run by auto
  show ?thesis
    using assms(4,7) ne gt
    by (simp add: finalise_def seq_apply [of "flush_close env"] fc rename_verified_def p lo seq_apply [of "sys _"] ren
        seq_apply [of "goto _"] goto_apply)
qed

text \<open>What \<^verbatim>\<open>begin\<close> leaves for the chunks to come.\<close>

lemma mkdir_from_dir:
  "fst (mkdir_from env base ws fs) = Inr () \<Longrightarrow> is_dir fs base \<Longrightarrow> is_dir (snd (mkdir_from env base ws fs)) (base @ ws)"
proof (induction env base ws fs rule: mkdir_from.induct)
  case (2 env base w ws fs)
  then show ?case
    by (cases "fs (base @ [w])"; cases "the (fs (base @ [w]))") (auto simp: Let_def is_dir_def fun_upd_def split: if_splits)
qed simp

lemma begin_receiving:
  assumes "begin_incoming env (new_incoming m dir, fs0) = (Inr (), (t, fs))"
  shows "receiving t \<and> staged (t, fs) \<and> in_meta t = m \<and> in_next_seq t = 0 \<and> in_hasher t = [] \<and> in_bytes_received t = 0
    \<and> in_state t = TRANSFERRING \<and> in_temp_path t = Some (part_of m dir)
    \<and> is_dir fs (butlast (part_of m dir)) \<and> part_of m dir \<noteq> []
    \<and> (\<exists>final. in_final_path t = Some final \<and> dest_of (os_resolve env) m dir = Inr final \<and> is_dir fs (butlast final))"
proof -
  have st: "staged (t, fs)" using staged_begin [OF staged_new, of env m dir fs0] assms by simp
  obtain t1 where bt: "begin_try env (new_incoming m dir\<lparr>in_state := ACCEPTED\<rparr>, fs0) = (Inr (), (t1, fs))"
    and t: "t = t1\<lparr>in_state := TRANSFERRING\<rparr>"
    using begin_incoming_ok [OF assms] by blast
  let ?n = "new_incoming m dir\<lparr>in_state := ACCEPTED\<rparr>"
  obtain final h where r: "resolve_safe_destination (os_resolve env) dir (md_file_name m) (md_relative_path m) = Inr final"
    and o: "open_wb env (part_path ?n) (begin_dirs env ?n final fs0) = (Inr h, fs)"
    and t1: "t1 = ?n\<lparr>in_temp_path := Some (part_path ?n), in_final_path := Some final, in_temp_fh := Some h\<rparr>"
    and mk: "fst (mkdir_p env (butlast final) (snd (mkdir_p env (in_download_dir ?n) (snd (mkdir_p env (in_staging_dir ?n) fs0))))) = Inr ()"
    using begin_try_ok [OF bt] by (auto simp: new_incoming_def)
  have "is_dir (begin_dirs env ?n final fs0) (butlast final)"
    using mkdir_from_dir [OF mk [unfolded mkdir_p_def]] by (simp add: begin_dirs_def mkdir_p_def is_dir_def [of _ "[]"])
  moreover have pp: "part_path ?n = part_of m dir" by (simp add: part_path_def part_of_def new_incoming_def)
  ultimately have "is_dir fs (butlast final)" "is_dir fs (butlast (part_of m dir))" "part_of m dir \<noteq> []"
    using o by (auto simp: open_wb_def is_dir_def split: if_splits)
  then show ?thesis
    using st r open_wb_ok [OF o] pp by (simp add: t t1 receiving_def new_incoming_def dest_of_def)
qed


section \<open>The stream of a source file\<close>

lemma blocks_small: "\<forall>b\<in>set (read_blocks CHUNK_SIZE c). length b \<le> CHUNK_SIZE"
  using read_blocks_lengths by blast

lemma blocks_count:
  assumes "int (length c) \<le> ten_gib" shows "int (length (read_blocks CHUNK_SIZE c)) \<le> 163840"
proof -
  have "(length c + 65536 - 1) div 65536 \<le> (10737418240 + 65535) div 65536"
    using assms by (intro div_le_mono) (simp add: ten_gib_def)
  then show ?thesis by (simp add: length_read_blocks CHUNK_SIZE_def)
qed

lemma stream_chunks_from_complete:
  assumes "og_state og \<in> {IDLE, ACCEPTED}" and "fs (og_source_path og) = Some (File c)" and "os_open_ok env (og_source_path og)"
    and "uuid_parse pf (og_transfer_id og) = Inr u" and "int (length c) \<le> ten_gib" and "0 \<le> n" and "n \<le> 163840"
    and "\<And>i. \<not> cancelled i" and "\<And>i. read_ok i"
  shows "\<exists>frames og'. stream_chunks_from pf cancelled read_ok env True fs n og = (frames, Inr (), og')
    \<and> og_state og' = COMPLETED
    \<and> map decode_chunk_frame frames =
        map Inr (number_chunks (uuid_str u) n (read_blocks CHUNK_SIZE (drop (nat n * CHUNK_SIZE) c)))"
proof -
  let ?d = "drop (nat n * CHUNK_SIZE) c"
  have off: "nat (n * int CHUNK_SIZE) = nat n * CHUNK_SIZE" using assms(6) by (simp add: nat_mult_distrib)
  have "n + int (length (read_blocks CHUNK_SIZE ?d)) \<le> 2 ^ 32"
  proof -
    have "int (length ?d) \<le> ten_gib" using assms(5) by (simp only: length_drop)
    then show ?thesis using blocks_count [of ?d] assms(7) by simp
  qed
  then obtain frames where fr: "stream_loop pf (og_transfer_id og) cancelled read_ok 0 n (og_bytes_sent og) (read_blocks CHUNK_SIZE ?d)
      = (frames, Finished, og_bytes_sent og + int (length (concat (read_blocks CHUNK_SIZE ?d))))"
    and dec: "map decode_chunk_frame frames = map Inr (number_chunks (uuid_str u) n (read_blocks CHUNK_SIZE ?d))"
    using stream_loop_complete [where cancelled = cancelled and read_ok = read_ok and chunks = "read_blocks CHUNK_SIZE ?d",
        OF assms(4,6) _ blocks_small assms(8,9)] by blast
  have "TRANSFERRING \<in> set (valid_transitions (og_state og))" using assms(1) by auto
  then have "stream_chunks_from pf cancelled read_ok env True fs n og =
      (frames, Inr (), og\<lparr>og_state := TRANSFERRING, og_bytes_sent := og_bytes_sent og + int (length (concat (read_blocks CHUNK_SIZE ?d))),
        og_state := COMPLETED\<rparr>)"
    using assms(2,3,6) fr by (simp add: stream_chunks_from_def stream_chunks_internal_def Let_def off transfer_transition_def)
  then show ?thesis using dec by auto
qed

lemma stream_chunks_is_from: "stream_chunks pf ca rd env fs og = stream_chunks_from pf ca rd env True fs 0 og"
  by (simp add: stream_chunks_def stream_chunks_from_def)

section \<open>Delivery\<close>

lemma delivery:
  assumes meta: "build_metadata mime now senv sfs og sid = Inr m"
    and src: "sfs (og_source_path og) = Some (File c)"
    and tid: "og_transfer_id og = uuid_str u" "u < 2 ^ 128" and size: "int (length c) \<le> ten_gib"
    and og: "og_state og = IDLE" "os_open_ok senv (og_source_path og)"
    and beg: "begin_incoming benv (new_incoming m dir, fs0) = (Inr (), (t, fs))"
    and dest: "dest_of (os_resolve benv) m dir = Inr final" "\<not> exists_path fs final"
    and sys: "\<And>k. os_write_ok (envs k)" "finish_ok fenv"
  shows "\<exists>frames og' s t' fs'. stream_chunks pf (\<lambda>_. False) (\<lambda>_. True) senv sfs og = (frames, Inr (), og')
    \<and> og_state og' = COMPLETED \<and> receive_frames envs 0 frames (t, fs) = (Inr (), s)
    \<and> finalise fenv s = (Inr True, (t', fs')) \<and> in_state t' = COMPLETED \<and> fs' final = Some (File c)"
proof -
  have m: "md_transfer_id m = uuid_str u" "md_chunk_size m = int CHUNK_SIZE" "md_sha256 m = sha256_hex c"
    using build_metadata_ok [OF meta] src tid(1) by auto
  have up: "uuid_parse pf (og_transfer_id og) = Inr u" unfolding tid(1) using tid(2) by (rule uuid_parse_str)
  obtain frames og' where str: "stream_chunks pf (\<lambda>_. False) (\<lambda>_. True) senv sfs og = (frames, Inr (), og')" "og_state og' = COMPLETED"
    and dec: "map decode_chunk_frame frames = map Inr (number_chunks (uuid_str u) 0 (read_blocks CHUNK_SIZE c))"
    using stream_chunks_from_complete [where fs = sfs and og = og and env = senv and c = c and n = 0
        and cancelled = "\<lambda>_. False" and read_ok = "\<lambda>_. True", OF _ src og(2) up size] og(1)
    by (auto simp: stream_chunks_is_from)
  have b: "receiving t" "staged (t, fs)" "in_meta t = m" "in_next_seq t = 0" "in_hasher t = []"
      "in_final_path t = Some final" "is_dir fs (butlast final)"
    using begin_receiving [OF beg] dest(1) by auto
  have "\<forall>x\<in>set (read_blocks CHUNK_SIZE c). int (length x) \<le> md_chunk_size (in_meta t)"
    using blocks_small by (simp add: b m)
  then obtain t1 fs1 where r: "receive_frames envs 0 frames (t, fs) = (Inr (), (t1, fs1))" "receiving t1" "staged (t1, fs1)"
      "in_hasher t1 = concat (read_blocks CHUNK_SIZE c)" "in_meta t1 = m" "in_final_path t1 = Some final"
      "exists_path fs1 final = exists_path fs final" "is_dir fs1 (butlast final) = is_dir fs (butlast final)"
    using receive_frames_ok [of frames t "read_blocks CHUNK_SIZE c" envs fs 0] dec sys(1) b m by auto
  have hc: "in_hasher t1 = c" using r(4) by (simp add: concat_read_blocks CHUNK_SIZE_def)
  have "\<exists>t' fs'. finalise fenv (t1, fs1) = (Inr True, (t', fs')) \<and> in_state t' = COMPLETED \<and> fs' final = Some (File (in_hasher t1))"
    using r b dest(2) sys(2) m hc by (intro finalise_delivers) auto
  then show ?thesis using str r(1) hc by auto
qed


section \<open>Interruption and resumption\<close>

definition interrupt_ok :: "os_env \<Rightarrow> bool" where
  "interrupt_ok env \<longleftrightarrow> os_flush_ok env \<and> os_close_ok env \<and> os_stat_ok env \<and> os_truncate_ok env"

definition resume_ok :: "os_env \<Rightarrow> path \<Rightarrow> bool" where
  "resume_ok env p \<longleftrightarrow> os_open_ok env p \<and> os_read_ok env \<and> os_stat_ok env"

text \<open>An interruption keeps the whole chunks and nothing else.\<close>

lemma interrupt_keeps_chunks:
  assumes "receiving t" and "staged (t, fs)" and "in_state t = TRANSFERRING" and "interrupt_ok env"
    and "in_hasher t \<noteq> []" and "md_file_size (in_meta t) \<noteq> 0" and "md_chunk_size (in_meta t) = int cs" and "0 < cs"
    and "in_temp_path t = Some p" and "p \<noteq> []"
  shows "\<exists>t' fs'. interrupt env (t, fs) = (Inr (), (t', fs')) \<and> in_state t' = INTERRUPTED
    \<and> fs' p = Some (File (take (length (in_hasher t) div cs * cs) (in_hasher t)))
    \<and> in_next_seq t' = int (length (in_hasher t) div cs) \<and> in_bytes_received t' = int (length (in_hasher t) div cs * cs)
    \<and> in_temp_path t' = Some p \<and> in_final_path t' = in_final_path t \<and> in_meta t' = in_meta t
    \<and> only_at p fs fs'"
proof -
  define H where "H = in_hasher t"
  define n where "n = length H div cs"
  obtain h where h: "in_temp_fh t = Some h" "\<not> h_closed h" using assms(1) by (auto simp: receiving_def)
  have "in_temp_path t = Some (h_path h) \<and> (\<exists>c. fs (h_path h) = Some (File c) \<and> c @ h_buf h = in_hasher t)"
    using assms(2,3) h by (simp add: staged_def)
  then obtain c where c: "fs (h_path h) = Some (File c)" "c @ h_buf h = H" and hp: "h_path h = p"
    unfolding H_def using assms(9) by force
  let ?t = "t\<lparr>in_temp_fh := None\<rparr>" and ?fs = "fs(p \<mapsto> File H)"
  have ap: "append_file p [] (append_file p (h_buf h) fs) = ?fs"
    using c hp by (auto simp: append_file_def)
  have ic: "interrupt_close env (t, fs) = (Inr (), (?t, ?fs))"
    using h assms(4) ap hp
    by (simp add: interrupt_close_def eff_apply on_handle_apply fh_flush_def fh_close_def interrupt_ok_def)
  have bd: "bytes_on_disk env ?t ?fs = int (length H)"
    using assms(4,9) by (simp add: bytes_on_disk_def exists_path_def stat_size_def interrupt_ok_def)
  have nd: "int (length H) div int cs = int n" by (simp add: n_def zdiv_int)
  have le: "n * cs \<le> length H" by (simp add: n_def)
  have i: "interrupt env (t, fs) = interrupt_measured env (?t, ?fs)"
    using assms(3,6) by (simp add: interrupt_def seq_apply ic)
  define K where "K = n * cs"
  have k: "int n * int cs = int K" by (simp add: K_def)
  define u where "u = ?t\<lparr>in_bytes_received := int (length H), in_next_seq := int n\<rparr>"
  have al: "align_temp env (int (length H)) (u, ?fs) =
      (Inr (), (u\<lparr>in_bytes_received := int K\<rparr>, fs(p \<mapsto> File (take K H))))"
  proof (cases "K < length H")
    case True
    then show ?thesis
      using assms(4,7,9)
      by (simp add: align_temp_def u_def Let_def eff_apply truncate_file_def interrupt_ok_def k)
  next
    case False
    then have "K = length H" using le by (simp add: K_def)
    then show ?thesis
      using assms(7,9) by (simp add: align_temp_def u_def Let_def k)
  qed
  have "interrupt_measured env (?t, ?fs) =
      seq (align_temp env (int (length H))) (goto INTERRUPTED) (u, ?fs)"
    using assms(5,7,8) by (simp add: interrupt_measured_def bd nd H_def [symmetric] Let_def u_def)
  also have "\<dots> = (Inr (), (u\<lparr>in_bytes_received := int K, in_state := INTERRUPTED\<rparr>, fs(p \<mapsto> File (take K H))))"
    using assms(3) by (simp add: seq_apply al goto_apply) (simp add: u_def)
  finally show ?thesis
    unfolding i using assms(9)
    by (simp add: H_def [symmetric] n_def [symmetric] K_def [symmetric] only_at_def u_def)
qed

lemma resume_receiving:
  assumes "in_state t \<in> {INTERRUPTED, RESUME_REQUESTED}" and "in_temp_path t = Some p" and "fs p = Some (File c)"
    and "is_dir fs (butlast p)" and "p \<noteq> []" and "resume_ok env p"
  shows "\<exists>t'. resume env ix (t, fs) = (Inr (), (t', fs)) \<and> receiving t' \<and> staged (t', fs) \<and> in_hasher t' = c
    \<and> in_next_seq t' = ix \<and> in_meta t' = in_meta t \<and> in_final_path t' = in_final_path t \<and> in_state t' = RESUMING"
proof -
  let ?h = "\<lparr>h_path = p, h_buf = [], h_closed = False\<rparr>"
  have ab: "open_ab env p fs = (Inr ?h, fs)"
    using assms by (simp add: open_ab_def resume_ok_def is_dir_def)
  have g: "(if in_state t = INTERRUPTED then goto RESUME_REQUESTED else ret ()) (t, fs)
      = (Inr (), (t\<lparr>in_state := RESUME_REQUESTED\<rparr>, fs))"
    using assms(1) by (auto simp: goto_apply)
  have ro: "resume_reopen env ix p (t\<lparr>in_state := RESUME_REQUESTED\<rparr>, fs) =
      (Inr (), (t\<lparr>in_temp_fh := Some ?h, in_hasher := c, in_bytes_received := int (length c), in_next_seq := ix, in_state := RESUMING\<rparr>, fs))"
    using assms(3,6) by (simp add: resume_reopen_def eff_apply ab read_file_def stat_size_def resume_ok_def goto_apply)
  have "resume env ix (t, fs) = resume_reopen env ix p (t\<lparr>in_state := RESUME_REQUESTED\<rparr>, fs)"
  proof -
    have "resume env ix (t, fs) = seq (if in_state t = INTERRUPTED then goto RESUME_REQUESTED else ret ()) (resume_reopen env ix p) (t, fs)"
      using assms(1,2,3) by (auto simp: resume_def exists_path_def simp del: seq_simps)
    also have "\<dots> = resume_reopen env ix p (t\<lparr>in_state := RESUME_REQUESTED\<rparr>, fs)"
      by (simp only: seq_apply g prod.case sum.case)
    finally show ?thesis .
  qed
  then show ?thesis
    using assms(2,3) by (simp add: ro receiving_def staged_def)
qed


lemma take_number_chunks: "take i (number_chunks tid sq cs) = number_chunks tid sq (take i cs)"
proof (induction cs arbitrary: i sq)
  case (Cons c cs)
  then show ?case by (cases i) auto
qed simp

lemma concat_take_prefix: "\<exists>j. concat (take i xss) = take j (concat xss)"
  by (metis append_eq_conv_conj append_take_drop_id concat_append)

text \<open>From the interrupted state to the finished file.\<close>

lemma resume_phase:
  assumes og: "og_state og = IDLE" "os_open_ok senv (og_source_path og)" "sfs (og_source_path og) = Some (File c)"
    and up: "uuid_parse pf (og_transfer_id og) = Inr u" and size: "int (length c) \<le> ten_gib" and n: "n \<le> 163840"
    and m: "md_transfer_id (in_meta t) = uuid_str u" "md_chunk_size (in_meta t) = int CHUNK_SIZE" "md_sha256 (in_meta t) = sha256_hex c"
    and t: "in_state t = INTERRUPTED" "in_temp_path t = Some p" "fs p = Some (File (take (n * CHUNK_SIZE) c))"
      "in_final_path t = Some final"
    and dirs: "is_dir fs (butlast p)" "p \<noteq> []" "is_dir fs (butlast final)" "\<not> exists_path fs final"
    and sys: "\<And>k. os_write_ok (envs k)" "resume_ok renv p" "finish_ok fenv"
  shows "\<exists>s3 s4 rest og'' t' fs'. resume renv (int n) (t, fs) = (Inr (), s3)
    \<and> stream_chunks_from pf (\<lambda>_. False) (\<lambda>_. True) senv True sfs (int n) og = (rest, Inr (), og'')
    \<and> receive_frames envs 0 rest s3 = (Inr (), s4)
    \<and> finalise fenv s4 = (Inr True, (t', fs')) \<and> fs' final = Some (File c)"
proof -
  let ?d = "drop (n * CHUNK_SIZE) c"
  obtain t3 where rs: "resume renv (int n) (t, fs) = (Inr (), (t3, fs))" "receiving t3" "staged (t3, fs)"
      "in_hasher t3 = take (n * CHUNK_SIZE) c" "in_next_seq t3 = int n" "in_meta t3 = in_meta t" "in_final_path t3 = Some final"
    using resume_receiving [OF _ t(2,3) dirs(1,2) sys(2), of "int n"] t by auto
  obtain rest og'' where fr: "stream_chunks_from pf (\<lambda>_. False) (\<lambda>_. True) senv True sfs (int n) og = (rest, Inr (), og'')"
    and dec: "map decode_chunk_frame rest = map Inr (number_chunks (uuid_str u) (int n) (read_blocks CHUNK_SIZE ?d))"
    using stream_chunks_from_complete [where fs = sfs and og = og and env = senv and c = c and n = "int n"
        and cancelled = "\<lambda>_. False" and read_ok = "\<lambda>_. True", OF _ og(3,2) up size] og(1) n by auto
  obtain t4 fs4 where r4: "receive_frames envs 0 rest (t3, fs) = (Inr (), (t4, fs4))" "receiving t4" "staged (t4, fs4)"
      "in_hasher t4 = take (n * CHUNK_SIZE) c @ concat (read_blocks CHUNK_SIZE ?d)" "in_meta t4 = in_meta t"
      "in_final_path t4 = Some final" "exists_path fs4 final = exists_path fs final" "is_dir fs4 (butlast final) = is_dir fs (butlast final)"
    using receive_frames_ok [of rest t3 "read_blocks CHUNK_SIZE ?d" envs fs 0] dec sys(1) rs m blocks_small [of ?d] by auto
  have hc: "in_hasher t4 = c" using r4(4) by (simp add: concat_read_blocks CHUNK_SIZE_def)
  have "\<exists>t' fs'. finalise fenv (t4, fs4) = (Inr True, (t', fs')) \<and> in_state t' = COMPLETED \<and> fs' final = Some (File (in_hasher t4))"
    using r4 dirs sys(3) m hc by (intro finalise_delivers) auto
  then show ?thesis using rs(1) fr r4(1) hc by auto
qed

text \<open>A transfer interrupted after any positive number of chunks, resumed and finished.\<close>

lemma resumed_delivery:
  assumes meta: "build_metadata mime now senv sfs og sid = Inr m"
    and src: "sfs (og_source_path og) = Some (File c)" "c \<noteq> []"
    and tid: "og_transfer_id og = uuid_str u" "u < 2 ^ 128" and size: "int (length c) \<le> ten_gib"
    and og: "og_state og = IDLE" "os_open_ok senv (og_source_path og)"
    and str: "stream_chunks pf (\<lambda>_. False) (\<lambda>_. True) senv sfs og = (frames, Inr (), og')" and i: "0 < i"
    and beg: "begin_incoming benv (new_incoming m dir, fs0) = (Inr (), (t, fs))"
    and dest: "dest_of (os_resolve benv) m dir = Inr final" "\<not> exists_path fs final"
    and sys: "\<And>k. os_write_ok (envs k)" "interrupt_ok ienv" "resume_ok renv (part_of m dir)" "finish_ok fenv"
  shows "\<exists>s1 s2 s3 s4 rest og'' t' fs'. receive_frames envs 0 (take i frames) (t, fs) = (Inr (), s1)
    \<and> interrupt ienv s1 = (Inr (), s2) \<and> in_state (fst s2) = INTERRUPTED
    \<and> resume renv (in_next_seq (fst s2)) s2 = (Inr (), s3)
    \<and> stream_chunks_from pf (\<lambda>_. False) (\<lambda>_. True) senv True sfs (in_next_seq (fst s2)) og = (rest, Inr (), og'')
    \<and> receive_frames envs 0 rest s3 = (Inr (), s4)
    \<and> finalise fenv s4 = (Inr True, (t', fs')) \<and> fs' final = Some (File c)"
proof -
  let ?P = "part_of m dir"
  have m: "md_transfer_id m = uuid_str u" "md_chunk_size m = int CHUNK_SIZE" "md_sha256 m = sha256_hex c"
      "md_file_size m = int (length c)"
    using build_metadata_ok [OF meta] src tid(1) by auto
  have up: "uuid_parse pf (og_transfer_id og) = Inr u" unfolding tid(1) using tid(2) by (rule uuid_parse_str)
  note from_ok = stream_chunks_from_complete [where fs = sfs and og = og and env = senv and c = c
        and cancelled = "\<lambda>_. False" and read_ok = "\<lambda>_. True", OF _ src(1) og(2) up size]
  have dec: "map decode_chunk_frame frames = map Inr (number_chunks (uuid_str u) 0 (read_blocks CHUNK_SIZE c))"
    using from_ok [of 0] og(1) str by (auto simp: stream_chunks_is_from)
  let ?cs = "take i (read_blocks CHUNK_SIZE c)"
  have deci: "map decode_chunk_frame (take i frames) = map Inr (number_chunks (uuid_str u) 0 ?cs)"
    using arg_cong [OF dec, of "take i"] by (simp add: take_map take_number_chunks)
  have b: "receiving t" "staged (t, fs)" "in_meta t = m" "in_next_seq t = 0" "in_hasher t = []" "in_state t = TRANSFERRING"
      "in_temp_path t = Some ?P" "in_final_path t = Some final" "is_dir fs (butlast final)" "is_dir fs (butlast ?P)" "?P \<noteq> []"
    using begin_receiving [OF beg] dest(1) by auto
  have small: "\<forall>x\<in>set (read_blocks CHUNK_SIZE d). int (length x) \<le> int CHUNK_SIZE" for d
    using blocks_small by simp
  then have "\<forall>x\<in>set ?cs. int (length x) \<le> md_chunk_size (in_meta t)"
    using in_set_takeD by (fastforce simp: b m)
  then obtain t1 fs1 where r: "receive_frames envs 0 (take i frames) (t, fs) = (Inr (), (t1, fs1))" "receiving t1" "staged (t1, fs1)"
      "in_hasher t1 = concat ?cs" "in_meta t1 = m" "in_final_path t1 = Some final" "in_temp_path t1 = Some ?P" "in_state t1 = TRANSFERRING"
      "exists_path fs1 final = exists_path fs final" "is_dir fs1 (butlast final) = is_dir fs (butlast final)"
      "is_dir fs1 (butlast ?P) = is_dir fs (butlast ?P)"
    using receive_frames_ok [of "take i frames" t ?cs envs fs 0] deci sys(1) b m by auto
  obtain j where hj: "in_hasher t1 = take j c"
    using concat_take_prefix [of i "read_blocks CHUNK_SIZE c"] r(4) by (auto simp: concat_read_blocks CHUNK_SIZE_def)
  have "read_blocks CHUNK_SIZE c = take CHUNK_SIZE c # read_blocks CHUNK_SIZE (drop CHUNK_SIZE c)"
    using src(2) by (intro read_blocks_step) (simp_all add: CHUNK_SIZE_def)
  then have hne: "in_hasher t1 \<noteq> []" using i src(2) r(4) by (cases i) (auto simp: CHUNK_SIZE_def)
  define n where "n = length (in_hasher t1) div CHUNK_SIZE"
  obtain t2 fs2 where it: "interrupt ienv (t1, fs1) = (Inr (), (t2, fs2))" "in_state t2 = INTERRUPTED"
      "fs2 ?P = Some (File (take (n * CHUNK_SIZE) (in_hasher t1)))" "in_next_seq t2 = int n" "in_temp_path t2 = Some ?P"
      "in_final_path t2 = Some final" "in_meta t2 = m" "only_at ?P fs1 fs2"
    using interrupt_keeps_chunks [OF r(2,3,8) sys(2) hne, of CHUNK_SIZE ?P] r b m src(2)
    unfolding n_def by (auto simp: CHUNK_SIZE_def)
  have le: "n * CHUNK_SIZE \<le> length (in_hasher t1)" by (simp add: n_def)
  have pre: "take (n * CHUNK_SIZE) (in_hasher t1) = take (n * CHUNK_SIZE) c"
    using le by (simp add: hj min_def split: if_splits)
  have np: "?P \<noteq> butlast ?P" using b(11) by (metis append_butlast_last_id append_self_conv not_Cons_self2)
  obtain x where "fs1 ?P = Some (File x)"
    using r(2,3,7,8) by (auto simp: staged_def receiving_def)
  then have nf: "final \<noteq> ?P" "butlast final \<noteq> ?P"
    using r(9,10) b(9,11) dest(2) by (auto simp: exists_path_def is_dir_def)
  have dirs: "is_dir fs2 (butlast ?P)" "is_dir fs2 (butlast final)" "\<not> exists_path fs2 final"
    using r(9-11) b(9,10) np nf it(8) dest(2) by (auto simp: only_at_def is_dir_def exists_path_def)
  have "length (in_hasher t1) \<le> 10737418240" using hj size by (simp add: ten_gib_def)
  then have "n \<le> 163840" using div_le_mono [of "length (in_hasher t1)" 10737418240 65536] by (simp add: n_def CHUNK_SIZE_def)
  then have "\<exists>s3 s4 rest og'' t' fs'. resume renv (int n) (t2, fs2) = (Inr (), s3)
    \<and> stream_chunks_from pf (\<lambda>_. False) (\<lambda>_. True) senv True sfs (int n) og = (rest, Inr (), og'')
    \<and> receive_frames envs 0 rest s3 = (Inr (), s4)
    \<and> finalise fenv s4 = (Inr True, (t', fs')) \<and> fs' final = Some (File c)"
    using og src(1) up size it dirs b(11) sys(1,3,4) m by (intro resume_phase [where p = ?P]) (auto simp: pre)
  then show ?thesis using r(1) it(1,2,4) by (metis fst_conv)
qed

section \<open>A sample transfer\<close>

definition sample_source :: fs where
  "sample_source = [[lit ''s'', lit ''a.txt''] \<mapsto> File [1, 2, 3]]"

definition sample_outgoing :: outgoing where
  "sample_outgoing = new_outgoing [] [lit ''s'', lit ''a.txt''] (lit ''r'') (Some (uuid_str 7)) [] []"

lemma sample_build:
  "build_metadata (\<lambda>_. Some (lit ''text/plain'')) 5 calm sample_source sample_outgoing (lit ''k'') = Inr sample_incoming_meta"
proof -
  have "uuid_str 7 \<noteq> []" by (metis length_uuid_str list.size(3) zero_neq_numeral)
  then show ?thesis
    by (simp add: build_metadata_def stat_size_def sha256_file_def read_file_def calm_def sample_source_def
        sample_outgoing_def new_outgoing_def sample_incoming_meta_def path_name_def guess_mime_type_def CHUNK_SIZE_def)
qed

lemma sample_outgoing_facts:
  "sample_source (og_source_path sample_outgoing) = Some (File [1, 2, 3])" "og_transfer_id sample_outgoing = uuid_str 7"
  "og_state sample_outgoing = IDLE" "os_open_ok calm (og_source_path sample_outgoing)"
  "og_relative_path sample_outgoing = []"
proof -
  have "uuid_str 7 \<noteq> []" by (metis length_uuid_str list.size(3) zero_neq_numeral)
  then show "og_transfer_id sample_outgoing = uuid_str 7" by (simp add: sample_outgoing_def new_outgoing_def)
qed (simp_all add: sample_source_def sample_outgoing_def new_outgoing_def calm_def)

lemma sample_dest_free: "\<not> exists_path (sample_fs(sample_part \<mapsto> File [])) [lit ''d'', lit ''a.txt'']"
  by (simp add: exists_path_def sample_fs_def)

lemma calm_ok: "os_write_ok calm" "finish_ok calm" "interrupt_ok calm" "resume_ok calm p" "os_resolve calm = calm_resolve"
  by (simp_all add: calm_def finish_ok_def interrupt_ok_def resume_ok_def)

section \<open>Properties\<close>



text \<open>
  C6: resumption. After any positive number of chunks a transfer can be interrupted; the staging
  file then holds exactly the whole chunks received. Resuming at the recorded chunk index and
  streaming the rest with \<^verbatim>\<open>stream_chunks_from\<close> yields the same file as an undisturbed transfer.
\<close>

theorem resumed_transfer_end_to_end:
  assumes "build_metadata mime now senv sfs og sid = Inr m" and "sfs (og_source_path og) = Some (File c)" "c \<noteq> []"
    and "og_transfer_id og = uuid_str u" "u < 2 ^ 128" and "int (length c) \<le> ten_gib"
    and "og_state og = IDLE" "os_open_ok senv (og_source_path og)"
    and "stream_chunks pf (\<lambda>_. False) (\<lambda>_. True) senv sfs og = (frames, Inr (), og')" and "0 < i"
    and "begin_incoming benv (new_incoming m dir, fs0) = (Inr (), (t, fs))"
    and "dest_of (os_resolve benv) m dir = Inr final" "\<not> exists_path fs final"
    and "\<And>k. os_write_ok (envs k)" "interrupt_ok ienv" "resume_ok renv (part_of m dir)" "finish_ok fenv"
  shows "\<exists>s1 s2 s3 s4 rest og'' t' fs'. receive_frames envs 0 (take i frames) (t, fs) = (Inr (), s1)
    \<and> interrupt ienv s1 = (Inr (), s2) \<and> in_state (fst s2) = INTERRUPTED
    \<and> resume renv (in_next_seq (fst s2)) s2 = (Inr (), s3)
    \<and> stream_chunks_from pf (\<lambda>_. False) (\<lambda>_. True) senv True sfs (in_next_seq (fst s2)) og = (rest, Inr (), og'')
    \<and> receive_frames envs 0 rest s3 = (Inr (), s4)
    \<and> finalise fenv s4 = (Inr True, (t', fs')) \<and> fs' final = Some (File c)"
  using assms by (rule resumed_delivery)

theorem resumed_transfer_end_to_end_witness:
  "\<exists>frames s1 s2 s3 s4 rest og'' t' fs'. receive_frames (\<lambda>_. calm) 0 (take 1 frames) (sample_started, sample_fs(sample_part \<mapsto> File [])) = (Inr (), s1)
    \<and> interrupt calm s1 = (Inr (), s2) \<and> resume calm (in_next_seq (fst s2)) s2 = (Inr (), s3)
    \<and> stream_chunks_from ascii_platform (\<lambda>_. False) (\<lambda>_. True) calm True sample_source (in_next_seq (fst s2)) sample_outgoing = (rest, Inr (), og'')
    \<and> receive_frames (\<lambda>_. calm) 0 rest s3 = (Inr (), s4)
    \<and> finalise calm s4 = (Inr True, (t', fs')) \<and> fs' [lit ''d'', lit ''a.txt''] = Some (File [1, 2, 3])"
proof -
  have sz: "int (length [1, 2, 3 :: byte]) \<le> ten_gib" by (simp add: ten_gib_def)
  have up: "uuid_parse ascii_platform (og_transfer_id sample_outgoing) = Inr 7"
    unfolding sample_outgoing_facts(2) by (rule uuid_parse_str) simp
  obtain frames og' where s: "stream_chunks ascii_platform (\<lambda>_. False) (\<lambda>_. True) calm sample_source sample_outgoing = (frames, Inr (), og')"
    using stream_chunks_from_complete [where n = 0 and cancelled = "\<lambda>_. False" and read_ok = "\<lambda>_. True"
        and fs = sample_source and og = sample_outgoing and env = calm, OF _ sample_outgoing_facts(1,4) up sz]
      sample_outgoing_facts(3) by (auto simp: stream_chunks_is_from)
  note facts = sample_dest sample_dest_free calm_ok
  have "\<exists>s1 s2 s3 s4 rest og'' t' fs'. receive_frames (\<lambda>_. calm) 0 (take 1 frames) (sample_started, sample_fs(sample_part \<mapsto> File [])) = (Inr (), s1)
    \<and> interrupt calm s1 = (Inr (), s2) \<and> in_state (fst s2) = INTERRUPTED
    \<and> resume calm (in_next_seq (fst s2)) s2 = (Inr (), s3)
    \<and> stream_chunks_from ascii_platform (\<lambda>_. False) (\<lambda>_. True) calm True sample_source (in_next_seq (fst s2)) sample_outgoing = (rest, Inr (), og'')
    \<and> receive_frames (\<lambda>_. calm) 0 rest s3 = (Inr (), s4)
    \<and> finalise calm s4 = (Inr True, (t', fs')) \<and> fs' [lit ''d'', lit ''a.txt''] = Some (File [1, 2, 3])"
    by (rule resumed_transfer_end_to_end [OF sample_build sample_outgoing_facts(1) _ sample_outgoing_facts(2) _ sz sample_outgoing_facts(3,4) s _
        sample_begin])
      (use facts in \<open>simp_all del: lit_simps\<close>)
  then show ?thesis by blast
qed

end
