(* ===== verification/Session.thy ===== *)
theory Session
  imports Transfer_State Effects Framing PyValues
begin

text \<open>
  \<^verbatim>\<open>FerrySession\<close> of \<^verbatim>\<open>core/session.py\<close>: the ephemeral handshake, the derivation of the session
  keys and of the verification code, the transcript both sides sign, the AEAD frames with their
  counters, and the state machine of a connection. The primitives of the \<^verbatim>\<open>cryptography\<close> package
  are a parameter (\<open>crypto\<close>).
\<close>

section \<open>Cryptographic primitives\<close>

text \<open>
  X25519 (the public key of a private key; the exchange, which raises \<^verbatim>\<open>ValueError\<close> on a malformed
  or low-order public key), HKDF-SHA256 (length, salt, info, key material) and ChaCha20-Poly1305
  (key, nonce, data; \<open>None\<close> stands for \<^verbatim>\<open>InvalidTag\<close>).
\<close>

record crypto =
  x25519_public :: "bytes \<Rightarrow> bytes"
  x25519_exchange :: "bytes \<Rightarrow> bytes \<Rightarrow> bytes res"
  hkdf :: "nat \<Rightarrow> bytes \<Rightarrow> bytes \<Rightarrow> bytes \<Rightarrow> bytes"
  aead_encrypt :: "bytes \<Rightarrow> bytes \<Rightarrow> bytes \<Rightarrow> bytes"
  aead_decrypt :: "bytes \<Rightarrow> bytes \<Rightarrow> bytes \<Rightarrow> bytes option"

text \<open>Documented behaviour of the primitives: the exchange is symmetric, HKDF yields the
  requested number of bytes.\<close>

definition key_agreement :: "crypto \<Rightarrow> bool" where
  "key_agreement cr \<longleftrightarrow>
     (\<forall>a b. x25519_exchange cr a (x25519_public cr b) = x25519_exchange cr b (x25519_public cr a))
     \<and> (\<forall>n salt info ikm. length (hkdf cr n salt info ikm) = n)"

text \<open>Decryption undoes encryption, and the ciphertext is 16 bytes longer than the data.\<close>

definition aead_correct :: "crypto \<Rightarrow> bool" where
  "aead_correct cr \<longleftrightarrow>
     (\<forall>k n p. aead_decrypt cr k n (aead_encrypt cr k n p) = Some p)
     \<and> (\<forall>k n p. length (aead_encrypt cr k n p) = length p + 16)"

section \<open>Constants and data\<close>

definition AEAD_NONCE_SIZE :: nat where "AEAD_NONCE_SIZE = 12"
definition AEAD_TAG_SIZE :: nat where "AEAD_TAG_SIZE = 16"
definition AEAD_HEADER_SIZE :: nat where "AEAD_HEADER_SIZE = 4"
definition MAX_AEAD_PLAINTEXT :: nat where "MAX_AEAD_PLAINTEXT = 1048576"
definition SAS_HKDF_INFO :: bytes where "SAS_HKDF_INFO = blit ''ferry-sas-v1''"
definition SAS_BYTES :: nat where "SAS_BYTES = 3"
definition SESSION_KEY_INFO_INITIATOR :: bytes where
  "SESSION_KEY_INFO_INITIATOR = blit ''ferry-session-initiator-v1''"
definition SESSION_KEY_INFO_RESPONDER :: bytes where
  "SESSION_KEY_INFO_RESPONDER = blit ''ferry-session-responder-v1''"
definition SESSION_KEY_LEN :: nat where "SESSION_KEY_LEN = 32"

datatype session_state =
    S_DISCONNECTED | S_CONNECTING | S_HANDSHAKING | S_PAIRING | S_WAITING_FOR_LOCAL_DECISION
  | S_WAITING_FOR_REMOTE_DECISION | S_PAIR_ACCEPTED | S_AUTHENTICATING | S_ESTABLISHED
  | S_CLOSING | S_FAILED

record handshake_data =
  hs_static_pub_key :: bytes
  hs_ephemeral_pub_key :: bytes
  hs_nonce :: bytes

record derived_keys =
  dk_send_key :: bytes
  dk_recv_key :: bytes
  dk_sas_bytes :: bytes

text \<open>A cipher object is its key.\<close>

record session =
  fs_is_initiator :: bool
  fs_state :: session_state
  fs_eph_private :: "bytes option"
  fs_eph_pub_bytes :: "bytes option"
  fs_local_hs :: "handshake_data option"
  fs_remote_hs :: "handshake_data option"
  fs_derived :: "derived_keys option"
  fs_send_cipher :: "bytes option"
  fs_recv_cipher :: "bytes option"
  fs_send_counter :: int
  fs_recv_counter :: int
  fs_peer_capabilities :: "json list"

definition new_session :: "bool \<Rightarrow> session" where
  "new_session is_initiator =
     \<lparr>fs_is_initiator = is_initiator, fs_state = S_DISCONNECTED, fs_eph_private = None,
      fs_eph_pub_bytes = None, fs_local_hs = None, fs_remote_hs = None, fs_derived = None,
      fs_send_cipher = None, fs_recv_cipher = None, fs_send_counter = 0, fs_recv_counter = 0,
      fs_peer_capabilities = []\<rparr>"

section \<open>State machine\<close>

fun session_transitions :: "session_state \<Rightarrow> session_state list" where
  "session_transitions S_DISCONNECTED = [S_CONNECTING]"
| "session_transitions S_CONNECTING = [S_HANDSHAKING, S_FAILED, S_CLOSING]"
| "session_transitions S_HANDSHAKING = [S_AUTHENTICATING, S_FAILED, S_CLOSING]"
| "session_transitions S_AUTHENTICATING = [S_ESTABLISHED, S_PAIRING, S_FAILED, S_CLOSING]"
| "session_transitions S_PAIRING =
     [S_WAITING_FOR_LOCAL_DECISION, S_WAITING_FOR_REMOTE_DECISION, S_FAILED, S_CLOSING]"
| "session_transitions S_WAITING_FOR_LOCAL_DECISION =
     [S_WAITING_FOR_REMOTE_DECISION, S_PAIR_ACCEPTED, S_FAILED, S_CLOSING]"
| "session_transitions S_WAITING_FOR_REMOTE_DECISION =
     [S_WAITING_FOR_LOCAL_DECISION, S_PAIR_ACCEPTED, S_FAILED, S_CLOSING]"
| "session_transitions S_PAIR_ACCEPTED = [S_ESTABLISHED, S_FAILED, S_CLOSING]"
| "session_transitions S_ESTABLISHED = [S_CLOSING, S_FAILED]"
| "session_transitions S_CLOSING = [S_DISCONNECTED]"
| "session_transitions S_FAILED = [S_DISCONNECTED]"

definition session_step :: "session_state \<Rightarrow> session_state \<Rightarrow> session_state res" where
  "session_step current new =
     (if new \<in> set (session_transitions current) then Inr new else Inl RuntimeError)"

definition session_transition :: "session_state \<Rightarrow> (session, unit) eff" where
  "session_transition new = reads (\<lambda>s. bind (lift (session_step (fs_state s) new))
     (\<lambda>st. upd (fs_state_update (\<lambda>_. st))))"

interpretation session_fsm: table_machine session_transitions session_step
  by unfold_locales (auto simp: session_step_def)

section \<open>Handshake\<close>

text \<open>The random values (\<^verbatim>\<open>X25519PrivateKey.generate\<close> and \<^verbatim>\<open>os.urandom(16)\<close>) are arguments.\<close>

definition generate_ephemeral_keypair :: "crypto \<Rightarrow> bytes \<Rightarrow> (session, unit) eff" where
  "generate_ephemeral_keypair cr priv =
     upd (\<lambda>s. s\<lparr>fs_eph_private := Some priv, fs_eph_pub_bytes := Some (x25519_public cr priv)\<rparr>)"

definition build_local_handshake :: "crypto \<Rightarrow> bytes \<Rightarrow> bytes \<Rightarrow> bytes \<Rightarrow> (session, handshake_data) eff" where
  "build_local_handshake cr priv nonce static_pub_key_bytes =
     seq (reads (\<lambda>s. if fs_eph_pub_bytes s = None then generate_ephemeral_keypair cr priv else ret ()))
       (reads (\<lambda>s.
          let hs = \<lparr>hs_static_pub_key = static_pub_key_bytes,
                    hs_ephemeral_pub_key = (case fs_eph_pub_bytes s of Some p \<Rightarrow> p | None \<Rightarrow> []),
                    hs_nonce = nonce\<rparr>
          in seq (upd (fs_local_hs_update (\<lambda>_. Some hs))) (ret hs)))"

definition accept_remote_handshake :: "handshake_data \<Rightarrow> (session, unit) eff" where
  "accept_remote_handshake remote = upd (fs_remote_hs_update (\<lambda>_. Some remote))"

text \<open>The public material, the initiator's part of each field first.\<close>

definition transcript_salt :: "handshake_data \<Rightarrow> handshake_data \<Rightarrow> bytes" where
  "transcript_salt init resp =
     hs_static_pub_key init @ hs_static_pub_key resp
     @ hs_ephemeral_pub_key init @ hs_ephemeral_pub_key resp
     @ hs_nonce init @ hs_nonce resp"

text \<open>\<^verbatim>\<open>ChaCha20Poly1305(key)\<close> refuses a key that has not 32 bytes.\<close>

definition new_cipher :: "bytes \<Rightarrow> bytes res" where
  "new_cipher key = (if length key = 32 then Inr key else Inl ValueError)"

definition derive_keys :: "crypto \<Rightarrow> (session, derived_keys) eff" where
  "derive_keys cr = reads (\<lambda>s.
     case fs_eph_private s of
       None \<Rightarrow> raise RuntimeError
     | Some priv \<Rightarrow>
         (case (fs_local_hs s, fs_remote_hs s) of
            (Some local, Some remote) \<Rightarrow>
              bind (lift (x25519_exchange cr priv (hs_ephemeral_pub_key remote))) (\<lambda>dh_shared.
              seq (upd (fs_eph_private_update (\<lambda>_. None)))
             (let salt = (if fs_is_initiator s then transcript_salt local remote else transcript_salt remote local);
                  init_key = hkdf cr SESSION_KEY_LEN salt SESSION_KEY_INFO_INITIATOR dh_shared;
                  resp_key = hkdf cr SESSION_KEY_LEN salt SESSION_KEY_INFO_RESPONDER dh_shared;
                  sas_raw = hkdf cr SAS_BYTES salt SAS_HKDF_INFO dh_shared;
                  derived = (if fs_is_initiator s
                             then \<lparr>dk_send_key = init_key, dk_recv_key = resp_key, dk_sas_bytes = sas_raw\<rparr>
                             else \<lparr>dk_send_key = resp_key, dk_recv_key = init_key, dk_sas_bytes = sas_raw\<rparr>)
              in seq (upd (fs_derived_update (\<lambda>_. Some derived)))
                (bind (lift (new_cipher (dk_send_key derived))) (\<lambda>sc.
                 seq (upd (fs_send_cipher_update (\<lambda>_. Some sc)))
                (bind (lift (new_cipher (dk_recv_key derived))) (\<lambda>rc.
                 seq (upd (fs_recv_cipher_update (\<lambda>_. Some rc))) (ret derived)))))))
          | _ \<Rightarrow> raise RuntimeError))"

text \<open>\<^verbatim>\<open>f"{val:06d}"\<close>.\<close>

primrec dec_fixed :: "nat \<Rightarrow> nat \<Rightarrow> pystr" where
  "dec_fixed 0 n = []"
| "dec_fixed (Suc k) n = dec_fixed k (n div 10) @ [48 + n mod 10]"

definition sas_code :: "session \<Rightarrow> pystr option" where
  "sas_code s =
     (case fs_derived s of
        None \<Rightarrow> None
      | Some d \<Rightarrow> Some (dec_fixed 6 (be_nat (dk_sas_bytes d) mod 1000000)))"

definition handshake_part :: "handshake_data \<Rightarrow> bytes" where
  "handshake_part hs = hs_static_pub_key hs @ hs_ephemeral_pub_key hs @ hs_nonce hs"

definition build_auth_transcript :: "session \<Rightarrow> bytes res" where
  "build_auth_transcript s =
     (case (fs_local_hs s, fs_remote_hs s) of
        (Some local, Some remote) \<Rightarrow>
          if fs_is_initiator s
          then Inr (blit ''ferry-auth-v1|'' @ handshake_part local @ handshake_part remote)
          else Inr (blit ''ferry-auth-v1|'' @ handshake_part remote @ handshake_part local)
      | _ \<Rightarrow> Inl RuntimeError)"

section \<open>AEAD frames\<close>

definition make_nonce :: "int \<Rightarrow> bytes res" where
  "make_nonce counter = res_bind (struct_pack 8 counter) (\<lambda>c. Inr (replicate 4 0 @ c))"

definition encrypt_frame :: "crypto \<Rightarrow> bytes \<Rightarrow> (session, bytes) eff" where
  "encrypt_frame cr plaintext = reads (\<lambda>s.
     case fs_send_cipher s of
       None \<Rightarrow> raise RuntimeError
     | Some key \<Rightarrow>
         if MAX_AEAD_PLAINTEXT < length plaintext then raise ValueError
         else bind (lift (make_nonce (fs_send_counter s))) (\<lambda>nonce.
              seq (upd (fs_send_counter_update (\<lambda>c. c + 1)))
             (let ciphertext = aead_encrypt cr key nonce plaintext
              in bind (lift (struct_pack 4 (int (length ciphertext)))) (\<lambda>len.
                 ret (len @ nonce @ ciphertext)))))"

definition decrypt_frame :: "crypto \<Rightarrow> bytes \<Rightarrow> (session, bytes) eff" where
  "decrypt_frame cr frame = reads (\<lambda>s.
     case fs_recv_cipher s of
       None \<Rightarrow> raise RuntimeError
     | Some key \<Rightarrow>
         if length frame < AEAD_HEADER_SIZE + AEAD_NONCE_SIZE then raise ValueError
         else bind (lift (struct_unpack 4 (take 4 frame))) (\<lambda>ct_len.
              let expected_total = AEAD_HEADER_SIZE + AEAD_NONCE_SIZE + ct_len
              in if length frame < expected_total then raise ValueError
                 else let frame_nonce = take AEAD_NONCE_SIZE (drop 4 frame);
                          ciphertext = take ct_len (drop (4 + AEAD_NONCE_SIZE) frame)
                      in bind (lift (make_nonce (fs_recv_counter s))) (\<lambda>expected_nonce.
                         if frame_nonce \<noteq> expected_nonce then raise ValueError
                         else seq (upd (fs_recv_counter_update (\<lambda>c. c + 1)))
                             (case aead_decrypt cr key frame_nonce ciphertext of
                                Some p \<Rightarrow> ret p
                              | None \<Rightarrow> raise ValueError))))"

text \<open>\<^verbatim>\<open>FerryService._read_aead_frame_bytes\<close>: one frame from the stream.\<close>

definition read_aead_frame_bytes :: "bytes \<Rightarrow> (bytes \<times> bytes) res" where
  "read_aead_frame_bytes stream =
     res_bind (readexactly AEAD_HEADER_SIZE stream) (\<lambda>(header, s1).
     res_bind (struct_unpack 4 header) (\<lambda>ct_len.
     res_bind (readexactly (AEAD_NONCE_SIZE + ct_len) s1) (\<lambda>(rest, s2).
       Inr (header @ rest, s2))))"


section \<open>Key agreement\<close>

lemma build_local_handshake_new:
  "build_local_handshake cr priv nonce pk (new_session ini) =
     (let hs = \<lparr>hs_static_pub_key = pk, hs_ephemeral_pub_key = x25519_public cr priv, hs_nonce = nonce\<rparr>
      in (Inr hs, (new_session ini)\<lparr>fs_eph_private := Some priv, fs_eph_pub_bytes := Some (x25519_public cr priv),
                                   fs_local_hs := Some hs\<rparr>))"
  by (simp add: build_local_handshake_def generate_ephemeral_keypair_def new_session_def seq_apply Let_def)

lemma new_cipher_hkdf: "key_agreement cr \<Longrightarrow> new_cipher (hkdf cr SESSION_KEY_LEN salt info ikm) = Inr (hkdf cr SESSION_KEY_LEN salt info ikm)"
  by (simp add: key_agreement_def new_cipher_def SESSION_KEY_LEN_def)

text \<open>\<^verbatim>\<open>derive_keys\<close> once both handshakes are present.\<close>

lemma derive_keys_ready:
  assumes "key_agreement cr" and "fs_eph_private s = Some priv"
    and "fs_local_hs s = Some l" and "fs_remote_hs s = Some r"
  shows "derive_keys cr s =
    (case x25519_exchange cr priv (hs_ephemeral_pub_key r) of
       Inl e \<Rightarrow> (Inl e, s)
     | Inr dh \<Rightarrow>
         let salt = (if fs_is_initiator s then transcript_salt l r else transcript_salt r l);
             ik = hkdf cr SESSION_KEY_LEN salt SESSION_KEY_INFO_INITIATOR dh;
             rk = hkdf cr SESSION_KEY_LEN salt SESSION_KEY_INFO_RESPONDER dh;
             sas = hkdf cr SAS_BYTES salt SAS_HKDF_INFO dh;
             d = (if fs_is_initiator s then \<lparr>dk_send_key = ik, dk_recv_key = rk, dk_sas_bytes = sas\<rparr>
                  else \<lparr>dk_send_key = rk, dk_recv_key = ik, dk_sas_bytes = sas\<rparr>)
         in (Inr d, s\<lparr>fs_eph_private := None, fs_derived := Some d, fs_send_cipher := Some (dk_send_key d),
                      fs_recv_cipher := Some (dk_recv_key d)\<rparr>))"
  using assms
  by (cases "x25519_exchange cr priv (hs_ephemeral_pub_key r)")
    (simp_all add: derive_keys_def bind_apply seq_apply Let_def new_cipher_hkdf)

section \<open>Wire format of AEAD frames\<close>

lemma length_make_nonce: "make_nonce c = Inr n \<Longrightarrow> length n = 12"
  by (auto simp: make_nonce_def res_simps dest: struct_pack_length)

lemma make_nonce_ok: "0 \<le> c \<Longrightarrow> c < 2 ^ 64 \<Longrightarrow> \<exists>n. make_nonce c = Inr n"
  by (simp add: make_nonce_def struct_pack_def)

lemma make_nonce_inj:
  assumes "make_nonce c = Inr n" and "make_nonce d = Inr n"
  shows "c = d"
proof -
  from assms obtain b where b: "struct_pack 8 c = Inr b" "struct_pack 8 d = Inr b"
    by (auto simp: make_nonce_def res_simps)
  have r: "0 \<le> c" "0 \<le> d" using b by (auto simp: struct_pack_def split: if_splits)
  have "nat c = nat d" using struct_unpack_pack [OF b(1)] struct_unpack_pack [OF b(2)] by simp
  with r show ?thesis by simp
qed

definition wf_aead_frame :: "bytes \<Rightarrow> bool" where
  "wf_aead_frame f \<longleftrightarrow> 4 \<le> length f \<and> length f = 16 + be_nat (take 4 f)"

text \<open>A well-formed frame is its header of four bytes, naming the length of the ciphertext, and the rest.\<close>

lemma wf_aead_frame_split:
  assumes "wf_aead_frame f"
  obtains h b where "f = h @ b" "length h = 4" "length b = 12 + be_nat h"
proof
  show "f = take 4 f @ drop 4 f" by simp
  from assms have l: "4 \<le> length f" "length f = 16 + be_nat (take 4 f)"
    unfolding wf_aead_frame_def by blast+
  from l(1) show "length (take 4 f) = 4" by simp
  show "length (drop 4 f) = 12 + be_nat (take 4 f)"
    unfolding length_drop l(2) by linarith
qed

lemma read_aead_frame_wf:
  assumes "wf_aead_frame f"
  shows "read_aead_frame_bytes (f @ r) = Inr (f, r)"
  using assms
  by (rule wf_aead_frame_split)
    (simp add: read_aead_frame_bytes_def AEAD_HEADER_SIZE_def AEAD_NONCE_SIZE_def struct_unpack_def)

lemma read_aead_frame_cut:
  assumes "wf_aead_frame f" and "k < length f"
  shows "read_aead_frame_bytes (take k f) = Inl IncompleteReadError"
proof -
  obtain h b where f: "f = h @ b" "length h = 4" "length b = 12 + be_nat h"
    using assms(1) by (rule wf_aead_frame_split)
  show ?thesis
  proof (cases "k < 4")
    case True
    then have "length (take k f) < 4" by simp
    then show ?thesis
      by (simp only: read_aead_frame_bytes_def AEAD_HEADER_SIZE_def readexactly_short res_bind_simps)
  next
    case False
    then have "take k f = h @ take (k - 4) b" using f by simp
    moreover have "length (take (k - 4) b) < 12 + be_nat h" using assms(2) False f by simp
    ultimately show ?thesis using f(2)
      by (simp add: read_aead_frame_bytes_def AEAD_HEADER_SIZE_def AEAD_NONCE_SIZE_def struct_unpack_def readexactly_short)
  qed
qed

interpretation aead_wire: stream_codec Inr read_aead_frame_bytes wf_aead_frame
  by unfold_locales (auto simp: read_aead_frame_wf read_aead_frame_cut)

section \<open>Encryption and decryption\<close>

text \<open>The frame that carries plaintext \<open>p\<close> under key \<open>k\<close> at counter \<open>c\<close>.\<close>

definition aead_frame :: "crypto \<Rightarrow> bytes \<Rightarrow> bytes \<Rightarrow> bytes \<Rightarrow> bytes" where
  "aead_frame cr k n p = be_bytes 4 (length (aead_encrypt cr k n p)) @ n @ aead_encrypt cr k n p"

lemma encrypt_frame_ok:
  assumes "aead_correct cr" and "fs_send_cipher s = Some k" and "length p \<le> MAX_AEAD_PLAINTEXT"
    and "make_nonce (fs_send_counter s) = Inr n"
  shows "encrypt_frame cr p s = (Inr (aead_frame cr k n p), s\<lparr>fs_send_counter := fs_send_counter s + 1\<rparr>)"
proof -
  have "length (aead_encrypt cr k n p) < 256 ^ 4"
    using assms(1,3) by (simp add: aead_correct_def MAX_AEAD_PLAINTEXT_def)
  then show ?thesis using assms
    by (simp add: encrypt_frame_def bind_apply seq_apply Let_def struct_pack_def aead_frame_def)
qed

lemma encrypt_frame_result:
  assumes "aead_correct cr" and "encrypt_frame cr p s = (Inr f, s')"
  shows "\<exists>k n. fs_send_cipher s = Some k \<and> length p \<le> MAX_AEAD_PLAINTEXT \<and> make_nonce (fs_send_counter s) = Inr n
    \<and> f = aead_frame cr k n p \<and> s' = s\<lparr>fs_send_counter := fs_send_counter s + 1\<rparr>"
proof -
  from assms(2) obtain k n where "fs_send_cipher s = Some k" "length p \<le> MAX_AEAD_PLAINTEXT" "make_nonce (fs_send_counter s) = Inr n"
    by (auto simp: encrypt_frame_def bind_apply split: option.splits if_splits sum.splits)
  with encrypt_frame_ok [OF assms(1), of s k p n] assms(2) show ?thesis by auto
qed

lemma wf_aead_frame:
  assumes "aead_correct cr" and "length n = 12" and "length p \<le> MAX_AEAD_PLAINTEXT"
  shows "wf_aead_frame (aead_frame cr k n p)"
  using assms by (simp add: wf_aead_frame_def aead_frame_def be_nat_be_bytes aead_correct_def MAX_AEAD_PLAINTEXT_def)

text \<open>On a well-formed frame \<^verbatim>\<open>decrypt_frame\<close> compares the nonce with its counter, then decrypts.\<close>

lemma decrypt_frame_frame:
  assumes "aead_correct cr" and "length n = 12" and "length p \<le> MAX_AEAD_PLAINTEXT"
    and "fs_recv_cipher s = Some k" and "make_nonce (fs_recv_counter s) = Inr m"
  shows "decrypt_frame cr (aead_frame cr k n p) s =
    (if n = m then (Inr p, s\<lparr>fs_recv_counter := fs_recv_counter s + 1\<rparr>) else (Inl ValueError, s))"
proof -
  let ?c = "aead_encrypt cr k n p"
  have l: "length ?c = length p + 16" and d: "\<And>n p. aead_decrypt cr k n (aead_encrypt cr k n p) = Some p"
    using assms(1) by (simp_all add: aead_correct_def)
  have "length ?c < 256 ^ 4" using assms(3) l by (simp add: MAX_AEAD_PLAINTEXT_def)
  then have "struct_unpack 4 (be_bytes 4 (length ?c)) = Inr (length ?c)"
    by (simp add: struct_unpack_def be_nat_be_bytes)
  then show ?thesis
    using assms(2-5) d
    by (simp add: decrypt_frame_def aead_frame_def bind_apply seq_apply Let_def AEAD_HEADER_SIZE_def AEAD_NONCE_SIZE_def)
qed

end
