(* ===== verification/Channel.thy ===== *)
theory Channel
  imports Session
begin

text \<open>
  Two sessions talking to each other: agreement on keys, verification code and signed transcript;
  frames delivered in order; what an attacker on the network achieves by replaying, reordering or
  dropping frames; and the state machine of a connection.
\<close>

section \<open>Sequences of frames\<close>

text \<open>The frames of successive calls of \<^verbatim>\<open>encrypt_frame\<close>, and the plaintexts of successive calls of
  \<^verbatim>\<open>decrypt_frame\<close> up to the first that raises, which ends the session loop.\<close>

fun encrypt_all :: "crypto \<Rightarrow> bytes list \<Rightarrow> (session, bytes list) eff" where
  "encrypt_all cr [] = ret []"
| "encrypt_all cr (p # ps) = bind (encrypt_frame cr p) (\<lambda>f. bind (encrypt_all cr ps) (\<lambda>fs. ret (f # fs)))"

fun accepts :: "crypto \<Rightarrow> bytes list \<Rightarrow> session \<Rightarrow> bytes list \<times> session" where
  "accepts cr [] s = ([], s)"
| "accepts cr (f # fs) s =
     (case decrypt_frame cr f s of
        (Inl _, s') \<Rightarrow> ([], s')
      | (Inr p, s') \<Rightarrow> (let (ps, s'') = accepts cr fs s' in (p # ps, s'')))"

text \<open>The nonces at counters \<open>c\<close>, \<open>c + 1\<close>, \dots, and the frames sent there.\<close>

definition nonce_at :: "int \<Rightarrow> bytes" where
  "nonce_at c = (case make_nonce c of Inr n \<Rightarrow> n | Inl _ \<Rightarrow> [])"

fun frames_at :: "crypto \<Rightarrow> bytes \<Rightarrow> int \<Rightarrow> bytes list \<Rightarrow> bytes list" where
  "frames_at cr k c [] = []"
| "frames_at cr k c (p # ps) = aead_frame cr k (nonce_at c) p # frames_at cr k (c + 1) ps"

lemma nonce_at:
  assumes "0 \<le> c" and "c < 2 ^ 64"
  shows "make_nonce c = Inr (nonce_at c)" "length (nonce_at c) = 12"
  using make_nonce_ok [OF assms] length_make_nonce [of c] by (auto simp: nonce_at_def)

lemma encrypt_all_ok:
  assumes "aead_correct cr" and "fs_send_cipher s = Some k" and "0 \<le> fs_send_counter s"
    and "fs_send_counter s + int (length ps) \<le> 2 ^ 64" and "\<forall>p\<in>set ps. length p \<le> MAX_AEAD_PLAINTEXT"
  shows "encrypt_all cr ps s =
    (Inr (frames_at cr k (fs_send_counter s) ps), s\<lparr>fs_send_counter := fs_send_counter s + int (length ps)\<rparr>)"
  using assms
proof (induction ps arbitrary: s)
  case (Cons p ps)
  have n: "make_nonce (fs_send_counter s) = Inr (nonce_at (fs_send_counter s))"
    using Cons.prems(3,4) by (intro nonce_at) auto
  show ?case
    using Cons.prems Cons.IH [of "s\<lparr>fs_send_counter := fs_send_counter s + 1\<rparr>"] encrypt_frame_ok [OF assms(1) _ _ n]
    by (simp add: bind_apply algebra_simps)
qed simp

lemma encrypt_all_frames:
  assumes "aead_correct cr" and "fs_send_cipher s = Some k" and "encrypt_all cr ps s = (Inr frames, s')"
  shows "frames = frames_at cr k (fs_send_counter s) ps \<and> (\<forall>p\<in>set ps. length p \<le> MAX_AEAD_PLAINTEXT)
    \<and> (ps \<noteq> [] \<longrightarrow> 0 \<le> fs_send_counter s \<and> fs_send_counter s + int (length ps) \<le> 2 ^ 64)"
  using assms(2,3)
proof (induction ps arbitrary: s frames)
  case (Cons p ps)
  then obtain f s1 fs where f: "encrypt_frame cr p s = (Inr f, s1)" and fs: "encrypt_all cr ps s1 = (Inr fs, s')"
    and fr: "frames = f # fs" by (auto simp: bind_apply split: prod.splits sum.splits)
  obtain n where n: "length p \<le> MAX_AEAD_PLAINTEXT" "make_nonce (fs_send_counter s) = Inr n" "f = aead_frame cr k n p"
    "s1 = s\<lparr>fs_send_counter := fs_send_counter s + 1\<rparr>"
    using encrypt_frame_result [OF assms(1) f] Cons.prems(1) by auto
  have r: "0 \<le> fs_send_counter s" "fs_send_counter s < 2 ^ 64"
    using n(2) by (auto simp: make_nonce_def struct_pack_def res_simps split: if_splits)
  have "nonce_at (fs_send_counter s) = n" using n(2) by (simp add: nonce_at_def)
  then show ?case using Cons.IH [of s1 fs] fs fr n r Cons.prems(1) by (cases ps) auto
qed simp

lemma length_frames_at [simp]: "length (frames_at cr k c ps) = length ps"
  by (induction ps arbitrary: c) auto

lemma nth_frames_at: "i < length ps \<Longrightarrow> frames_at cr k c ps ! i = aead_frame cr k (nonce_at (c + int i)) (ps ! i)"
  by (induction ps arbitrary: c i) (auto simp: nth_Cons' algebra_simps of_nat_diff)

lemma nonce_at_inj:
  assumes "nonce_at c = nonce_at d" and "0 \<le> c" "c < 2 ^ 64" "0 \<le> d" "d < 2 ^ 64"
  shows "c = d"
  using make_nonce_inj [of c "nonce_at c" d] nonce_at assms by simp

section \<open>Delivery\<close>

lemma accepts_frames:
  assumes "aead_correct cr" and "fs_recv_cipher s = Some k" and "0 \<le> fs_recv_counter s"
    and "fs_recv_counter s + int (length ps) \<le> 2 ^ 64" and "\<forall>p\<in>set ps. length p \<le> MAX_AEAD_PLAINTEXT"
  shows "accepts cr (frames_at cr k (fs_recv_counter s) ps) s =
    (ps, s\<lparr>fs_recv_counter := fs_recv_counter s + int (length ps)\<rparr>)"
  using assms
proof (induction ps arbitrary: s)
  case (Cons p ps)
  have n: "make_nonce (fs_recv_counter s) = Inr (nonce_at (fs_recv_counter s))" "length (nonce_at (fs_recv_counter s)) = 12"
    using Cons.prems(3,4) nonce_at by auto
  show ?case
    using Cons.prems Cons.IH [of "s\<lparr>fs_recv_counter := fs_recv_counter s + 1\<rparr>"]
      decrypt_frame_frame [OF assms(1) n(2) _ _ n(1), of p k]
    by (simp add: algebra_simps)
qed simp

lemma write_all_Inr [simp]: "write_all Inr fs = Inr (concat fs)"
  by (induction fs) auto

lemma wf_frames_at:
  assumes "aead_correct cr" and "0 \<le> c" and "c + int (length ps) \<le> 2 ^ 64"
    and "\<forall>p\<in>set ps. length p \<le> MAX_AEAD_PLAINTEXT"
  shows "list_all wf_aead_frame (frames_at cr k c ps)"
  using assms(2-4)
proof (induction ps arbitrary: c)
  case (Cons p ps)
  then have "length (nonce_at c) = 12" using nonce_at(2) [of c] by simp
  then show ?case using Cons wf_aead_frame [OF assms(1)] by simp
qed simp

section \<open>A concrete instance of the primitives\<close>

text \<open>A toy instance, without any security, that satisfies the documented equations.\<close>

definition toy_crypto :: crypto where
  "toy_crypto = \<lparr>x25519_public = id, x25519_exchange = (\<lambda>a b. Inr (map2 (+) a b)),
     hkdf = (\<lambda>n salt info ikm. take n (ikm @ info @ salt @ replicate n 0)),
     aead_encrypt = (\<lambda>k n p. p @ replicate 16 0),
     aead_decrypt = (\<lambda>k n c. if 16 \<le> length c then Some (take (length c - 16) c) else None)\<rparr>"

lemma map2_plus_commute: "map2 (+) a (b :: byte list) = map2 (+) b a"
  by (induction a b rule: list_induct2') (auto simp: add.commute)

lemma toy_crypto_ok: "aead_correct toy_crypto" "key_agreement toy_crypto"
  by (auto simp: aead_correct_def key_agreement_def toy_crypto_def map2_plus_commute min_def)

definition sample_a :: session where
  "sample_a = (new_session True)\<lparr>fs_send_cipher := Some [1], fs_recv_cipher := Some [2]\<rparr>"

definition sample_b :: session where
  "sample_b = (new_session False)\<lparr>fs_send_cipher := Some [2], fs_recv_cipher := Some [1]\<rparr>"

lemma sample_sessions:
  "fs_send_cipher sample_a = Some [1]" "fs_recv_cipher sample_b = Some [1]"
  "fs_send_counter sample_a = 0" "fs_recv_counter sample_b = 0"
  by (simp_all add: sample_a_def sample_b_def new_session_def)

section \<open>Properties of the channel\<close>

text \<open>
  C18: the encrypted channel is a lossless FIFO. Any plaintexts of at most 1 MiB, encrypted by one
  session, framed on the wire and read back frame by frame, are decrypted by the peer in order and
  unchanged, whatever bytes follow, and the two counters stay equal.
\<close>

theorem channel_fifo:
  assumes "aead_correct cr" and "fs_send_cipher a = Some k" and "fs_recv_cipher b = Some k"
    and "fs_send_counter a = c" and "fs_recv_counter b = c" and "0 \<le> c" and "c + int (length ps) \<le> 2 ^ 64"
    and "\<forall>p\<in>set ps. length p \<le> MAX_AEAD_PLAINTEXT"
  shows "\<exists>frames a' b'. encrypt_all cr ps a = (Inr frames, a')
    \<and> read_n read_aead_frame_bytes (length ps) (concat frames @ rest) = Inr (frames, rest)
    \<and> accepts cr frames b = (ps, b') \<and> fs_send_counter a' = fs_recv_counter b'"
proof -
  let ?fr = "frames_at cr k c ps"
  have "read_n read_aead_frame_bytes (length ps) (concat ?fr @ rest) = Inr (?fr, rest)"
    using aead_wire.read_n_write_all [of ?fr "concat ?fr" rest] wf_frames_at [OF assms(1,6-8)] by simp
  moreover have "encrypt_all cr ps a = (Inr ?fr, a\<lparr>fs_send_counter := c + int (length ps)\<rparr>)"
    using encrypt_all_ok [OF assms(1,2)] assms by simp
  moreover have "accepts cr ?fr b = (ps, b\<lparr>fs_recv_counter := c + int (length ps)\<rparr>)"
    using accepts_frames [OF assms(1,3)] assms by simp
  ultimately show ?thesis by force
qed


theorem channel_fifo_witness:
  "\<exists>frames a' b'. encrypt_all toy_crypto [[1, 2], []] sample_a = (Inr frames, a')
    \<and> read_n read_aead_frame_bytes 2 (concat frames @ [9]) = Inr (frames, [9])
    \<and> accepts toy_crypto frames sample_b = ([[1, 2], []], b') \<and> fs_send_counter a' = fs_recv_counter b'"
  using channel_fifo [OF toy_crypto_ok(1) sample_sessions(1,2), of 0 "[[1, 2], []]" "[9]"]
  by (simp add: sample_sessions MAX_AEAD_PLAINTEXT_def numeral_2_eq_2)

text \<open>The frames an attacker can deliver are those that were sent; one is accepted only at the
  position at which it was sent.\<close>

lemma accepts_prefix:
  assumes "aead_correct cr" and "fs_recv_cipher s = Some k" and "0 \<le> c" and "c + int (length ps) \<le> 2 ^ 64"
    and "\<forall>p\<in>set ps. length p \<le> MAX_AEAD_PLAINTEXT" and "set ds \<subseteq> set (frames_at cr k c ps)"
    and "fs_recv_counter s = c + int i" and "i \<le> length ps"
  shows "\<exists>j. fst (accepts cr ds s) = take j (drop i ps)"
  using assms(2,6-8)
proof (induction ds arbitrary: s i)
  case (Cons d ds)
  then obtain j where j: "j < length ps" "d = aead_frame cr k (nonce_at (c + int j)) (ps ! j)"
    by (auto simp: in_set_conv_nth nth_frames_at)
  have nj: "length (nonce_at (c + int j)) = 12" and pj: "length (ps ! j) \<le> MAX_AEAD_PLAINTEXT"
    using j(1) assms(3-5) nonce_at(2) [of "c + int j"] by auto
  show ?case
  proof (cases "i = j")
    case True
    have m: "make_nonce (fs_recv_counter s) = Inr (nonce_at (c + int j))"
      using Cons.prems(3) True j(1) assms(3,4) nonce_at(1) [of "c + int j"] by simp
    have step: "decrypt_frame cr d s = (Inr (ps ! j), s\<lparr>fs_recv_counter := fs_recv_counter s + 1\<rparr>)"
      unfolding j(2) decrypt_frame_frame [OF assms(1) nj pj Cons.prems(1) m] by simp
    obtain j' where "fst (accepts cr ds (s\<lparr>fs_recv_counter := fs_recv_counter s + 1\<rparr>)) = take j' (drop (Suc i) ps)"
      using Cons.IH [of "s\<lparr>fs_recv_counter := fs_recv_counter s + 1\<rparr>" "Suc i"] Cons.prems True j(1) by auto
    then have "fst (accepts cr (d # ds) s) = take (Suc j') (drop i ps)"
      using True j(1) step by (auto simp: Cons_nth_drop_Suc [symmetric] split: prod.splits)
    then show ?thesis by blast
  next
    case False
    have "fst (accepts cr (d # ds) s) = []"
    proof (cases "make_nonce (fs_recv_counter s)")
      case (Inr m)
      have "nonce_at (c + int j) \<noteq> m"
        using make_nonce_inj [of "fs_recv_counter s" m "c + int j"] Inr False Cons.prems(3) nonce_at(1) [of "c + int j"] j(1) assms(3,4)
        by auto
      then show ?thesis using decrypt_frame_frame [OF assms(1) nj pj Cons.prems(1) Inr] j(2) by simp
    next
      case (Inl e)
      then have "fst (decrypt_frame cr d s) \<noteq> Inr x" for x
        by (auto simp: decrypt_frame_def bind_apply Let_def split: option.splits sum.splits if_splits prod.splits)
      then show ?thesis by (auto split: prod.splits sum.splits) (metis fst_conv)
    qed
    then show ?thesis by (metis take_0)
  qed
qed (auto intro: exI [of _ 0])

text \<open>
  C20: no replay, no reordering, no gaps. An attacker who delivers frames of the sender in any
  order, any number of times, and drops any of them, makes the receiver accept exactly a prefix of
  what was sent before the session ends.
\<close>

theorem replay_protection:
  assumes "aead_correct cr" and "fs_send_cipher a = Some k" and "fs_recv_cipher b = Some k"
    and "fs_send_counter a = fs_recv_counter b" and "encrypt_all cr ps a = (Inr frames, a')"
    and "set delivered \<subseteq> set frames"
  shows "\<exists>n. fst (accepts cr delivered b) = take n ps"
proof -
  have f: "frames = frames_at cr k (fs_recv_counter b) ps" "\<forall>p\<in>set ps. length p \<le> MAX_AEAD_PLAINTEXT"
    "ps \<noteq> [] \<Longrightarrow> 0 \<le> fs_recv_counter b \<and> fs_recv_counter b + int (length ps) \<le> 2 ^ 64"
    using encrypt_all_frames [OF assms(1,2,5)] assms(4) by auto
  show ?thesis
  proof (cases "ps = []")
    case True
    then have "delivered = []" using f(1) assms(6) by simp
    then show ?thesis by simp
  next
    case False
    then show ?thesis
      using accepts_prefix [OF assms(1,3), of "fs_recv_counter b" ps delivered 0] f assms(6) by auto
  qed
qed

theorem replay_protection_witness:
  "\<exists>frames a' n. encrypt_all toy_crypto [[1], [2]] sample_a = (Inr frames, a')
    \<and> fst (accepts toy_crypto [frames ! 0, frames ! 0, frames ! 1] sample_b) = take n [[1], [2]]"
proof -
  obtain frames a' where e: "encrypt_all toy_crypto [[1], [2]] sample_a = (Inr frames, a')"
    using encrypt_all_ok [OF toy_crypto_ok(1) sample_sessions(1), of "[[1], [2]]"]
    by (auto simp: sample_sessions MAX_AEAD_PLAINTEXT_def)
  have "length frames = 2"
    using encrypt_all_frames [OF toy_crypto_ok(1) sample_sessions(1) e] by simp
  then have "set [frames ! 0, frames ! 0, frames ! 1] \<subseteq> set frames" by simp
  then show ?thesis
    using replay_protection [OF toy_crypto_ok(1) sample_sessions(1,2) _ e, of "[frames ! 0, frames ! 0, frames ! 1]"] e
    by (auto simp: sample_sessions)
qed


section \<open>The handshake\<close>

lemma handshake_ready:
  assumes "build_local_handshake cr pr nc ks (new_session ini) = (Inr h, s1)" and "accept_remote_handshake r s1 = (Inr (), s2)"
  shows "fs_eph_private s2 = Some pr" "fs_local_hs s2 = Some h" "fs_remote_hs s2 = Some r" "fs_is_initiator s2 = ini"
    "hs_ephemeral_pub_key h = x25519_public cr pr"
  using assms
  by (auto simp: build_local_handshake_new [unfolded new_session_def] accept_remote_handshake_def new_session_def Let_def)

text \<open>
  Key agreement. When initiator and responder have exchanged their handshake data, either both
  derivations raise the same exception, or the sending key of each is the receiving key of the
  other, both compute the same verification code and the same transcript to sign, and both have
  discarded the ephemeral private key.
\<close>

theorem handshake_agreement:
  assumes "key_agreement cr"
    and "build_local_handshake cr pa na ka (new_session True) = (Inr ha, a1)"
    and "build_local_handshake cr pb nb kb (new_session False) = (Inr hb, b1)"
    and "accept_remote_handshake hb a1 = (Inr (), a2)" and "accept_remote_handshake ha b1 = (Inr (), b2)"
  shows "(\<exists>e. fst (derive_keys cr a2) = Inl e \<and> fst (derive_keys cr b2) = Inl e)
    \<or> (\<exists>da db a3 b3. derive_keys cr a2 = (Inr da, a3) \<and> derive_keys cr b2 = (Inr db, b3)
        \<and> dk_send_key da = dk_recv_key db \<and> dk_recv_key da = dk_send_key db
        \<and> fs_send_cipher a3 = fs_recv_cipher b3 \<and> fs_recv_cipher a3 = fs_send_cipher b3
        \<and> sas_code a3 = sas_code b3 \<and> sas_code a3 \<noteq> None
        \<and> build_auth_transcript a3 = build_auth_transcript b3
        \<and> fs_eph_private a3 = None \<and> fs_eph_private b3 = None)"
proof -
  note a = handshake_ready [OF assms(2,4)] and b = handshake_ready [OF assms(3,5)]
  have "x25519_exchange cr pa (hs_ephemeral_pub_key hb) = x25519_exchange cr pb (hs_ephemeral_pub_key ha)"
    using assms(1) a(5) b(5) unfolding key_agreement_def by metis
  then show ?thesis
    using derive_keys_ready [OF assms(1) a(1-3)] derive_keys_ready [OF assms(1) b(1-3)] a b
    by (cases "x25519_exchange cr pb (hs_ephemeral_pub_key ha)")
      (simp_all add: Let_def sas_code_def build_auth_transcript_def)
qed

theorem handshake_agreement_witness:
  "\<exists>ha hb a1 b1 a2 b2 da db a3 b3.
    build_local_handshake toy_crypto [1] [2] [3] (new_session True) = (Inr ha, a1)
    \<and> build_local_handshake toy_crypto [4] [5] [6] (new_session False) = (Inr hb, b1)
    \<and> accept_remote_handshake hb a1 = (Inr (), a2) \<and> accept_remote_handshake ha b1 = (Inr (), b2)
    \<and> derive_keys toy_crypto a2 = (Inr da, a3) \<and> derive_keys toy_crypto b2 = (Inr db, b3)
    \<and> sas_code a3 = sas_code b3 \<and> sas_code a3 \<noteq> None \<and> build_auth_transcript a3 = build_auth_transcript b3"
proof -
  obtain ha a1 where a: "build_local_handshake toy_crypto [1] [2] [3] (new_session True) = (Inr ha, a1)"
    by (simp add: build_local_handshake_new Let_def)
  obtain hb b1 where b: "build_local_handshake toy_crypto [4] [5] [6] (new_session False) = (Inr hb, b1)"
    by (simp add: build_local_handshake_new Let_def)
  obtain a2 b2 where r: "accept_remote_handshake hb a1 = (Inr (), a2)" "accept_remote_handshake ha b1 = (Inr (), b2)"
    by (simp add: accept_remote_handshake_def)
  have "x25519_exchange toy_crypto u v \<noteq> Inl e" for u v e by (simp add: toy_crypto_def)
  then have "fst (derive_keys toy_crypto a2) \<noteq> Inl e" for e
    using derive_keys_ready [OF toy_crypto_ok(2) handshake_ready(1-3) [OF a r(1)]]
    by (simp add: Let_def split: sum.split)
  then show ?thesis
    using handshake_agreement [OF toy_crypto_ok(2) a b r] a b r by blast
qed

definition handshake_lengths :: "handshake_data \<Rightarrow> bool" where
  "handshake_lengths h \<longleftrightarrow> length (hs_static_pub_key h) = 32 \<and> length (hs_ephemeral_pub_key h) = 32 \<and> length (hs_nonce h) = 16"

definition initiator_hs :: "session \<Rightarrow> handshake_data option" where
  "initiator_hs s = (if fs_is_initiator s then fs_local_hs s else fs_remote_hs s)"

definition responder_hs :: "session \<Rightarrow> handshake_data option" where
  "responder_hs s = (if fs_is_initiator s then fs_remote_hs s else fs_local_hs s)"

lemma handshake_part_inject:
  assumes "handshake_lengths g" and "handshake_lengths h" and "handshake_part g @ r = handshake_part h @ q"
  shows "g = h \<and> r = q"
  using assms by (cases g; cases h) (auto simp: handshake_lengths_def handshake_part_def)

lemma transcript_parts:
  assumes "build_auth_transcript s = Inr t"
  shows "\<exists>i r. initiator_hs s = Some i \<and> responder_hs s = Some r
    \<and> t = blit ''ferry-auth-v1|'' @ handshake_part i @ handshake_part r
    \<and> {i, r} = {the (fs_local_hs s), the (fs_remote_hs s)}"
  using assms by (auto simp: build_auth_transcript_def initiator_hs_def responder_hs_def split: option.splits if_splits)

text \<open>
  The signed transcript binds the whole handshake. With keys of 32 bytes and nonces of 16, two
  sessions that sign the same transcript have seen the same initiator and responder data; a
  transcript signed in one handshake does not fit another.
\<close>

theorem transcript_binding:
  assumes "build_auth_transcript s = Inr t" and "build_auth_transcript s' = Inr t"
    and "\<forall>h\<in>{the (fs_local_hs s), the (fs_remote_hs s), the (fs_local_hs s'), the (fs_remote_hs s')}. handshake_lengths h"
  shows "initiator_hs s = initiator_hs s' \<and> responder_hs s = responder_hs s'"
proof -
  obtain i r where s: "initiator_hs s = Some i" "responder_hs s = Some r" "{i, r} = {the (fs_local_hs s), the (fs_remote_hs s)}"
    and t: "t = blit ''ferry-auth-v1|'' @ handshake_part i @ handshake_part r"
    using transcript_parts [OF assms(1)] by blast
  obtain i' r' where s': "initiator_hs s' = Some i'" "responder_hs s' = Some r'" "{i', r'} = {the (fs_local_hs s'), the (fs_remote_hs s')}"
    and t': "t = blit ''ferry-auth-v1|'' @ handshake_part i' @ handshake_part r'"
    using transcript_parts [OF assms(2)] by blast
  have l: "handshake_lengths i" "handshake_lengths r" "handshake_lengths i'" "handshake_lengths r'"
    using assms(3) s(3) s'(3) by blast+
  have "handshake_part i @ handshake_part r = handshake_part i' @ handshake_part r'" using t t' by simp
  then have "i = i'" "handshake_part r @ [] = handshake_part r' @ []"
    using handshake_part_inject [OF l(1,3)] by auto
  then show ?thesis using handshake_part_inject [OF l(2,4)] s(1,2) s'(1,2) by simp
qed

definition sample_hs :: "byte \<Rightarrow> handshake_data" where
  "sample_hs b = \<lparr>hs_static_pub_key = replicate 32 b, hs_ephemeral_pub_key = replicate 32 b, hs_nonce = replicate 16 b\<rparr>"

theorem transcript_binding_witness:
  "let s = (new_session True)\<lparr>fs_local_hs := Some (sample_hs 1), fs_remote_hs := Some (sample_hs 2)\<rparr>;
       s' = (new_session False)\<lparr>fs_local_hs := Some (sample_hs 2), fs_remote_hs := Some (sample_hs 1)\<rparr>
   in build_auth_transcript s = build_auth_transcript s' \<and> initiator_hs s = initiator_hs s'"
proof -
  let ?s = "(new_session True)\<lparr>fs_local_hs := Some (sample_hs 1), fs_remote_hs := Some (sample_hs 2)\<rparr>"
  let ?s' = "(new_session False)\<lparr>fs_local_hs := Some (sample_hs 2), fs_remote_hs := Some (sample_hs 1)\<rparr>"
  define t where "t = blit ''ferry-auth-v1|'' @ handshake_part (sample_hs 1) @ handshake_part (sample_hs 2)"
  have t: "build_auth_transcript ?s = Inr t" "build_auth_transcript ?s' = Inr t"
    unfolding t_def by (simp_all add: build_auth_transcript_def new_session_def del: blit_simps)
  have "handshake_lengths (sample_hs b)" for b by (simp add: handshake_lengths_def sample_hs_def)
  then have "initiator_hs ?s = initiator_hs ?s'" using transcript_binding [OF t] by simp
  with t show ?thesis unfolding Let_def by (simp only: t)
qed

section \<open>One frame\<close>

lemma decrypt_frame_cases:
  "decrypt_frame cr f s = (r, s') \<Longrightarrow>
     (s' = s \<and> (\<exists>e. r = Inl e)) \<or>
     (s' = s\<lparr>fs_recv_counter := fs_recv_counter s + 1\<rparr> \<and> make_nonce (fs_recv_counter s) = Inr (take 12 (drop 4 f)))"
proof (cases "make_nonce (fs_recv_counter s)")
  case (Inl e)
  assume "decrypt_frame cr f s = (r, s')"
  with Inl show ?thesis
    by (simp add: decrypt_frame_def bind_apply Let_def split: option.splits sum.splits if_splits) metis+
next
  case (Inr n)
  assume "decrypt_frame cr f s = (r, s')"
  with Inr show ?thesis
    by (auto simp: decrypt_frame_def bind_apply seq_apply Let_def AEAD_NONCE_SIZE_def AEAD_HEADER_SIZE_def
        split: option.splits sum.splits if_splits)
qed

text \<open>
  every frame is consumed at most once. A frame that \<^verbatim>\<open>decrypt_frame\<close> accepts carries the nonce of
  the receive counter, the counter advances by one and nothing else changes; the same frame again
  is refused and leaves the session as it is. (A frame with the expected nonce that fails the
  authentication advances the counter too.)
\<close>

theorem frame_used_once:
  assumes "decrypt_frame cr f s = (Inr p, s')"
  shows "make_nonce (fs_recv_counter s) = Inr (take 12 (drop 4 f))
    \<and> s' = s\<lparr>fs_recv_counter := fs_recv_counter s + 1\<rparr>
    \<and> snd (decrypt_frame cr f s') = s' \<and> (\<exists>e. fst (decrypt_frame cr f s') = Inl e)"
proof -
  have n: "make_nonce (fs_recv_counter s) = Inr (take 12 (drop 4 f))" and s': "s' = s\<lparr>fs_recv_counter := fs_recv_counter s + 1\<rparr>"
    using decrypt_frame_cases [OF assms] by auto
  have "make_nonce (fs_recv_counter s') \<noteq> Inr (take 12 (drop 4 f))"
    using make_nonce_inj [OF n, of "fs_recv_counter s'"] s' by auto
  then show ?thesis using n s' decrypt_frame_cases [of cr f s'] by (cases "decrypt_frame cr f s'") auto
qed

theorem frame_used_once_witness:
  "\<exists>f p s' e. decrypt_frame toy_crypto f sample_b = (Inr p, s') \<and> fst (decrypt_frame toy_crypto f s') = Inl e"
proof -
  have n: "make_nonce (fs_recv_counter sample_b) = Inr (nonce_at 0)" "length (nonce_at 0) = 12"
    using nonce_at [of 0] by (simp_all add: sample_sessions)
  have "decrypt_frame toy_crypto (aead_frame toy_crypto [1] (nonce_at 0) [7]) sample_b = (Inr [7], sample_b\<lparr>fs_recv_counter := 1\<rparr>)"
    using decrypt_frame_frame [OF toy_crypto_ok(1) n(2) _ sample_sessions(2) n(1), of "[7]"]
    by (simp add: MAX_AEAD_PLAINTEXT_def sample_sessions)
  then show ?thesis using frame_used_once by blast
qed

section \<open>Verification code\<close>

lemma dec_fixed_digits: "length (dec_fixed k n) = k" "\<forall>c\<in>set (dec_fixed k n). 48 \<le> c \<and> c \<le> 57"
proof (induction k arbitrary: n)
  case (Suc k)
  case 2
  have "n mod 10 \<le> 9" by simp
  then show ?case using Suc by auto
qed auto

lemma dec_fixed_value: "foldl (\<lambda>v c. v * 10 + (c - 48)) 0 (dec_fixed k n) = n mod 10 ^ k"
proof (induction k arbitrary: n)
  case (Suc k)
  show ?case using mod_mult2_eq [of n 10 "10 ^ k"] by (simp add: Suc)
qed simp

lemma dec_fixed_6:
  "dec_fixed 6 n = [48 + n div 10 div 10 div 10 div 10 div 10 mod 10, 48 + n div 10 div 10 div 10 div 10 mod 10,
     48 + n div 10 div 10 div 10 mod 10, 48 + n div 10 div 10 mod 10, 48 + n div 10 mod 10, 48 + n mod 10]"
proof -
  have six: "6 = Suc (Suc (Suc (Suc (Suc (Suc 0)))))" by simp
  show ?thesis unfolding six by simp
qed

text \<open>
  the verification code shown to the users has exactly six decimal digits, and their value is
  the derived 24-bit number modulo one million.
\<close>

theorem sas_code_digits:
  "sas_code s = map_option (\<lambda>d. dec_fixed 6 (be_nat (dk_sas_bytes d) mod 1000000)) (fs_derived s)
    \<and> (\<forall>code\<in>set_option (sas_code s). length code = 6 \<and> (\<forall>c\<in>set code. 48 \<le> c \<and> c \<le> 57)
        \<and> foldl (\<lambda>v c. v * 10 + (c - 48)) 0 code = be_nat (dk_sas_bytes (the (fs_derived s))) mod 1000000)"
  by (cases "fs_derived s") (simp_all add: sas_code_def dec_fixed_digits dec_fixed_value del: dec_fixed.simps)

theorem sas_code_digits_witness:
  "let s = (new_session True)\<lparr>fs_derived := Some \<lparr>dk_send_key = [], dk_recv_key = [], dk_sas_bytes = [255, 255, 255]\<rparr>\<rparr>
   in sas_code s = Some (lit ''777215'') \<and> length (the (sas_code s)) = 6"
proof -
  let ?s = "(new_session True)\<lparr>fs_derived := Some \<lparr>dk_send_key = [], dk_recv_key = [], dk_sas_bytes = [255, 255, 255]\<rparr>\<rparr>"
  have "sas_code ?s = Some (lit ''777215'')"
    by (simp add: sas_code_def be_nat_def dec_fixed_6 del: dec_fixed.simps)
  then show ?thesis using sas_code_digits [of ?s] unfolding Let_def by simp
qed


section \<open>Reaching the established state\<close>

lemma established_from: "S_ESTABLISHED \<in> set (session_transitions v) \<Longrightarrow> v \<in> {S_AUTHENTICATING, S_PAIR_ACCEPTED}"
  by (cases v) auto

lemma pair_accepted_from:
  "S_PAIR_ACCEPTED \<in> set (session_transitions v) \<Longrightarrow> v \<in> {S_WAITING_FOR_LOCAL_DECISION, S_WAITING_FOR_REMOTE_DECISION}"
  by (cases v) auto

text \<open>
  No connection is established without a handshake and an authentication. Every sequence of
  transitions from \<^verbatim>\<open>DISCONNECTED\<close> to \<^verbatim>\<open>ESTABLISHED\<close> passes through \<^verbatim>\<open>HANDSHAKING\<close> and \<^verbatim>\<open>AUTHENTICATING\<close>, and
  its last step starts in \<^verbatim>\<open>AUTHENTICATING\<close> (a known peer) or in \<^verbatim>\<open>PAIR_ACCEPTED\<close>, which is entered only
  from one of the states that wait for a decision.
\<close>

theorem established_after_authentication:
  assumes "run_transitions session_step S_DISCONNECTED ts = Inr S_ESTABLISHED"
  shows "S_HANDSHAKING \<in> set ts \<and> S_AUTHENTICATING \<in> set ts
    \<and> (\<exists>us v. ts = us @ [S_ESTABLISHED] \<and> run_transitions session_step S_DISCONNECTED us = Inr v
        \<and> (v = S_AUTHENTICATING \<or> v = S_PAIR_ACCEPTED
             \<and> (\<exists>ws w. us = ws @ [S_PAIR_ACCEPTED] \<and> run_transitions session_step S_DISCONNECTED ws = Inr w
                  \<and> w \<in> {S_WAITING_FOR_LOCAL_DECISION, S_WAITING_FOR_REMOTE_DECISION})))"
proof -
  have "S_HANDSHAKING \<in> set ts"
    by (rule session_fsm.run_through [where C = "{S_DISCONNECTED, S_CONNECTING, S_FAILED, S_CLOSING}", OF _ _ assms]) auto
  moreover have "S_AUTHENTICATING \<in> set ts"
    by (rule session_fsm.run_through [where C = "{S_DISCONNECTED, S_CONNECTING, S_HANDSHAKING, S_FAILED, S_CLOSING}", OF _ _ assms]) auto
  moreover obtain us v where u: "ts = us @ [S_ESTABLISHED]" "run_transitions session_step S_DISCONNECTED us = Inr v"
    "v \<in> {S_AUTHENTICATING, S_PAIR_ACCEPTED}"
    using session_fsm.entered_from [OF established_from assms] by blast
  moreover have "v = S_PAIR_ACCEPTED \<Longrightarrow> \<exists>ws w. us = ws @ [S_PAIR_ACCEPTED]
      \<and> run_transitions session_step S_DISCONNECTED ws = Inr w \<and> w \<in> {S_WAITING_FOR_LOCAL_DECISION, S_WAITING_FOR_REMOTE_DECISION}"
    using session_fsm.entered_from [where t = S_PAIR_ACCEPTED, OF pair_accepted_from, where s = S_DISCONNECTED and ts = us] u(2) by blast
  ultimately show ?thesis by blast
qed

theorem established_after_authentication_witness:
  "let ts = [S_CONNECTING, S_HANDSHAKING, S_AUTHENTICATING, S_PAIRING, S_WAITING_FOR_LOCAL_DECISION, S_PAIR_ACCEPTED, S_ESTABLISHED]
   in run_transitions session_step S_DISCONNECTED ts = Inr S_ESTABLISHED \<and> S_HANDSHAKING \<in> set ts"
proof -
  let ?ts = "[S_CONNECTING, S_HANDSHAKING, S_AUTHENTICATING, S_PAIRING, S_WAITING_FOR_LOCAL_DECISION, S_PAIR_ACCEPTED, S_ESTABLISHED]"
  have "run_transitions session_step S_DISCONNECTED ?ts = Inr S_ESTABLISHED" by (simp add: session_step_def)
  then show ?thesis using established_after_authentication [of ?ts] by (simp add: Let_def)
qed

end
