(* ===== verification/Db.thy ===== *)
theory Db
  imports Effects Utf8
begin

text \<open>
  \<^verbatim>\<open>DatabaseManager\<close> of \<^verbatim>\<open>core/db.py\<close>: trusted devices and the history of transfers. A table is a
  dictionary from its primary key to the row, in \<^verbatim>\<open>rowid\<close> order; \<^verbatim>\<open>NULL\<close> is \<open>None\<close>. Foreign keys are
  declared but SQLite does not enforce them on these connections.
\<close>

section \<open>Rows\<close>

definition DB_SCHEMA_VERSION :: int where "DB_SCHEMA_VERSION = 3"

record trusted_device =
  td_device_id :: pystr
  td_device_name :: pystr
  td_public_key :: pystr
  td_identity_public_key_b64 :: pystr
  td_paired_at :: int
  td_last_seen :: int

record transfer_record =
  tc_transfer_id :: pystr
  tc_device_id :: pystr
  tc_file_name :: pystr
  tc_file_size :: int
  tc_direction :: pystr
  tc_status :: pystr
  tc_started_at :: int
  tc_completed_at :: "int option"
  tc_sha256 :: pystr

record interrupted_info =
  ii_transfer_id :: pystr
  ii_bytes_received :: int
  ii_resume_chunk_index :: int
  ii_partial_sha256 :: pystr
  ii_sender_identity :: pystr
  ii_original_metadata_json :: pystr
  ii_interrupted_at :: int
  ii_expire_at :: int

definition RESUME_TTL_MS :: int where "RESUME_TTL_MS = 7 * 24 * 60 * 60 * 1000"

definition make_expire_at :: "int \<Rightarrow> int" where
  "make_expire_at interrupted_at_ms = interrupted_at_ms + RESUME_TTL_MS"

text \<open>A row of \<^verbatim>\<open>transfer_history\<close>: the record and the resume columns.\<close>

record history_row =
  hr_record :: transfer_record
  hr_interrupted_at :: "int option"
  hr_bytes_received :: "int option"
  hr_resume_chunk_index :: "int option"
  hr_partial_sha256 :: "pystr option"
  hr_sender_identity :: "pystr option"
  hr_original_metadata_json :: "pystr option"
  hr_expire_at :: "int option"

record db =
  db_trusted_devices :: "(pystr, trusted_device) dict"
  db_transfer_history :: "(pystr, history_row) dict"

section \<open>Schema\<close>

text \<open>The columns of each table, \<open>None\<close> while it does not exist, and the recorded versions.\<close>

record schema =
  sc_versions :: "int list"
  sc_trusted_devices :: "string list option"
  sc_transfer_history :: "string list option"
  sc_settings :: "string list option"

definition create_if_missing :: "string list \<Rightarrow> string list option \<Rightarrow> string list option" where
  "create_if_missing cols t = (case t of None \<Rightarrow> Some cols | Some c \<Rightarrow> Some c)"

text \<open>\<^verbatim>\<open>ALTER TABLE ... ADD COLUMN\<close>, whose failure (no such table, duplicate column) is ignored.\<close>

definition add_column :: "string \<Rightarrow> string list option \<Rightarrow> string list option" where
  "add_column col t = (case t of None \<Rightarrow> None | Some cs \<Rightarrow> Some (if col \<in> set cs then cs else cs @ [col]))"

definition trusted_columns :: "string list" where
  "trusted_columns = [''device_id'', ''device_name'', ''public_key'', ''identity_public_key_b64'', ''paired_at'', ''last_seen'']"

definition history_columns :: "string list" where
  "history_columns = [''transfer_id'', ''device_id'', ''file_name'', ''file_size'', ''direction'', ''status'',
     ''started_at'', ''completed_at'', ''sha256'']"

definition resume_columns :: "string list" where
  "resume_columns = [''interrupted_at'', ''bytes_received'', ''resume_chunk_index'', ''partial_sha256'',
     ''sender_identity'', ''original_metadata_json'', ''expire_at'']"

definition init_db :: "schema \<Rightarrow> schema" where
  "init_db sc =
     (let current_version = (if sc_versions sc = [] then 0 else Max (set (sc_versions sc)));
          s1 = (if current_version < 1
                then sc\<lparr>sc_trusted_devices := create_if_missing trusted_columns (sc_trusted_devices sc),
                        sc_transfer_history := create_if_missing history_columns (sc_transfer_history sc),
                        sc_settings := create_if_missing ([''key'', ''value'']) (sc_settings sc)\<rparr>
                else sc);
          s2 = (if current_version < 2
                then s1\<lparr>sc_trusted_devices := add_column ''identity_public_key_b64'' (sc_trusted_devices s1)\<rparr>
                else s1);
          s3 = (if current_version < 3
                then s2\<lparr>sc_transfer_history := fold add_column resume_columns (sc_transfer_history s2)\<rparr>
                else s2)
      in s3\<lparr>sc_versions := (if DB_SCHEMA_VERSION \<in> set (sc_versions s3) then sc_versions s3
                           else sc_versions s3 @ [DB_SCHEMA_VERSION])\<rparr>)"

section \<open>Parameters of a statement\<close>

text \<open>\<^verbatim>\<open>sqlite3\<close> raises \<^verbatim>\<open>OverflowError\<close> for an integer beyond 64 bits and \<^verbatim>\<open>UnicodeEncodeError\<close>, a
  \<^verbatim>\<open>ValueError\<close>, for text that UTF-8 cannot encode, before it runs the statement.\<close>

datatype sql_value = SqlInt int | SqlText pystr

fun bind_value :: "sql_value \<Rightarrow> unit res" where
  "bind_value (SqlInt n) = (if - (2 ^ 63) \<le> n \<and> n < 2 ^ 63 then Inr () else Inl OverflowError)"
| "bind_value (SqlText s) = res_bind (utf8_encode s) (\<lambda>_. Inr ())"

fun bind_values :: "sql_value list \<Rightarrow> unit res" where
  "bind_values [] = Inr ()"
| "bind_values (v # vs) = res_bind (bind_value v) (\<lambda>_. bind_values vs)"

declare bind_values.simps [simp del]

section \<open>Trusted devices\<close>

definition add_or_update_device :: "trusted_device \<Rightarrow> (db, unit) eff" where
  "add_or_update_device device =
     seq (lift (bind_values [SqlText (td_device_id device), SqlText (td_device_name device), SqlText (td_public_key device),
            SqlText (td_identity_public_key_b64 device), SqlInt (td_paired_at device), SqlInt (td_last_seen device)]))
         (upd (\<lambda>d. d\<lparr>db_trusted_devices := dict_set (td_device_id device)
            (case dict_get (db_trusted_devices d) (td_device_id device) of
               None \<Rightarrow> device
             | Some old \<Rightarrow> device\<lparr>td_paired_at := td_paired_at old\<rparr>)
            (db_trusted_devices d)\<rparr>))"

definition get_device :: "pystr \<Rightarrow> (db, trusted_device option) eff" where
  "get_device device_id =
     seq (lift (bind_values [SqlText device_id])) (gets (\<lambda>d. dict_get (db_trusted_devices d) device_id))"

definition device_by_key :: "pystr \<Rightarrow> db \<Rightarrow> trusted_device option" where
  "device_by_key key d = find (\<lambda>t. td_identity_public_key_b64 t = key) (map snd (db_trusted_devices d))"

definition get_device_by_public_key :: "pystr \<Rightarrow> (db, trusted_device option) eff" where
  "get_device_by_public_key key = seq (lift (bind_values [SqlText key])) (gets (device_by_key key))"

text \<open>\<^verbatim>\<open>ORDER BY ... DESC\<close>, ties in table order.\<close>

definition list_devices :: "db \<Rightarrow> trusted_device list" where
  "list_devices d = sort_key (\<lambda>t. - td_last_seen t) (map snd (db_trusted_devices d))"

definition remove_device :: "pystr \<Rightarrow> (db, unit) eff" where
  "remove_device device_id =
     seq (lift (bind_values [SqlText device_id]))
         (upd (\<lambda>d. d\<lparr>db_trusted_devices := dict_pop device_id (db_trusted_devices d)\<rparr>))"

definition remove_device_by_public_key :: "pystr \<Rightarrow> (db, unit) eff" where
  "remove_device_by_public_key key =
     seq (lift (bind_values [SqlText key]))
         (upd (\<lambda>d. d\<lparr>db_trusted_devices := filter (\<lambda>p. td_identity_public_key_b64 (snd p) \<noteq> key) (db_trusted_devices d)\<rparr>))"

section \<open>Transfer history\<close>

definition new_history_row :: "transfer_record \<Rightarrow> history_row" where
  "new_history_row rec =
     \<lparr>hr_record = rec, hr_interrupted_at = None, hr_bytes_received = None, hr_resume_chunk_index = None,
      hr_partial_sha256 = None, hr_sender_identity = None, hr_original_metadata_json = None, hr_expire_at = None\<rparr>"

definition add_transfer :: "transfer_record \<Rightarrow> (db, unit) eff" where
  "add_transfer rec =
     seq (lift (bind_values ([SqlText (tc_transfer_id rec), SqlText (tc_device_id rec), SqlText (tc_file_name rec),
            SqlInt (tc_file_size rec), SqlText (tc_direction rec), SqlText (tc_status rec), SqlInt (tc_started_at rec)]
            @ (case tc_completed_at rec of None \<Rightarrow> [] | Some n \<Rightarrow> [SqlInt n]) @ [SqlText (tc_sha256 rec)])))
         (upd (\<lambda>d. d\<lparr>db_transfer_history := dict_set (tc_transfer_id rec)
            (case dict_get (db_transfer_history d) (tc_transfer_id rec) of
               None \<Rightarrow> new_history_row rec
             | Some old \<Rightarrow> old\<lparr>hr_record := (hr_record old)\<lparr>tc_status := tc_status rec, tc_completed_at := tc_completed_at rec\<rparr>\<rparr>)
            (db_transfer_history d)\<rparr>))"

definition list_transfers :: "int \<Rightarrow> db \<Rightarrow> transfer_record list" where
  "list_transfers limit d =
     (let rows = sort_key (\<lambda>r. - tc_started_at r) (map (hr_record \<circ> snd) (db_transfer_history d))
      in if limit < 0 then rows else take (nat limit) rows)"

abbreviation INTERRUPTED_STATUS :: pystr where "INTERRUPTED_STATUS \<equiv> lit ''INTERRUPTED''"

definition set_resume_columns :: "interrupted_info \<Rightarrow> history_row \<Rightarrow> history_row" where
  "set_resume_columns info row =
     row\<lparr>hr_record := (hr_record row)\<lparr>tc_status := INTERRUPTED_STATUS\<rparr>,
        hr_interrupted_at := Some (ii_interrupted_at info), hr_bytes_received := Some (ii_bytes_received info),
        hr_resume_chunk_index := Some (ii_resume_chunk_index info), hr_partial_sha256 := Some (ii_partial_sha256 info),
        hr_sender_identity := Some (ii_sender_identity info),
        hr_original_metadata_json := Some (ii_original_metadata_json info), hr_expire_at := Some (ii_expire_at info)\<rparr>"

definition save_interrupted_transfer :: "int \<Rightarrow> interrupted_info \<Rightarrow> (db, unit) eff" where
  "save_interrupted_transfer now info =
     seq (lift (bind_values [SqlText (ii_transfer_id info), SqlInt (ii_interrupted_at info), SqlInt (ii_bytes_received info),
            SqlInt (ii_resume_chunk_index info), SqlText (ii_partial_sha256 info), SqlText (ii_sender_identity info),
            SqlText (ii_original_metadata_json info), SqlInt (ii_expire_at info)]))
         (upd (\<lambda>d. d\<lparr>db_transfer_history := dict_set (ii_transfer_id info)
            (set_resume_columns info
               (case dict_get (db_transfer_history d) (ii_transfer_id info) of
                  Some row \<Rightarrow> row
                | None \<Rightarrow> new_history_row \<lparr>tc_transfer_id = ii_transfer_id info, tc_device_id = [], tc_file_name = [],
                     tc_file_size = 0, tc_direction = lit ''INCOMING'', tc_status = INTERRUPTED_STATUS, tc_started_at = now,
                     tc_completed_at = None, tc_sha256 = []\<rparr>))
            (db_transfer_history d)\<rparr>))"

text \<open>\<^verbatim>\<open>row[...] or 0\<close> and \<^verbatim>\<open>row[...] or ""\<close>.\<close>

definition row_info :: "history_row \<Rightarrow> interrupted_info" where
  "row_info row =
     \<lparr>ii_transfer_id = tc_transfer_id (hr_record row),
      ii_bytes_received = (case hr_bytes_received row of Some n \<Rightarrow> n | None \<Rightarrow> 0),
      ii_resume_chunk_index = (case hr_resume_chunk_index row of Some n \<Rightarrow> n | None \<Rightarrow> 0),
      ii_partial_sha256 = (case hr_partial_sha256 row of Some s \<Rightarrow> s | None \<Rightarrow> []),
      ii_sender_identity = (case hr_sender_identity row of Some s \<Rightarrow> s | None \<Rightarrow> []),
      ii_original_metadata_json = (case hr_original_metadata_json row of Some s \<Rightarrow> s | None \<Rightarrow> []),
      ii_interrupted_at = (case hr_interrupted_at row of Some n \<Rightarrow> n | None \<Rightarrow> 0),
      ii_expire_at = (case hr_expire_at row of Some n \<Rightarrow> n | None \<Rightarrow> 0)\<rparr>"

definition is_interrupted :: "history_row \<Rightarrow> bool" where
  "is_interrupted row \<longleftrightarrow> tc_status (hr_record row) = INTERRUPTED_STATUS"

definition interrupted_in :: "pystr \<Rightarrow> db \<Rightarrow> interrupted_info option" where
  "interrupted_in transfer_id d =
     (case dict_get (db_transfer_history d) transfer_id of
        Some row \<Rightarrow> if is_interrupted row then Some (row_info row) else None
      | None \<Rightarrow> None)"

definition get_interrupted_transfer :: "pystr \<Rightarrow> (db, interrupted_info option) eff" where
  "get_interrupted_transfer transfer_id =
     seq (lift (bind_values [SqlText transfer_id])) (gets (interrupted_in transfer_id))"

definition interrupted_of_peer :: "pystr \<Rightarrow> db \<Rightarrow> interrupted_info list" where
  "interrupted_of_peer sender d =
     map row_info (sort_key (\<lambda>r. - (case hr_interrupted_at r of Some n \<Rightarrow> n | None \<Rightarrow> - (2 ^ 63) - 1))
       (filter (\<lambda>r. is_interrupted r \<and> hr_sender_identity r = Some sender) (map snd (db_transfer_history d))))"

definition list_interrupted_transfers_for_peer :: "pystr \<Rightarrow> (db, interrupted_info list) eff" where
  "list_interrupted_transfers_for_peer sender =
     seq (lift (bind_values [SqlText sender])) (gets (interrupted_of_peer sender))"

definition clear_resume_columns :: "history_row \<Rightarrow> history_row" where
  "clear_resume_columns row = new_history_row ((hr_record row)\<lparr>tc_status := lit ''FAILED''\<rparr>)"

definition delete_interrupted_transfer :: "pystr \<Rightarrow> (db, unit) eff" where
  "delete_interrupted_transfer transfer_id =
     seq (lift (bind_values [SqlText transfer_id]))
         (upd (\<lambda>d. d\<lparr>db_transfer_history := map (\<lambda>(k, row).
            (k, if k = transfer_id \<and> is_interrupted row then clear_resume_columns row else row)) (db_transfer_history d)\<rparr>))"

definition expired :: "int \<Rightarrow> history_row \<Rightarrow> bool" where
  "expired now row \<longleftrightarrow> is_interrupted row \<and> (case hr_expire_at row of Some t \<Rightarrow> t \<le> now | None \<Rightarrow> False)"

text \<open>\<open>clock\<close> is \<^verbatim>\<open>int(time.time() * 1000)\<close>, used without an argument.\<close>

definition expire_interrupted_transfers :: "int \<Rightarrow> int option \<Rightarrow> (db, int) eff" where
  "expire_interrupted_transfers clock now_ms =
     (let now = (case now_ms of Some n \<Rightarrow> n | None \<Rightarrow> clock)
      in seq (lift (bind_values [SqlInt now]))
           (reads (\<lambda>d. seq (upd (\<lambda>d. d\<lparr>db_transfer_history := map (\<lambda>(k, row).
              (k, if expired now row then clear_resume_columns row else row)) (db_transfer_history d)\<rparr>))
            (ret (int (length (filter (\<lambda>p. expired now (snd p)) (db_transfer_history d))))))))"

section \<open>The invariant of the tables\<close>

text \<open>Primary keys are unique and every row carries its own key.\<close>

definition keyed :: "('r \<Rightarrow> pystr) \<Rightarrow> (pystr, 'r) dict \<Rightarrow> bool" where
  "keyed f t \<longleftrightarrow> dict_ok t \<and> (\<forall>(k, r)\<in>set t. f r = k)"

definition db_ok :: "db \<Rightarrow> bool" where
  "db_ok d \<longleftrightarrow> keyed td_device_id (db_trusted_devices d) \<and> keyed (tc_transfer_id \<circ> hr_record) (db_transfer_history d)"

lemma keyed_set: "keyed f t \<Longrightarrow> f r = k \<Longrightarrow> keyed f (dict_set k r t)"
  using set_dict_set [of k r t] by (auto simp: keyed_def dict_ok_set)

lemma keyed_filter: "keyed f t \<Longrightarrow> keyed f (filter P t)"
  by (auto simp: keyed_def dict_ok_def distinct_map_filter)

lemma keyed_pop: "keyed f t \<Longrightarrow> keyed f (dict_pop k t)"
  unfolding dict_pop_def by (rule keyed_filter)

lemma keyed_map:
  assumes "keyed f t" and "\<And>k r. f (g k r) = f r"
  shows "keyed f (map (\<lambda>(k, r). (k, g k r)) t)"
proof -
  have "map fst (map (\<lambda>(k, r). (k, g k r)) t) = map fst t" by auto
  then have "dict_ok (map (\<lambda>(k, r). (k, g k r)) t)"
    using assms(1) by (simp only: keyed_def dict_ok_def)
  moreover have "\<forall>(k, r)\<in>set (map (\<lambda>(k, r). (k, g k r)) t). f r = k"
    using assms by (auto simp: keyed_def)
  ultimately show ?thesis by (simp only: keyed_def)
qed

lemma keyed_get: "keyed f t \<Longrightarrow> dict_get t k = Some r \<Longrightarrow> f r = k"
  by (auto simp: keyed_def dict_get_def dest!: map_of_SomeD)

lemma keyed_get_iff: "keyed f t \<Longrightarrow> dict_get t k = Some r \<longleftrightarrow> (k, r) \<in> set t"
  by (simp add: keyed_def dict_get_def dict_ok_def)

lemma dict_get_map: "dict_get (map (\<lambda>(k, r). (k, g k r)) t) k = map_option (g k) (dict_get t k)"
  by (induction t) (auto simp: dict_get_def)

lemma row_id_simps [simp]:
  "hr_record (new_history_row r) = r" "tc_transfer_id (hr_record (set_resume_columns i row)) = tc_transfer_id (hr_record row)"
  "hr_record (clear_resume_columns row) = (hr_record row)\<lparr>tc_status := lit ''FAILED''\<rparr>"
  by (simp_all add: new_history_row_def set_resume_columns_def clear_resume_columns_def)

text \<open>The operations that change the database.\<close>

datatype db_op =
    Add_Device trusted_device | Remove_Device pystr | Remove_Key pystr | Add_Transfer transfer_record
  | Save_Interrupted int interrupted_info | Delete_Interrupted pystr | Expire int "int option"

fun db_step :: "db_op \<Rightarrow> db \<Rightarrow> db" where
  "db_step (Add_Device t) d = snd (add_or_update_device t d)"
| "db_step (Remove_Device i) d = snd (remove_device i d)"
| "db_step (Remove_Key k) d = snd (remove_device_by_public_key k d)"
| "db_step (Add_Transfer r) d = snd (add_transfer r d)"
| "db_step (Save_Interrupted now i) d = snd (save_interrupted_transfer now i d)"
| "db_step (Delete_Interrupted i) d = snd (delete_interrupted_transfer i d)"
| "db_step (Expire c n) d = snd (expire_interrupted_transfers c n d)"

lemma seq_lift: "seq (lift r) m s = (case r of Inl e \<Rightarrow> (Inl e, s) | Inr _ \<Rightarrow> m s)"
  by (simp add: seq_apply split: sum.splits)

lemmas db_op_defs = add_or_update_device_def remove_device_def remove_device_by_public_key_def add_transfer_def
  save_interrupted_transfer_def delete_interrupted_transfer_def expire_interrupted_transfers_def

lemma db_step_ok: "db_ok d \<Longrightarrow> db_ok (db_step x d)"
proof (cases x)
  case (Add_Device t)
  then show "db_ok d \<Longrightarrow> ?thesis"
    by (auto simp: db_ok_def db_op_defs seq_lift intro!: keyed_set split: sum.splits option.splits)
next
  case (Add_Transfer r)
  then show "db_ok d \<Longrightarrow> ?thesis"
    by (auto simp: db_ok_def db_op_defs seq_lift intro!: keyed_set dest: keyed_get split: sum.splits option.splits)
next
  case (Save_Interrupted now i)
  then show "db_ok d \<Longrightarrow> ?thesis"
    by (auto simp: db_ok_def db_op_defs seq_lift intro!: keyed_set dest: keyed_get split: sum.splits option.splits)
next
  case (Delete_Interrupted i)
  then show "db_ok d \<Longrightarrow> ?thesis"
    using keyed_map [of "tc_transfer_id \<circ> hr_record" "db_transfer_history d"
        "\<lambda>k row. if k = i \<and> is_interrupted row then clear_resume_columns row else row"]
    by (simp add: db_ok_def db_op_defs seq_lift split: sum.splits)
next
  case (Expire c n)
  then show "db_ok d \<Longrightarrow> ?thesis"
    using keyed_map [of "tc_transfer_id \<circ> hr_record" "db_transfer_history d"
        "\<lambda>k row. if expired (case n of Some n \<Rightarrow> n | None \<Rightarrow> c) row then clear_resume_columns row else row"]
    by (simp add: db_ok_def db_op_defs seq_lift Let_def split: sum.splits)
qed (auto simp: db_ok_def db_op_defs seq_lift intro!: keyed_pop keyed_filter split: sum.splits)

definition empty_db :: db where
  "empty_db = \<lparr>db_trusted_devices = [], db_transfer_history = []\<rparr>"

definition db_after :: "db_op list \<Rightarrow> db" where
  "db_after ops = fold db_step ops empty_db"

lemma db_after_ok: "db_ok (db_after ops)"
proof -
  have "db_ok d \<Longrightarrow> db_ok (fold db_step ops d)" for d
    by (induction ops arbitrary: d) (auto simp: db_step_ok)
  moreover have "db_ok empty_db" by (simp add: db_ok_def keyed_def empty_db_def)
  ultimately show ?thesis by (simp add: db_after_def)
qed

section \<open>Lookups\<close>

lemma find_map_snd: "find P (map snd t) \<noteq> None \<longleftrightarrow> (\<exists>(k, r)\<in>set t. P r)"
  by (induction t) auto

lemma device_by_key_iff:
  assumes "db_ok d"
  shows "device_by_key key d \<noteq> None \<longleftrightarrow>
    (\<exists>i t. dict_get (db_trusted_devices d) i = Some t \<and> td_identity_public_key_b64 t = key)"
proof -
  have "keyed td_device_id (db_trusted_devices d)" using assms by (simp add: db_ok_def)
  from keyed_get_iff [OF this] show ?thesis unfolding device_by_key_def find_map_snd by fastforce
qed

lemma device_by_key_Some: "device_by_key key d = Some t \<Longrightarrow> td_identity_public_key_b64 t = key"
  by (auto simp: device_by_key_def find_Some_iff)

lemma find_filter_other: "(\<And>x. P x \<Longrightarrow> Q x) \<Longrightarrow> find P (filter Q xs) = find P xs"
  by (induction xs) auto

lemma map_snd_filter: "map snd (filter (\<lambda>p. Q (snd p)) t) = filter Q (map snd t)"
  by (induction t) auto

lemma dict_get_filter:
  assumes "dict_ok t"
  shows "dict_get (filter (\<lambda>p. Q (snd p)) t) k = (case dict_get t k of Some r \<Rightarrow> if Q r then Some r else None | None \<Rightarrow> None)"
  using assms by (induction t) (auto simp: dict_get_def dict_ok_def map_of_eq_None_iff split: option.splits dest: map_of_SomeD)

text \<open>
  C34: revocation. Removing a device by its identity key leaves no trusted device with that key, and
  touches no device with another key nor the history.
\<close>

theorem trust_revocation:
  assumes "remove_device_by_public_key key (db_after ops) = (Inr (), d')"
  shows "device_by_key key d' = None
    \<and> (\<forall>k. k \<noteq> key \<longrightarrow> device_by_key k d' = device_by_key k (db_after ops))
    \<and> (\<forall>i. dict_get (db_trusted_devices d') i =
        (case dict_get (db_trusted_devices (db_after ops)) i of
           Some t \<Rightarrow> if td_identity_public_key_b64 t = key then None else Some t | None \<Rightarrow> None))
    \<and> db_transfer_history d' = db_transfer_history (db_after ops)"
proof -
  let ?d = "db_after ops" and ?Q = "\<lambda>t. td_identity_public_key_b64 t \<noteq> key"
  have d': "d' = ?d\<lparr>db_trusted_devices := filter (\<lambda>p. ?Q (snd p)) (db_trusted_devices ?d)\<rparr>"
    using assms by (simp add: remove_device_by_public_key_def seq_lift split: sum.splits)
  have by_key: "device_by_key k d' = find (\<lambda>t. td_identity_public_key_b64 t = k) (filter ?Q (map snd (db_trusted_devices ?d)))" for k
    by (simp add: d' device_by_key_def map_snd_filter [where Q = ?Q])
  have "device_by_key key d' = None" unfolding by_key by (simp add: find_None_iff)
  moreover have "k \<noteq> key \<Longrightarrow> device_by_key k d' = device_by_key k ?d" for k
    unfolding by_key unfolding device_by_key_def by (rule find_filter_other) auto
  moreover have "dict_ok (db_trusted_devices ?d)" using db_after_ok by (simp add: db_ok_def keyed_def)
  note dict_get_filter [OF this, of ?Q]
  ultimately show ?thesis by (auto simp: d' split: option.split)
qed

definition sample_device :: "string \<Rightarrow> string \<Rightarrow> trusted_device" where
  "sample_device i k = \<lparr>td_device_id = lit i, td_device_name = lit ''phone'', td_public_key = lit k,
     td_identity_public_key_b64 = lit k, td_paired_at = 10, td_last_seen = 20\<rparr>"

lemma bind_ok_sample [simp]: "bind_values [] = Inr ()" by (simp add: bind_values.simps)

theorem trust_revocation_witness:
  "\<exists>d'. remove_device_by_public_key (lit ''k1'') (db_after [Add_Device (sample_device ''a'' ''k1''), Add_Device (sample_device ''b'' ''k2'')])
      = (Inr (), d') \<and> device_by_key (lit ''k1'') d' = None"
proof -
  let ?d = "db_after [Add_Device (sample_device ''a'' ''k1''), Add_Device (sample_device ''b'' ''k2'')]"
  have "bind_values [SqlText (lit ''k1'')] = Inr ()" by (simp add: bind_values.simps utf8_encode_def scalar_def)
  then obtain d' where d': "remove_device_by_public_key (lit ''k1'') ?d = (Inr (), d')"
    by (simp add: remove_device_by_public_key_def seq_lift)
  then show ?thesis using trust_revocation by blast
qed

text \<open>
  What pairing stores. Adding a device makes its key trusted under its id, keeps the time of the
  first pairing, and leaves the devices with other ids and the history alone. A device that
  announces the id of another one replaces it: the earlier key is no longer trusted.
\<close>

theorem pairing_stored:
  assumes "add_or_update_device t (db_after ops) = (Inr (), d')"
  shows "dict_get (db_trusted_devices d') (td_device_id t) =
      Some (case dict_get (db_trusted_devices (db_after ops)) (td_device_id t) of
              None \<Rightarrow> t | Some old \<Rightarrow> t\<lparr>td_paired_at := td_paired_at old\<rparr>)
    \<and> (\<forall>i. i \<noteq> td_device_id t \<longrightarrow> dict_get (db_trusted_devices d') i = dict_get (db_trusted_devices (db_after ops)) i)
    \<and> device_by_key (td_identity_public_key_b64 t) d' \<noteq> None
    \<and> (\<forall>k. k \<noteq> td_identity_public_key_b64 t
        \<and> (\<forall>i old. dict_get (db_trusted_devices (db_after ops)) i = Some old \<and> td_identity_public_key_b64 old = k \<longrightarrow> i = td_device_id t)
        \<longrightarrow> device_by_key k d' = None)
    \<and> db_transfer_history d' = db_transfer_history (db_after ops)"
proof -
  let ?d = "db_after ops"
  let ?row = "case dict_get (db_trusted_devices ?d) (td_device_id t) of None \<Rightarrow> t | Some old \<Rightarrow> t\<lparr>td_paired_at := td_paired_at old\<rparr>"
  have d': "d' = ?d\<lparr>db_trusted_devices := dict_set (td_device_id t) ?row (db_trusted_devices ?d)\<rparr>"
    using assms by (simp add: add_or_update_device_def seq_lift split: sum.splits)
  have ok: "db_ok d'" using db_step_ok [OF db_after_ok [of ops], of "Add_Device t"] assms by simp
  have key: "td_identity_public_key_b64 ?row = td_identity_public_key_b64 t" by (simp split: option.split)
  have get: "dict_get (db_trusted_devices d') i = (if i = td_device_id t then Some ?row else dict_get (db_trusted_devices ?d) i)" for i
    by (simp add: d' dict_get_set)
  have "device_by_key (td_identity_public_key_b64 t) d' \<noteq> None"
    unfolding device_by_key_iff [OF ok] using get key by (metis (no_types, lifting))
  moreover have "device_by_key k d' = None"
    if "k \<noteq> td_identity_public_key_b64 t"
      "\<forall>i old. dict_get (db_trusted_devices ?d) i = Some old \<and> td_identity_public_key_b64 old = k \<longrightarrow> i = td_device_id t" for k
  proof (rule ccontr)
    assume "device_by_key k d' \<noteq> None"
    then obtain i r where r: "dict_get (db_trusted_devices d') i = Some r" "td_identity_public_key_b64 r = k"
      unfolding device_by_key_iff [OF ok] by blast
    then show False using that key get [of i] by (cases "i = td_device_id t") auto
  qed
  ultimately show ?thesis using get by (simp add: d')
qed

theorem pairing_stored_witness:
  "\<exists>d'. add_or_update_device (sample_device ''a'' ''k2'') (db_after [Add_Device (sample_device ''a'' ''k1'')]) = (Inr (), d')
    \<and> device_by_key (lit ''k2'') d' \<noteq> None"
proof -
  have "bind_values [SqlText (lit ''a''), SqlText (lit ''phone''), SqlText (lit ''k2''), SqlText (lit ''k2''), SqlInt 10, SqlInt 20] = Inr ()"
    by (simp add: bind_values.simps utf8_encode_def scalar_def)
  then obtain d' where "add_or_update_device (sample_device ''a'' ''k2'') (db_after [Add_Device (sample_device ''a'' ''k1'')]) = (Inr (), d')"
    by (simp add: add_or_update_device_def seq_lift sample_device_def del: lit_simps)
  moreover have "td_identity_public_key_b64 (sample_device ''a'' ''k2'') = lit ''k2''" by (simp add: sample_device_def)
  ultimately show ?thesis using pairing_stored by metis
qed

section \<open>Interrupted transfers\<close>

lemma row_info_set [simp]:
  "tc_transfer_id (hr_record row) = ii_transfer_id info \<Longrightarrow> row_info (set_resume_columns info row) = info"
  by (simp add: row_info_def set_resume_columns_def)

lemma is_interrupted_set [simp]: "is_interrupted (set_resume_columns info row)"
  by (simp add: is_interrupted_def set_resume_columns_def)

lemma not_interrupted_clear [simp]: "\<not> is_interrupted (clear_resume_columns row)"
  by (simp add: is_interrupted_def)

lemma peer_list_iff:
  assumes "db_ok d"
  shows "info \<in> set (interrupted_of_peer sender d) \<longleftrightarrow>
    (\<exists>tid row. dict_get (db_transfer_history d) tid = Some row \<and> is_interrupted row
       \<and> hr_sender_identity row = Some sender \<and> info = row_info row)"
proof -
  have "keyed (tc_transfer_id \<circ> hr_record) (db_transfer_history d)" using assms by (simp add: db_ok_def)
  note get = keyed_get_iff [OF this]
  have "set (interrupted_of_peer sender d) = row_info ` (snd ` set (db_transfer_history d)
      \<inter> {r. is_interrupted r \<and> hr_sender_identity r = Some sender})"
    unfolding interrupted_of_peer_def set_map set_sort set_filter by blast
  then show ?thesis unfolding get by (simp only:) force
qed

text \<open>
  The resume state survives the database. What \<^verbatim>\<open>save_interrupted_transfer\<close> stores is what
  \<^verbatim>\<open>get_interrupted_transfer\<close> returns and what the list of the sender's interrupted transfers
  contains, for a transfer with or without a history row; no other transfer changes; and after
  \<^verbatim>\<open>delete_interrupted_transfer\<close> it is gone.
\<close>

theorem interrupted_roundtrip:
  assumes "save_interrupted_transfer now info (db_after ops) = (Inr (), d')"
  shows "get_interrupted_transfer (ii_transfer_id info) d' = (Inr (Some info), d')
    \<and> info \<in> set (interrupted_of_peer (ii_sender_identity info) d')
    \<and> (\<forall>tid. tid \<noteq> ii_transfer_id info \<longrightarrow> interrupted_in tid d' = interrupted_in tid (db_after ops))
    \<and> (\<exists>d''. delete_interrupted_transfer (ii_transfer_id info) d' = (Inr (), d'')
         \<and> interrupted_in (ii_transfer_id info) d'' = None
         \<and> (\<forall>tid. tid \<noteq> ii_transfer_id info \<longrightarrow> interrupted_in tid d'' = interrupted_in tid (db_after ops)))"
proof -
  let ?d = "db_after ops" and ?id = "ii_transfer_id info"
  let ?old = "case dict_get (db_transfer_history ?d) ?id of Some row \<Rightarrow> row
     | None \<Rightarrow> new_history_row \<lparr>tc_transfer_id = ?id, tc_device_id = [], tc_file_name = [], tc_file_size = 0,
         tc_direction = lit ''INCOMING'', tc_status = INTERRUPTED_STATUS, tc_started_at = now, tc_completed_at = None, tc_sha256 = []\<rparr>"
  have d': "d' = ?d\<lparr>db_transfer_history := dict_set ?id (set_resume_columns info ?old) (db_transfer_history ?d)\<rparr>"
    using assms by (simp add: save_interrupted_transfer_def seq_lift split: sum.splits)
  have ok: "db_ok d'" using db_step_ok [OF db_after_ok [of ops], of "Save_Interrupted now info"] assms by simp
  have "keyed (tc_transfer_id \<circ> hr_record) (db_transfer_history ?d)" using db_after_ok [of ops] by (simp add: db_ok_def)
  then have id: "tc_transfer_id (hr_record ?old) = ?id" by (auto split: option.split dest: keyed_get)
  have get: "dict_get (db_transfer_history d') tid =
      (if tid = ?id then Some (set_resume_columns info ?old) else dict_get (db_transfer_history ?d) tid)" for tid
    by (simp add: d' dict_get_set)
  have b: "bind_values [SqlText ?id] = Inr ()"
    using assms by (auto simp: save_interrupted_transfer_def seq_lift bind_values.simps res_simps split: sum.splits)
  have "get_interrupted_transfer ?id d' = (Inr (Some info), d')"
    using get [of ?id] id b by (simp add: get_interrupted_transfer_def seq_lift interrupted_in_def del: row_info_set) (simp add: row_info_set)
  moreover have "info \<in> set (interrupted_of_peer (ii_sender_identity info) d')"
    unfolding peer_list_iff [OF ok] using get [of ?id] row_info_set [OF id]
    by (intro exI [of _ ?id] exI [of _ "set_resume_columns info ?old"]) (simp add: set_resume_columns_def is_interrupted_def)
  moreover have oth: "tid \<noteq> ?id \<Longrightarrow> interrupted_in tid d' = interrupted_in tid ?d" for tid
    using get by (simp add: interrupted_in_def)
  moreover have "\<exists>d''. delete_interrupted_transfer ?id d' = (Inr (), d'') \<and> interrupted_in ?id d'' = None
      \<and> (\<forall>tid. tid \<noteq> ?id \<longrightarrow> interrupted_in tid d'' = interrupted_in tid ?d)"
  proof -
    let ?g = "\<lambda>k row. if k = ?id \<and> is_interrupted row then clear_resume_columns row else row"
    let ?d2 = "d'\<lparr>db_transfer_history := map (\<lambda>(k, row). (k, ?g k row)) (db_transfer_history d')\<rparr>"
    have "delete_interrupted_transfer ?id d' = (Inr (), ?d2)" using b by (simp add: delete_interrupted_transfer_def seq_lift)
    moreover have g2: "dict_get (db_transfer_history ?d2) tid = map_option (?g tid) (dict_get (db_transfer_history d') tid)" for tid
      using dict_get_map [of ?g "db_transfer_history d'" tid] by simp
    have "interrupted_in ?id ?d2 = None" unfolding interrupted_in_def g2 get by simp
    moreover have "tid \<noteq> ?id \<Longrightarrow> interrupted_in tid ?d2 = interrupted_in tid ?d" for tid
      unfolding interrupted_in_def g2 get by (simp split: option.split)
    ultimately show ?thesis by blast
  qed
  ultimately show ?thesis by blast
qed

definition sample_info :: interrupted_info where
  "sample_info = \<lparr>ii_transfer_id = lit ''t1'', ii_bytes_received = 65536, ii_resume_chunk_index = 1,
     ii_partial_sha256 = lit ''ab'', ii_sender_identity = lit ''k'', ii_original_metadata_json = lit ''{}'',
     ii_interrupted_at = 100, ii_expire_at = make_expire_at 100\<rparr>"

lemma sample_save: "\<exists>d'. save_interrupted_transfer 100 sample_info (db_after []) = (Inr (), d')"
proof -
  have "bind_values [SqlText (ii_transfer_id sample_info), SqlInt (ii_interrupted_at sample_info), SqlInt (ii_bytes_received sample_info),
            SqlInt (ii_resume_chunk_index sample_info), SqlText (ii_partial_sha256 sample_info), SqlText (ii_sender_identity sample_info),
            SqlText (ii_original_metadata_json sample_info), SqlInt (ii_expire_at sample_info)] = Inr ()"
    by (simp add: bind_values.simps utf8_encode_def scalar_def sample_info_def make_expire_at_def RESUME_TTL_MS_def)
  then show ?thesis by (simp add: save_interrupted_transfer_def seq_lift)
qed

theorem interrupted_roundtrip_witness:
  "\<exists>d'. save_interrupted_transfer 100 sample_info (db_after []) = (Inr (), d')
    \<and> get_interrupted_transfer (ii_transfer_id sample_info) d' = (Inr (Some sample_info), d')"
proof -
  obtain d' where d': "save_interrupted_transfer 100 sample_info (db_after []) = (Inr (), d')"
    using sample_save by blast
  from interrupted_roundtrip [OF d'] d' show ?thesis by blast
qed

text \<open>
  Expiry. \<^verbatim>\<open>expire_interrupted_transfers\<close> clears exactly the interrupted rows whose expiry time has
  come, returns their number, and afterwards no such row is left.
\<close>

theorem expiry_exact:
  assumes "expire_interrupted_transfers clock now_ms (db_after ops) = (Inr n, d')"
  shows "let now = (case now_ms of Some t \<Rightarrow> t | None \<Rightarrow> clock); old = db_transfer_history (db_after ops)
    in (\<forall>tid. dict_get (db_transfer_history d') tid =
          map_option (\<lambda>row. if expired now row then clear_resume_columns row else row) (dict_get old tid))
     \<and> n = int (card {tid. \<exists>row. dict_get old tid = Some row \<and> expired now row})
     \<and> \<not> (\<exists>tid row. dict_get (db_transfer_history d') tid = Some row \<and> expired now row)
     \<and> db_trusted_devices d' = db_trusted_devices (db_after ops)"
proof -
  define now where "now = (case now_ms of Some t \<Rightarrow> t | None \<Rightarrow> clock)"
  let ?old = "db_transfer_history (db_after ops)" and ?g = "\<lambda>(k :: pystr) row. if expired now row then clear_resume_columns row else row"
  have d': "d' = (db_after ops)\<lparr>db_transfer_history := map (\<lambda>(k, row). (k, ?g k row)) ?old\<rparr>"
    and n: "n = int (length (filter (\<lambda>p. expired now (snd p)) ?old))"
    using assms by (auto simp: expire_interrupted_transfers_def seq_lift Let_def now_def split: sum.splits)
  have get: "dict_get (db_transfer_history d') tid = map_option (?g tid) (dict_get ?old tid)" for tid
    using dict_get_map [of ?g ?old tid] by (simp add: d')
  have k: "keyed (tc_transfer_id \<circ> hr_record) ?old" using db_after_ok [of ops] by (simp add: db_ok_def)
  then have "distinct (map fst (filter (\<lambda>p. expired now (snd p)) ?old))"
    by (simp add: keyed_def dict_ok_def distinct_map_filter)
  then have "card (fst ` set (filter (\<lambda>p. expired now (snd p)) ?old)) = length (filter (\<lambda>p. expired now (snd p)) ?old)"
    using distinct_card by fastforce
  moreover have "fst ` set (filter (\<lambda>p. expired now (snd p)) ?old) = {tid. \<exists>row. dict_get ?old tid = Some row \<and> expired now row}"
    by (force simp: keyed_get_iff [OF k])
  ultimately have "n = int (card {tid. \<exists>row. dict_get ?old tid = Some row \<and> expired now row})" using n by simp
  moreover have "\<not> expired now (clear_resume_columns row)" for row by (simp add: expired_def)
  then have "\<not> (\<exists>tid row. dict_get (db_transfer_history d') tid = Some row \<and> expired now row)"
    unfolding get by auto
  moreover have "db_trusted_devices d' = db_trusted_devices (db_after ops)" by (simp add: d')
  ultimately show ?thesis unfolding now_def [symmetric] Let_def using get by simp
qed

theorem expiry_exact_witness:
  "\<exists>n d'. expire_interrupted_transfers 0 (Some 700000000) (db_after [Save_Interrupted 100 sample_info]) = (Inr n, d')
    \<and> \<not> (\<exists>tid row. dict_get (db_transfer_history d') tid = Some row \<and> expired 700000000 row)"
proof -
  have "bind_values [SqlInt 700000000] = Inr ()" by (simp add: bind_values.simps)
  then obtain n d' where d': "expire_interrupted_transfers 0 (Some 700000000) (db_after [Save_Interrupted 100 sample_info]) = (Inr n, d')"
    by (simp add: expire_interrupted_transfers_def seq_lift Let_def)
  from expiry_exact [OF d'] have "\<not> (\<exists>tid row. dict_get (db_transfer_history d') tid = Some row \<and> expired 700000000 row)"
    unfolding Let_def option.case by blast
  with d' show ?thesis by blast
qed

section \<open>Migration\<close>

text \<open>The schemas earlier versions leave: nothing, version 1 with or without the identity column,
  version 2, version 3.\<close>

definition legacy_schemas :: "schema list" where
  "legacy_schemas =
     (let old_trusted = filter (\<lambda>c. c \<noteq> ''identity_public_key_b64'') trusted_columns; kv = Some ([''key'', ''value''])
      in [\<lparr>sc_versions = [], sc_trusted_devices = None, sc_transfer_history = None, sc_settings = None\<rparr>,
          \<lparr>sc_versions = [1], sc_trusted_devices = Some old_trusted, sc_transfer_history = Some history_columns, sc_settings = kv\<rparr>,
          \<lparr>sc_versions = [1], sc_trusted_devices = Some trusted_columns, sc_transfer_history = Some history_columns, sc_settings = kv\<rparr>,
          \<lparr>sc_versions = [1, 2], sc_trusted_devices = Some (old_trusted @ [''identity_public_key_b64'']),
           sc_transfer_history = Some history_columns, sc_settings = kv\<rparr>,
          \<lparr>sc_versions = [3], sc_trusted_devices = Some trusted_columns,
           sc_transfer_history = Some (history_columns @ resume_columns), sc_settings = kv\<rparr>])"

lemma init_db_noop: "3 \<in> set (sc_versions sc) \<Longrightarrow> init_db sc = sc"
proof -
  assume 3: "3 \<in> set (sc_versions sc)"
  then have "sc_versions sc \<noteq> []" and m: "3 \<le> Max (set (sc_versions sc))" by (auto intro: Max_ge)
  moreover from m have "\<not> Max (set (sc_versions sc)) < 1" "\<not> Max (set (sc_versions sc)) < 2" "\<not> Max (set (sc_versions sc)) < 3"
    by linarith+
  ultimately show ?thesis using 3 by (simp only: init_db_def DB_SCHEMA_VERSION_def Let_def if_False if_True) simp
qed

lemma init_db_version: "3 \<in> set (sc_versions (init_db sc))"
  by (simp add: init_db_def DB_SCHEMA_VERSION_def Let_def)

text \<open>
  opening a database brings every earlier schema to the current one, with all the columns the
  statements of this file use, and opening it again changes nothing, whatever it contained.
\<close>

theorem schema_migration:
  "init_db (init_db sc) = init_db sc
    \<and> list_all (\<lambda>old. let new = init_db old in
        3 \<in> set (sc_versions new)
        \<and> (case sc_trusted_devices new of Some cs \<Rightarrow> set cs = set trusted_columns \<and> distinct cs | None \<Rightarrow> False)
        \<and> (case sc_transfer_history new of Some cs \<Rightarrow> cs = history_columns @ resume_columns | None \<Rightarrow> False)
        \<and> sc_settings new \<noteq> None) legacy_schemas"
proof
  show "init_db (init_db sc) = init_db sc" by (rule init_db_noop [OF init_db_version])
  show "list_all (\<lambda>old. let new = init_db old in
        3 \<in> set (sc_versions new)
        \<and> (case sc_trusted_devices new of Some cs \<Rightarrow> set cs = set trusted_columns \<and> distinct cs | None \<Rightarrow> False)
        \<and> (case sc_transfer_history new of Some cs \<Rightarrow> cs = history_columns @ resume_columns | None \<Rightarrow> False)
        \<and> sc_settings new \<noteq> None) legacy_schemas"
    by code_simp
qed

end
