(* ===== verification/Bridge.thy ===== *)
theory Bridge
  imports Complex_Main Effects
begin

text \<open>
  \<^verbatim>\<open>NotificationBridge\<close> of \<^verbatim>\<open>core/notification_bridge.py\<close>: mirrored notifications shown on the
  desktop, behind a token bucket, with a bounded map from Ferry ids to desktop ids. The readings of
  \<^verbatim>\<open>time.monotonic()\<close> and the answers of the desktop's D-Bus service are arguments; seconds are exact
  rationals, so the rounding of floating-point additions is not modelled.
\<close>

section \<open>Token bucket\<close>

definition RL_BURST :: rat where "RL_BURST = 10"
definition RL_RATE :: rat where "RL_RATE = 1"
definition LRU_MAX :: nat where "LRU_MAX = 200"
definition LRU_TTL_SECS :: rat where "LRU_TTL_SECS = 4 * 3600"
definition NOTIFY_TIMEOUT :: int where "NOTIFY_TIMEOUT = 5000"
definition FERRY_APP_NAME :: pystr where "FERRY_APP_NAME = lit ''Raven''"

record token_bucket =
  tb_burst :: rat
  tb_rate :: rat
  tb_tokens :: rat
  tb_last :: rat

definition new_bucket :: "rat \<Rightarrow> rat \<Rightarrow> rat \<Rightarrow> token_bucket" where
  "new_bucket burst rate now = \<lparr>tb_burst = burst, tb_rate = rate, tb_tokens = burst, tb_last = now\<rparr>"

definition consume :: "rat \<Rightarrow> token_bucket \<Rightarrow> bool \<times> token_bucket" where
  "consume now b =
     (let elapsed = now - tb_last b;
          tokens = min (tb_burst b) (tb_tokens b + elapsed * tb_rate b);
          b1 = b\<lparr>tb_last := now, tb_tokens := tokens\<rparr>
      in if 1 \<le> tokens then (True, b1\<lparr>tb_tokens := tokens - 1\<rparr>) else (False, b1))"

fun consume_at :: "rat list \<Rightarrow> token_bucket \<Rightarrow> nat \<times> token_bucket" where
  "consume_at [] b = (0, b)"
| "consume_at (t # ts) b =
     (let (granted, b1) = consume t b; (n, b2) = consume_at ts b1
      in (if granted then Suc n else n, b2))"

definition bucket_ok :: "token_bucket \<Rightarrow> bool" where
  "bucket_ok b \<longleftrightarrow> 0 \<le> tb_tokens b \<and> tb_tokens b \<le> tb_burst b \<and> 0 \<le> tb_rate b"

lemma consume_bound:
  assumes "bucket_ok b" and "tb_last b \<le> now" and "consume now b = (g, b')"
  shows "bucket_ok b' \<and> tb_last b' = now \<and> tb_rate b' = tb_rate b \<and> tb_burst b' = tb_burst b
    \<and> (if g then 1 else 0) + tb_tokens b' \<le> tb_tokens b + (now - tb_last b) * tb_rate b"
proof -
  have "0 \<le> (now - tb_last b) * tb_rate b" using assms by (simp add: bucket_ok_def)
  then show ?thesis using assms by (auto simp: consume_def Let_def bucket_ok_def split: if_splits)
qed

lemma consume_at_bound:
  assumes "bucket_ok b" and "sorted (tb_last b # ts)"
  shows "rat_of_nat (fst (consume_at ts b)) + tb_tokens (snd (consume_at ts b))
    \<le> tb_tokens b + (last (tb_last b # ts) - tb_last b) * tb_rate b"
  using assms
proof (induction ts arbitrary: b)
  case (Cons t ts)
  obtain g b1 where c: "consume t b = (g, b1)" by (cases "consume t b")
  have le: "tb_last b \<le> t" using Cons.prems(2) by simp
  note b1 = consume_bound [OF Cons.prems(1) le c]
  have "sorted (tb_last b1 # ts)" using Cons.prems(2) b1 by simp
  with Cons.IH [of b1] b1 have ih: "rat_of_nat (fst (consume_at ts b1)) + tb_tokens (snd (consume_at ts b1))
      \<le> tb_tokens b1 + (last (t # ts) - t) * tb_rate b" by simp
  have "(last (t # ts) - t) * tb_rate b + (t - tb_last b) * tb_rate b = (last (t # ts) - tb_last b) * tb_rate b"
    by (simp add: algebra_simps)
  then show ?case using ih b1 c by (auto simp: split_beta Let_def split: if_splits)
qed simp



section \<open>The map of shown notifications\<close>

record id_entry =
  ie_dbus_id :: int
  ie_expires_at :: rat

record bridge =
  nb_connected :: bool
  nb_capabilities :: "pystr list"
  nb_id_map :: "(pystr, id_entry) dict"
  nb_rate :: token_bucket
  nb_available :: bool

definition new_bridge :: "rat \<Rightarrow> bridge" where
  "new_bridge now = \<lparr>nb_connected = False, nb_capabilities = [], nb_id_map = [],
     nb_rate = new_bucket RL_BURST RL_RATE now, nb_available = False\<rparr>"

text \<open>\<open>proxy\<close> and \<open>caps\<close>: whether the proxy was created and the answer of \<^verbatim>\<open>GetCapabilities\<close>, \<open>None\<close> for
  an exception.\<close>

definition bridge_start :: "bool \<Rightarrow> pystr list option \<Rightarrow> (bridge, unit) eff" where
  "bridge_start proxy caps =
     (if \<not> proxy then upd (nb_available_update (\<lambda>_. False))
      else seq (upd (nb_connected_update (\<lambda>_. True)))
        (case caps of
           None \<Rightarrow> upd (nb_available_update (\<lambda>_. False))
         | Some cs \<Rightarrow> upd (\<lambda>b. b\<lparr>nb_capabilities := cs, nb_available := True\<rparr>)))"

definition get_replaces_id :: "pystr \<Rightarrow> bridge \<Rightarrow> int" where
  "get_replaces_id ferry_id b = (case dict_get (nb_id_map b) ferry_id of Some e \<Rightarrow> ie_dbus_id e | None \<Rightarrow> 0)"

text \<open>\<^verbatim>\<open>while len(m) > _LRU_MAX: m.popitem(last=False)\<close>.\<close>

fun evict :: "nat \<Rightarrow> ('k, 'v) dict \<Rightarrow> ('k, 'v) dict" where
  "evict n [] = []"
| "evict n (e # m) = (if n < length (e # m) then evict n m else e # m)"

definition store_id :: "rat \<Rightarrow> pystr \<Rightarrow> int \<Rightarrow> (bridge, unit) eff" where
  "store_id now ferry_id dbus_id =
     upd (\<lambda>b. b\<lparr>nb_id_map := evict LRU_MAX
        (dict_pop ferry_id (nb_id_map b) @ [(ferry_id, \<lparr>ie_dbus_id = dbus_id, ie_expires_at = now + LRU_TTL_SECS\<rparr>)])\<rparr>)"

definition remove_by_dbus_id :: "int \<Rightarrow> (bridge, unit) eff" where
  "remove_by_dbus_id dbus_id =
     reads (\<lambda>b. upd (nb_id_map_update (fold dict_pop
       (map fst (filter (\<lambda>p. ie_dbus_id (snd p) = dbus_id) (nb_id_map b))))))"

definition expire_old :: "rat \<Rightarrow> (bridge, unit) eff" where
  "expire_old now =
     reads (\<lambda>b. upd (nb_id_map_update (fold dict_pop
       (map fst (filter (\<lambda>p. ie_expires_at (snd p) < now) (nb_id_map b))))))"

text \<open>\<^verbatim>\<open>html.escape(text, quote=False)\<close>.\<close>

definition escape :: "pystr \<Rightarrow> pystr" where
  "escape t = concat (map (\<lambda>c. if c = 38 then lit ''&amp;'' else if c = 60 then lit ''&lt;''
     else if c = 62 then lit ''&gt;'' else [c]) t)"

text \<open>
  \<^verbatim>\<open>post\<close> reads the clock up to three times. \<open>notify\<close> is the call of the desktop service with the
  replaced id, the summary and the body: the issued id, or \<open>None\<close> when the call raises.
\<close>

definition post :: "rat \<Rightarrow> rat \<Rightarrow> rat \<Rightarrow> (int \<Rightarrow> pystr \<Rightarrow> pystr \<Rightarrow> int option) \<Rightarrow> pystr \<Rightarrow> pystr \<Rightarrow> pystr \<Rightarrow> pystr
    \<Rightarrow> (bridge, bool) eff" where
  "post t1 t2 t3 notify ferry_id app_label title body = reads (\<lambda>b.
     if \<not> nb_available b \<or> \<not> nb_connected b then ret False
     else let (granted, bucket) = consume t1 (nb_rate b)
          in seq (upd (nb_rate_update (\<lambda>_. bucket)))
            (if \<not> granted then ret False
             else let safe_summary = escape app_label;
                      safe_body = (if body \<noteq> [] then escape title @ [10] @ escape body else escape title)
                  in case notify (get_replaces_id ferry_id b) safe_summary safe_body of
                       None \<Rightarrow> ret False
                     | Some issued_id \<Rightarrow>
                         seq (store_id t2 ferry_id issued_id) (seq (expire_old t3) (ret True))))"

text \<open>The id is forgotten whether or not \<^verbatim>\<open>CloseNotification\<close> succeeds; the result is the id the service
  was asked to close.\<close>

definition remove_notification :: "pystr \<Rightarrow> (bridge, int option) eff" where
  "remove_notification ferry_id = reads (\<lambda>b.
     if \<not> nb_available b \<or> \<not> nb_connected b then ret None
     else case dict_get (nb_id_map b) ferry_id of
            None \<Rightarrow> ret None
          | Some e \<Rightarrow> seq (upd (nb_id_map_update (dict_pop ferry_id))) (ret (Some (ie_dbus_id e))))"

definition bridge_ok :: "bridge \<Rightarrow> bool" where
  "bridge_ok b \<longleftrightarrow> dict_ok (nb_id_map b) \<and> length (nb_id_map b) \<le> LRU_MAX"

lemma evict_drop: "evict n m = drop (length m - n) m"
  by (induction m) (auto simp: Suc_diff_le)

lemma dict_ok_append: "dict_ok m \<Longrightarrow> \<not> dict_has m k \<Longrightarrow> dict_ok (m @ [(k, v)])"
  by (auto simp: dict_ok_def dict_has_def)

lemma dict_ok_drop: "dict_ok m \<Longrightarrow> dict_ok (drop n m)"
  by (simp add: dict_ok_def drop_map [symmetric])

lemma pop_in_order: "dict_pop k m = filter (\<lambda>p. fst p \<noteq> k) m"
  by (simp add: dict_pop_def)

lemma length_dict_pop: "length (dict_pop k m) \<le> length m"
  by (simp add: dict_pop_def)

lemma length_fold_pop: "length (fold dict_pop ks m) \<le> length m"
  by (induction ks arbitrary: m) (auto intro: order_trans [OF _ length_dict_pop])

lemma evict_ok: "dict_ok m \<Longrightarrow> dict_ok (evict n m) \<and> length (evict n m) \<le> n"
  unfolding evict_drop by (simp add: dict_ok_drop)

lemma bridge_ok_store: "bridge_ok b \<Longrightarrow> bridge_ok (snd (store_id now f i b))"
  using evict_ok [OF dict_ok_append [of "dict_pop f (nb_id_map b)" f]]
  by (simp add: bridge_ok_def store_id_def dict_ok_pop del: evict.simps)

lemma bridge_ok_pops: "bridge_ok b \<Longrightarrow> bridge_ok (nb_id_map_update (fold dict_pop ks) b)"
  using length_fold_pop [of ks "nb_id_map b"] pydict.invar_fold_delete [of "nb_id_map b" ks]
  by (simp add: bridge_ok_def)

lemma bridge_ok_pop: "bridge_ok b \<Longrightarrow> bridge_ok (nb_id_map_update (dict_pop k) b)"
  using bridge_ok_pops [of b "[k]"] by simp

lemma bridge_ok_expire: "bridge_ok b \<Longrightarrow> bridge_ok (snd (expire_old now b))"
  using bridge_ok_pops by (simp add: expire_old_def)

lemma bridge_ok_rate [simp]: "bridge_ok (nb_rate_update f b) = bridge_ok b"
  by (simp add: bridge_ok_def)

lemma last_evict:
  assumes "0 < n" and "dict_ok (m @ [(k, v)])"
  shows "dict_get (evict n (m @ [(k, v)])) k = Some v"
proof -
  have "(k, v) \<in> set (evict n (m @ [(k, v)]))" using assms(1) by (simp add: evict_drop)
  then show ?thesis using evict_ok [OF assms(2), of n] by (simp add: dict_get_def dict_ok_def)
qed

lemma store_id_apply:
  "store_id now f i b = (Inr (), b\<lparr>nb_id_map := evict LRU_MAX (dict_pop f (nb_id_map b) @
     [(f, \<lparr>ie_dbus_id = i, ie_expires_at = now + LRU_TTL_SECS\<rparr>)])\<rparr>)"
  by (simp add: store_id_def)

lemma post_apply:
  "post t1 t2 t3 notify f lab ti bo b =
     (if \<not> nb_available b \<or> \<not> nb_connected b then (Inr False, b)
      else let b1 = b\<lparr>nb_rate := snd (consume t1 (nb_rate b))\<rparr>
           in if \<not> fst (consume t1 (nb_rate b)) then (Inr False, b1)
              else case notify (get_replaces_id f b) (escape lab)
                     (if bo \<noteq> [] then escape ti @ [10] @ escape bo else escape ti) of
                     None \<Rightarrow> (Inr False, b1)
                   | Some i \<Rightarrow> (Inr True, snd (expire_old t3 (snd (store_id t2 f i b1)))))"
  by (simp add: post_def split_beta Let_def store_id_apply seq_apply expire_old_def split: option.split)

text \<open>The operations of the bridge.\<close>

datatype bridge_op =
    Start bool "pystr list option"
  | Post rat rat rat "int \<Rightarrow> pystr \<Rightarrow> pystr \<Rightarrow> int option" pystr pystr pystr pystr
  | Remove pystr
  | Closed int

fun bridge_step :: "bridge_op \<Rightarrow> bridge \<Rightarrow> bridge" where
  "bridge_step (Start proxy caps) b = snd (bridge_start proxy caps b)"
| "bridge_step (Post t1 t2 t3 notify f lab ti bo) b = snd (post t1 t2 t3 notify f lab ti bo b)"
| "bridge_step (Remove f) b = snd (remove_notification f b)"
| "bridge_step (Closed i) b = snd (remove_by_dbus_id i b)"

lemma bridge_step_ok: "bridge_ok b \<Longrightarrow> bridge_ok (bridge_step op b)"
proof (cases op)
  case (Start proxy caps)
  then show "bridge_ok b \<Longrightarrow> ?thesis" by (simp add: bridge_start_def bridge_ok_def split: option.split)
next
  case (Post t1 t2 t3 notify f lab ti bo)
  then show "bridge_ok b \<Longrightarrow> ?thesis"
    by (auto simp: post_apply Let_def intro!: bridge_ok_expire bridge_ok_store split: option.split)
next
  case (Remove f)
  then show "bridge_ok b \<Longrightarrow> ?thesis" by (auto simp: remove_notification_def bridge_ok_pop split: option.split)
next
  case (Closed i)
  then show "bridge_ok b \<Longrightarrow> ?thesis" by (simp add: remove_by_dbus_id_def bridge_ok_pops)
qed

text \<open>
  The map of ids never holds more than 200 entries nor an id twice, whatever is posted, removed
  or closed, in any order.
\<close>

theorem id_map_bounded:
  "length (nb_id_map (fold bridge_step ops (new_bridge now))) \<le> 200
    \<and> distinct (map fst (nb_id_map (fold bridge_step ops (new_bridge now))))"
proof -
  have "bridge_ok b \<Longrightarrow> bridge_ok (fold bridge_step ops b)" for b
    by (induction ops arbitrary: b) (simp_all add: bridge_step_ok)
  moreover have "bridge_ok (new_bridge now)" by (simp add: bridge_ok_def new_bridge_def)
  ultimately show ?thesis by (simp add: bridge_ok_def LRU_MAX_def dict_ok_def)
qed

definition markup_free :: "pystr \<Rightarrow> bool" where
  "markup_free t \<longleftrightarrow> 60 \<notin> set t \<and> 62 \<notin> set t"

lemma escape_markup_free: "markup_free (escape t)"
  by (auto simp: markup_free_def escape_def split: if_splits)

text \<open>
  Posting. When the desktop issues an id for a notification, the bridge shows it with the markup
  of the peer's text escaped, and a later notification with the same Ferry id replaces that one, as
  long as the clock has moved by at most four hours in between.
\<close>

theorem post_replaces:
  assumes "post t1 t2 t3 notify f lab ti bo (fold bridge_step ops (new_bridge now)) = (Inr True, b')"
    and "t2 \<le> t3" and "t3 \<le> t2 + LRU_TTL_SECS"
  shows "\<exists>r summary content. markup_free summary \<and> markup_free content \<and> notify r summary content = Some (get_replaces_id f b')"
proof -
  let ?b = "fold bridge_step ops (new_bridge now)"
  let ?body = "if bo \<noteq> [] then escape ti @ [10] @ escape bo else escape ti"
  have ok: "bridge_ok ?b"
  proof -
    have "bridge_ok b \<Longrightarrow> bridge_ok (fold bridge_step ops b)" for b
      by (induction ops arbitrary: b) (simp_all add: bridge_step_ok)
    then show ?thesis by (simp add: bridge_ok_def new_bridge_def)
  qed
  obtain i b1 where i: "notify (get_replaces_id f ?b) (escape lab) ?body = Some i"
    and b1: "b1 = ?b\<lparr>nb_rate := snd (consume t1 (nb_rate ?b))\<rparr>"
    and b': "b' = snd (expire_old t3 (snd (store_id t2 f i b1)))"
    using assms(1) by (auto simp: post_apply Let_def split: if_splits option.splits)
  let ?e = "\<lparr>ie_dbus_id = i, ie_expires_at = t2 + LRU_TTL_SECS\<rparr>"
  let ?m = "nb_id_map (snd (store_id t2 f i b1))"
  have m: "dict_ok ?m" using bridge_ok_store [of b1 t2 f i] ok by (simp add: b1 bridge_ok_def)
  have g: "dict_get ?m f = Some ?e"
    unfolding store_id_apply snd_conv using ok
    by (simp, intro last_evict dict_ok_append) (auto simp: b1 bridge_ok_def LRU_MAX_def dict_ok_pop)
  have "f \<notin> fst ` set (filter (\<lambda>p. ie_expires_at (snd p) < t3) ?m)"
    using g m assms(3) by (fastforce simp: dict_get_def dict_ok_def dest: eq_key_imp_eq_value)
  then have "dict_get (nb_id_map b') f = Some ?e"
    using pydict.lookup_fold_delete [OF m] g by (simp add: b' expire_old_def)
  then have "get_replaces_id f b' = i" by (simp add: get_replaces_id_def)
  moreover have "markup_free (escape lab)" "markup_free ?body"
    using escape_markup_free by (auto simp: markup_free_def)
  ultimately show ?thesis using i by blast
qed

theorem post_replaces_witness:
  "\<exists>b'. post 0 0 0 (\<lambda>_ _ _. Some 7) (lit ''n1'') (lit ''App'') (lit ''<b>'') [] (fold bridge_step [Start True (Some [])] (new_bridge 0)) = (Inr True, b')
    \<and> get_replaces_id (lit ''n1'') b' = 7"
proof -
  let ?b = "fold bridge_step [Start True (Some [])] (new_bridge 0)"
  have "nb_available ?b" "nb_connected ?b" "fst (consume 0 (nb_rate ?b))"
    by (simp_all add: bridge_start_def new_bridge_def consume_def new_bucket_def RL_BURST_def RL_RATE_def)
  then obtain b' where b': "post 0 0 0 (\<lambda>_ _ _. Some 7) (lit ''n1'') (lit ''App'') (lit ''<b>'') [] ?b = (Inr True, b')"
    by (simp add: post_apply)
  from post_replaces [OF b'] b' show ?thesis by (auto simp: LRU_TTL_SECS_def)
qed

end
