(* ===== verification/Clipboard.thy ===== *)
theory Clipboard
  imports Effects Utf8
begin

text \<open>
  \<^verbatim>\<open>ClipboardSyncManager\<close> of \<^verbatim>\<open>core/clipboard.py\<close>: which changes of the local clipboard are sent to a
  peer and which received texts are written locally. The two callbacks appear as the result of a
  method: the text handed to them, if any. Their exceptions are caught by the methods.
\<close>

definition MAX_CLIPBOARD_BYTES :: nat where "MAX_CLIPBOARD_BYTES = 524288"

record clipboard =
  cb_enabled :: bool
  cb_last_sent :: "(pystr, pystr) dict"
  cb_last_received :: "(pystr, pystr) dict"
  cb_on_send :: bool
  cb_on_write_local :: bool
  cb_local_text :: pystr

definition new_clipboard :: clipboard where
  "new_clipboard = \<lparr>cb_enabled = False, cb_last_sent = [], cb_last_received = [], cb_on_send = False,
     cb_on_write_local = False, cb_local_text = []\<rparr>"

definition set_enabled :: "bool \<Rightarrow> (clipboard, unit) eff" where
  "set_enabled enabled =
     upd (\<lambda>s. let s1 = s\<lparr>cb_enabled := enabled\<rparr>
               in if enabled then s1 else s1\<lparr>cb_last_sent := [], cb_last_received := []\<rparr>)"

definition set_on_send_callback :: "(clipboard, unit) eff" where
  "set_on_send_callback = upd (cb_on_send_update (\<lambda>_. True))"

definition set_on_write_local_callback :: "(clipboard, unit) eff" where
  "set_on_write_local_callback = upd (cb_on_write_local_update (\<lambda>_. True))"

definition on_local_clipboard_changed :: "pystr \<Rightarrow> pystr \<Rightarrow> (clipboard, pystr option) eff" where
  "on_local_clipboard_changed text peer_id = reads (\<lambda>s.
     if \<not> cb_enabled s then ret None
     else if text = [] then ret None
     else bind (lift (utf8_encode text)) (\<lambda>b.
       if MAX_CLIPBOARD_BYTES < length b then ret None
       else if dict_get (cb_last_received s) peer_id = Some text then ret None
       else if dict_get (cb_last_sent s) peer_id = Some text then ret None
       else seq (upd (\<lambda>s. s\<lparr>cb_last_sent := dict_set peer_id text (cb_last_sent s), cb_local_text := text\<rparr>))
                (ret (if cb_on_send s then Some text else None))))"

definition on_remote_clipboard :: "pystr \<Rightarrow> pystr \<Rightarrow> (clipboard, pystr option) eff" where
  "on_remote_clipboard text peer_id = reads (\<lambda>s.
     if \<not> cb_enabled s then ret None
     else if text = [] then ret None
     else bind (lift (utf8_encode text)) (\<lambda>b.
       if MAX_CLIPBOARD_BYTES < length b then ret None
       else if dict_get (cb_last_received s) peer_id = Some text then ret None
       else seq (upd (\<lambda>s. s\<lparr>cb_last_received := dict_set peer_id text (cb_last_received s),
                            cb_last_sent := dict_set peer_id text (cb_last_sent s)\<rparr>))
                (ret (if cb_on_write_local s then Some text else None))))"

definition clear_peer_state :: "pystr \<Rightarrow> (clipboard, unit) eff" where
  "clear_peer_state peer_id =
     upd (\<lambda>s. s\<lparr>cb_last_sent := dict_pop peer_id (cb_last_sent s),
               cb_last_received := dict_pop peer_id (cb_last_received s)\<rparr>)"

section \<open>Two machines\<close>

text \<open>
  Two machines connected by a channel in each direction. The user copies a text on one of them; a
  message is delivered, and when it is written to the clipboard, the toolkit reports the change to
  the manager of that machine.
\<close>

record link =
  lk_here :: clipboard
  lk_there :: clipboard
  lk_to_there :: "pystr list"
  lk_to_here :: "pystr list"

datatype link_event = Copy_Here pystr | Copy_There pystr | Deliver_There | Deliver_Here

abbreviation peer :: pystr where "peer \<equiv> lit ''peer''"

definition copied :: "pystr \<Rightarrow> clipboard \<Rightarrow> pystr list \<times> clipboard" where
  "copied text c = (case on_local_clipboard_changed text peer c of
     (Inr (Some t), c') \<Rightarrow> ([t], c') | (_, c') \<Rightarrow> ([], c'))"

definition delivered :: "pystr \<Rightarrow> clipboard \<Rightarrow> pystr list \<times> clipboard" where
  "delivered text c = (case on_remote_clipboard text peer c of
     (Inr (Some t), c') \<Rightarrow> copied t c' | (_, c') \<Rightarrow> ([], c'))"

fun link_step :: "link_event \<Rightarrow> link \<Rightarrow> link" where
  "link_step (Copy_Here t) l =
     (let (out, c) = copied t (lk_here l) in l\<lparr>lk_here := c, lk_to_there := lk_to_there l @ out\<rparr>)"
| "link_step (Copy_There t) l =
     (let (out, c) = copied t (lk_there l) in l\<lparr>lk_there := c, lk_to_here := lk_to_here l @ out\<rparr>)"
| "link_step Deliver_There l =
     (case lk_to_there l of [] \<Rightarrow> l
      | t # ts \<Rightarrow> let (out, c) = delivered t (lk_there l)
                 in l\<lparr>lk_there := c, lk_to_there := ts, lk_to_here := lk_to_here l @ out\<rparr>)"
| "link_step Deliver_Here l =
     (case lk_to_here l of [] \<Rightarrow> l
      | t # ts \<Rightarrow> let (out, c) = delivered t (lk_here l)
                 in l\<lparr>lk_here := c, lk_to_here := ts, lk_to_there := lk_to_there l @ out\<rparr>)"

definition in_flight :: "link \<Rightarrow> nat" where
  "in_flight l = length (lk_to_there l) + length (lk_to_here l)"

fun is_copy :: "link_event \<Rightarrow> bool" where
  "is_copy (Copy_Here _) = True" | "is_copy (Copy_There _) = True" | "is_copy _ = False"

lemma on_remote_written:
  assumes "on_remote_clipboard text p c = (Inr (Some t), c')"
  shows "t = text \<and> dict_get (cb_last_received c') p = Some text \<and> cb_enabled c'"
  using assms
  by (auto simp: on_remote_clipboard_def bind_apply dict_get_set split: if_splits sum.splits)

lemma on_local_received:
  "dict_get (cb_last_received c) p = Some text \<Longrightarrow> \<exists>r. on_local_clipboard_changed text p c = (r, c) \<and> (r = Inr None \<or> (\<exists>e. r = Inl e))"
  by (auto simp: on_local_clipboard_changed_def bind_apply split: sum.splits)

lemma delivered_silent: "fst (delivered text c) = []"
proof (cases "on_remote_clipboard text peer c")
  case (Pair r c')
  show ?thesis
  proof (cases "\<exists>t. r = Inr (Some t)")
    case True
    then obtain t where "r = Inr (Some t)" by blast
    with Pair on_remote_written [of "text" peer c t c'] on_local_received [of c' peer "text"] show ?thesis
      by (auto simp: delivered_def copied_def)
  next
    case False
    with Pair show ?thesis by (auto simp: delivered_def split: sum.split option.split)
  qed
qed

lemma length_copied: "length (fst (copied text c)) \<le> 1"
  by (simp add: copied_def split: prod.split sum.split option.split)

lemma in_flight_step:
  "in_flight (link_step e l) \<le> (if is_copy e then in_flight l + 1 else in_flight l)"
proof (cases e)
  case (Copy_Here t)
  then show ?thesis using length_copied [of t "lk_here l"] by (auto simp: in_flight_def split: prod.split)
next
  case (Copy_There t)
  then show ?thesis using length_copied [of t "lk_there l"] by (auto simp: in_flight_def split: prod.split)
next
  case Deliver_There
  then show ?thesis using delivered_silent [of "hd (lk_to_there l)" "lk_there l"]
    by (auto simp: in_flight_def split: list.split prod.split)
next
  case Deliver_Here
  then show ?thesis using delivered_silent [of "hd (lk_to_here l)" "lk_here l"]
    by (auto simp: in_flight_def split: list.split prod.split)
qed


text \<open>
  what is sent. \<^verbatim>\<open>on_local_clipboard_changed\<close> hands a text to the peer exactly when sync is enabled,
  a sender is registered, the text is not empty, encodes to at most 512 KiB and differs from what
  was last received from and last sent to that peer; it then remembers it, so the same text is not
  sent twice in a row.
\<close>

theorem clipboard_sent_iff:
  "((\<exists>t c'. on_local_clipboard_changed text p c = (Inr (Some t), c')) \<longleftrightarrow>
     cb_enabled c \<and> cb_on_send c \<and> text \<noteq> [] \<and> list_all scalar text \<and> length (utf8_bytes text) \<le> MAX_CLIPBOARD_BYTES
     \<and> dict_get (cb_last_received c) p \<noteq> Some text \<and> dict_get (cb_last_sent c) p \<noteq> Some text)
    \<and> on_local_clipboard_changed text p (snd (on_local_clipboard_changed text p c)) \<noteq> (Inr (Some t), c')"
proof
  show "(\<exists>t c'. on_local_clipboard_changed text p c = (Inr (Some t), c')) \<longleftrightarrow>
     cb_enabled c \<and> cb_on_send c \<and> text \<noteq> [] \<and> list_all scalar text \<and> length (utf8_bytes text) \<le> MAX_CLIPBOARD_BYTES
     \<and> dict_get (cb_last_received c) p \<noteq> Some text \<and> dict_get (cb_last_sent c) p \<noteq> Some text"
    by (auto simp: on_local_clipboard_changed_def bind_apply utf8_encode_def list_all_iff)
  show "on_local_clipboard_changed text p (snd (on_local_clipboard_changed text p c)) \<noteq> (Inr (Some t), c')"
    by (auto simp: on_local_clipboard_changed_def bind_apply dict_get_set split: sum.splits if_splits)
qed

text \<open>
  A lost update. After a text was received, another one copied here and sent, receiving the
  first text again is taken for a duplicate: nothing is written and the machines end up with
  different clipboards.
\<close>

theorem clipboard_lost_update:
  assumes "cb_enabled c" and "cb_on_write_local c" and "cb_on_send c" and "x \<noteq> y" and "x \<noteq> []" and "y \<noteq> []"
    and "list_all scalar x" and "list_all scalar y"
    and "length (utf8_bytes x) \<le> MAX_CLIPBOARD_BYTES" and "length (utf8_bytes y) \<le> MAX_CLIPBOARD_BYTES"
    and "dict_get (cb_last_received c) p = None"
  shows "\<exists>c1 c2. on_remote_clipboard x p c = (Inr (Some x), c1) \<and> on_local_clipboard_changed y p c1 = (Inr (Some y), c2)
    \<and> on_remote_clipboard x p c2 = (Inr None, c2)"
  using assms
  by (simp add: on_remote_clipboard_def on_local_clipboard_changed_def bind_apply utf8_encode_def dict_get_set list_all_iff)

theorem clipboard_lost_update_witness:
  "\<exists>c1 c2. on_remote_clipboard (lit ''x'') peer (new_clipboard\<lparr>cb_enabled := True, cb_on_send := True, cb_on_write_local := True\<rparr>) = (Inr (Some (lit ''x'')), c1)
    \<and> on_local_clipboard_changed (lit ''y'') peer c1 = (Inr (Some (lit ''y'')), c2)
    \<and> on_remote_clipboard (lit ''x'') peer c2 = (Inr None, c2)"
  by (rule clipboard_lost_update)
    (simp_all add: new_clipboard_def scalar_def utf8_bytes_def utf8_cp_def MAX_CLIPBOARD_BYTES_def)

end
