(* ===== verification/Identity.thy ===== *)
theory Identity
  imports Filesystem
begin

text \<open>
  \<^verbatim>\<open>IdentityManager\<close> of \<^verbatim>\<open>core/identity.py\<close>: base64url without padding (\<^verbatim>\<open>base64.urlsafe_b64encode\<close>
  and the lenient \<^verbatim>\<open>binascii.a2b_base64\<close>), signatures, and the key file. Ed25519 and the PEM format
  of the \<^verbatim>\<open>cryptography\<close> package are a parameter.
\<close>

section \<open>Base64\<close>

definition b64_char :: "nat \<Rightarrow> nat" where
  "b64_char v = (if v < 26 then 65 + v else if v < 52 then 71 + v else if v < 62 then v - 4 else if v = 62 then 45 else 95)"

text \<open>\<^verbatim>\<open>urlsafe_b64decode\<close> maps \<^verbatim>\<open>-\<close> and \<^verbatim>\<open>_\<close> to \<^verbatim>\<open>+\<close> and \<^verbatim>\<open>/\<close>, so it reads both spellings.\<close>

definition b64_val :: "nat \<Rightarrow> nat option" where
  "b64_val c = (if 65 \<le> c \<and> c \<le> 90 then Some (c - 65) else if 97 \<le> c \<and> c \<le> 122 then Some (c - 71)
     else if 48 \<le> c \<and> c \<le> 57 then Some (c + 4) else if c = 43 \<or> c = 45 then Some 62
     else if c = 47 \<or> c = 95 then Some 63 else None)"

text \<open>\<^verbatim>\<open>urlsafe_b64encode(b).rstrip(b"=").decode()\<close>.\<close>

fun b64url_encode :: "bytes \<Rightarrow> pystr" where
  "b64url_encode [] = []"
| "b64url_encode [a] = [b64_char (unat a div 4), b64_char (unat a mod 4 * 16)]"
| "b64url_encode [a, b] = [b64_char (unat a div 4), b64_char (unat a mod 4 * 16 + unat b div 16), b64_char (unat b mod 16 * 4)]"
| "b64url_encode (a # b # c # r) =
     b64_char (unat a div 4) # b64_char (unat a mod 4 * 16 + unat b div 16)
     # b64_char (unat b mod 16 * 4 + unat c div 64) # b64_char (unat c mod 64) # b64url_encode r"

text \<open>
  The decoder: the position in the group of four, the bits left over and the padding seen. It skips
  characters outside the alphabet, stops at a complete padding, and refuses an incomplete group.
\<close>

fun a2b_base64 :: "nat \<Rightarrow> nat \<Rightarrow> nat \<Rightarrow> pystr \<Rightarrow> bytes res" where
  "a2b_base64 q left pads [] = (if q = 0 then Inr [] else Inl ValueError)"
| "a2b_base64 q left pads (ch # cs) =
     (if ch = 61
      then (if 2 \<le> q then (if 4 \<le> q + Suc pads then Inr [] else a2b_base64 q left (Suc pads) cs)
            else a2b_base64 q left pads cs)
      else case b64_val ch of
             None \<Rightarrow> a2b_base64 q left pads cs
           | Some v \<Rightarrow>
               if q = 0 then a2b_base64 1 v 0 cs
               else if q = 1 then res_bind (a2b_base64 2 (v mod 16) 0 cs) (\<lambda>bs. Inr (word_of_nat (left * 4 + v div 16) # bs))
               else if q = 2 then res_bind (a2b_base64 3 (v mod 4) 0 cs) (\<lambda>bs. Inr (word_of_nat (left * 16 + v div 4) # bs))
               else res_bind (a2b_base64 0 0 0 cs) (\<lambda>bs. Inr (word_of_nat (left * 64 + v) # bs)))"

text \<open>A non-ASCII text raises \<^verbatim>\<open>ValueError\<close>.\<close>

definition urlsafe_b64decode :: "pystr \<Rightarrow> bytes res" where
  "urlsafe_b64decode s = (if \<exists>c\<in>set s. 128 \<le> c then Inl ValueError else a2b_base64 0 0 0 s)"

definition decode_public_key_b64 :: "pystr \<Rightarrow> bytes res" where
  "decode_public_key_b64 b64_str =
     (let padding = 4 - length b64_str mod 4
      in urlsafe_b64decode (if padding \<noteq> 4 then b64_str @ replicate padding 61 else b64_str))"

section \<open>Keys and signatures\<close>

text \<open>The public key of a private key, signing, verification (which also fails on malformed keys and
  signatures), and the PEM text of a private key.\<close>

record signatures =
  ed_public :: "bytes \<Rightarrow> bytes"
  ed_sign :: "bytes \<Rightarrow> bytes \<Rightarrow> bytes"
  ed_verify :: "bytes \<Rightarrow> bytes \<Rightarrow> bytes \<Rightarrow> bool"
  pem_dump :: "bytes \<Rightarrow> bytes"
  pem_load :: "bytes \<Rightarrow> bytes res"

text \<open>Documented behaviour: public keys have 32 bytes, a signature verifies under the key that made
  it, and a dumped key is loaded back.\<close>

definition signatures_ok :: "signatures \<Rightarrow> bool" where
  "signatures_ok sg \<longleftrightarrow>
     (\<forall>k. length (ed_public sg k) = 32) \<and> (\<forall>k m. ed_verify sg (ed_public sg k) m (ed_sign sg k m))
     \<and> (\<forall>k. pem_load sg (pem_dump sg k) = Inr k)"

record identity =
  id_key_file :: path
  id_private_key :: bytes
  id_public_key_bytes :: bytes

definition public_key_b64 :: "identity \<Rightarrow> pystr" where
  "public_key_b64 i = b64url_encode (id_public_key_bytes i)"

definition sign :: "signatures \<Rightarrow> identity \<Rightarrow> bytes \<Rightarrow> bytes" where
  "sign sg i message = ed_sign sg (id_private_key i) message"

definition verify :: "signatures \<Rightarrow> bytes \<Rightarrow> bytes \<Rightarrow> bytes \<Rightarrow> bool" where
  "verify sg public_key message signature = ed_verify sg public_key message signature"

section \<open>The key file\<close>

text \<open>\<open>fresh\<close> is the key \<^verbatim>\<open>Ed25519PrivateKey.generate()\<close> returns. File modes are not modelled.\<close>

definition load_key :: "signatures \<Rightarrow> os_env \<Rightarrow> path \<Rightarrow> fs \<Rightarrow> bytes res" where
  "load_key sg env p fs = res_bind (read_file env p fs) (pem_load sg)"

definition generate_and_save :: "signatures \<Rightarrow> os_env \<Rightarrow> bytes \<Rightarrow> path \<Rightarrow> (fs, bytes) eff" where
  "generate_and_save sg env fresh p =
     seq (mkdir_p env (butlast p))
    (bind (open_wb env p) (\<lambda>h.
       if os_write_ok env then seq (upd (append_file p (pem_dump sg fresh))) (ret fresh)
       else raise OSError))"

definition load_or_generate :: "signatures \<Rightarrow> os_env \<Rightarrow> bytes \<Rightarrow> path \<Rightarrow> (fs, bytes) eff" where
  "load_or_generate sg env fresh p = reads (\<lambda>fs.
     if exists_path fs p
     then (case load_key sg env p fs of
             Inr k \<Rightarrow> ret k
           | Inl _ \<Rightarrow> generate_and_save sg env fresh p)
     else generate_and_save sg env fresh p)"

definition new_identity :: "signatures \<Rightarrow> os_env \<Rightarrow> bytes \<Rightarrow> path \<Rightarrow> (fs, identity) eff" where
  "new_identity sg env fresh p =
     bind (load_or_generate sg env fresh p) (\<lambda>k.
       ret \<lparr>id_key_file = p, id_private_key = k, id_public_key_bytes = ed_public sg k\<rparr>)"

section \<open>Base64 is restored\<close>

lemma b64_char_ascii: "v < 64 \<Longrightarrow> b64_char v < 128"
  by (auto simp: b64_char_def)

lemma b64_val_char: "v < 64 \<Longrightarrow> b64_val (b64_char v) = Some v"
  by (auto simp: b64_char_def b64_val_def)

lemma b64_char_not_pad: "b64_char v \<noteq> 61 \<or> v = 65"
  by (auto simp: b64_char_def)

lemma a2b_step:
  assumes "v < 64"
  shows "a2b_base64 0 l p (b64_char v # cs) = a2b_base64 1 v 0 cs"
    "a2b_base64 1 l p (b64_char v # cs) = res_bind (a2b_base64 2 (v mod 16) 0 cs) (\<lambda>bs. Inr (word_of_nat (l * 4 + v div 16) # bs))"
    "a2b_base64 2 l p (b64_char v # cs) = res_bind (a2b_base64 3 (v mod 4) 0 cs) (\<lambda>bs. Inr (word_of_nat (l * 16 + v div 4) # bs))"
    "a2b_base64 3 l p (b64_char v # cs) = res_bind (a2b_base64 0 0 0 cs) (\<lambda>bs. Inr (word_of_nat (l * 64 + v) # bs))"
  using b64_char_not_pad [of v] b64_val_char [OF assms] assms by simp_all

lemma sextets:
  "unat (a :: byte) div 4 < 64" "unat a mod 4 * 16 < 64" "unat a mod 4 * 16 + unat (b :: byte) div 16 < 64"
  "unat b mod 16 * 4 < 64" "unat b mod 16 * 4 + unat (c :: byte) div 64 < 64" "unat c mod 64 < 64"
  using unat_byte_less [of a] unat_byte_less [of b] unat_byte_less [of c] by auto

lemma regroup:
  "unat a div 4 * 4 + (unat (a :: byte) mod 4 * 16) div 16 = unat a"
  "unat a div 4 * 4 + (unat a mod 4 * 16 + unat (b :: byte) div 16) div 16 = unat a"
  "(unat a mod 4 * 16 + unat b div 16) mod 16 * 16 + (unat b mod 16 * 4) div 4 = unat b"
  "(unat a mod 4 * 16 + unat b div 16) mod 16 * 16 + (unat b mod 16 * 4 + unat (c :: byte) div 64) div 4 = unat b"
  "(unat b mod 16 * 4 + unat c div 64) mod 4 * 64 + unat c mod 64 = unat c"
proof -
  have b: "unat b div 16 < 16" and c: "unat c div 64 < 4" using unat_byte_less [of b] unat_byte_less [of c] by auto
  show "unat a div 4 * 4 + (unat a mod 4 * 16) div 16 = unat a" by simp
  have "(unat a mod 4 * 16 + unat b div 16) div 16 = unat a mod 4" using b by simp
  then show "unat a div 4 * 4 + (unat a mod 4 * 16 + unat b div 16) div 16 = unat a" by simp
  have m: "(unat a mod 4 * 16 + unat b div 16) mod 16 = unat b div 16" using b by simp
  show "(unat a mod 4 * 16 + unat b div 16) mod 16 * 16 + (unat b mod 16 * 4) div 4 = unat b" unfolding m by simp
  have "(unat b mod 16 * 4 + unat c div 64) div 4 = unat b mod 16" using c by simp
  then show "(unat a mod 4 * 16 + unat b div 16) mod 16 * 16 + (unat b mod 16 * 4 + unat c div 64) div 4 = unat b"
    unfolding m by simp
  have "(unat b mod 16 * 4 + unat c div 64) mod 4 = unat c div 64" using c by simp
  then show "(unat b mod 16 * 4 + unat c div 64) mod 4 * 64 + unat c mod 64 = unat c" by simp
qed

lemma a2b_encode:
  "a2b_base64 0 l p (b64url_encode bs @ replicate ((4 - length (b64url_encode bs) mod 4) mod 4) 61) = Inr bs"
proof (induction bs arbitrary: l p rule: b64url_encode.induct)
  case (4 a b c r)
  show ?case
    unfolding b64url_encode.simps append_Cons a2b_step(1) [OF sextets(1)] a2b_step(2) [OF sextets(3)]
      a2b_step(3) [OF sextets(5)] a2b_step(4) [OF sextets(6)] regroup
    using "4" [of 0 0] by simp
next
  case (2 a)
  have r: "replicate 2 (61 :: nat) = [61, 61]" by (simp add: numeral_2_eq_2)
  show ?case
    unfolding b64url_encode.simps append_Cons a2b_step(1) [OF sextets(1)] a2b_step(2) [OF sextets(2)] regroup
    by (simp add: r)
next
  case (3 a b)
  show ?case
    unfolding b64url_encode.simps append_Cons a2b_step(1) [OF sextets(1)] a2b_step(2) [OF sextets(3)]
      a2b_step(3) [OF sextets(4)] regroup
    by simp
qed simp

lemma b64url_ascii: "c \<in> set (b64url_encode bs) \<Longrightarrow> c < 128"
  by (induction bs rule: b64url_encode.induct) (auto intro!: b64_char_ascii simp: sextets)

lemma decode_public_key_encode: "decode_public_key_b64 (b64url_encode bs) = Inr bs"
proof -
  let ?e = "b64url_encode bs"
  have "length ?e mod 4 < 4" by simp
  then have p: "(if 4 - length ?e mod 4 \<noteq> 4 then ?e @ replicate (4 - length ?e mod 4) 61 else ?e)
      = ?e @ replicate ((4 - length ?e mod 4) mod 4) 61" by auto
  have "c < 128" if "c \<in> set (?e @ replicate n 61)" for c n
    using that b64url_ascii [of c bs] by (auto split: if_splits)
  then have "\<not> (\<exists>c\<in>set (?e @ replicate ((4 - length ?e mod 4) mod 4) 61). 128 \<le> c)"
    by (meson not_le)
  then show ?thesis
    unfolding decode_public_key_b64_def Let_def p urlsafe_b64decode_def using a2b_encode [of 0 0 bs] by simp
qed

text \<open>
  Keys travel as text without loss. Decoding the base64url text of any key gives the key back, so
  different keys have different texts, and the texts are ASCII.
\<close>

theorem public_key_text:
  "decode_public_key_b64 (public_key_b64 i) = Inr (id_public_key_bytes i)
    \<and> (public_key_b64 i = public_key_b64 j \<longleftrightarrow> id_public_key_bytes i = id_public_key_bytes j)
    \<and> list_all (\<lambda>c. c < 128) (public_key_b64 i)"
proof -
  have "public_key_b64 i = public_key_b64 j \<longleftrightarrow> id_public_key_bytes i = id_public_key_bytes j"
    unfolding public_key_b64_def by (metis decode_public_key_encode sum.inject(2))
  moreover have "list_all (\<lambda>c. c < 128) (public_key_b64 i)"
    using b64url_ascii by (auto simp: list_all_iff public_key_b64_def)
  ultimately show ?thesis using decode_public_key_encode by (simp add: public_key_b64_def)
qed

section \<open>The identity is kept\<close>

lemma generate_and_save_result:
  assumes "generate_and_save sg env fresh p fs = (Inr k, fs')"
  shows "k = fresh \<and> fs' p = Some (File (pem_dump sg fresh))"
  using assms
  by (auto simp: generate_and_save_def seq_apply bind_apply open_wb_def append_file_def split: prod.splits sum.splits if_splits)


text \<open>A toy instance, without any security, that satisfies the documented equations.\<close>

definition toy_signatures :: signatures where
  "toy_signatures = \<lparr>ed_public = (\<lambda>k. take 32 (k @ replicate 32 0)), ed_sign = (\<lambda>k m. take 32 (k @ replicate 32 0)),
     ed_verify = (\<lambda>pk m s. pk = s), pem_dump = id, pem_load = Inr\<rparr>"

lemma toy_signatures_ok: "signatures_ok toy_signatures"
  by (simp add: signatures_ok_def toy_signatures_def min_def)


text \<open>
  A read error destroys the identity. When the key file exists but cannot be read at a start, a
  new key replaces it on disk, and the device has another identity from then on.
\<close>

theorem identity_lost:
  assumes "signatures_ok sg" and "fs p = Some (File (pem_dump sg k))" and "is_dir fs (butlast p)"
    and "\<not> os_read_ok env" and "os_open_ok env p" and "os_write_ok env" and "mkdir_p env (butlast p) fs = (Inr (), fs)" and "p \<noteq> []"
    and "os_read_ok env'"
  shows "\<exists>i fs'. new_identity sg env fresh p fs = (Inr i, fs') \<and> id_private_key i = fresh
    \<and> new_identity sg env' fresh' p fs' = (Inr i, fs')"
proof -
  let ?fs' = "fs(p \<mapsto> File (pem_dump sg fresh))"
  have "load_or_generate sg env fresh p fs = (Inr fresh, ?fs')"
    using assms
    by (simp add: load_or_generate_def load_key_def exists_path_def read_file_def generate_and_save_def seq_apply
        bind_apply open_wb_def append_file_def is_dir_def)
  moreover have "load_or_generate sg env' fresh' p ?fs' = (Inr fresh, ?fs')"
    using assms(1,9) by (simp add: load_or_generate_def load_key_def exists_path_def read_file_def signatures_ok_def)
  ultimately show ?thesis by (simp add: new_identity_def bind_apply)
qed

theorem identity_lost_witness:
  "\<exists>i fs'. new_identity toy_signatures (calm\<lparr>os_read_ok := False\<rparr>) [6] [lit ''k'', lit ''id'']
      [[lit ''k''] \<mapsto> Dir, [lit ''k'', lit ''id''] \<mapsto> File [5]] = (Inr i, fs')
    \<and> id_private_key i = [6] \<and> new_identity toy_signatures calm [7] [lit ''k'', lit ''id''] fs' = (Inr i, fs')"
  by (rule identity_lost [OF toy_signatures_ok, of _ _ "[5]"])
    (simp_all add: toy_signatures_def calm_def is_dir_def mkdir_p_def del: lit_simps)

end
