(* ===== verification/Handshake.thy ===== *)
theory Handshake
  imports Channel Identity Db Models Sha256
begin

text \<open>
  \<^verbatim>\<open>FerryService._run_handshake\<close> of \<^verbatim>\<open>core/service.py\<close>: the plaintext exchange of keys, the mutual
  authentication over the transcript, the decision whether the peer is trusted, and what happens
  on any failure. The two messages a side receives are arguments, as results: a timeout, a closed
  connection or a malformed frame is an exception. The task being cancelled is not modelled.
\<close>

section \<open>State\<close>

text \<open>The peer's device id and name are stored as they stand in its payload, without conversion.\<close>

record peer_session =
  ps_session :: session
  ps_remote_addr :: pystr
  ps_remote_device_id :: json
  ps_remote_device_name :: json
  ps_remote_static_pub_b64 :: "pystr option"

text \<open>One connection: the peer object, the database, the frames written to the socket, whether the
  session is in \<^verbatim>\<open>_active_sessions\<close>, the states the session listeners saw, and the pairing requests
  (address, name, code) broadcast to the user interfaces.\<close>

record connection =
  cn_ps :: peer_session
  cn_db :: db
  cn_written :: "bytes list"
  cn_active :: bool
  cn_notified :: "session_state list"
  cn_prompts :: "(pystr \<times> json \<times> pystr) list"

text \<open>What the side brings: its identity, its configuration, the random values, the clock, and the
  default message id and timestamp of each message.\<close>

record local_side =
  ls_identity :: identity
  ls_device_id :: pystr
  ls_device_name :: pystr
  ls_eph_private :: bytes
  ls_nonce :: bytes
  ls_now :: int
  ls_stamp :: "message_type \<Rightarrow> pystr \<times> int"

definition new_peer_session :: "session \<Rightarrow> pystr \<Rightarrow> peer_session" where
  "new_peer_session s addr = \<lparr>ps_session = s, ps_remote_addr = addr, ps_remote_device_id = JNull,
     ps_remote_device_name = JNull, ps_remote_static_pub_b64 = None\<rparr>"

definition new_connection :: "db \<Rightarrow> bool \<Rightarrow> pystr \<Rightarrow> connection" where
  "new_connection d is_initiator addr =
     \<lparr>cn_ps = new_peer_session (new_session is_initiator) addr, cn_db = d, cn_written = [], cn_active = False,
      cn_notified = [], cn_prompts = []\<rparr>"

definition on_session :: "(session, 'a) eff \<Rightarrow> (connection, 'a) eff" where
  "on_session m = (\<lambda>c. case m (ps_session (cn_ps c)) of (r, s') \<Rightarrow> (r, c\<lparr>cn_ps := (cn_ps c)\<lparr>ps_session := s'\<rparr>\<rparr>))"

definition on_db :: "(db, 'a) eff \<Rightarrow> (connection, 'a) eff" where
  "on_db m = (\<lambda>c. case m (cn_db c) of (r, d') \<Rightarrow> (r, c\<lparr>cn_db := d'\<rparr>))"

definition write_frame :: "bytes \<Rightarrow> (connection, unit) eff" where
  "write_frame frame = upd (\<lambda>c. c\<lparr>cn_written := cn_written c @ [frame]\<rparr>)"

definition send_plain :: "platform \<Rightarrow> pystr \<times> int \<Rightarrow> message_type \<Rightarrow> json \<Rightarrow> (connection, unit) eff" where
  "send_plain pf stamp ty pl = bind (lift (encode_frame pf (make_envelope (fst stamp) (snd stamp) ty pl))) write_frame"

text \<open>\<^verbatim>\<open>send_encrypted\<close> up to the frame that is written.\<close>

definition encrypt_message :: "crypto \<Rightarrow> platform \<Rightarrow> pystr \<times> int \<Rightarrow> message_type \<Rightarrow> json \<Rightarrow> (session, bytes) eff" where
  "encrypt_message cr pf stamp ty pl = reads (\<lambda>s.
     if fs_state s \<in> {S_DISCONNECTED, S_CONNECTING, S_HANDSHAKING, S_FAILED, S_CLOSING} then raise RuntimeError
     else bind (lift (envelope_to_json pf (make_envelope (fst stamp) (snd stamp) ty pl))) (\<lambda>js.
          bind (lift (utf8_encode js)) (encrypt_frame cr)))"

definition notify_session_change :: "session_state \<Rightarrow> (connection, unit) eff" where
  "notify_session_change st = upd (\<lambda>c. c\<lparr>cn_notified := cn_notified c @ [st]\<rparr>)"

section \<open>Values from the peer\<close>

text \<open>A JSON value as a parameter compared with or stored in a \<^verbatim>\<open>TEXT\<close> column: numbers become text,
  \<^verbatim>\<open>None\<close> is \<^verbatim>\<open>NULL\<close>, containers are refused.\<close>

fun sql_param :: "platform \<Rightarrow> json \<Rightarrow> pystr option res" where
  "sql_param pf (JStr s) = Inr (Some s)"
| "sql_param pf (JInt n) = res_bind (bind_value (SqlInt n)) (\<lambda>_. Inr (Some (int_str n)))"
| "sql_param pf (JBool b) = Inr (Some (if b then lit ''1'' else lit ''0''))"
| "sql_param pf (JFloat l) = Inr (Some (flt_str pf l))"
| "sql_param pf JNull = Inr None"
| "sql_param pf _ = Inl TypeError"

definition lookup_peer :: "platform \<Rightarrow> json \<Rightarrow> (connection, trusted_device option) eff" where
  "lookup_peer pf key =
     bind (lift (sql_param pf key)) (\<lambda>p. case p of None \<Rightarrow> ret None | Some k \<Rightarrow> on_db (get_device_by_public_key k))"

fun decode_key_json :: "json \<Rightarrow> bytes res" where
  "decode_key_json (JStr s) = decode_public_key_b64 s"
| "decode_key_json _ = Inl TypeError"

text \<open>\<^verbatim>\<open>value or default\<close> for a value stored in a \<^verbatim>\<open>TEXT\<close> column.\<close>

definition text_or :: "platform \<Rightarrow> json \<Rightarrow> pystr \<Rightarrow> pystr res" where
  "text_or pf v dflt =
     (if py_bool pf v then res_bind (sql_param pf v) (\<lambda>p. case p of Some s \<Rightarrow> Inr s | None \<Rightarrow> Inl TypeError) else Inr dflt)"

section \<open>The messages\<close>

definition init_payload :: "local_side \<Rightarrow> handshake_data \<Rightarrow> bool \<Rightarrow> json" where
  "init_payload ls hs paired = JObj
     [(lit ''device_id'', JStr (ls_device_id ls)), (lit ''device_name'', JStr (ls_device_name ls)),
      (lit ''device_type'', JStr (lit ''desktop'')), (lit ''public_key'', JStr (public_key_b64 (ls_identity ls))),
      (lit ''ephemeral_key'', JStr (b64url_encode (hs_ephemeral_pub_key hs))),
      (lit ''nonce'', JStr (b64url_encode (hs_nonce hs))), (lit ''is_paired'', JBool paired)]"

definition auth_payload :: "signatures \<Rightarrow> local_side \<Rightarrow> bytes \<Rightarrow> json" where
  "auth_payload sg ls transcript = JObj
     [(lit ''signature'', JStr (b64url_encode (sign sg (ls_identity ls) transcript))),
      (lit ''transcript_hash'', JStr (b64url_encode (sha256 transcript) @ [61]))]"

text \<open>Receiving a message of the expected type; its payload.\<close>

definition expect :: "message_type \<Rightarrow> envelope res \<Rightarrow> (connection, json) eff" where
  "expect ty env = bind (lift env) (\<lambda>e. if ev_type e = JStr (message_value ty) then ret (ev_payload e) else raise ValueError)"

section \<open>The steps\<close>

text \<open>Step 1. As initiator the peer's key is not known before the connection.\<close>

definition exchange_init :: "crypto \<Rightarrow> platform \<Rightarrow> local_side \<Rightarrow> bool \<Rightarrow> envelope res \<Rightarrow> (connection, json) eff" where
  "exchange_init cr pf ls is_initiator received =
     bind (on_session (build_local_handshake cr (ls_eph_private ls) (ls_nonce ls) (id_public_key_bytes (ls_identity ls)))) (\<lambda>hs.
       if is_initiator
       then bind (reads (\<lambda>c. case ps_remote_static_pub_b64 (cn_ps c) of
                    Some k \<Rightarrow> if k = [] then ret None else on_db (get_device_by_public_key k)
                  | None \<Rightarrow> ret None)) (\<lambda>existing.
            seq (send_plain pf (ls_stamp ls HANDSHAKE_INIT) HANDSHAKE_INIT (init_payload ls hs (existing \<noteq> None)))
                (expect HANDSHAKE_RESPONSE received))
       else bind (expect HANDSHAKE_INIT received) (\<lambda>remote_payload.
            bind (lift (obj_get remote_payload (lit ''public_key'') (JStr []))) (\<lambda>key.
            bind (lookup_peer pf key) (\<lambda>existing.
            seq (send_plain pf (ls_stamp ls HANDSHAKE_RESPONSE) HANDSHAKE_RESPONSE (init_payload ls hs (existing \<noteq> None)))
                (ret remote_payload)))))"

definition store_remote :: "json \<Rightarrow> (connection, unit) eff" where
  "store_remote remote_payload =
     bind (lift (obj_get remote_payload (lit ''public_key'') (JStr []))) (\<lambda>static_b64.
     bind (lift (obj_get remote_payload (lit ''ephemeral_key'') (JStr []))) (\<lambda>eph_b64.
     bind (lift (obj_get remote_payload (lit ''nonce'') (JStr []))) (\<lambda>nonce_b64.
     bind (lift (decode_key_json static_b64)) (\<lambda>static_bytes.
     bind (lift (decode_key_json eph_b64)) (\<lambda>eph_bytes.
     bind (lift (decode_key_json nonce_b64)) (\<lambda>nonce_bytes.
     bind (lift (obj_get remote_payload (lit ''device_id'') (JStr []))) (\<lambda>dev_id.
     bind (lift (obj_get remote_payload (lit ''device_name'') (JStr []))) (\<lambda>dev_name.
     seq (upd (\<lambda>c. c\<lparr>cn_ps := (cn_ps c)\<lparr>ps_remote_device_id := dev_id, ps_remote_device_name := dev_name,
            ps_remote_static_pub_b64 := (case static_b64 of JStr s \<Rightarrow> Some s | _ \<Rightarrow> None)\<rparr>\<rparr>))
         (on_session (accept_remote_handshake
            \<lparr>hs_static_pub_key = static_bytes, hs_ephemeral_pub_key = eph_bytes, hs_nonce = nonce_bytes\<rparr>))))))))))"

text \<open>Step 3: the signature of the peer over the transcript, still in base64.\<close>

definition exchange_auth :: "signatures \<Rightarrow> platform \<Rightarrow> local_side \<Rightarrow> bool \<Rightarrow> envelope res \<Rightarrow> bytes \<Rightarrow> (connection, json) eff" where
  "exchange_auth sg pf ls is_initiator received transcript =
     (if is_initiator
      then seq (send_plain pf (ls_stamp ls AUTH_CHALLENGE) AUTH_CHALLENGE (auth_payload sg ls transcript))
          (bind (expect AUTH_RESPONSE received) (\<lambda>pl. lift (obj_get pl (lit ''signature'') (JStr []))))
      else bind (expect AUTH_CHALLENGE received) (\<lambda>pl.
           bind (lift (obj_get pl (lit ''signature'') (JStr []))) (\<lambda>sig.
           seq (send_plain pf (ls_stamp ls AUTH_RESPONSE) AUTH_RESPONSE (auth_payload sg ls transcript)) (ret sig))))"

definition send_capabilities :: "crypto \<Rightarrow> platform \<Rightarrow> local_side \<Rightarrow> (connection, unit) eff" where
  "send_capabilities cr pf ls =
     catch (bind (on_session (encrypt_message cr pf (ls_stamp ls CAPABILITIES) CAPABILITIES
              (JObj [(lit ''capabilities'', JArr [JStr (lit ''notify.v1'')])]))) write_frame)
           (\<lambda>_. ret ())"

definition finish_trusted :: "crypto \<Rightarrow> platform \<Rightarrow> local_side \<Rightarrow> trusted_device \<Rightarrow> (connection, unit) eff" where
  "finish_trusted cr pf ls existing = reads (\<lambda>c.
     bind (lift (text_or pf (ps_remote_device_id (cn_ps c)) (td_device_id existing))) (\<lambda>new_id.
     bind (lift (text_or pf (ps_remote_device_name (cn_ps c)) (td_device_name existing))) (\<lambda>new_name.
     seq (on_db (add_or_update_device
            \<lparr>td_device_id = new_id, td_device_name = new_name, td_public_key = td_public_key existing,
             td_identity_public_key_b64 = td_identity_public_key_b64 existing,
             td_paired_at = td_paired_at existing, td_last_seen = ls_now ls\<rparr>))
    (seq (on_session (session_transition S_ESTABLISHED))
    (seq (upd (cn_active_update (\<lambda>_. True)))
    (seq (notify_session_change S_ESTABLISHED)
         (send_capabilities cr pf ls)))))))"

definition finish_unknown :: "platform \<Rightarrow> (connection, unit) eff" where
  "finish_unknown pf =
     seq (on_session (session_transition S_PAIRING))
    (seq (upd (cn_active_update (\<lambda>_. True)))
    (seq (notify_session_change S_PAIRING)
         (upd (\<lambda>c. c\<lparr>cn_prompts := cn_prompts c @
            [(ps_remote_addr (cn_ps c),
              if py_bool pf (ps_remote_device_name (cn_ps c)) then ps_remote_device_name (cn_ps c)
              else JStr (ps_remote_addr (cn_ps c)),
              case sas_code (ps_session (cn_ps c)) of Some sas \<Rightarrow> sas | None \<Rightarrow> [])]\<rparr>))))"

text \<open>Everything up to the verified signature and the lookup of the peer's key.\<close>

definition authenticate_steps ::
    "crypto \<Rightarrow> signatures \<Rightarrow> platform \<Rightarrow> local_side \<Rightarrow> bool \<Rightarrow> envelope res \<Rightarrow> envelope res
       \<Rightarrow> (connection, trusted_device option) eff" where
  "authenticate_steps cr sg pf ls is_initiator hello auth =
     seq (on_session (session_transition S_HANDSHAKING))
    (bind (exchange_init cr pf ls is_initiator hello) (\<lambda>remote_payload.
     seq (store_remote remote_payload)
    (bind (on_session (derive_keys cr)) (\<lambda>_.
     seq (on_session (session_transition S_AUTHENTICATING))
    (bind (reads (\<lambda>c. lift (build_auth_transcript (ps_session (cn_ps c))))) (\<lambda>transcript.
     bind (exchange_auth sg pf ls is_initiator auth transcript) (\<lambda>sig_b64.
     bind (lift (decode_key_json sig_b64)) (\<lambda>sig.
     bind (gets (\<lambda>c. case fs_remote_hs (ps_session (cn_ps c)) of Some r \<Rightarrow> hs_static_pub_key r | None \<Rightarrow> [])) (\<lambda>remote_static.
       if \<not> verify sg remote_static transcript sig then raise ValueError
       else reads (\<lambda>c. case ps_remote_static_pub_b64 (cn_ps c) of
              Some k \<Rightarrow> on_db (get_device_by_public_key k) | None \<Rightarrow> ret None))))))))))"

definition authenticate ::
    "crypto \<Rightarrow> signatures \<Rightarrow> platform \<Rightarrow> local_side \<Rightarrow> bool \<Rightarrow> envelope res \<Rightarrow> envelope res
       \<Rightarrow> (connection, trusted_device option) eff" where
  "authenticate cr sg pf ls is_initiator hello auth =
     seq (on_session (session_transition S_CONNECTING)) (authenticate_steps cr sg pf ls is_initiator hello auth)"

text \<open>The body of the \<^verbatim>\<open>try\<close> up to the session loop; the result says whether the peer was trusted.\<close>

definition handshake_try ::
    "crypto \<Rightarrow> signatures \<Rightarrow> platform \<Rightarrow> local_side \<Rightarrow> bool \<Rightarrow> envelope res \<Rightarrow> envelope res \<Rightarrow> (connection, bool) eff" where
  "handshake_try cr sg pf ls is_initiator hello auth =
     bind (authenticate cr sg pf ls is_initiator hello auth) (\<lambda>existing.
       case existing of
         Some dev \<Rightarrow> seq (finish_trusted cr pf ls dev) (ret True)
       | None \<Rightarrow> seq (finish_unknown pf) (ret False))"

text \<open>The \<^verbatim>\<open>except Exception\<close> branch and the \<^verbatim>\<open>finally\<close> block.\<close>

definition fail_handshake :: "(connection, unit) eff" where
  "fail_handshake =
     seq (reads (\<lambda>c. if fs_state (ps_session (cn_ps c)) \<notin> {S_ESTABLISHED, S_CLOSING, S_FAILED, S_DISCONNECTED}
                     then catch (on_session (session_transition S_FAILED)) (\<lambda>_. ret ()) else ret ()))
         (notify_session_change S_FAILED)"

definition close_connection :: "(connection, unit) eff" where
  "close_connection =
     seq (upd (cn_active_update (\<lambda>_. False)))
    (seq (reads (\<lambda>c. if fs_state (ps_session (cn_ps c)) \<notin> {S_DISCONNECTED, S_FAILED}
                     then catch (seq (on_session (session_transition S_CLOSING)) (on_session (session_transition S_DISCONNECTED))) (\<lambda>_. ret ())
                     else ret ()))
         (reads (\<lambda>c. notify_session_change (fs_state (ps_session (cn_ps c))))))"

text \<open>\<open>Some trusted\<close> when the session loop is entered, \<open>None\<close> after a failure.\<close>

definition run_handshake ::
    "crypto \<Rightarrow> signatures \<Rightarrow> platform \<Rightarrow> local_side \<Rightarrow> bool \<Rightarrow> envelope res \<Rightarrow> envelope res \<Rightarrow> (connection, bool option) eff" where
  "run_handshake cr sg pf ls is_initiator hello auth =
     catch (bind (handshake_try cr sg pf ls is_initiator hello auth) (\<lambda>b. ret (Some b)))
           (\<lambda>e. seq fail_handshake (seq close_connection (ret None)))"


section \<open>Reading off a successful run\<close>

lemma bind_ok: "bind m f s = (Inr y, s') \<longleftrightarrow> (\<exists>x s1. m s = (Inr x, s1) \<and> f x s1 = (Inr y, s'))"
  by (auto simp: bind_apply split: prod.splits sum.splits)

lemma seq_ok_iff: "seq m k s = (Inr y, s') \<longleftrightarrow> (\<exists>s1. m s = (Inr (), s1) \<and> k s1 = (Inr y, s'))"
  by (auto simp: seq_apply split: prod.splits sum.splits)

lemma on_session_ok: "on_session m c = (Inr x, c') \<longleftrightarrow>
    (\<exists>s'. m (ps_session (cn_ps c)) = (Inr x, s') \<and> c' = c\<lparr>cn_ps := (cn_ps c)\<lparr>ps_session := s'\<rparr>\<rparr>)"
  by (auto simp: on_session_def split: prod.splits)

lemma lift_ok: "lift r c = (Inr x, c') \<longleftrightarrow> r = Inr x \<and> c' = c"
  by auto

lemma gets_ok: "gets f c = (Inr x, c') \<longleftrightarrow> x = f c \<and> c' = c"
  by auto

lemma transition_ok: "session_transition st s = (Inr (), s') \<longleftrightarrow> st \<in> set (session_transitions (fs_state s)) \<and> s' = s\<lparr>fs_state := st\<rparr>"
  by (auto simp: session_transition_def session_step_def bind_ok lift_ok split: if_splits)

lemma get_by_key_ok: "get_device_by_public_key k d = (r, d') \<Longrightarrow> d' = d \<and> (\<forall>x. r = Inr x \<longrightarrow> x = device_by_key k d)"
  by (auto simp: get_device_by_public_key_def seq_lift split: sum.splits)

lemma on_db_get: "snd (on_db (get_device_by_public_key k) c) = c"
  by (auto simp: on_db_def split: prod.splits dest: get_by_key_ok)

lemma on_db_get_ok: "on_db (get_device_by_public_key k) c = (Inr x, c') \<Longrightarrow> c' = c \<and> x = device_by_key k (cn_db c)"
  by (auto simp: on_db_def split: prod.splits dest: get_by_key_ok)

text \<open>Before the last step only the peer object and the list of sent messages change.\<close>

definition untouched :: "connection \<Rightarrow> connection \<Rightarrow> bool" where
  "untouched c c' \<longleftrightarrow> ps_remote_addr (cn_ps c') = ps_remote_addr (cn_ps c) \<and> cn_db c' = cn_db c \<and> cn_active c' = cn_active c \<and> cn_notified c' = cn_notified c \<and> cn_prompts c' = cn_prompts c"

lemma keeps_on_session: "(\<And>c x. I c \<Longrightarrow> I (c\<lparr>cn_ps := (cn_ps c)\<lparr>ps_session := x\<rparr>\<rparr>)) \<Longrightarrow> keeps I (on_session m)"
  by (simp add: keeps_def on_session_def split: prod.splits)

lemma keeps_on_db_get: "keeps I (on_db (get_device_by_public_key k))"
  by (simp add: keeps_def on_db_get)

lemma keeps_lookup_peer: "keeps I (lookup_peer pf key)"
  unfolding lookup_peer_def by (intro keeps_intros keeps_on_db_get)

lemma authenticate_untouched: "keeps (untouched c0) (authenticate cr sg pf ls ini hello auth)"
proof -
  note [intro] = keeps_intros keeps_on_db_get keeps_lookup_peer
  have s: "keeps (untouched c0) (on_session m)" for m :: "(session, 'a) eff"
    by (rule keeps_on_session) (simp add: untouched_def)
  have p: "keeps (untouched c0) (send_plain pf st ty pl)" for st ty pl
    unfolding send_plain_def write_frame_def by (intro keeps_intros keeps_upd) (simp add: untouched_def)
  have u: "keeps (untouched c0) (upd (\<lambda>c. c\<lparr>cn_ps := (cn_ps c)\<lparr>ps_remote_device_id := f c, ps_remote_device_name := g c,
      ps_remote_static_pub_b64 := h c\<rparr>\<rparr>))" for f g h
    by (rule keeps_upd) (simp add: untouched_def)
  have e: "keeps (untouched c0) (expect ty env)" for ty env
    unfolding expect_def by (intro keeps_intros)
  have "keeps (untouched c0) (exchange_init cr pf ls ini hello)"
    unfolding exchange_init_def by (intro keeps_intros keeps_on_db_get keeps_lookup_peer s p e)
  moreover have "keeps (untouched c0) (store_remote pl)" for pl
    unfolding store_remote_def by (intro keeps_intros s u)
  moreover have "keeps (untouched c0) (exchange_auth sg pf ls ini auth t)" for t
    unfolding exchange_auth_def by (intro keeps_intros p e)
  ultimately show ?thesis
    unfolding authenticate_def authenticate_steps_def by (intro keeps_intros keeps_on_db_get s)
qed

lemma expect_ok: "expect ty env c = (Inr pl, c') \<Longrightarrow> c' = c \<and> (\<exists>e. env = Inr e \<and> ev_type e = JStr (message_value ty) \<and> pl = ev_payload e)"
  by (auto simp: expect_def bind_ok lift_ok split: if_splits)

lemma exchange_auth_ok:
  assumes "exchange_auth sg pf ls ini auth t c = (Inr sig, c')"
  shows "cn_ps c' = cn_ps c \<and> (\<exists>e. auth = Inr e \<and> obj_get (ev_payload e) (lit ''signature'') (JStr []) = Inr sig
    \<and> ev_type e = JStr (message_value (if ini then AUTH_RESPONSE else AUTH_CHALLENGE)))"
  using assms
  by (cases ini) (auto simp: exchange_auth_def send_plain_def write_frame_def bind_ok seq_ok_iff lift_ok dest!: expect_ok)

lemma store_remote_ok:
  assumes "store_remote pl c = (Inr (), c')"
  shows "\<exists>k b e n. obj_get pl (lit ''public_key'') (JStr []) = Inr (JStr k) \<and> decode_public_key_b64 k = Inr b
    \<and> ps_remote_static_pub_b64 (cn_ps c') = Some k
    \<and> ps_session (cn_ps c') = (ps_session (cn_ps c))\<lparr>fs_remote_hs := Some \<lparr>hs_static_pub_key = b, hs_ephemeral_pub_key = e, hs_nonce = n\<rparr>\<rparr>"
proof -
  obtain k b e n where "obj_get pl (lit ''public_key'') (JStr []) = Inr k" "decode_key_json k = Inr b"
    and c': "ps_remote_static_pub_b64 (cn_ps c') = (case k of JStr s \<Rightarrow> Some s | _ \<Rightarrow> None)"
    "ps_session (cn_ps c') = (ps_session (cn_ps c))\<lparr>fs_remote_hs := Some \<lparr>hs_static_pub_key = b, hs_ephemeral_pub_key = e, hs_nonce = n\<rparr>\<rparr>"
    using assms
    by (auto simp: store_remote_def bind_ok seq_ok_iff lift_ok on_session_ok accept_remote_handshake_def simp del: lit_simps)
  then show ?thesis by (cases k) auto
qed


lemma decode_key_json_ok: "decode_key_json j = Inr b \<Longrightarrow> \<exists>k. j = JStr k \<and> decode_public_key_b64 k = Inr b"
  by (cases j) auto

lemma lookup_peer_ok: "lookup_peer pf key c = (Inr x, c') \<Longrightarrow> c' = c"
  by (auto simp: lookup_peer_def bind_ok lift_ok split: option.splits dest: on_db_get_ok)

lemma exchange_init_ok:
  assumes "exchange_init cr pf ls ini hello c = (Inr pl, c')"
  shows "(\<exists>e. hello = Inr e \<and> pl = ev_payload e)
    \<and> fs_state (ps_session (cn_ps c')) = fs_state (ps_session (cn_ps c))"
  using assms
  by (cases ini) (auto simp: exchange_init_def build_local_handshake_def generate_ephemeral_keypair_def send_plain_def write_frame_def
      bind_ok seq_ok_iff lift_ok on_session_ok Let_def simp del: lit_simps
      split: if_splits option.splits dest!: expect_ok lookup_peer_ok on_db_get_ok)

lemma derive_keys_keeps_hs:
  assumes "derive_keys cr s = (Inr d, s')"
  shows "fs_remote_hs s' = fs_remote_hs s \<and> fs_local_hs s' = fs_local_hs s \<and> fs_is_initiator s' = fs_is_initiator s
    \<and> fs_derived s' = Some d"
  using assms
  by (auto simp: derive_keys_def bind_ok seq_ok_iff lift_ok Let_def split: option.splits)

text \<open>What a successful authentication has checked.\<close>

definition peer_proved :: "signatures \<Rightarrow> envelope res \<Rightarrow> envelope res \<Rightarrow> peer_session \<Rightarrow> pystr \<Rightarrow> bool" where
  "peer_proved sg hello auth ps k \<longleftrightarrow>
     (\<exists>h a b t sig64 sig r.
        hello = Inr h \<and> obj_get (ev_payload h) (lit ''public_key'') (JStr []) = Inr (JStr k)
        \<and> ps_remote_static_pub_b64 ps = Some k \<and> decode_public_key_b64 k = Inr b
        \<and> fs_remote_hs (ps_session ps) = Some r \<and> hs_static_pub_key r = b
        \<and> build_auth_transcript (ps_session ps) = Inr t
        \<and> auth = Inr a \<and> obj_get (ev_payload a) (lit ''signature'') (JStr []) = Inr (JStr sig64)
        \<and> decode_public_key_b64 sig64 = Inr sig \<and> verify sg b t sig)"

lemma authenticate_ok:
  assumes "authenticate cr sg pf ls ini hello auth c = (Inr ex, c')"
  shows "fs_state (ps_session (cn_ps c')) = S_AUTHENTICATING
    \<and> (\<exists>k. peer_proved sg hello auth (cn_ps c') k \<and> ex = device_by_key k (cn_db c'))"
proof -
  obtain c1 c2 c3 c4 c5 c6 pl d t sj sig where
    c2: "exchange_init cr pf ls ini hello c1 = (Inr pl, c2)" and c3: "store_remote pl c2 = (Inr (), c3)"
    and c4: "on_session (derive_keys cr) c3 = (Inr d, c4)"
    and c5: "on_session (session_transition S_AUTHENTICATING) c4 = (Inr (), c5)"
    and t: "build_auth_transcript (ps_session (cn_ps c5)) = Inr t"
    and c6: "exchange_auth sg pf ls ini auth t c5 = (Inr sj, c6)" and sig: "decode_key_json sj = Inr sig"
    and v: "verify sg (case fs_remote_hs (ps_session (cn_ps c6)) of Some r \<Rightarrow> hs_static_pub_key r | None \<Rightarrow> []) t sig"
    and ex: "(case ps_remote_static_pub_b64 (cn_ps c6) of Some k \<Rightarrow> on_db (get_device_by_public_key k) | None \<Rightarrow> ret None) c6 = (Inr ex, c')"
    using assms by (auto simp: authenticate_def authenticate_steps_def bind_ok seq_ok_iff lift_ok split: if_splits)
  have ps6: "cn_ps c6 = cn_ps c5" using exchange_auth_ok [OF c6] by simp
  obtain a where a: "auth = Inr a" "obj_get (ev_payload a) (lit ''signature'') (JStr []) = Inr sj"
    using exchange_auth_ok [OF c6] by blast
  obtain h where h: "hello = Inr h" "pl = ev_payload h" using exchange_init_ok [OF c2] by blast
  obtain k b e n where k: "obj_get pl (lit ''public_key'') (JStr []) = Inr (JStr k)" "decode_public_key_b64 k = Inr b"
    "ps_remote_static_pub_b64 (cn_ps c3) = Some k"
    "fs_remote_hs (ps_session (cn_ps c3)) = Some \<lparr>hs_static_pub_key = b, hs_ephemeral_pub_key = e, hs_nonce = n\<rparr>"
    using store_remote_ok [OF c3] by auto
  have c4': "ps_remote_static_pub_b64 (cn_ps c4) = Some k"
    "fs_remote_hs (ps_session (cn_ps c4)) = Some \<lparr>hs_static_pub_key = b, hs_ephemeral_pub_key = e, hs_nonce = n\<rparr>"
    using c4 k by (auto simp: on_session_ok dest: derive_keys_keeps_hs)
  have c5': "ps_remote_static_pub_b64 (cn_ps c5) = Some k" "fs_state (ps_session (cn_ps c5)) = S_AUTHENTICATING"
    "fs_remote_hs (ps_session (cn_ps c5)) = Some \<lparr>hs_static_pub_key = b, hs_ephemeral_pub_key = e, hs_nonce = n\<rparr>"
    using c5 c4' by (auto simp: on_session_ok transition_ok)
  have c': "c' = c6" "ex = device_by_key k (cn_db c')" using ex c5' ps6 on_db_get_ok by auto
  obtain s64 where "sj = JStr s64" "decode_public_key_b64 s64 = Inr sig" using decode_key_json_ok [OF sig] by blast
  then have "peer_proved sg hello auth (cn_ps c') k"
    unfolding peer_proved_def using a h k c5' ps6 c' t v by auto
  then show ?thesis using c' c5' ps6 by auto
qed


section \<open>The outcome\<close>

lemma encrypt_frame_counter: "encrypt_frame cr p s = (r, s') \<Longrightarrow> \<exists>n. s' = s\<lparr>fs_send_counter := n\<rparr>"
  by (cases s) (auto simp: encrypt_frame_def bind_apply seq_apply Let_def split: option.splits sum.splits if_splits)

lemma encrypt_message_counter: "encrypt_message cr pf st ty pl s = (r, s') \<Longrightarrow> \<exists>n. s' = s\<lparr>fs_send_counter := n\<rparr>"
proof -
  assume a: "encrypt_message cr pf st ty pl s = (r, s')"
  have "s' = s \<or> (\<exists>p. encrypt_frame cr p s = (r, s'))"
    using a by (auto simp: encrypt_message_def bind_apply split: sum.splits if_splits)
  moreover have "s = s\<lparr>fs_send_counter := fs_send_counter s\<rparr>" by simp
  ultimately show ?thesis using encrypt_frame_counter by metis
qed

lemma send_capabilities_frame:
  "\<exists>n w. send_capabilities cr pf ls c =
     (Inr (), c\<lparr>cn_ps := (cn_ps c)\<lparr>ps_session := (ps_session (cn_ps c))\<lparr>fs_send_counter := n\<rparr>\<rparr>, cn_written := w\<rparr>)"
proof -
  obtain r s' where e: "encrypt_message cr pf (ls_stamp ls CAPABILITIES) CAPABILITIES
      (JObj [(lit ''capabilities'', JArr [JStr (lit ''notify.v1'')])]) (ps_session (cn_ps c)) = (r, s')"
    by fastforce
  moreover obtain n where "s' = (ps_session (cn_ps c))\<lparr>fs_send_counter := n\<rparr>"
    using encrypt_message_counter [OF e] by blast
  ultimately have "send_capabilities cr pf ls c = (Inr (), c\<lparr>cn_ps := (cn_ps c)\<lparr>ps_session := (ps_session (cn_ps c))\<lparr>fs_send_counter := n\<rparr>\<rparr>,
      cn_written := (case r of Inr f \<Rightarrow> cn_written c @ [f] | Inl _ \<Rightarrow> cn_written c)\<rparr>)"
    by (cases r; cases c) (simp_all add: send_capabilities_def catch_apply bind_apply on_session_def write_frame_def del: lit_simps)
  then show ?thesis by blast
qed

text \<open>Of the rest of the state, what the handshake leaves alone.\<close>

lemma auth_transcript_state [simp]:
  "build_auth_transcript (s\<lparr>fs_state := st\<rparr>) = build_auth_transcript s"
  "build_auth_transcript (s\<lparr>fs_send_counter := n\<rparr>) = build_auth_transcript s"
  by (simp_all add: build_auth_transcript_def split: option.split)

lemma peer_proved_session:
  "peer_proved sg hello auth (ps\<lparr>ps_session := (ps_session ps)\<lparr>fs_state := st, fs_send_counter := n\<rparr>\<rparr>) k = peer_proved sg hello auth ps k"
  "peer_proved sg hello auth (ps\<lparr>ps_session := (ps_session ps)\<lparr>fs_state := st\<rparr>\<rparr>) k = peer_proved sg hello auth ps k"
  by (simp_all add: peer_proved_def del: lit_simps)

lemma finish_unknown_run:
  assumes "fs_state (ps_session (cn_ps c)) = S_AUTHENTICATING"
  shows "\<exists>pr. pr \<in> {ps_remote_device_name (cn_ps c), JStr (ps_remote_addr (cn_ps c))} \<and> finish_unknown pf c = (Inr (),
     c\<lparr>cn_ps := (cn_ps c)\<lparr>ps_session := (ps_session (cn_ps c))\<lparr>fs_state := S_PAIRING\<rparr>\<rparr>, cn_active := True,
       cn_notified := cn_notified c @ [S_PAIRING],
       cn_prompts := cn_prompts c @ [(ps_remote_addr (cn_ps c), pr, (case sas_code (ps_session (cn_ps c)) of Some sas \<Rightarrow> sas | None \<Rightarrow> []))]\<rparr>)"
  using assms
  by (intro exI [of _ "if py_bool pf (ps_remote_device_name (cn_ps c)) then ps_remote_device_name (cn_ps c)
      else JStr (ps_remote_addr (cn_ps c))"])
    (simp add: finish_unknown_def seq_apply bind_apply on_session_def session_transition_def session_step_def
      notify_session_change_def sas_code_def)

lemma add_device_fails: "add_or_update_device t d = (Inl e, d') \<Longrightarrow> d' = d"
  by (auto simp: add_or_update_device_def seq_apply split: sum.splits)

lemma finish_trusted_run:
  assumes "fs_state (ps_session (cn_ps c)) = S_AUTHENTICATING"
  shows "(\<exists>e. finish_trusted cr pf ls dev c = (Inl e, c)) \<or>
    (\<exists>t n w. td_identity_public_key_b64 t = td_identity_public_key_b64 dev \<and> finish_trusted cr pf ls dev c = (Inr (),
       c\<lparr>cn_ps := (cn_ps c)\<lparr>ps_session := (ps_session (cn_ps c))\<lparr>fs_state := S_ESTABLISHED, fs_send_counter := n\<rparr>\<rparr>,
         cn_db := snd (add_or_update_device t (cn_db c)), cn_active := True, cn_notified := cn_notified c @ [S_ESTABLISHED], cn_written := w\<rparr>))"
proof -
  let ?dev = "\<lambda>i nm. \<lparr>td_device_id = i, td_device_name = nm, td_public_key = td_public_key dev,
             td_identity_public_key_b64 = td_identity_public_key_b64 dev,
             td_paired_at = td_paired_at dev, td_last_seen = ls_now ls\<rparr>"
  consider (fail) e where "finish_trusted cr pf ls dev c = (Inl e, c)"
    | (ok) i nm d' where "text_or pf (ps_remote_device_id (cn_ps c)) (td_device_id dev) = Inr i"
      "text_or pf (ps_remote_device_name (cn_ps c)) (td_device_name dev) = Inr nm"
      "add_or_update_device (?dev i nm) (cn_db c) = (Inr (), d')"
  proof (cases "text_or pf (ps_remote_device_id (cn_ps c)) (td_device_id dev)")
    case (Inr i)
    show ?thesis
    proof (cases "text_or pf (ps_remote_device_name (cn_ps c)) (td_device_name dev)")
      case (Inl e)
      with Inr show ?thesis by (intro fail) (simp add: finish_trusted_def bind_apply)
    next
      case (Inr nm)
      note i = \<open>text_or pf (ps_remote_device_id (cn_ps c)) (td_device_id dev) = Inr i\<close>
      obtain r d' where a: "add_or_update_device (?dev i nm) (cn_db c) = (r, d')" by fastforce
      show ?thesis
      proof (cases r)
        case (Inl e)
        with a add_device_fails have "d' = cn_db c" by blast
        with a Inl i Inr show ?thesis
          by (intro fail) (simp add: finish_trusted_def bind_apply seq_apply on_db_def)
      qed (use a i Inr ok in auto)
    qed
  qed (auto intro: fail simp: finish_trusted_def bind_apply)
  then show ?thesis
  proof cases
    case ok
    let ?c = "c\<lparr>cn_db := d', cn_ps := (cn_ps c)\<lparr>ps_session := (ps_session (cn_ps c))\<lparr>fs_state := S_ESTABLISHED\<rparr>\<rparr>, cn_active := True,
      cn_notified := cn_notified c @ [S_ESTABLISHED]\<rparr>"
    have "finish_trusted cr pf ls dev c = send_capabilities cr pf ls ?c"
      using ok assms by (simp add: finish_trusted_def bind_apply seq_apply on_db_def on_session_def session_transition_def
          session_step_def notify_session_change_def)
    moreover obtain n w where "send_capabilities cr pf ls ?c =
      (Inr (), ?c\<lparr>cn_ps := (cn_ps ?c)\<lparr>ps_session := (ps_session (cn_ps ?c))\<lparr>fs_send_counter := n\<rparr>\<rparr>, cn_written := w\<rparr>)"
      using send_capabilities_frame by blast
    ultimately show ?thesis using ok(3) by (intro disjI2 exI [of _ "?dev i nm"] exI [of _ n] exI [of _ w]) simp
  qed blast
qed

text \<open>After the first transition the state of a connection that is still authenticating.\<close>

definition in_handshake :: "connection \<Rightarrow> bool" where
  "in_handshake c \<longleftrightarrow> fs_state (ps_session (cn_ps c)) \<in> {S_CONNECTING, S_HANDSHAKING, S_AUTHENTICATING}"

lemma keeps_in_handshake:
  assumes "\<And>s r s'. m s = (r, s') \<Longrightarrow> fs_state s' = fs_state s \<or> fs_state s' \<in> {S_CONNECTING, S_HANDSHAKING, S_AUTHENTICATING}"
  shows "keeps in_handshake (on_session m)"
  unfolding keeps_def on_session_def in_handshake_def
  using assms by (auto split: prod.splits) (metis+)


lemma authenticate_raises:
  assumes "authenticate cr sg pf ls ini hello auth (new_connection d ini addr) = (Inl e, c)"
  shows "in_handshake c"
proof -
  let ?c0 = "(new_connection d ini addr)\<lparr>cn_ps := (new_peer_session ((new_session ini)\<lparr>fs_state := S_CONNECTING\<rparr>) addr)\<rparr>"
  have t: "keeps in_handshake (on_session (session_transition st))" if "st \<in> {S_CONNECTING, S_HANDSHAKING, S_AUTHENTICATING}" for st
    by (rule keeps_in_handshake)
      (use that in \<open>auto simp: session_transition_def session_step_def bind_apply split: if_splits\<close>)
  have b: "keeps in_handshake (on_session (build_local_handshake cr x y z))" for x y z
    by (rule keeps_in_handshake) (auto simp: build_local_handshake_def generate_ephemeral_keypair_def seq_apply Let_def split: if_splits)
  have a: "keeps in_handshake (on_session (accept_remote_handshake r))" for r
    by (rule keeps_in_handshake) (auto simp: accept_remote_handshake_def)
  have k: "keeps in_handshake (on_session (derive_keys cr))"
    by (rule keeps_in_handshake)
      (auto simp: derive_keys_def bind_apply seq_apply Let_def split: option.splits sum.splits)
  have p: "keeps in_handshake (send_plain pf st ty pl)" for st ty pl
    unfolding send_plain_def write_frame_def by (intro keeps_intros keeps_upd) (simp add: in_handshake_def)
  have u: "keeps in_handshake (upd (\<lambda>c. c\<lparr>cn_ps := (cn_ps c)\<lparr>ps_remote_device_id := f c, ps_remote_device_name := g c,
      ps_remote_static_pub_b64 := h c\<rparr>\<rparr>))" for f g h
    by (rule keeps_upd) (simp add: in_handshake_def)
  have e: "keeps in_handshake (expect ty env)" for ty env
    unfolding expect_def by (intro keeps_intros)
  note step = keeps_intros keeps_on_db_get keeps_lookup_peer t b a k p u e
  have "keeps in_handshake (exchange_init cr pf ls ini hello)"
    unfolding exchange_init_def by (intro step)
  moreover have "keeps in_handshake (store_remote pl)" for pl
    unfolding store_remote_def by (intro step)
  moreover have "keeps in_handshake (exchange_auth sg pf ls ini auth t)" for t
    unfolding exchange_auth_def by (intro step)
  ultimately have "keeps in_handshake (authenticate_steps cr sg pf ls ini hello auth)"
    unfolding authenticate_steps_def by (intro step) simp_all
  moreover have "authenticate cr sg pf ls ini hello auth (new_connection d ini addr) = authenticate_steps cr sg pf ls ini hello auth ?c0"
    by (simp add: authenticate_def seq_apply on_session_def session_transition_def bind_apply
        session_step_def new_connection_def new_peer_session_def new_session_def)
  moreover have "in_handshake ?c0" by (simp add: in_handshake_def new_peer_session_def)
  ultimately show ?thesis
    using assms keepsD [of in_handshake "authenticate_steps cr sg pf ls ini hello auth" ?c0] by (metis snd_conv)
qed

lemma authenticate_frame:
  assumes "authenticate cr sg pf ls ini hello auth c = (r, c')"
  shows "cn_db c' = cn_db c" "cn_active c' = cn_active c" "cn_notified c' = cn_notified c" "cn_prompts c' = cn_prompts c"
    "ps_remote_addr (cn_ps c') = ps_remote_addr (cn_ps c)"
  using keepsD [OF authenticate_untouched [of c cr sg pf ls ini hello auth], of c] assms by (simp_all add: untouched_def)

lemma handshake_failure_run:
  assumes "in_handshake c" and "cn_notified c = []"
  shows "\<exists>c'. seq fail_handshake (seq close_connection (ret None)) c = (Inr None, c')
    \<and> cn_db c' = cn_db c \<and> \<not> cn_active c' \<and> cn_prompts c' = cn_prompts c
    \<and> fs_state (ps_session (cn_ps c')) = S_FAILED \<and> cn_notified c' = [S_FAILED, S_FAILED]"
  using assms
  by (auto simp: in_handshake_def fail_handshake_def close_connection_def seq_apply catch_apply bind_apply on_session_def
      session_transition_def session_step_def notify_session_change_def)

end
