(* ===== verification/Frame_Size.thy ===== *)
theory Frame_Size
  imports Models
begin

text \<open>
  How long the JSON text of a value can be. The text of a value without floats is ASCII, so
  \<^verbatim>\<open>encode_frame\<close> succeeds as soon as the bound below stays within the frame limit.
\<close>

fun json_bound :: "nat \<Rightarrow> json \<Rightarrow> nat" where
  "json_bound n (JInt i) = Suc (length (dec_digits (nat \<bar>i\<bar>)))"
| "json_bound n (JStr s) = 12 * length s + 2"
| "json_bound n (JArr vs) = 2 + sum_list (map (\<lambda>v. json_bound n v + Suc n) vs)"
| "json_bound n (JObj d) = 2 + sum_list (map (\<lambda>(k, v). 12 * length k + 2 + json_bound n v + 2 * Suc n) d)"
| "json_bound n _ = 5"

lemma esc_char_small: "c \<in> set (esc_char k) \<Longrightarrow> c < 128" "length (esc_char k) \<le> 12"
proof -
  have h: "hex_lower c \<Longrightarrow> c < 128" for c by (auto simp: hex_lower_def)
  show "c \<in> set (esc_char k) \<Longrightarrow> c < 128"
    by (auto simp: esc_char_def esc_u_def split: if_splits dest!: hex_fixed_chars h)
  show "length (esc_char k) \<le> 12" by (simp add: esc_char_def esc_u_def)
qed

lemma quote_small: "c \<in> set (quote s) \<Longrightarrow> c < 128" "length (quote s) \<le> 12 * length s + 2"
proof -
  show "c \<in> set (quote s) \<Longrightarrow> c < 128" by (auto simp: quote_def esc_string_def dest: esc_char_small(1))
  have "length (esc_string s) \<le> 12 * length s"
  proof (induction s)
    case (Cons k s)
    then show ?case using esc_char_small(2) [of k] by (simp add: esc_string_def)
  qed (simp add: esc_string_def)
  then show "length (quote s) \<le> 12 * length s + 2" by (simp add: quote_def)
qed

lemma join_with_chars: "c \<in> set (join_with sep ws) \<Longrightarrow> c \<in> set sep \<or> (\<exists>w\<in>set ws. c \<in> set w)"
  by (induction sep ws rule: join_with.induct) auto

lemma join_with_length: "length (join_with sep ws) \<le> sum_list (map (\<lambda>w. length w + length sep) ws)"
  by (induction sep ws rule: join_with.induct) auto

lemma int_str_small: "c \<in> set (int_str n) \<Longrightarrow> c < 128" "length (int_str n) \<le> Suc (length (dec_digits (nat \<bar>n\<bar>)))"
  using int_str_chars [of c n] by (auto simp: is_dig_def) (simp add: int_str_def)

lemma dump_ascii: "dumpable v \<Longrightarrow> \<forall>c\<in>set sp. c < 128 \<Longrightarrow> c \<in> set (dump pf sp v) \<Longrightarrow> c < 128"
proof (induction v arbitrary: c)
  case (JArr vs)
  then show ?case by (auto simp: list_all_iff dest!: join_with_chars)
next
  case (JObj d)
  have "c' < 128" if "(k, v) \<in> set d" "c' \<in> set (quote k @ 58 # sp @ dump pf sp v)" for k v c'
    using that JObj quote_small(1) [of c' k] by (fastforce simp: list_all_iff)
  with JObj.prems show ?case by (fastforce dest!: join_with_chars)
qed (auto dest: quote_small(1) int_str_small(1) split: if_splits)

lemma dump_length: "dumpable v \<Longrightarrow> length (dump pf sp v) \<le> json_bound (length sp) v"
proof (induction v)
  case (JArr vs)
  have "sum_list (map (\<lambda>w. length w + length (44 # sp)) (map (dump pf sp) vs))
      \<le> sum_list (map (\<lambda>v. json_bound (length sp) v + Suc (length sp)) vs)"
    unfolding map_map by (rule sum_list_mono) (use JArr in \<open>auto simp: list_all_iff\<close>)
  then show ?case using join_with_length [of "44 # sp" "map (dump pf sp) vs"] by simp
next
  case (JObj d)
  have b: "length (quote k @ 58 # sp @ dump pf sp v) + length (44 # sp)
      \<le> 12 * length k + 2 + json_bound (length sp) v + 2 * Suc (length sp)" if "(k, v) \<in> set d" for k v
    using JObj that quote_small(2) [of k] by (fastforce simp: list_all_iff)
  have "sum_list (map (\<lambda>w. length w + length (44 # sp)) (map (\<lambda>(k, v). quote k @ 58 # sp @ dump pf sp v) d))
      \<le> sum_list (map (\<lambda>(k, v). 12 * length k + 2 + json_bound (length sp) v + 2 * Suc (length sp)) d)"
    unfolding map_map by (rule sum_list_mono) (use b in auto)
  then show ?case using join_with_length [of "44 # sp" "map (\<lambda>(k, v). quote k @ 58 # sp @ dump pf sp v) d"] by simp
qed (use quote_small(2) int_str_small(2) in auto)

lemma printable_dumpable: "dumpable v \<Longrightarrow> printable_ints v"
proof (induction v)
  case (JObj d)
  then show ?case by (fastforce simp: list_all_iff)
qed (auto simp: list_all_iff)

lemma utf8_ascii: "\<forall>c\<in>set s. c < 128 \<Longrightarrow> utf8_encode s = Inr (utf8_bytes s) \<and> length (utf8_bytes s) = length s"
proof (induction s)
  case (Cons c s)
  then have "list_all scalar s" by (auto simp: utf8_encode_def split: if_splits)
  with Cons show ?case by (auto simp: utf8_encode_def utf8_cp_def scalar_def)
qed (simp add: utf8_encode_def)

text \<open>Every message within the bound is sent and read back.\<close>

lemma encode_frame_total:
  assumes "dumpable (envelope_to_dict e)" and "json_bound 1 (envelope_to_dict e) \<le> MAX_CONTROL_FRAME_SIZE"
  shows "\<exists>f. encode_frame pf e = Inr f"
proof -
  let ?s = "dump pf [32] (envelope_to_dict e)"
  have s: "\<forall>c\<in>set ?s. c < 128" "length ?s \<le> MAX_CONTROL_FRAME_SIZE"
    using dump_ascii [OF assms(1), of "[32]"] dump_length [OF assms(1), of pf "[32]"] assms(2) by auto
  moreover have "envelope_to_json pf e = Inr ?s"
    using printable_dumpable [OF assms(1)] by (simp add: envelope_to_json_def dumps_def)
  ultimately show ?thesis
    using utf8_ascii [OF s(1)] by (auto simp: encode_frame_def struct_pack_def MAX_CONTROL_FRAME_SIZE_def)
qed

end
