(* ===== verification/Agreement.thy ===== *)
theory Agreement
  imports Handshake Frame_Size
begin

text \<open>
  What the handshake of \<^verbatim>\<open>core/service.py\<close> guarantees: an authenticated outcome rests on the peer's
  signature over the transcript, any failure leaves nothing behind, and two honest sides reach the
  same keys and the same verification code.
\<close>

section \<open>One side\<close>

text \<open>What a successful handshake leaves, and what a failed one leaves.\<close>

lemma handshake_success:
  assumes "run_handshake cr sg pf ls ini hello auth (new_connection d ini addr) = (Inr (Some trusted), c)"
  shows "\<exists>k. peer_proved sg hello auth (cn_ps c) k \<and> cn_active c \<and> ps_remote_addr (cn_ps c) = addr
    \<and> (if trusted then \<exists>dev t. device_by_key k d = Some dev \<and> td_identity_public_key_b64 t = td_identity_public_key_b64 dev
           \<and> cn_db c = snd (add_or_update_device t d) \<and> fs_state (ps_session (cn_ps c)) = S_ESTABLISHED \<and> cn_prompts c = []
       else device_by_key k d = None \<and> cn_db c = d \<and> fs_state (ps_session (cn_ps c)) = S_PAIRING
         \<and> (\<exists>name \<in> {ps_remote_device_name (cn_ps c), JStr addr}. cn_prompts c = [(addr, name, case sas_code (ps_session (cn_ps c)) of Some sas \<Rightarrow> sas | None \<Rightarrow> [])]))"
proof -
  obtain ex c1 where a: "authenticate cr sg pf ls ini hello auth (new_connection d ini addr) = (Inr ex, c1)"
    and f: "(case ex of Some dev \<Rightarrow> seq (finish_trusted cr pf ls dev) (ret True)
       | None \<Rightarrow> seq (finish_unknown pf) (ret False)) c1 = (Inr trusted, c)"
    using assms
    by (auto simp: run_handshake_def handshake_try_def catch_apply bind_apply seq_apply
        split: prod.splits sum.splits)
  obtain k where k: "peer_proved sg hello auth (cn_ps c1) k" "ex = device_by_key k (cn_db c1)"
    and st: "fs_state (ps_session (cn_ps c1)) = S_AUTHENTICATING"
    using authenticate_ok [OF a] by blast
  have d: "cn_db c1 = d" "cn_prompts c1 = []" "ps_remote_addr (cn_ps c1) = addr"
    using authenticate_frame [OF a] by (simp_all add: new_connection_def new_peer_session_def)
  show ?thesis
  proof (cases ex)
    case None
    obtain pr where pr: "pr \<in> {ps_remote_device_name (cn_ps c1), JStr addr}" and fu: "finish_unknown pf c1 = (Inr (),
     c1\<lparr>cn_ps := (cn_ps c1)\<lparr>ps_session := (ps_session (cn_ps c1))\<lparr>fs_state := S_PAIRING\<rparr>\<rparr>, cn_active := True,
       cn_notified := cn_notified c1 @ [S_PAIRING],
       cn_prompts := cn_prompts c1 @ [(ps_remote_addr (cn_ps c1), pr, (case sas_code (ps_session (cn_ps c1)) of Some sas \<Rightarrow> sas | None \<Rightarrow> []))]\<rparr>)"
      using finish_unknown_run [OF st, of pf] d by auto
    have "\<not> trusted" "c = snd (finish_unknown pf c1)" using f None fu by (simp_all add: seq_apply)
    moreover have "device_by_key k d = None" using k d None by simp
    ultimately show ?thesis
      using k d fu pr by (intro exI [of _ k]) (simp add: peer_proved_session sas_code_def)
  next
    case (Some dev)
    then obtain t n w where ft: "td_identity_public_key_b64 t = td_identity_public_key_b64 dev" "finish_trusted cr pf ls dev c1 = (Inr (),
       c1\<lparr>cn_ps := (cn_ps c1)\<lparr>ps_session := (ps_session (cn_ps c1))\<lparr>fs_state := S_ESTABLISHED, fs_send_counter := n\<rparr>\<rparr>,
         cn_db := snd (add_or_update_device t (cn_db c1)), cn_active := True,
         cn_notified := cn_notified c1 @ [S_ESTABLISHED], cn_written := w\<rparr>)"
      using finish_trusted_run [OF st, where cr = cr and pf = pf and ls = ls and dev = dev] f by (auto simp: seq_apply)
    have "trusted" "c = snd (finish_trusted cr pf ls dev c1)" using f Some ft by (simp_all add: seq_apply)
    moreover have "device_by_key k d = Some dev" using k d Some by simp
    ultimately show ?thesis
      using k d ft by (intro exI [of _ k]) (auto simp: peer_proved_session)
  qed
qed

lemma handshake_outcome:
  "case run_handshake cr sg pf ls ini hello auth (new_connection d ini addr) of
     (Inl e, c) \<Rightarrow> False
   | (Inr (Some trusted), c) \<Rightarrow> cn_active c
   | (Inr None, c) \<Rightarrow>
       cn_db c = d \<and> \<not> cn_active c \<and> cn_prompts c = [] \<and> fs_state (ps_session (cn_ps c)) = S_FAILED
       \<and> cn_notified c = [S_FAILED, S_FAILED]"
proof -
  let ?c0 = "new_connection d ini addr"
  let ?fails = "seq fail_handshake (seq close_connection (ret (None :: bool option)))"
  obtain r1 c1 where a: "authenticate cr sg pf ls ini hello auth ?c0 = (r1, c1)" by fastforce
  have fr: "cn_db c1 = d" "cn_prompts c1 = []" "cn_notified c1 = []"
    using authenticate_frame [OF a] by (simp_all add: new_connection_def)
  have run: "run_handshake cr sg pf ls ini hello auth ?c0 = (case r1 of Inl e \<Rightarrow> ?fails c1
      | Inr ex \<Rightarrow> (case (case ex of Some dev \<Rightarrow> seq (finish_trusted cr pf ls dev) (ret True)
       | None \<Rightarrow> seq (finish_unknown pf) (ret False)) c1 of (Inl e, c) \<Rightarrow> ?fails c | (Inr b, c) \<Rightarrow> (Inr (Some b), c)))"
    by (simp add: run_handshake_def handshake_try_def catch_apply bind_apply a split: sum.splits prod.splits)
  have fail: "\<exists>c'. ?fails c1 = (Inr None, c') \<and> cn_db c' = d \<and> \<not> cn_active c' \<and> cn_prompts c' = []
      \<and> fs_state (ps_session (cn_ps c')) = S_FAILED \<and> cn_notified c' = [S_FAILED, S_FAILED]" if "in_handshake c1"
    using handshake_failure_run [OF that fr(3)] fr by auto
  show ?thesis
  proof (cases r1)
    case (Inl e)
    then have "in_handshake c1" using authenticate_raises a by blast
    with fail obtain c' where "?fails c1 = (Inr None, c')"
      "cn_db c' = d \<and> \<not> cn_active c' \<and> cn_prompts c' = [] \<and> fs_state (ps_session (cn_ps c')) = S_FAILED
        \<and> cn_notified c' = [S_FAILED, S_FAILED]" by blast
    with run Inl show ?thesis by simp
  next
    case (Inr ex)
    then have st: "fs_state (ps_session (cn_ps c1)) = S_AUTHENTICATING" using authenticate_ok a by blast
    show ?thesis
    proof (cases ex)
      case None
      obtain c' where "finish_unknown pf c1 = (Inr (), c')" "cn_active c'" using finish_unknown_run [OF st, of pf] by fastforce
      with run Inr None show ?thesis by (auto simp: seq_apply)
    next
      case (Some dev)
      from finish_trusted_run [OF st, where cr = cr and pf = pf and ls = ls and dev = dev] show ?thesis
      proof
        assume "\<exists>e. finish_trusted cr pf ls dev c1 = (Inl e, c1)"
        then obtain e where "finish_trusted cr pf ls dev c1 = (Inl e, c1)" by blast
        moreover obtain c' where "?fails c1 = (Inr None, c')"
          "cn_db c' = d \<and> \<not> cn_active c' \<and> cn_prompts c' = [] \<and> fs_state (ps_session (cn_ps c')) = S_FAILED
            \<and> cn_notified c' = [S_FAILED, S_FAILED]" using fail st by (auto simp: in_handshake_def)
        ultimately show ?thesis using run Inr Some by (simp add: seq_apply)
      next
        assume "\<exists>t n w. td_identity_public_key_b64 t = td_identity_public_key_b64 dev \<and> finish_trusted cr pf ls dev c1 = (Inr (),
          c1\<lparr>cn_ps := (cn_ps c1)\<lparr>ps_session := (ps_session (cn_ps c1))\<lparr>fs_state := S_ESTABLISHED, fs_send_counter := n\<rparr>\<rparr>,
           cn_db := snd (add_or_update_device t (cn_db c1)), cn_active := True,
           cn_notified := cn_notified c1 @ [S_ESTABLISHED], cn_written := w\<rparr>)"
        then obtain c' where "finish_trusted cr pf ls dev c1 = (Inr (), c')" "cn_active c'" by fastforce
        with run Inr Some show ?thesis by (auto simp: seq_apply)
      qed
    qed
  qed
qed

text \<open>
  C9: When the handshake ends without an exception, the peer has proved possession of the key it
  announced: the signature in its second message verifies, under the key decoded from its first
  message, over the transcript of both handshakes. The session is ESTABLISHED if that key is stored
  as trusted and PAIRING otherwise; in the second case the database is unchanged and the code is
  shown to the user.
\<close>

theorem handshake_authenticates:
  assumes "run_handshake cr sg pf ls ini hello auth (new_connection d ini addr) = (Inr (Some trusted), c)"
  shows "\<exists>k. peer_proved sg hello auth (cn_ps c) k \<and> (trusted \<longleftrightarrow> device_by_key k d \<noteq> None)
    \<and> fs_state (ps_session (cn_ps c)) = (if trusted then S_ESTABLISHED else S_PAIRING) \<and> cn_active c
    \<and> (\<not> trusted \<longrightarrow> cn_db c = d \<and> (\<exists>name. cn_prompts c =
         [(addr, name, case sas_code (ps_session (cn_ps c)) of Some sas \<Rightarrow> sas | None \<Rightarrow> [])]))"
  using handshake_success [OF assms] by (auto split: if_splits)

text \<open>
  C11: The handshake never lets an exception out. When it fails, whatever the peer sent and wherever
  it failed, the session is FAILED, not registered as active, the trusted devices are unchanged, no
  pairing is requested and the listeners saw only FAILED.
\<close>

theorem handshake_fails_closed:
  "case run_handshake cr sg pf ls ini hello auth (new_connection d ini addr) of
     (Inl e, c) \<Rightarrow> False
   | (Inr (Some trusted), c) \<Rightarrow> cn_active c
   | (Inr None, c) \<Rightarrow>
       cn_db c = d \<and> \<not> cn_active c \<and> cn_prompts c = [] \<and> fs_state (ps_session (cn_ps c)) = S_FAILED
       \<and> cn_notified c = [S_FAILED, S_FAILED]"
  by (rule handshake_outcome)

section \<open>Two honest sides\<close>

definition own_handshake :: "crypto \<Rightarrow> local_side \<Rightarrow> handshake_data" where
  "own_handshake cr ls = \<lparr>hs_static_pub_key = id_public_key_bytes (ls_identity ls),
     hs_ephemeral_pub_key = x25519_public cr (ls_eph_private ls), hs_nonce = ls_nonce ls\<rparr>"

text \<open>The messages a side sends to a peer it does not know.\<close>

definition hello_message :: "crypto \<Rightarrow> local_side \<Rightarrow> message_type \<Rightarrow> envelope" where
  "hello_message cr ls ty = make_envelope (fst (ls_stamp ls ty)) (snd (ls_stamp ls ty)) ty
     (init_payload ls (own_handshake cr ls) False)"

definition auth_message :: "signatures \<Rightarrow> local_side \<Rightarrow> message_type \<Rightarrow> bytes \<Rightarrow> envelope" where
  "auth_message sg ls ty t = make_envelope (fst (ls_stamp ls ty)) (snd (ls_stamp ls ty)) ty (auth_payload sg ls t)"

definition common_transcript :: "crypto \<Rightarrow> local_side \<Rightarrow> local_side \<Rightarrow> bytes" where
  "common_transcript cr la lb = blit ''ferry-auth-v1|'' @ handshake_part (own_handshake cr la) @ handshake_part (own_handshake cr lb)"

text \<open>The session of a side that has derived its keys.\<close>

definition keyed_session :: "crypto \<Rightarrow> local_side \<Rightarrow> local_side \<Rightarrow> bool \<Rightarrow> bytes \<Rightarrow> session" where
  "keyed_session cr ls peer ini dh =
     (let salt = (if ini then transcript_salt (own_handshake cr ls) (own_handshake cr peer)
                  else transcript_salt (own_handshake cr peer) (own_handshake cr ls));
          ik = hkdf cr SESSION_KEY_LEN salt SESSION_KEY_INFO_INITIATOR dh;
          rk = hkdf cr SESSION_KEY_LEN salt SESSION_KEY_INFO_RESPONDER dh;
          sas = hkdf cr SAS_BYTES salt SAS_HKDF_INFO dh;
          d = (if ini then \<lparr>dk_send_key = ik, dk_recv_key = rk, dk_sas_bytes = sas\<rparr>
               else \<lparr>dk_send_key = rk, dk_recv_key = ik, dk_sas_bytes = sas\<rparr>)
      in (new_session ini)\<lparr>fs_state := S_PAIRING, fs_eph_pub_bytes := Some (x25519_public cr (ls_eph_private ls)),
           fs_local_hs := Some (own_handshake cr ls), fs_remote_hs := Some (own_handshake cr peer),
           fs_derived := Some d, fs_send_cipher := Some (dk_send_key d), fs_recv_cipher := Some (dk_recv_key d)\<rparr>)"

lemma key_text_bindable: "bind_values [SqlText (b64url_encode bs)] = Inr ()"
proof -
  have "\<forall>c\<in>set (b64url_encode bs). c < 128" using b64url_ascii by blast
  from utf8_ascii [OF this] show ?thesis by (simp add: bind_values.simps)
qed

lemma obj_get_payloads:
  "obj_get (init_payload ls hs p) (lit ''public_key'') (JStr []) = Inr (JStr (public_key_b64 (ls_identity ls)))"
  "obj_get (init_payload ls hs p) (lit ''ephemeral_key'') (JStr []) = Inr (JStr (b64url_encode (hs_ephemeral_pub_key hs)))"
  "obj_get (init_payload ls hs p) (lit ''nonce'') (JStr []) = Inr (JStr (b64url_encode (hs_nonce hs)))"
  "obj_get (init_payload ls hs p) (lit ''device_id'') (JStr []) = Inr (JStr (ls_device_id ls))"
  "obj_get (init_payload ls hs p) (lit ''device_name'') (JStr []) = Inr (JStr (ls_device_name ls))"
  "obj_get (auth_payload sg ls t) (lit ''signature'') (JStr []) = Inr (JStr (b64url_encode (sign sg (ls_identity ls) t)))"
  by (simp_all add: init_payload_def auth_payload_def)

text \<open>The steps of one side, one after the other.\<close>

lemma honest_exchange_init:
  assumes "hello = Inr (hello_message cr peer (if ini then HANDSHAKE_RESPONSE else HANDSHAKE_INIT))"
    and "encode_frame pf (hello_message cr ls (if ini then HANDSHAKE_INIT else HANDSHAKE_RESPONSE)) = Inr f"
    and "device_by_key (public_key_b64 (ls_identity peer)) d = None"
    and "s = (new_session ini)\<lparr>fs_state := S_HANDSHAKING\<rparr>"
    and "c = (new_connection d ini addr)\<lparr>cn_ps := new_peer_session s addr\<rparr>"
  shows "exchange_init cr pf ls ini hello c =
    (Inr (init_payload peer (own_handshake cr peer) False),
     c\<lparr>cn_ps := new_peer_session (s\<lparr>fs_eph_private := Some (ls_eph_private ls),
        fs_eph_pub_bytes := Some (x25519_public cr (ls_eph_private ls)), fs_local_hs := Some (own_handshake cr ls)\<rparr>) addr, cn_written := [f]\<rparr>)"
  using assms
  by (cases ini) (simp_all add: exchange_init_def hello_message_def make_envelope_def bind_apply seq_apply on_session_def build_local_handshake_def
      generate_ephemeral_keypair_def Let_def new_session_def new_connection_def new_peer_session_def own_handshake_def
      expect_def send_plain_def write_frame_def lookup_peer_def on_db_def get_device_by_public_key_def obj_get_payloads
      public_key_b64_def key_text_bindable del: lit_simps message_value.simps)


lemma honest_store_remote:
  "store_remote (init_payload peer (own_handshake cr peer) p) c =
    (Inr (), c\<lparr>cn_ps := (cn_ps c)\<lparr>ps_remote_device_id := JStr (ls_device_id peer), ps_remote_device_name := JStr (ls_device_name peer),
       ps_remote_static_pub_b64 := Some (public_key_b64 (ls_identity peer)),
       ps_session := (ps_session (cn_ps c))\<lparr>fs_remote_hs := Some (own_handshake cr peer)\<rparr>\<rparr>\<rparr>)"
  by (simp add: store_remote_def bind_apply seq_apply obj_get_payloads public_key_b64_def decode_public_key_encode
      on_session_def accept_remote_handshake_def own_handshake_def del: lit_simps)

lemma honest_exchange_auth:
  assumes "auth = Inr (auth_message sg peer (if ini then AUTH_RESPONSE else AUTH_CHALLENGE) t)"
    and "encode_frame pf (auth_message sg ls (if ini then AUTH_CHALLENGE else AUTH_RESPONSE) t) = Inr g"
  shows "exchange_auth sg pf ls ini auth t c =
    (Inr (JStr (b64url_encode (sign sg (ls_identity peer) t))), c\<lparr>cn_written := cn_written c @ [g]\<rparr>)"
  using assms
  by (cases ini) (simp_all add: exchange_auth_def auth_message_def make_envelope_def bind_apply seq_apply expect_def send_plain_def
      write_frame_def obj_get_payloads del: lit_simps message_value.simps)

text \<open>The whole handshake of one side with an honest peer it does not know.\<close>

lemma honest_run:
  assumes "key_agreement cr"
    and hello: "hello = Inr (hello_message cr peer (if ini then HANDSHAKE_RESPONSE else HANDSHAKE_INIT))"
    and auth: "auth = Inr (auth_message sg peer (if ini then AUTH_RESPONSE else AUTH_CHALLENGE) t)"
    and t: "t = (if ini then common_transcript cr ls peer else common_transcript cr peer ls)"
    and dh: "x25519_exchange cr (ls_eph_private ls) (x25519_public cr (ls_eph_private peer)) = Inr dh"
    and ver: "verify sg (id_public_key_bytes (ls_identity peer)) t (sign sg (ls_identity peer) t)"
    and f: "encode_frame pf (hello_message cr ls (if ini then HANDSHAKE_INIT else HANDSHAKE_RESPONSE)) = Inr f"
    and g: "encode_frame pf (auth_message sg ls (if ini then AUTH_CHALLENGE else AUTH_RESPONSE) t) = Inr g"
    and new: "device_by_key (public_key_b64 (ls_identity peer)) d = None"
  shows "\<exists>c. run_handshake cr sg pf ls ini hello auth (new_connection d ini addr) = (Inr (Some False), c)
    \<and> ps_session (cn_ps c) = keyed_session cr ls peer ini dh \<and> cn_written c = [f, g] \<and> cn_db c = d
    \<and> ps_remote_static_pub_b64 (cn_ps c) = Some (public_key_b64 (ls_identity peer))
    \<and> ps_remote_device_id (cn_ps c) = JStr (ls_device_id peer) \<and> ps_remote_device_name (cn_ps c) = JStr (ls_device_name peer)
    \<and> map (snd \<circ> snd) (cn_prompts c) = [the (sas_code (keyed_session cr ls peer ini dh))]"
proof -
  let ?K = "keyed_session cr ls peer ini dh"
  let ?sH = "(new_session ini)\<lparr>fs_state := S_HANDSHAKING\<rparr>"
  let ?cH = "(new_connection d ini addr)\<lparr>cn_ps := new_peer_session ?sH addr\<rparr>"
  let ?s1 = "?sH\<lparr>fs_eph_private := Some (ls_eph_private ls),
        fs_eph_pub_bytes := Some (x25519_public cr (ls_eph_private ls)), fs_local_hs := Some (own_handshake cr ls)\<rparr>"
  let ?s2 = "?s1\<lparr>fs_remote_hs := Some (own_handshake cr peer)\<rparr>"
  let ?ps = "\<lambda>s. (new_peer_session s addr)\<lparr>ps_remote_device_id := JStr (ls_device_id peer), ps_remote_device_name := JStr (ls_device_name peer),
       ps_remote_static_pub_b64 := Some (public_key_b64 (ls_identity peer))\<rparr>"
  let ?kA = "?K\<lparr>fs_state := S_AUTHENTICATING\<rparr>"
  let ?cA = "?cH\<lparr>cn_ps := ?ps ?kA, cn_written := [f, g]\<rparr>"
  have own: "hs_ephemeral_pub_key (own_handshake cr peer) = x25519_public cr (ls_eph_private peer)"
    by (simp add: own_handshake_def)
  have dk: "\<exists>k. derive_keys cr ?s2 = (Inr k, ?K\<lparr>fs_state := S_HANDSHAKING\<rparr>)"
    using dh own by (simp add: derive_keys_ready [OF assms(1), of _ "ls_eph_private ls" "own_handshake cr ls" "own_handshake cr peer"]
        new_session_def keyed_session_def Let_def)
  have tr: "build_auth_transcript ?kA = Inr t"
    by (simp add: build_auth_transcript_def keyed_session_def t common_transcript_def new_session_def Let_def)
  have rem: "fs_remote_hs ?kA = Some (own_handshake cr peer)" by (simp add: keyed_session_def Let_def)
  have kdb: "on_db (get_device_by_public_key (public_key_b64 (ls_identity peer))) ?cA = (Inr None, ?cA)"
    using new by (simp add: on_db_def get_device_by_public_key_def seq_apply public_key_b64_def key_text_bindable new_connection_def)
  have "authenticate cr sg pf ls ini hello auth (new_connection d ini addr) = authenticate_steps cr sg pf ls ini hello auth
      ((new_connection d ini addr)\<lparr>cn_ps := new_peer_session ((new_session ini)\<lparr>fs_state := S_CONNECTING\<rparr>) addr\<rparr>)"
    by (simp add: authenticate_def seq_apply bind_apply on_session_def session_transition_def session_step_def
        new_connection_def new_peer_session_def new_session_def)
  also have "\<dots> = (Inr None, ?cA)"
  proof -
    let ?c1 = "?cH\<lparr>cn_ps := new_peer_session ?s1 addr, cn_written := [f]\<rparr>"
    let ?c2 = "?cH\<lparr>cn_ps := ?ps ?s2, cn_written := [f]\<rparr>"
    let ?c3 = "?cH\<lparr>cn_ps := ?ps (?K\<lparr>fs_state := S_HANDSHAKING\<rparr>), cn_written := [f]\<rparr>"
    let ?c4 = "?cH\<lparr>cn_ps := ?ps ?kA, cn_written := [f]\<rparr>"
    let ?c0 = "(new_connection d ini addr)\<lparr>cn_ps := new_peer_session ((new_session ini)\<lparr>fs_state := S_CONNECTING\<rparr>) addr\<rparr>"
    have e0: "on_session (session_transition S_HANDSHAKING) ?c0 = (Inr (), ?cH)"
      by (simp add: on_session_def session_transition_def session_step_def bind_apply new_peer_session_def new_session_def)
    have e1: "exchange_init cr pf ls ini hello ?cH = (Inr (init_payload peer (own_handshake cr peer) False), ?c1)"
      by (rule honest_exchange_init [OF hello f new refl refl])
    have e2: "store_remote (init_payload peer (own_handshake cr peer) False) ?c1 = (Inr (), ?c2)"
      by (simp add: honest_store_remote new_peer_session_def)
    obtain k where e3: "on_session (derive_keys cr) ?c2 = (Inr k, ?c3)"
      using dk by (auto simp: on_session_def new_peer_session_def)
    have e4: "on_session (session_transition S_AUTHENTICATING) ?c3 = (Inr (), ?c4)"
      by (simp add: on_session_def session_transition_def session_step_def bind_apply new_peer_session_def)
    have e5: "exchange_auth sg pf ls ini auth t ?c4 = (Inr (JStr (b64url_encode (sign sg (ls_identity peer) t))), ?cA)"
      using honest_exchange_auth [OF auth g, of ?c4] by simp
    have p: "ps_session (cn_ps ?c4) = ?kA" "ps_session (cn_ps ?cA) = ?kA"
      "ps_remote_static_pub_b64 (cn_ps ?cA) = Some (public_key_b64 (ls_identity peer))"
      by (simp_all add: new_peer_session_def)
    have v: "verify sg (hs_static_pub_key (own_handshake cr peer)) t (sign sg (ls_identity peer) t)"
      using ver by (simp add: own_handshake_def)
    show ?thesis
      unfolding authenticate_steps_def bind_apply seq_apply basic_apply e0 e1 e2 e3 e4 prod.case sum.case p tr e5
        decode_key_json.simps decode_public_key_encode rem option.case
      using v kdb by simp
  qed
  finally have a: "authenticate cr sg pf ls ini hello auth (new_connection d ini addr) = (Inr None, ?cA)" .
  have K: "?kA\<lparr>fs_state := S_PAIRING\<rparr> = ?K" "sas_code ?kA = sas_code ?K" "\<exists>x. sas_code ?K = Some x"
    by (simp_all add: keyed_session_def sas_code_def Let_def)
  obtain x where x: "sas_code ?K = Some x" using K(3) by blast
  have p: "ps_session (cn_ps ?cA) = ?kA" "(cn_ps ?cA)\<lparr>ps_session := ?K\<rparr> = ?ps ?K" by (simp_all add: new_peer_session_def)
  have st: "fs_state (ps_session (cn_ps ?cA)) = S_AUTHENTICATING" unfolding p by simp
  obtain pr where "finish_unknown pf ?cA = (Inr (),
     ?cA\<lparr>cn_ps := (cn_ps ?cA)\<lparr>ps_session := (ps_session (cn_ps ?cA))\<lparr>fs_state := S_PAIRING\<rparr>\<rparr>, cn_active := True,
       cn_notified := cn_notified ?cA @ [S_PAIRING],
       cn_prompts := cn_prompts ?cA @ [(ps_remote_addr (cn_ps ?cA), pr, (case sas_code (ps_session (cn_ps ?cA)) of Some sas \<Rightarrow> sas | None \<Rightarrow> []))]\<rparr>)"
    using finish_unknown_run [OF st, of pf] by blast
  then have "finish_unknown pf ?cA = (Inr (), ?cA\<lparr>cn_ps := ?ps ?K, cn_active := True,
       cn_notified := cn_notified ?cA @ [S_PAIRING], cn_prompts := cn_prompts ?cA @ [(ps_remote_addr (cn_ps ?cA), pr, the (sas_code ?K))]\<rparr>)"
    unfolding p K(1,2) x by simp
  then show ?thesis
    using a by (simp add: run_handshake_def handshake_try_def catch_apply bind_apply seq_apply new_peer_session_def new_connection_def)
qed


definition message_fits :: "platform \<Rightarrow> envelope \<Rightarrow> bool" where
  "message_fits pf e \<longleftrightarrow> dumpable (envelope_to_dict e) \<and> jdepth (envelope_to_dict e) \<le> json_depth pf
     \<and> json_bound 1 (envelope_to_dict e) \<le> MAX_CONTROL_FRAME_SIZE"

text \<open>What \<^verbatim>\<open>_recv_plain\<close> makes of the bytes of one frame.\<close>

definition received :: "platform \<Rightarrow> pystr \<Rightarrow> int \<Rightarrow> bytes \<Rightarrow> envelope res" where
  "received pf fresh now f = res_bind (recv_plain pf fresh now f) (\<lambda>(e, _). Inr e)"

lemma message_fits_received:
  assumes "message_fits pf e"
  obtains f where "encode_frame pf e = Inr f" "received pf fresh now f = Inr e"
proof -
  obtain f where f: "encode_frame pf e = Inr f" using encode_frame_total assms by (auto simp: message_fits_def)
  moreover have "sendable_envelope pf e" using assms by (simp add: message_fits_def sendable_envelope_def)
  ultimately have "received pf fresh now f = Inr e" using recv_plain_frame [of pf e f fresh now "[]"] by (simp add: received_def)
  with f that show ?thesis by blast
qed

text \<open>
  C13: the first contact of two honest devices. Exchanging the frames each of them writes, both
  handshakes succeed and end in PAIRING with crossed session keys, each knows the static key of the
  other, and both users are shown the same verification code.
\<close>

theorem first_contact_agreement:
  assumes "key_agreement cr" and "signatures_ok sg"
    and "id_public_key_bytes (ls_identity la) = ed_public sg (id_private_key (ls_identity la))"
    and "id_public_key_bytes (ls_identity lb) = ed_public sg (id_private_key (ls_identity lb))"
    and "x25519_exchange cr (ls_eph_private la) (x25519_public cr (ls_eph_private lb)) = Inr dh"
    and "device_by_key (public_key_b64 (ls_identity lb)) da = None"
    and "device_by_key (public_key_b64 (ls_identity la)) db = None"
    and "message_fits pf (hello_message cr la HANDSHAKE_INIT)" and "message_fits pf (hello_message cr lb HANDSHAKE_RESPONSE)"
    and "message_fits pf (auth_message sg la AUTH_CHALLENGE (common_transcript cr la lb))"
    and "message_fits pf (auth_message sg lb AUTH_RESPONSE (common_transcript cr la lb))"
  shows "\<exists>f1 f2 f3 f4 ca cb.
    run_handshake cr sg pf la True (received pf fresh now f2) (received pf fresh now f4) (new_connection da True addr_b) = (Inr (Some False), ca)
    \<and> run_handshake cr sg pf lb False (received pf fresh now f1) (received pf fresh now f3) (new_connection db False addr_a) = (Inr (Some False), cb)
    \<and> cn_written ca = [f1, f3] \<and> cn_written cb = [f2, f4]
    \<and> fs_state (ps_session (cn_ps ca)) = S_PAIRING \<and> fs_state (ps_session (cn_ps cb)) = S_PAIRING
    \<and> fs_send_cipher (ps_session (cn_ps ca)) = fs_recv_cipher (ps_session (cn_ps cb))
    \<and> fs_recv_cipher (ps_session (cn_ps ca)) = fs_send_cipher (ps_session (cn_ps cb))
    \<and> ps_remote_static_pub_b64 (cn_ps ca) = Some (public_key_b64 (ls_identity lb))
    \<and> ps_remote_static_pub_b64 (cn_ps cb) = Some (public_key_b64 (ls_identity la))
    \<and> (\<exists>code. length code = 6 \<and> map (snd \<circ> snd) (cn_prompts ca) = [code] \<and> map (snd \<circ> snd) (cn_prompts cb) = [code])"
proof -
  let ?t = "common_transcript cr la lb"
  obtain f1 where f1: "encode_frame pf (hello_message cr la HANDSHAKE_INIT) = Inr f1"
    "received pf fresh now f1 = Inr (hello_message cr la HANDSHAKE_INIT)" using message_fits_received [OF assms(8)] .
  obtain f2 where f2: "encode_frame pf (hello_message cr lb HANDSHAKE_RESPONSE) = Inr f2"
    "received pf fresh now f2 = Inr (hello_message cr lb HANDSHAKE_RESPONSE)" using message_fits_received [OF assms(9)] .
  obtain f3 where f3: "encode_frame pf (auth_message sg la AUTH_CHALLENGE ?t) = Inr f3"
    "received pf fresh now f3 = Inr (auth_message sg la AUTH_CHALLENGE ?t)" using message_fits_received [OF assms(10)] .
  obtain f4 where f4: "encode_frame pf (auth_message sg lb AUTH_RESPONSE ?t) = Inr f4"
    "received pf fresh now f4 = Inr (auth_message sg lb AUTH_RESPONSE ?t)" using message_fits_received [OF assms(11)] .
  have v: "verify sg (id_public_key_bytes (ls_identity lb)) ?t (sign sg (ls_identity lb) ?t)"
    "verify sg (id_public_key_bytes (ls_identity la)) ?t (sign sg (ls_identity la) ?t)"
    using assms(2-4) by (simp_all add: signatures_ok_def verify_def sign_def)
  have dh: "x25519_exchange cr (ls_eph_private lb) (x25519_public cr (ls_eph_private la)) = Inr dh"
    using assms(1,5) by (simp add: key_agreement_def)
  obtain ca where ca: "run_handshake cr sg pf la True (received pf fresh now f2) (received pf fresh now f4) (new_connection da True addr_b) = (Inr (Some False), ca)"
    "ps_session (cn_ps ca) = keyed_session cr la lb True dh" "cn_written ca = [f1, f3]"
    "ps_remote_static_pub_b64 (cn_ps ca) = Some (public_key_b64 (ls_identity lb))"
    "map (snd \<circ> snd) (cn_prompts ca) = [the (sas_code (keyed_session cr la lb True dh))]"
    using honest_run [OF assms(1), of "received pf fresh now f2" lb True "received pf fresh now f4" sg ?t la dh pf f1 f3 da addr_b]
      f1 f2 f3 f4 v assms(5,6) by auto
  obtain cb where cb: "run_handshake cr sg pf lb False (received pf fresh now f1) (received pf fresh now f3) (new_connection db False addr_a) = (Inr (Some False), cb)"
    "ps_session (cn_ps cb) = keyed_session cr lb la False dh" "cn_written cb = [f2, f4]"
    "ps_remote_static_pub_b64 (cn_ps cb) = Some (public_key_b64 (ls_identity la))"
    "map (snd \<circ> snd) (cn_prompts cb) = [the (sas_code (keyed_session cr lb la False dh))]"
    using honest_run [OF assms(1), of "received pf fresh now f1" la False "received pf fresh now f3" sg ?t lb dh pf f2 f4 db addr_a]
      f1 f2 f3 f4 v dh assms(7) by auto
  have k: "fs_send_cipher (keyed_session cr la lb True dh) = fs_recv_cipher (keyed_session cr lb la False dh)"
    "fs_recv_cipher (keyed_session cr la lb True dh) = fs_send_cipher (keyed_session cr lb la False dh)"
    "sas_code (keyed_session cr la lb True dh) = sas_code (keyed_session cr lb la False dh)"
    "fs_state (keyed_session cr la lb True dh) = S_PAIRING" "fs_state (keyed_session cr lb la False dh) = S_PAIRING"
    by (simp_all add: keyed_session_def sas_code_def Let_def)
  obtain code where code: "sas_code (keyed_session cr lb la False dh) = Some code" "length code = 6"
    by (auto simp: keyed_session_def sas_code_def Let_def dec_fixed_digits)
  show ?thesis
    by (rule exI [of _ f1], rule exI [of _ f2], rule exI [of _ f3], rule exI [of _ f4], rule exI [of _ ca], rule exI [of _ cb])
      (use ca cb k code in simp)
qed


section \<open>Two sample devices\<close>

lemma ascii_well_paired: "\<forall>c\<in>set s. c < 128 \<Longrightarrow> well_paired s"
  by (induction s rule: well_paired.induct) auto

lemma b64url_well_paired: "well_paired (b64url_encode bs)" "well_paired (b64url_encode bs @ [61])"
  using b64url_ascii by (auto intro!: ascii_well_paired)

lemma b64url_length: "length (b64url_encode bs) \<le> 2 * length bs"
  by (induction bs rule: b64url_encode.induct) auto

definition sample_side :: "byte \<Rightarrow> local_side" where
  "sample_side b = \<lparr>ls_identity = \<lparr>id_key_file = [], id_private_key = [b], id_public_key_bytes = ed_public toy_signatures [b]\<rparr>,
     ls_device_id = [97], ls_device_name = [98], ls_eph_private = [b], ls_nonce = [b], ls_now = 0, ls_stamp = (\<lambda>_. ([109], 5))\<rparr>"

lemma short_digits: "dec_digits 5 = [53]" "dec_digits 1 = [49]" "dec_digits (Suc 0) = [49]"
  by (simp_all add: dec_digits.simps)

lemma sample_hello_fits: "message_fits ascii_platform (hello_message toy_crypto (sample_side b) ty)"
proof -
  let ?hs = "own_handshake toy_crypto (sample_side b)"
  have l: "length (id_public_key_bytes (ls_identity (sample_side b))) = 32" "length (hs_ephemeral_pub_key ?hs) = 1" "length (hs_nonce ?hs) = 1"
    by (simp_all add: sample_side_def own_handshake_def toy_crypto_def toy_signatures_def)
  have m: "well_paired (message_value ty)" "length (message_value ty) \<le> 100" by (cases ty; simp)+
  note b = b64url_length [of "id_public_key_bytes (ls_identity (sample_side b))"] b64url_length [of "hs_ephemeral_pub_key ?hs"]
    b64url_length [of "hs_nonce ?hs"]
  have "dumpable (envelope_to_dict (hello_message toy_crypto (sample_side b) ty))"
    using m(1) by (simp add: hello_message_def make_envelope_def envelope_to_dict_def init_payload_def b64url_well_paired
        public_key_b64_def PROTOCOL_VERSION_def short_digits sample_side_def)
  moreover have "jdepth (envelope_to_dict (hello_message toy_crypto (sample_side b) ty)) \<le> json_depth ascii_platform"
    by (simp add: hello_message_def make_envelope_def envelope_to_dict_def init_payload_def ascii_platform_def)
  moreover have "json_bound 1 (envelope_to_dict (hello_message toy_crypto (sample_side b) ty)) \<le> MAX_CONTROL_FRAME_SIZE"
    using m(2) b l by (simp add: hello_message_def make_envelope_def envelope_to_dict_def init_payload_def
        public_key_b64_def PROTOCOL_VERSION_def short_digits MAX_CONTROL_FRAME_SIZE_def) (simp add: sample_side_def short_digits)
  ultimately show ?thesis by (simp add: message_fits_def)
qed

lemma sample_auth_fits: "message_fits ascii_platform (auth_message toy_signatures (sample_side b) ty t)"
proof -
  let ?sig = "sign toy_signatures (ls_identity (sample_side b)) t"
  have l: "length ?sig = 32" by (simp add: sign_def toy_signatures_def)
  have m: "well_paired (message_value ty)" "length (message_value ty) \<le> 100" by (cases ty; simp)+
  note b = b64url_length [of ?sig] b64url_length [of "sha256 t"]
  have "dumpable (envelope_to_dict (auth_message toy_signatures (sample_side b) ty t))"
    using m(1) by (simp add: auth_message_def make_envelope_def envelope_to_dict_def auth_payload_def b64url_well_paired
        PROTOCOL_VERSION_def short_digits sample_side_def)
  moreover have "jdepth (envelope_to_dict (auth_message toy_signatures (sample_side b) ty t)) \<le> json_depth ascii_platform"
    by (simp add: auth_message_def make_envelope_def envelope_to_dict_def auth_payload_def ascii_platform_def)
  moreover have "json_bound 1 (envelope_to_dict (auth_message toy_signatures (sample_side b) ty t)) \<le> MAX_CONTROL_FRAME_SIZE"
    using m(2) b l by (simp add: auth_message_def make_envelope_def envelope_to_dict_def auth_payload_def
        PROTOCOL_VERSION_def short_digits MAX_CONTROL_FRAME_SIZE_def) (simp add: sample_side_def short_digits)
  ultimately show ?thesis by (simp add: message_fits_def)
qed

lemma sample_sides:
  "id_public_key_bytes (ls_identity (sample_side b)) = ed_public toy_signatures (id_private_key (ls_identity (sample_side b)))"
  "x25519_exchange toy_crypto (ls_eph_private (sample_side 1)) (x25519_public toy_crypto (ls_eph_private (sample_side 2))) = Inr [3]"
  "device_by_key k empty_db = None"
  by (simp_all add: sample_side_def toy_crypto_def device_by_key_def empty_db_def)

theorem first_contact_agreement_witness:
  "\<exists>hello auth ca cb.
    run_handshake toy_crypto toy_signatures ascii_platform (sample_side 1) True hello auth (new_connection empty_db True []) = (Inr (Some False), ca)
    \<and> (\<exists>hello' auth'. run_handshake toy_crypto toy_signatures ascii_platform (sample_side 2) False hello' auth' (new_connection empty_db False [])
         = (Inr (Some False), cb))
    \<and> map (snd \<circ> snd) (cn_prompts ca) = map (snd \<circ> snd) (cn_prompts cb) \<and> cn_prompts ca \<noteq> []"
proof -
  let ?run = "\<lambda>b ini h a. run_handshake toy_crypto toy_signatures ascii_platform (sample_side b) ini h a (new_connection empty_db ini [])"
  let ?rec = "received ascii_platform [] 0"
  obtain f1 f2 f3 f4 ca cb code where a: "?run 1 True (?rec f2) (?rec f4) = (Inr (Some False), ca)"
    and b: "?run 2 False (?rec f1) (?rec f3) = (Inr (Some False), cb)"
    and c: "map (snd \<circ> snd) (cn_prompts ca) = [code]" "map (snd \<circ> snd) (cn_prompts cb) = [code]"
    using first_contact_agreement [OF toy_crypto_ok(2) toy_signatures_ok sample_sides(1,1,2,3,3) sample_hello_fits sample_hello_fits
      sample_auth_fits sample_auth_fits, of "[]" 0 "[]" "[]"] by (elim exE conjE) (rule that, assumption+)
  have "cn_prompts ca \<noteq> []" "map (snd \<circ> snd) (cn_prompts ca) = map (snd \<circ> snd) (cn_prompts cb)" using c by auto
  with a b show ?thesis by blast
qed

lemma sample_handshake:
  "\<exists>hello auth c. run_handshake toy_crypto toy_signatures ascii_platform (sample_side 1) True hello auth (new_connection empty_db True []) = (Inr (Some False), c)
    \<and> ps_session (cn_ps c) = keyed_session toy_crypto (sample_side 1) (sample_side 2) True [3] \<and> cn_db c = empty_db
    \<and> ps_remote_static_pub_b64 (cn_ps c) = Some (public_key_b64 (ls_identity (sample_side 2)))
    \<and> ps_remote_device_id (cn_ps c) = JStr [97] \<and> ps_remote_device_name (cn_ps c) = JStr [98]"
proof -
  let ?t = "common_transcript toy_crypto (sample_side 1) (sample_side 2)"
  obtain f where f: "encode_frame ascii_platform (hello_message toy_crypto (sample_side 1) HANDSHAKE_INIT) = Inr f"
    using message_fits_received [OF sample_hello_fits] by blast
  obtain g where g: "encode_frame ascii_platform (auth_message toy_signatures (sample_side 1) AUTH_CHALLENGE ?t) = Inr g"
    using message_fits_received [OF sample_auth_fits] by blast
  have v: "verify toy_signatures (id_public_key_bytes (ls_identity (sample_side 2))) ?t (sign toy_signatures (ls_identity (sample_side 2)) ?t)"
    using toy_signatures_ok sample_sides(1) [of 2] by (simp add: signatures_ok_def verify_def sign_def)
  have "ls_device_id (sample_side 2) = [97]" "ls_device_name (sample_side 2) = [98]" by (simp_all add: sample_side_def)
  with honest_run [OF toy_crypto_ok(2) refl refl, where ini = True and sg = toy_signatures and peer = "sample_side 2" and t = ?t
      and ls = "sample_side 1" and dh = "[3]" and pf = ascii_platform and f = f and g = g and d = empty_db and addr = "[]"]
    f g v sample_sides(2,3) show ?thesis by auto
qed

theorem handshake_authenticates_witness:
  "\<exists>hello auth c k. run_handshake toy_crypto toy_signatures ascii_platform (sample_side 1) True hello auth (new_connection empty_db True [])
      = (Inr (Some False), c)
    \<and> peer_proved toy_signatures hello auth (cn_ps c) k \<and> cn_db c = empty_db"
proof -
  obtain hello auth c where r: "run_handshake toy_crypto toy_signatures ascii_platform (sample_side 1) True hello auth (new_connection empty_db True [])
      = (Inr (Some False), c)" using sample_handshake by blast
  from handshake_authenticates [OF r] r show ?thesis by blast
qed

end
