(* ===== verification/Generator.thy ===== *)
theory Generator
  imports Outgoing
begin

text \<open>
  The chunk generator of \<^verbatim>\<open>OutgoingTransfer\<close> (\<^verbatim>\<open>core/transfer.py\<close>) resumed for one frame at a time, as
  \<^verbatim>\<open>send_file\<close> of the service runs it, and its agreement with the run in one go of \<open>Outgoing\<close>.
\<close>

section \<open>One resumption\<close>

text \<open>Before the first resumption; suspended at a \<^verbatim>\<open>yield\<close> with the next sequence number and the blocks left.\<close>

datatype generator = Fresh int | Reading int "bytes list"

datatype yielded = Yield bytes generator | Stop | Raise pyerr

text \<open>From the test of the flag \<^verbatim>\<open>_cancelled\<close> to the next \<^verbatim>\<open>yield\<close> or the end.\<close>

definition read_next :: "platform \<Rightarrow> bool \<Rightarrow> int \<Rightarrow> bytes list \<Rightarrow> outgoing \<Rightarrow> yielded \<times> outgoing" where
  "read_next pf read_ok sq blocks og =
     (if og_cancelled og then (Stop, og\<lparr>og_state := CANCELLING\<rparr>)
      else if \<not> read_ok then (Raise TransferError, og\<lparr>og_state := FAILED\<rparr>)
      else case blocks of
             [] \<Rightarrow> (case transfer_transition (og_state og) COMPLETED of
                      Inr st \<Rightarrow> (Stop, og\<lparr>og_state := st\<rparr>)
                    | Inl e \<Rightarrow> (Raise e, og))
           | chunk # rest \<Rightarrow>
               (case encode_chunk_frame pf (og_transfer_id og) sq chunk of
                  Inl e \<Rightarrow> (Raise e, og)
                | Inr frame_bytes \<Rightarrow>
                    (Yield frame_bytes (Reading (sq + 1) rest), og\<lparr>og_bytes_sent := og_bytes_sent og + int (length chunk)\<rparr>)))"

definition stream_next ::
    "platform \<Rightarrow> os_env \<Rightarrow> bool \<Rightarrow> fs \<Rightarrow> bool \<Rightarrow> generator \<Rightarrow> outgoing \<Rightarrow> yielded \<times> outgoing" where
  "stream_next pf env seek_ok fs read_ok g og =
     (case g of
        Reading sq blocks \<Rightarrow> read_next pf read_ok sq blocks og
      | Fresh resume_chunk_index \<Rightarrow>
          (case transfer_transition (og_state og) TRANSFERRING of
             Inl e \<Rightarrow> (Raise e, og)
           | Inr st \<Rightarrow>
               (let o1 = og\<lparr>og_state := st\<rparr>; offset = resume_chunk_index * int CHUNK_SIZE
                in case (if os_open_ok env (og_source_path og) then fs (og_source_path og) else None) of
                     Some (File c) \<Rightarrow>
                       if 0 < offset \<and> \<not> seek_ok then (Raise TransferError, o1\<lparr>og_state := FAILED\<rparr>)
                       else read_next pf read_ok resume_chunk_index (read_blocks CHUNK_SIZE (drop (nat offset) c)) o1
                   | _ \<Rightarrow> (Raise TransferError, o1\<lparr>og_state := FAILED\<rparr>))))"

section \<open>Resumed until it ends\<close>

text \<open>
  \<open>n\<close> bounds the resumptions; before the \<open>k\<close>-th the flag may be set by \<^verbatim>\<open>cancel\<close>.
\<close>

fun resume_all ::
    "nat \<Rightarrow> platform \<Rightarrow> (nat \<Rightarrow> bool) \<Rightarrow> (nat \<Rightarrow> bool) \<Rightarrow> os_env \<Rightarrow> bool \<Rightarrow> fs \<Rightarrow> nat \<Rightarrow> generator \<Rightarrow> outgoing
       \<Rightarrow> (bytes list \<times> unit res \<times> outgoing) option" where
  "resume_all 0 pf cancelled read_ok env seek_ok fs k g og = None"
| "resume_all (Suc n) pf cancelled read_ok env seek_ok fs k g og =
     (case stream_next pf env seek_ok fs (read_ok k) g (if cancelled k then cancel_outgoing og else og) of
        (Stop, o2) \<Rightarrow> Some ([], Inr (), o2)
      | (Raise e, o2) \<Rightarrow> Some ([], Inl e, o2)
      | (Yield f g', o2) \<Rightarrow>
          map_option (\<lambda>(fr, r, o3). (f # fr, r, o3)) (resume_all n pf cancelled read_ok env seek_ok fs (Suc k) g' o2))"

text \<open>What the end of the loop makes of the object.\<close>

definition loop_outcome :: "stream_end \<Rightarrow> outgoing \<Rightarrow> unit res \<times> outgoing" where
  "loop_outcome fin og =
     (case fin of
        Cancelled_at_chunk \<Rightarrow> (Inr (), og\<lparr>og_state := CANCELLING, og_cancelled := True\<rparr>)
      | Raised e \<Rightarrow> (Inl e, if e = TransferError then og\<lparr>og_state := FAILED\<rparr> else og)
      | Finished \<Rightarrow> (case transfer_transition (og_state og) COMPLETED of
                      Inr st \<Rightarrow> (Inr (), og\<lparr>og_state := st\<rparr>) | Inl e \<Rightarrow> (Inl e, og)))"

lemma int16_value_error: "int16_of_str pf x \<noteq> Inl TransferError"
  by (auto simp: int16_of_str_def Let_def split: prod.splits option.splits)

lemma encode_chunk_not_transfer_error: "encode_chunk_frame pf tid sq c \<noteq> Inl TransferError"
  by (auto simp: encode_chunk_frame_def uuid_parse_def struct_pack_def res_bind_def Let_def int16_value_error split: sum.splits if_splits option.splits)

lemma resume_reading:
  assumes "length blocks < n" and "\<not> og_cancelled og"
  shows "resume_all n pf cancelled read_ok env seek_ok fs k (Reading sq blocks) og =
    (case stream_loop pf (og_transfer_id og) cancelled read_ok k sq (og_bytes_sent og) blocks of (frames, fin, tot) \<Rightarrow>
      Some (frames, loop_outcome fin (og\<lparr>og_bytes_sent := tot\<rparr>)))"
  using assms
proof (induction blocks arbitrary: n k sq og)
  case Nil
  then obtain m where "n = Suc m" by (cases n) auto
  with Nil show ?case
    by (auto simp: stream_next_def read_next_def loop_outcome_def cancel_outgoing_def split: sum.split)
next
  case (Cons c cs)
  then obtain m where n: "n = Suc m" "length cs < m" by (cases n) auto
  show ?case
  proof (cases "encode_chunk_frame pf (og_transfer_id og) sq c")
    case (Inl e)
    then show ?thesis using n Cons.prems(2) encode_chunk_not_transfer_error [of pf "og_transfer_id og" sq c]
      by (auto simp: stream_next_def read_next_def loop_outcome_def cancel_outgoing_def)
  next
    case (Inr f)
    let ?o = "og\<lparr>og_bytes_sent := og_bytes_sent og + int (length c)\<rparr>"
    have same: "loop_outcome Cancelled_at_chunk (og\<lparr>og_bytes_sent := og_bytes_sent og\<rparr>) = (Inr (), og\<lparr>og_state := CANCELLING, og_cancelled := True\<rparr>)"
      "loop_outcome (Raised TransferError) (og\<lparr>og_bytes_sent := og_bytes_sent og\<rparr>) = (Inl TransferError, og\<lparr>og_state := FAILED\<rparr>)"
      by (simp_all add: loop_outcome_def)
    show ?thesis
    proof (cases "cancelled k \<or> \<not> read_ok k")
      case True
      then show ?thesis using n Cons.prems(2) same by (auto simp: stream_next_def read_next_def cancel_outgoing_def)
    next
      case False
      then show ?thesis using n Cons.prems(2) Inr Cons.IH [OF n(2), of ?o "Suc k" "sq + 1"]
        by (simp add: stream_next_def read_next_def case_prod_beta)
    qed
  qed
qed



end
