(* ===== verification/Service_State.thy ===== *)
theory Service_State
  imports Handshake Generator Payloads Incoming Bridge
begin

text \<open>
  The state of \<^verbatim>\<open>FerryService\<close> (\<^verbatim>\<open>core/service.py\<close>) and the operations every handler uses: sending an
  encrypted message to a peer, signalling the coroutine that waits for an answer, the history of
  transfers, and the notifications of the listeners.
\<close>

section \<open>State\<close>

text \<open>
  A peer object is a reference (a number), since the code compares peers by identity. To the fields of
  \<^verbatim>\<open>PeerSession\<close> come the two dictionaries of waiting coroutines, which hold references to the lists of
  answers, whether the service has closed the connection, and whether the task of its session loop is alive.
\<close>

record speer = peer_session +
  sp_transfer_events :: "(pystr, nat) dict"
  sp_result_events :: "(pystr, nat) dict"
  sp_closed :: bool
  sp_looping :: bool

text \<open>What the service shows to the outside, in order.\<close>

datatype service_event =
    Sent nat message_type json bytes
  | Session_Changed pystr session_state
  | Transfer_Progress pystr int int
  | Transfer_Complete pystr bool pystr pystr
  | Request_Shown pystr pystr pystr int
  | Desktop_Note pystr pystr
  | Pairing_Shown pystr json pystr
  | Chunk_Sent nat bytes bytes
  | Coroutine_Done nat "bool res"

text \<open>
  The coroutines that send: what \<^verbatim>\<open>send_file\<close> keeps in local variables, what \<^verbatim>\<open>send_batch\<close> keeps while it sends
  its files, and where a coroutine is suspended. Transfer objects and lists of answers are references.
\<close>

record file_send =
  fl_peer :: nat
  fl_xfer :: nat
  fl_meta :: metadata
  fl_started_at :: int
  fl_batch_id :: pystr
  fl_batch :: "batch_incoming option"
  fl_bytes_sent :: int

record batch_send =
  bs_addr :: pystr
  bs_peer :: nat
  bs_batch_id :: pystr
  bs_batch_name :: pystr
  bs_total_items :: int
  bs_total_bytes :: int
  bs_created_at :: int
  bs_success_count :: int
  bs_files :: "(path \<times> pystr) list"

datatype suspended =
    Batch_Waiting batch_send nat
  | Accept_Waiting file_send "batch_send option" nat
  | Streaming file_send "batch_send option" generator
  | Result_Waiting file_send "batch_send option" nat
  | Resume_Waiting nat pystr int nat

text \<open>
  The dictionaries of the service. A task of \<^verbatim>\<open>_acceptance_timeout\<close> is pending while it is in
  \<open>sv_tasks\<close>, with what its closure captured.
\<close>

record service =
  sv_peers :: "nat \<Rightarrow> speer"
  sv_next_peer :: nat
  sv_active_sessions :: "(pystr, nat) dict"
  sv_incoming :: "(pystr, incoming) dict"
  sv_incoming_peers :: "(pystr, nat) dict"
  sv_outgoing :: "(pystr, nat \<times> nat) dict"
  sv_xfers :: "nat \<Rightarrow> outgoing"
  sv_transfer_answers :: "nat \<Rightarrow> pystr list"
  sv_result_answers :: "nat \<Rightarrow> bool list"
  sv_next_ref :: nat
  sv_coroutines :: "(nat, suspended) dict"
  sv_batches :: "(pystr, batch_incoming) dict"
  sv_accept_timeouts :: "(pystr, nat) dict"
  sv_tasks :: "(nat, pystr \<times> nat \<times> metadata) dict"
  sv_next_task :: nat
  sv_last_chunk :: "(pystr, rat) dict"
  sv_recorded :: "pystr list"
  sv_db :: db
  sv_fs :: fs
  sv_bridge :: bridge
  sv_download_dir :: path
  sv_events :: "service_event list"

type_synonym 'a svc = "(service, 'a) eff"

text \<open>
  What one step of the service finds in its environment: the cryptography, the clocks, the file
  system's answers, default message ids and timestamps (by the number of events so far), whether
  writing to a socket succeeds, texts of exceptions, the desktop's notification service, the device's own
  public key, the table of MIME types, and whether the next block of a source file can be read.
\<close>

record service_env =
  se_crypto :: crypto
  se_platform :: platform
  se_os :: os_env
  se_now :: int
  se_monotonic :: rat
  se_uuid :: pystr
  se_stamp :: "nat \<Rightarrow> pystr \<times> int"
  se_send_ok :: "nat \<Rightarrow> bool"
  se_exc_text :: "pyerr \<Rightarrow> pystr"
  se_notify :: "int \<Rightarrow> pystr \<Rightarrow> pystr \<Rightarrow> int option"
  se_own_key :: pystr
  se_mime :: "pystr \<Rightarrow> pystr option"
  se_source_read_ok :: bool

section \<open>Access to the parts\<close>

definition emit :: "service_event \<Rightarrow> unit svc" where
  "emit e = upd (\<lambda>s. s\<lparr>sv_events := sv_events s @ [e]\<rparr>)"

definition on_peer :: "nat \<Rightarrow> (speer, 'a) eff \<Rightarrow> 'a svc" where
  "on_peer p m = (\<lambda>s. case m (sv_peers s p) of (r, x) \<Rightarrow> (r, s\<lparr>sv_peers := (sv_peers s)(p := x)\<rparr>))"

definition on_peer_session :: "nat \<Rightarrow> (session, 'a) eff \<Rightarrow> 'a svc" where
  "on_peer_session p m = on_peer p (\<lambda>x. case m (ps_session x) of (r, ss) \<Rightarrow> (r, x\<lparr>ps_session := ss\<rparr>))"

definition on_database :: "(db, 'a) eff \<Rightarrow> 'a svc" where
  "on_database m = (\<lambda>s. case m (sv_db s) of (r, d) \<Rightarrow> (r, s\<lparr>sv_db := d\<rparr>))"

definition on_bridge :: "(bridge, 'a) eff \<Rightarrow> 'a svc" where
  "on_bridge m = (\<lambda>s. case m (sv_bridge s) of (r, b) \<Rightarrow> (r, s\<lparr>sv_bridge := b\<rparr>))"

text \<open>A method of the transfer object that the dictionary holds, and of one that was taken out of it;
  the latter returns the object too.\<close>

definition on_incoming :: "pystr \<Rightarrow> (rx, 'a) eff \<Rightarrow> 'a svc" where
  "on_incoming tid m = (\<lambda>s.
     case dict_get (sv_incoming s) tid of
       None \<Rightarrow> (Inl KeyError, s)
     | Some t \<Rightarrow> (case m (t, sv_fs s) of (r, t', fs') \<Rightarrow>
         (r, s\<lparr>sv_incoming := dict_set tid t' (sv_incoming s), sv_fs := fs'\<rparr>)))"

definition on_object :: "incoming \<Rightarrow> (rx, unit) eff \<Rightarrow> incoming svc" where
  "on_object t m = (\<lambda>s.
     case m (t, sv_fs s) of (r, t', fs') \<Rightarrow> (case r of Inl e \<Rightarrow> Inl e | Inr _ \<Rightarrow> Inr t', s\<lparr>sv_fs := fs'\<rparr>))"

definition pop_incoming :: "pystr \<Rightarrow> incoming option svc" where
  "pop_incoming tid = reads (\<lambda>s.
     seq (upd (sv_incoming_update (dict_pop tid))) (ret (dict_get (sv_incoming s) tid)))"

definition pop_incoming_peer :: "pystr \<Rightarrow> nat option svc" where
  "pop_incoming_peer tid = reads (\<lambda>s.
     seq (upd (sv_incoming_peers_update (dict_pop tid))) (ret (dict_get (sv_incoming_peers s) tid)))"

definition pop_last_chunk :: "pystr \<Rightarrow> unit svc" where
  "pop_last_chunk tid = upd (sv_last_chunk_update (dict_pop tid))"

definition pop_batch :: "pystr \<Rightarrow> batch_incoming option svc" where
  "pop_batch bid = reads (\<lambda>s. seq (upd (sv_batches_update (dict_pop bid))) (ret (dict_get (sv_batches s) bid)))"

text \<open>\<^verbatim>\<open>timeout_task = _accept_timeout_tasks.pop(tid, None); if timeout_task: timeout_task.cancel()\<close>.\<close>

definition cancel_timeout :: "pystr \<Rightarrow> unit svc" where
  "cancel_timeout tid = reads (\<lambda>s.
     seq (upd (sv_accept_timeouts_update (dict_pop tid)))
         (case dict_get (sv_accept_timeouts s) tid of
            None \<Rightarrow> ret ()
          | Some task \<Rightarrow> upd (sv_tasks_update (dict_pop task))))"

fun for_each :: "'b list \<Rightarrow> ('b \<Rightarrow> 'a svc) \<Rightarrow> unit svc" where
  "for_each [] f = ret ()"
| "for_each (x # xs) f = bind (f x) (\<lambda>_. for_each xs f)"

section \<open>Values from the peer as dictionary keys\<close>

text \<open>All keys of the service are strings. Looking up a container raises, another value is absent.\<close>

fun dict_key :: "json \<Rightarrow> pystr option res" where
  "dict_key (JStr s) = Inr (Some s)"
| "dict_key (JArr vs) = Inl TypeError"
| "dict_key (JObj d) = Inl TypeError"
| "dict_key _ = Inr None"

text \<open>\<^verbatim>\<open>transfer_id[:8] if transfer_id else "?"\<close> in a log message.\<close>

definition log_prefix :: "platform \<Rightarrow> json \<Rightarrow> unit res" where
  "log_prefix pf j =
     (if \<not> py_bool pf j then Inr () else case j of JStr _ \<Rightarrow> Inr () | JArr _ \<Rightarrow> Inr () | _ \<Rightarrow> Inl TypeError)"

definition key_get :: "('s \<Rightarrow> (pystr, 'v) dict) \<Rightarrow> json \<Rightarrow> ('s, 'v option) eff" where
  "key_get f j = bind (lift (dict_key j)) (\<lambda>k. gets (\<lambda>s. case k of None \<Rightarrow> None | Some t \<Rightarrow> dict_get (f s) t))"

section \<open>Listeners\<close>

definition notify_session :: "pystr \<Rightarrow> session_state \<Rightarrow> unit svc" where
  "notify_session addr st = emit (Session_Changed addr st)"

definition notify_transfer_progress :: "pystr \<Rightarrow> int \<Rightarrow> int \<Rightarrow> unit svc" where
  "notify_transfer_progress tid bytes_done total_bytes = emit (Transfer_Progress tid bytes_done total_bytes)"

definition notify_transfer_complete :: "pystr \<Rightarrow> bool \<Rightarrow> pystr \<Rightarrow> pystr \<Rightarrow> unit svc" where
  "notify_transfer_complete tid success file_name direction = emit (Transfer_Complete tid success file_name direction)"

abbreviation INCOMING :: pystr where "INCOMING \<equiv> lit ''INCOMING''"
abbreviation OUTGOING :: pystr where "OUTGOING \<equiv> lit ''OUTGOING''"

section \<open>Sending\<close>

text \<open>\<^verbatim>\<open>send_encrypted\<close>: the counter of the session advances before the frame is written.\<close>

definition send_encrypted :: "service_env \<Rightarrow> nat \<Rightarrow> message_type \<Rightarrow> json \<Rightarrow> unit svc" where
  "send_encrypted env p ty pl = reads (\<lambda>s.
     bind (on_peer_session p (encrypt_message (se_crypto env) (se_platform env) (se_stamp env (length (sv_events s))) ty pl)) (\<lambda>frame.
       if se_send_ok env (length (sv_events s)) then emit (Sent p ty pl frame) else raise OSError))"

text \<open>\<^verbatim>\<open>try: await self.send_encrypted(...) except Exception: ...\<close>.\<close>

definition try_send :: "service_env \<Rightarrow> nat \<Rightarrow> message_type \<Rightarrow> json \<Rightarrow> unit svc" where
  "try_send env p ty pl = catch (send_encrypted env p ty pl) (\<lambda>_. ret ())"

abbreviation tid_obj :: "pystr \<Rightarrow> json" where
  "tid_obj tid \<equiv> JObj [(lit ''transfer_id'', JStr tid)]"

abbreviation reason_obj :: "pystr \<Rightarrow> string \<Rightarrow> json" where
  "reason_obj tid r \<equiv> JObj [(lit ''transfer_id'', JStr tid), (lit ''reason'', JStr (lit r))]"

section \<open>Waiting coroutines\<close>

text \<open>\<^verbatim>\<open>_signal_transfer_event\<close>: the answer is appended to the holder, if a coroutine waits for it.\<close>

definition signal_transfer :: "nat \<Rightarrow> json \<Rightarrow> pystr \<Rightarrow> unit svc" where
  "signal_transfer p tid answer =
     bind (key_get (\<lambda>s. sp_transfer_events (sv_peers s p)) tid) (\<lambda>h. case h of
       None \<Rightarrow> ret ()
     | Some holder \<Rightarrow> upd (sv_transfer_answers_update (\<lambda>a. a(holder := a holder @ [answer]))))"

definition signal_result :: "nat \<Rightarrow> json \<Rightarrow> bool \<Rightarrow> unit svc" where
  "signal_result p tid success =
     bind (key_get (\<lambda>s. sp_result_events (sv_peers s p)) tid) (\<lambda>h. case h of
       None \<Rightarrow> ret ()
     | Some holder \<Rightarrow> upd (sv_result_answers_update (\<lambda>a. a(holder := a holder @ [success]))))"

text \<open>The start of \<^verbatim>\<open>_wait_for_transfer_response\<close> and \<^verbatim>\<open>_wait_for_transfer_result\<close>, up to the \<^verbatim>\<open>await\<close>.\<close>

definition fresh_ref :: "nat svc" where
  "fresh_ref = (\<lambda>s. (Inr (sv_next_ref s), s\<lparr>sv_next_ref := Suc (sv_next_ref s)\<rparr>))"

definition await_transfer :: "nat \<Rightarrow> pystr \<Rightarrow> nat svc" where
  "await_transfer p tid = bind fresh_ref (\<lambda>h.
     seq (upd (sv_transfer_answers_update (\<lambda>a. a(h := []))))
    (seq (on_peer p (upd (sp_transfer_events_update (dict_set tid h)))) (ret h)))"

definition await_result :: "nat \<Rightarrow> pystr \<Rightarrow> nat svc" where
  "await_result p tid = bind fresh_ref (\<lambda>h.
     seq (upd (sv_result_answers_update (\<lambda>a. a(h := []))))
    (seq (on_peer p (upd (sp_result_events_update (dict_set tid h)))) (ret h)))"

text \<open>The rest of them: \<^verbatim>\<open>del\<close> raises when another coroutine has removed the entry.\<close>

definition take_response :: "nat \<Rightarrow> pystr \<Rightarrow> nat \<Rightarrow> pystr svc" where
  "take_response p tid h = reads (\<lambda>s.
     if dict_has (sp_transfer_events (sv_peers s p)) tid
     then seq (on_peer p (upd (sp_transfer_events_update (dict_pop tid))))
              (ret (case sv_transfer_answers s h of a # _ \<Rightarrow> a | [] \<Rightarrow> lit ''REJECT''))
     else raise KeyError)"

definition take_result :: "nat \<Rightarrow> pystr \<Rightarrow> nat \<Rightarrow> bool svc" where
  "take_result p tid h = reads (\<lambda>s.
     if dict_has (sp_result_events (sv_peers s p)) tid
     then seq (on_peer p (upd (sp_result_events_update (dict_pop tid))))
              (ret (case sv_result_answers s h of a # _ \<Rightarrow> a | [] \<Rightarrow> False))
     else raise KeyError)"

section \<open>History\<close>

text \<open>\<^verbatim>\<open>ps.remote_device_id or ps.remote_addr\<close>.\<close>

definition peer_device :: "platform \<Rightarrow> speer \<Rightarrow> json" where
  "peer_device pf x = (if py_bool pf (ps_remote_device_id x) then ps_remote_device_id x else JStr (ps_remote_addr x))"

text \<open>A device id that SQLite cannot bind raises inside the \<^verbatim>\<open>try\<close>.\<close>

definition bind_device :: "platform \<Rightarrow> json \<Rightarrow> pystr res" where
  "bind_device pf j = res_bind (sql_param pf j) (\<lambda>p. case p of Some s \<Rightarrow> Inr s | None \<Rightarrow> Inl ValueError)"

definition record_transfer_once ::
    "service_env \<Rightarrow> pystr \<Rightarrow> json \<Rightarrow> pystr \<Rightarrow> int \<Rightarrow> pystr \<Rightarrow> pystr \<Rightarrow> int \<Rightarrow> pystr \<Rightarrow> unit svc" where
  "record_transfer_once env tid device file_name file_size direction status started_at sha = reads (\<lambda>s.
     if tid \<in> set (sv_recorded s) then ret ()
     else catch
       (bind (lift (bind_device (se_platform env) device)) (\<lambda>device_id.
        seq (on_database (add_transfer
              \<lparr>tc_transfer_id = tid, tc_device_id = device_id, tc_file_name = file_name, tc_file_size = file_size,
               tc_direction = direction, tc_status = status, tc_started_at = started_at,
               tc_completed_at = Some (se_now env), tc_sha256 = sha\<rparr>))
            (upd (sv_recorded_update (\<lambda>r. r @ [tid])))))
       (\<lambda>_. ret ()))"

text \<open>The outcome of an incoming transfer: history and listeners.\<close>

definition close_incoming :: "service_env \<Rightarrow> json \<Rightarrow> incoming \<Rightarrow> pystr \<Rightarrow> pystr \<Rightarrow> int \<Rightarrow> unit svc" where
  "close_incoming env device t tid status started_at =
     seq (record_transfer_once env tid device (md_file_name (in_meta t)) (md_file_size (in_meta t)) INCOMING status started_at [])
         (notify_transfer_complete tid False (md_file_name (in_meta t)) INCOMING)"

section \<open>Pairing\<close>

definition persist_trust :: "service_env \<Rightarrow> nat \<Rightarrow> unit svc" where
  "persist_trust env p = reads (\<lambda>s.
     let x = sv_peers s p in
     bind (lift (text_or (se_platform env) (ps_remote_device_id x) (se_uuid env))) (\<lambda>device_id.
     bind (lift (text_or (se_platform env) (ps_remote_device_name x) (lit ''Unknown''))) (\<lambda>device_name.
     case ps_remote_static_pub_b64 x of
       None \<Rightarrow> raise ValueError
     | Some key \<Rightarrow> on_database (add_or_update_device
         \<lparr>td_device_id = device_id, td_device_name = device_name, td_public_key = key, td_identity_public_key_b64 = key,
          td_paired_at = se_now env, td_last_seen = se_now env\<rparr>))))"

definition disconnect_session :: "nat \<Rightarrow> unit svc" where
  "disconnect_session p =
     seq (reads (\<lambda>s. if fs_state (ps_session (sv_peers s p)) \<notin> {S_DISCONNECTED, S_FAILED}
                     then catch (on_peer_session p (session_transition S_FAILED)) (\<lambda>_. ret ()) else ret ()))
    (seq (reads (\<lambda>s. notify_session (ps_remote_addr (sv_peers s p)) (fs_state (ps_session (sv_peers s p)))))
         (on_peer p (upd (sp_closed_update (\<lambda>_. True)))))"

text \<open>Both sides have accepted.\<close>

definition complete_pairing :: "service_env \<Rightarrow> nat \<Rightarrow> unit svc" where
  "complete_pairing env p =
     seq (on_peer_session p (session_transition S_PAIR_ACCEPTED))
    (seq (persist_trust env p) (on_peer_session p (session_transition S_ESTABLISHED)))"

definition accept_pairing :: "service_env \<Rightarrow> pystr \<Rightarrow> unit svc" where
  "accept_pairing env addr = reads (\<lambda>s.
     case dict_get (sv_active_sessions s) addr of
       None \<Rightarrow> ret ()
     | Some p \<Rightarrow>
         (let st = fs_state (ps_session (sv_peers s p)) in
          seq (if st = S_PAIRING then on_peer_session p (session_transition S_WAITING_FOR_REMOTE_DECISION)
               else if st = S_WAITING_FOR_LOCAL_DECISION then complete_pairing env p else ret ())
         (seq (reads (\<lambda>s. notify_session (ps_remote_addr (sv_peers s p)) (fs_state (ps_session (sv_peers s p)))))
              (send_encrypted env p PAIR_DECISION (JObj [(lit ''decision'', JStr (lit ''ACCEPT''))])))))"

definition reject_pairing :: "service_env \<Rightarrow> pystr \<Rightarrow> unit svc" where
  "reject_pairing env addr = reads (\<lambda>s.
     case dict_get (sv_active_sessions s) addr of
       None \<Rightarrow> ret ()
     | Some p \<Rightarrow> seq (try_send env p PAIR_DECISION (JObj [(lit ''decision'', JStr (lit ''REJECT''))])) (disconnect_session p))"

end
