(* ===== verification/Service_Transfers.thy ===== *)
theory Service_Transfers
  imports Service_State
begin

text \<open>
  The handlers of \<^verbatim>\<open>FerryService\<close> for incoming transfers and batches: chunks, requests, completion,
  cancellation, the user's decisions and the timeouts. A handler runs without being interleaved with
  another (a write to a socket does not suspend it).
\<close>

section \<open>Chunks\<close>

definition chunk_progress :: "pystr \<Rightarrow> int \<Rightarrow> unit svc" where
  "chunk_progress tid n = reads (\<lambda>s.
     case dict_get (sv_incoming s) tid of
       None \<Rightarrow> ret ()
     | Some t \<Rightarrow>
         (let batch_id = md_batch_id (in_meta t) in
          if batch_id \<noteq> [] then
            (case dict_get (sv_batches s) batch_id of
               None \<Rightarrow> ret ()
             | Some b \<Rightarrow>
                 (let b' = b\<lparr>bi_bytes_transferred := bi_bytes_transferred b + n\<rparr>
                  in seq (upd (sv_batches_update (dict_set batch_id b')))
                         (notify_transfer_progress batch_id (bi_bytes_transferred b') (bi_total_bytes b'))))
          else notify_transfer_progress tid (in_bytes_received t) (md_file_size (in_meta t))))"

text \<open>A disk error: the transfer is dropped and the sender told.\<close>

definition chunk_failed :: "service_env \<Rightarrow> pystr \<Rightarrow> incoming \<Rightarrow> unit svc" where
  "chunk_failed env tid t =
     bind (pop_incoming_peer tid) (\<lambda>peer.
     bind (pop_incoming tid) (\<lambda>_.
     seq (pop_last_chunk tid)
    (seq (cancel_timeout tid)
    (seq (case peer of
            None \<Rightarrow> ret ()
          | Some p \<Rightarrow>
              seq (try_send env p TRANSFER_ERROR (JObj
                    [(lit ''transfer_id'', JStr tid), (lit ''error_code'', JStr (lit ''ERR_IO_FAILURE'')),
                     (lit ''message'', JStr (se_exc_text env TransferError))]))
                  (reads (\<lambda>s. record_transfer_once env tid (peer_device (se_platform env) (sv_peers s p))
                     (md_file_name (in_meta t)) (md_file_size (in_meta t)) INCOMING (lit ''FAILED'')
                     (md_created_at (in_meta t)) [])))
         (notify_transfer_complete tid False (md_file_name (in_meta t)) INCOMING)))))"

text \<open>A chunk that does not fit: the transfer is cancelled, its peer stays in \<^verbatim>\<open>_incoming_peers\<close>.\<close>

definition chunk_refused :: "service_env \<Rightarrow> pystr \<Rightarrow> unit svc" where
  "chunk_refused env tid =
     seq (on_incoming tid (cancel_incoming (se_os env)))
    (bind (pop_incoming tid) (\<lambda>_. pop_last_chunk tid))"

definition on_chunk_received :: "service_env \<Rightarrow> bytes \<Rightarrow> unit svc" where
  "on_chunk_received env plaintext =
     (case decode_chunk_frame plaintext of
        Inl e \<Rightarrow> if e = ValueError then ret () else raise e
      | Inr chunk \<Rightarrow>
          (let tid = cf_transfer_id chunk in reads (\<lambda>s.
             case dict_get (sv_incoming s) tid of
               None \<Rightarrow> ret ()
             | Some t \<Rightarrow>
                 seq (upd (sv_last_chunk_update (dict_set tid (se_monotonic env))))
                     (catch (seq (on_incoming tid (receive_chunk (se_os env) chunk))
                                 (chunk_progress tid (int (length (cf_data chunk)))))
                        (\<lambda>e. if e = TransferError then chunk_failed env tid t
                             else if e = ValueError \<or> e = RuntimeError then chunk_refused env tid
                             else raise e)))))"

section \<open>Requests\<close>

definition send_reject :: "service_env \<Rightarrow> nat \<Rightarrow> pystr \<Rightarrow> string \<Rightarrow> unit svc" where
  "send_reject env p tid r = send_encrypted env p TRANSFER_REJECT (reason_obj tid r)"

definition batch_accepted :: "service \<Rightarrow> pystr \<Rightarrow> bool" where
  "batch_accepted s batch_id =
     (case dict_get (sv_batches s) batch_id of None \<Rightarrow> False | Some b \<Rightarrow> bi_state b = B_ACCEPTED)"

text \<open>\<^verbatim>\<open>notifications.incoming_transfer_request\<close> concatenates the peer's name, which may not be a string.\<close>

definition incoming_note :: "service_env \<Rightarrow> nat \<Rightarrow> metadata \<Rightarrow> unit svc" where
  "incoming_note env p meta = reads (\<lambda>s.
     let x = sv_peers s p;
         name = (if py_bool (se_platform env) (ps_remote_device_name x) then ps_remote_device_name x else JStr (ps_remote_addr x))
     in case name of
          JStr n \<Rightarrow> emit (Desktop_Note (lit ''Incoming file from '' @ n) (md_file_name meta))
        | _ \<Rightarrow> raise TypeError)"

definition start_timeout :: "nat \<Rightarrow> metadata \<Rightarrow> unit svc" where
  "start_timeout p meta = upd (\<lambda>s.
     s\<lparr>sv_tasks := dict_set (sv_next_task s) (md_transfer_id meta, p, meta) (sv_tasks s),
       sv_accept_timeouts := dict_set (md_transfer_id meta) (sv_next_task s) (sv_accept_timeouts s),
       sv_next_task := Suc (sv_next_task s)\<rparr>)"

definition register_request :: "service_env \<Rightarrow> nat \<Rightarrow> metadata \<Rightarrow> bool \<Rightarrow> unit svc" where
  "register_request env p meta is_batched =
     (let tid = md_transfer_id meta in
      seq (upd (\<lambda>s. s\<lparr>sv_incoming := dict_set tid (new_incoming meta (sv_download_dir s)) (sv_incoming s),
                      sv_incoming_peers := dict_set tid p (sv_incoming_peers s)\<rparr>))
        (if is_batched
         then seq (on_incoming tid (begin_incoming (se_os env))) (send_encrypted env p TRANSFER_ACCEPT (tid_obj tid))
         else seq (reads (\<lambda>s. emit (Request_Shown (ps_remote_addr (sv_peers s p)) tid (md_file_name meta) (md_file_size meta))))
             (seq (incoming_note env p meta) (start_timeout p meta))))"

definition on_transfer_request :: "service_env \<Rightarrow> nat \<Rightarrow> json \<Rightarrow> unit svc" where
  "on_transfer_request env p payload =
     (case metadata_from_dict (se_platform env) (se_now env) payload of
        Inl e \<Rightarrow>
          if e = ValueError \<or> e = KeyError
          then bind (lift (obj_get payload (lit ''transfer_id'') (JStr []))) (\<lambda>tid.
                 send_encrypted env p TRANSFER_ERROR (JObj
                   [(lit ''transfer_id'', tid), (lit ''error_code'', JStr (lit ''INVALID_REQUEST'')),
                    (lit ''message'', JStr (se_exc_text env e))]))
          else raise e
      | Inr meta \<Rightarrow> reads (\<lambda>s.
          let is_batched = (md_batch_id meta \<noteq> [] \<and> batch_accepted s (md_batch_id meta))
          in if md_batch_id meta \<noteq> [] \<and> \<not> is_batched then send_reject env p (md_transfer_id meta) ''INVALID_REQUEST''
             else if sv_incoming s \<noteq> [] \<and> \<not> is_batched then send_reject env p (md_transfer_id meta) ''BUSY''
             else register_request env p meta is_batched))"

text \<open>The task that rejects a request nobody answered, when it is due.\<close>

definition acceptance_timeout :: "service_env \<Rightarrow> nat \<Rightarrow> unit svc" where
  "acceptance_timeout env task = reads (\<lambda>s.
     case dict_get (sv_tasks s) task of
       None \<Rightarrow> ret ()
     | Some (tid, p, meta) \<Rightarrow>
         seq (upd (sv_tasks_update (dict_pop task)))
           (if \<not> dict_has (sv_incoming s) tid then ret ()
            else bind (pop_incoming tid) (\<lambda>pending.
                 bind (pop_incoming_peer tid) (\<lambda>_.
                 seq (upd (sv_accept_timeouts_update (dict_pop tid)))
                   (case pending of
                      None \<Rightarrow> ret ()
                    | Some t \<Rightarrow>
                        bind (on_object t (cancel_incoming (se_os env))) (\<lambda>_.
                        seq (try_send env p TRANSFER_REJECT (reason_obj tid ''TIMEOUT_EXPIRED''))
                       (seq (reads (\<lambda>s. record_transfer_once env tid (peer_device (se_platform env) (sv_peers s p))
                              (md_file_name meta) (md_file_size meta) INCOMING (lit ''REJECTED'') (md_created_at meta) []))
                            (notify_transfer_complete tid False (md_file_name meta) INCOMING))))))))"

section \<open>Completion\<close>

text \<open>The item of a batch has ended; with the last one the batch is closed.\<close>

definition batch_item_done :: "service_env \<Rightarrow> nat \<Rightarrow> incoming \<Rightarrow> bool \<Rightarrow> unit svc" where
  "batch_item_done env p t success = reads (\<lambda>s.
     let batch_id = md_batch_id (in_meta t) in
     case dict_get (sv_batches s) batch_id of
       None \<Rightarrow> ret ()
     | Some b \<Rightarrow>
         (let b' = (if success then b\<lparr>bi_items_completed := bi_items_completed b + 1\<rparr>
                    else b\<lparr>bi_items_failed := bi_items_failed b + 1\<rparr>)
          in seq (upd (sv_batches_update (dict_set batch_id b')))
            (if bi_items_completed b' + bi_items_failed b' = bi_total_items b'
             then (let batch_success = (bi_items_failed b' = 0)
                   in bind (pop_batch batch_id) (\<lambda>_.
                      seq (record_transfer_once env batch_id (peer_device (se_platform env) (sv_peers s p))
                             (bi_batch_name b') (bi_total_bytes b') INCOMING
                             (if batch_success then lit ''COMPLETED'' else lit ''FAILED'') (md_created_at (in_meta t)) [])
                     (seq (notify_transfer_complete batch_id batch_success (bi_batch_name b') INCOMING)
                          (emit (Desktop_Note (if batch_success then lit ''Transfer complete'' else lit ''Transfer failed'') (bi_batch_name b'))))))
             else ret ())))"

definition single_item_done :: "service_env \<Rightarrow> nat \<Rightarrow> pystr \<Rightarrow> incoming \<Rightarrow> bool \<Rightarrow> unit svc" where
  "single_item_done env p tid t success = reads (\<lambda>s.
     seq (record_transfer_once env tid (peer_device (se_platform env) (sv_peers s p)) (md_file_name (in_meta t))
            (md_file_size (in_meta t)) INCOMING (if success then lit ''COMPLETED'' else lit ''FAILED'')
            (md_created_at (in_meta t)) (if success then md_sha256 (in_meta t) else []))
    (seq (notify_transfer_complete tid success (md_file_name (in_meta t)) INCOMING)
         (emit (Desktop_Note (if success then lit ''Transfer complete'' else lit ''Transfer failed'') (md_file_name (in_meta t))))))"

definition result_obj :: "pystr \<Rightarrow> bool \<Rightarrow> pystr \<Rightarrow> json" where
  "result_obj tid success sha = JObj
     [(lit ''transfer_id'', JStr tid), (lit ''success'', JBool success), (lit ''sha256'', JStr sha)]"

text \<open>The transfer stays in the dictionary until the verdict has been sent.\<close>

definition complete_incoming :: "service_env \<Rightarrow> nat \<Rightarrow> pystr \<Rightarrow> incoming \<Rightarrow> unit svc" where
  "complete_incoming env p tid t =
     seq (cancel_timeout tid)
    (seq (pop_last_chunk tid)
    (bind (on_incoming tid (finalise (se_os env))) (\<lambda>success.
     seq (send_encrypted env p TRANSFER_RESULT (result_obj tid success (if success then md_sha256 (in_meta t) else [])))
    (bind (pop_incoming tid) (\<lambda>_.
     bind (pop_incoming_peer tid) (\<lambda>_.
       if md_batch_id (in_meta t) = [] then single_item_done env p tid t success
       else batch_item_done env p t success))))))"

definition on_transfer_complete :: "service_env \<Rightarrow> nat \<Rightarrow> json \<Rightarrow> unit svc" where
  "on_transfer_complete env p transfer_id =
     bind (key_get sv_incoming transfer_id) (\<lambda>found. case (found, transfer_id) of
       (Some t, JStr tid) \<Rightarrow> complete_incoming env p tid t
     | _ \<Rightarrow> lift (log_prefix (se_platform env) transfer_id))"

section \<open>Cancellation\<close>

text \<open>\<^verbatim>\<open>_cancel_incoming_transfer\<close>, after a \<^verbatim>\<open>TRANSFER_ERROR\<close>.\<close>

definition cancel_incoming_transfer :: "service_env \<Rightarrow> json \<Rightarrow> unit svc" where
  "cancel_incoming_transfer env transfer_id =
     bind (lift (dict_key transfer_id)) (\<lambda>k. case k of
       None \<Rightarrow> ret ()
     | Some tid \<Rightarrow>
         bind (pop_incoming tid) (\<lambda>found.
         bind (pop_incoming_peer tid) (\<lambda>_.
         seq (cancel_timeout tid)
        (seq (pop_last_chunk tid)
             (case found of
                None \<Rightarrow> ret ()
              | Some t \<Rightarrow> bind (on_object t (cancel_incoming (se_os env))) (\<lambda>_.
                  notify_transfer_complete tid False (md_file_name (in_meta t)) INCOMING))))))"

definition mark_outgoing_cancelled :: "pystr \<Rightarrow> unit svc" where
  "mark_outgoing_cancelled tid = upd (\<lambda>s. case dict_get (sv_outgoing s) tid of
     None \<Rightarrow> s
   | Some (p, x) \<Rightarrow> s\<lparr>sv_xfers := (sv_xfers s)(x := cancel_outgoing (sv_xfers s x))\<rparr>)"

definition release_waiters :: "nat \<Rightarrow> json \<Rightarrow> unit svc" where
  "release_waiters p tid = seq (signal_transfer p tid (lit ''CANCEL'')) (signal_result p tid False)"

definition on_transfer_cancel :: "service_env \<Rightarrow> nat \<Rightarrow> json \<Rightarrow> unit svc" where
  "on_transfer_cancel env p transfer_id =
     seq (lift (log_prefix (se_platform env) transfer_id))
    (bind (lift (dict_key transfer_id)) (\<lambda>k. case k of
       None \<Rightarrow> release_waiters p transfer_id
     | Some tid \<Rightarrow> reads (\<lambda>s.
         if \<not> dict_has (sv_incoming s) tid \<and> \<not> dict_has (sv_outgoing s) tid then release_waiters p transfer_id
         else
           seq (cancel_timeout tid)
          (seq (pop_last_chunk tid)
          (bind (pop_incoming tid) (\<lambda>found.
           bind (pop_incoming_peer tid) (\<lambda>_.
           seq (case found of
                  None \<Rightarrow> ret ()
                | Some t \<Rightarrow> bind (on_object t (cancel_incoming (se_os env))) (\<lambda>_.
                    close_incoming env (peer_device (se_platform env) (sv_peers s p)) t tid (lit ''CANCELLED'') (md_created_at (in_meta t))))
          (seq (mark_outgoing_cancelled tid) (release_waiters p transfer_id)))))))))"

text \<open>When a session ends: the incoming and outgoing transfers of the peer.\<close>

definition drop_incoming_of_peer :: "service_env \<Rightarrow> nat \<Rightarrow> pystr \<times> incoming \<Rightarrow> unit svc" where
  "drop_incoming_of_peer env p = (\<lambda>(tid, t).
     bind (pop_incoming tid) (\<lambda>_.
     bind (pop_incoming_peer tid) (\<lambda>_.
     seq (cancel_timeout tid)
    (seq (pop_last_chunk tid)
    (bind (on_object t (cancel_incoming (se_os env))) (\<lambda>t'. reads (\<lambda>s.
       close_incoming env (peer_device (se_platform env) (sv_peers s p)) t' tid
         (if in_state t' = transfer_state.INTERRUPTED then lit ''INTERRUPTED'' else lit ''FAILED'') (md_created_at (in_meta t')))))))))"

definition cancel_incoming_for_peer :: "service_env \<Rightarrow> nat \<Rightarrow> unit svc" where
  "cancel_incoming_for_peer env p = reads (\<lambda>s.
     for_each (filter (\<lambda>(tid, t). dict_get (sv_incoming_peers s) tid = Some p) (sv_incoming s))
       (drop_incoming_of_peer env p))"

definition cancel_outgoing_for_peer :: "nat \<Rightarrow> unit svc" where
  "cancel_outgoing_for_peer p = reads (\<lambda>s.
     for_each (map fst (filter (\<lambda>(tid, (q, x)). q = p) (sv_outgoing s)))
       (\<lambda>tid. seq (mark_outgoing_cancelled tid) (release_waiters p (JStr tid))))"

section \<open>Batches\<close>

definition on_batch_request :: "service_env \<Rightarrow> nat \<Rightarrow> json \<Rightarrow> unit svc" where
  "on_batch_request env p payload =
     (case batch_request_from_dict (se_platform env) payload of
        Inl e \<Rightarrow> ret ()
      | Inr req \<Rightarrow> reads (\<lambda>s.
          if sv_batches s \<noteq> [] \<or> sv_incoming s \<noteq> []
          then send_encrypted env p BATCH_REJECT
                 (JObj [(lit ''batch_id'', JStr (br_batch_id req)), (lit ''reason'', JStr (lit ''BUSY''))])
          else seq (upd (sv_batches_update (dict_set (br_batch_id req)
                 (new_batch_incoming (br_batch_id req) (br_batch_name req) (br_total_items req) (br_total_bytes req)))))
               (emit (Request_Shown (ps_remote_addr (sv_peers s p)) (br_batch_id req) (lit ''[Batch] '' @ br_batch_name req) (br_total_bytes req)))))"

definition on_batch_complete :: "json \<Rightarrow> unit svc" where
  "on_batch_complete batch_id =
     bind (lift (dict_key batch_id)) (\<lambda>k. case k of None \<Rightarrow> ret () | Some b \<Rightarrow> bind (pop_batch b) (\<lambda>_. ret ()))"

definition on_batch_cancel :: "json \<Rightarrow> unit svc" where
  "on_batch_cancel batch_id =
     bind (lift (dict_key batch_id)) (\<lambda>k. case k of
       None \<Rightarrow> ret ()
     | Some b \<Rightarrow> bind (pop_batch b) (\<lambda>found. case found of
         None \<Rightarrow> ret ()
       | Some x \<Rightarrow> notify_transfer_complete b False (bi_batch_name x) INCOMING))"

definition accept_batch :: "service_env \<Rightarrow> pystr \<Rightarrow> pystr \<Rightarrow> unit svc" where
  "accept_batch env addr batch_id = reads (\<lambda>s.
     case (dict_get (sv_batches s) batch_id, dict_get (sv_active_sessions s) addr) of
       (Some b, Some p) \<Rightarrow>
         seq (upd (sv_batches_update (dict_set batch_id (b\<lparr>bi_state := B_ACCEPTED\<rparr>))))
             (send_encrypted env p BATCH_ACCEPT (JObj [(lit ''batch_id'', JStr batch_id)]))
     | _ \<Rightarrow> ret ())"

definition reject_batch :: "service_env \<Rightarrow> pystr \<Rightarrow> pystr \<Rightarrow> unit svc" where
  "reject_batch env addr batch_id =
     bind (pop_batch batch_id) (\<lambda>found. case found of
       None \<Rightarrow> ret ()
     | Some b \<Rightarrow> reads (\<lambda>s. case dict_get (sv_active_sessions s) addr of
         None \<Rightarrow> ret ()
       | Some p \<Rightarrow> send_encrypted env p BATCH_REJECT
           (JObj [(lit ''batch_id'', JStr batch_id), (lit ''reason'', JStr (lit ''USER_REJECTED''))])))"

section \<open>Decisions of the user\<close>

definition accept_transfer :: "service_env \<Rightarrow> pystr \<Rightarrow> pystr \<Rightarrow> unit svc" where
  "accept_transfer env addr tid = reads (\<lambda>s.
     case dict_get (sv_incoming s) tid of
       None \<Rightarrow> if dict_has (sv_batches s) tid then accept_batch env addr tid else ret ()
     | Some t \<Rightarrow>
         (case dict_get (sv_active_sessions s) addr of
            None \<Rightarrow> ret ()
          | Some p \<Rightarrow>
              seq (cancel_timeout tid)
             (seq (on_incoming tid (begin_incoming (se_os env)))
                  (send_encrypted env p TRANSFER_ACCEPT (tid_obj tid)))))"

definition reject_transfer :: "service_env \<Rightarrow> pystr \<Rightarrow> pystr \<Rightarrow> unit svc" where
  "reject_transfer env addr tid =
     bind (pop_incoming tid) (\<lambda>found. reads (\<lambda>s. case found of
       None \<Rightarrow> if dict_has (sv_batches s) tid then reject_batch env addr tid else ret ()
     | Some t \<Rightarrow>
         (case dict_get (sv_active_sessions s) addr of
            None \<Rightarrow> ret ()
          | Some p \<Rightarrow>
              seq (cancel_timeout tid)
             (bind (on_object t (cancel_incoming (se_os env))) (\<lambda>_. send_reject env p tid ''USER_REJECTED'')))))"

definition cancel_batch_locally :: "service_env \<Rightarrow> pystr \<Rightarrow> bool svc" where
  "cancel_batch_locally env tid =
     bind (pop_batch tid) (\<lambda>found. reads (\<lambda>s.
       seq (for_each (map snd (sv_active_sessions s)) (\<lambda>p. try_send env p BATCH_CANCEL (JObj [(lit ''batch_id'', JStr tid)])))
      (seq (case found of
              None \<Rightarrow> ret ()
            | Some b \<Rightarrow>
                seq (record_transfer_once env tid (JStr (lit ''unknown'')) (bi_batch_name b) (bi_total_bytes b) OUTGOING
                       (lit ''CANCELLED'') (se_now env) [])
                    (notify_transfer_complete tid False (bi_batch_name b) OUTGOING))
           (ret True))))"

definition cancel_incoming_locally :: "service_env \<Rightarrow> pystr \<Rightarrow> pystr \<Rightarrow> bool svc" where
  "cancel_incoming_locally env tid r =
     bind (pop_incoming tid) (\<lambda>found.
     bind (pop_incoming_peer tid) (\<lambda>peer.
     seq (cancel_timeout tid)
    (seq (pop_last_chunk tid)
         (case found of
            None \<Rightarrow> ret False
          | Some t \<Rightarrow>
              bind (on_object t (cancel_incoming (se_os env))) (\<lambda>t'.
              seq (case peer of None \<Rightarrow> ret () | Some p \<Rightarrow> try_send env p TRANSFER_CANCEL
                     (JObj [(lit ''transfer_id'', JStr tid), (lit ''reason'', JStr r)]))
             (seq (reads (\<lambda>s. close_incoming env
                     (case peer of None \<Rightarrow> JStr (lit ''unknown'') | Some p \<Rightarrow> peer_device (se_platform env) (sv_peers s p))
                     t' tid (lit ''CANCELLED'') (se_now env)))
                  (ret True)))))))"

definition cancel_transfer :: "service_env \<Rightarrow> pystr \<Rightarrow> pystr \<Rightarrow> bool svc" where
  "cancel_transfer env tid r = reads (\<lambda>s.
     if dict_has (sv_batches s) tid then cancel_batch_locally env tid
     else case dict_get (sv_outgoing s) tid of
       Some (p, x) \<Rightarrow> seq (mark_outgoing_cancelled tid) (seq (release_waiters p (JStr tid)) (ret True))
     | None \<Rightarrow> if dict_has (sv_incoming s) tid then cancel_incoming_locally env tid r else ret False)"

text \<open>\<^verbatim>\<open>discard_interrupted_transfer\<close>: the transfer leaves the dictionary without being cancelled.\<close>

definition discard_interrupted_transfer :: "service_env \<Rightarrow> pystr \<Rightarrow> unit svc" where
  "discard_interrupted_transfer env tid = reads (\<lambda>s.
     let part = path_join (path_join (sv_download_dir s) (lit ''staging'')) (tid @ lit ''.part'') in
     seq (if exists_path (sv_fs s) part
          then upd (\<lambda>s. s\<lparr>sv_fs := snd (unlink_file (se_os env) part (sv_fs s))\<rparr>) else ret ())
    (bind (pop_incoming tid) (\<lambda>_.
     bind (pop_incoming_peer tid) (\<lambda>_.
       catch (on_database (delete_interrupted_transfer tid)) (\<lambda>_. ret ())))))"

text \<open>One round of \<^verbatim>\<open>_monitor_stall_timeouts\<close>.\<close>

definition monitor_stalls :: "service_env \<Rightarrow> unit svc" where
  "monitor_stalls env = reads (\<lambda>s.
     for_each (map fst (filter (\<lambda>(tid, last_t). 30 < se_monotonic env - last_t) (sv_last_chunk s)))
       (\<lambda>tid. case dict_get (sv_incoming_peers s) tid of
          None \<Rightarrow> ret ()
        | Some p \<Rightarrow> on_peer p (upd (sp_closed_update (\<lambda>_. True)))))"

end
