(* ===== verification/Service_Senders.thy ===== *)
theory Service_Senders
  imports Service_Transfers
begin

text \<open>
  The coroutines of \<^verbatim>\<open>FerryService\<close> that send: \<^verbatim>\<open>send_file\<close>, \<^verbatim>\<open>send_batch\<close> and \<^verbatim>\<open>request_resume\<close>
  (\<^verbatim>\<open>core/service.py\<close>). Each is cut at its \<^verbatim>\<open>await\<close>s: a segment runs from one suspension to the next, and
  other steps of the service may come in between.
\<close>

section \<open>Segments\<close>

datatype outcome = Suspend suspended | Returned bool

text \<open>\<^verbatim>\<open>finally: self._active_outgoing_transfers.pop(meta.transfer_id, None)\<close>.\<close>

definition leaving :: "pystr \<Rightarrow> outcome svc \<Rightarrow> outcome svc" where
  "leaving tid m =
     bind (catch m (\<lambda>e. seq (upd (sv_outgoing_update (dict_pop tid))) (raise e))) (\<lambda>r. case r of
       Suspend c \<Rightarrow> ret r
     | Returned b \<Rightarrow> seq (upd (sv_outgoing_update (dict_pop tid))) (ret r))"

section \<open>Sending a file\<close>

abbreviation fl_tid :: "file_send \<Rightarrow> pystr" where
  "fl_tid fl \<equiv> md_transfer_id (fl_meta fl)"

text \<open>History and listeners, unless the file belongs to a batch.\<close>

definition outgoing_ended :: "service_env \<Rightarrow> file_send \<Rightarrow> pystr \<Rightarrow> pystr \<Rightarrow> bool \<Rightarrow> unit svc" where
  "outgoing_ended env fl status sha success =
     (if fl_batch_id fl = []
      then seq (reads (\<lambda>s. record_transfer_once env (fl_tid fl) (peer_device (se_platform env) (sv_peers s (fl_peer fl)))
                  (md_file_name (fl_meta fl)) (md_file_size (fl_meta fl)) OUTGOING status (fl_started_at fl) sha))
               (notify_transfer_complete (fl_tid fl) success (md_file_name (fl_meta fl)) OUTGOING)
      else ret ())"

text \<open>Up to the wait for the answer.\<close>

definition begin_file ::
    "service_env \<Rightarrow> pystr \<Rightarrow> path \<Rightarrow> pystr option \<Rightarrow> pystr \<Rightarrow> pystr \<Rightarrow> batch_send option \<Rightarrow> outcome svc" where
  "begin_file env addr source_path transfer_id batch_id relative_path rest = reads (\<lambda>s.
     case dict_get (sv_active_sessions s) addr of
       None \<Rightarrow> raise RuntimeError
     | Some p \<Rightarrow>
         if fs_state (ps_session (sv_peers s p)) \<noteq> S_ESTABLISHED then raise RuntimeError
         else
           (let xfer = new_outgoing (se_uuid env) source_path
                  (case ps_remote_static_pub_b64 (sv_peers s p) of Some k \<Rightarrow> k | None \<Rightarrow> []) transfer_id batch_id relative_path
            in case build_metadata (se_mime env) (se_now env) (se_os env) (sv_fs s) xfer (se_own_key env) of
                 Inl e \<Rightarrow> if is_oserror e \<or> e = ValueError then ret (Returned False) else raise e
               | Inr meta \<Rightarrow>
                   bind fresh_ref (\<lambda>x.
                   seq (upd (\<lambda>s. s\<lparr>sv_xfers := (sv_xfers s)(x := xfer),
                                  sv_outgoing := dict_set (md_transfer_id meta) (p, x) (sv_outgoing s)\<rparr>))
                       (leaving (md_transfer_id meta)
                         (seq (send_encrypted env p TRANSFER_REQUEST (metadata_to_dict meta))
                         (bind (await_transfer p (md_transfer_id meta)) (\<lambda>h.
                            ret (Suspend (Accept_Waiting
                              \<lparr>fl_peer = p, fl_xfer = x, fl_meta = meta, fl_started_at = se_now env, fl_batch_id = batch_id,
                               fl_batch = None, fl_bytes_sent = 0\<rparr> rest h)))))))))"

text \<open>After the last chunk.\<close>

definition chunks_sent :: "service_env \<Rightarrow> file_send \<Rightarrow> batch_send option \<Rightarrow> outcome svc" where
  "chunks_sent env fl rest = reads (\<lambda>s.
     let xfer = sv_xfers s (fl_xfer fl) in
     if og_cancelled xfer \<or> og_state xfer = CANCELLING
     then seq (try_send env (fl_peer fl) TRANSFER_CANCEL (reason_obj (fl_tid fl) ''USER_CANCELLED''))
         (seq (outgoing_ended env fl (lit ''CANCELLED'') (md_sha256 (fl_meta fl)) False) (ret (Returned False)))
     else seq (send_encrypted env (fl_peer fl) TRANSFER_COMPLETE (tid_obj (fl_tid fl)))
         (bind (await_result (fl_peer fl) (fl_tid fl)) (\<lambda>h. ret (Suspend (Result_Waiting fl rest h)))))"

text \<open>The progress after a frame; the batch object is shared with \<^verbatim>\<open>_active_batches\<close> while it is there.\<close>

definition add_transferred :: "pystr \<Rightarrow> int \<Rightarrow> unit svc" where
  "add_transferred batch_id n = upd (\<lambda>s. case dict_get (sv_batches s) batch_id of
     None \<Rightarrow> s
   | Some b \<Rightarrow> s\<lparr>sv_batches := dict_set batch_id (b\<lparr>bi_bytes_transferred := bi_bytes_transferred b + n\<rparr>) (sv_batches s)\<rparr>)"

definition sending_progress :: "file_send \<Rightarrow> bytes \<Rightarrow> file_send svc" where
  "sending_progress fl frame_bytes =
     (let n = max 0 (int (length frame_bytes) - int CHUNK_HEADER_SIZE);
          fl' = fl\<lparr>fl_bytes_sent := fl_bytes_sent fl + n\<rparr>
      in case fl_batch fl of
           Some b \<Rightarrow>
             (let b' = b\<lparr>bi_bytes_transferred := bi_bytes_transferred b + n\<rparr>
              in seq (add_transferred (fl_batch_id fl) n)
                (seq (notify_transfer_progress (fl_batch_id fl) (bi_bytes_transferred b') (bi_total_bytes b'))
                     (ret (fl'\<lparr>fl_batch := Some b'\<rparr>))))
         | None \<Rightarrow> seq (notify_transfer_progress (fl_tid fl) (fl_bytes_sent fl') (md_file_size (fl_meta fl))) (ret fl'))"

text \<open>One turn of the loop over the chunks, from the resumption of the generator to the next one.\<close>

definition send_chunk :: "service_env \<Rightarrow> file_send \<Rightarrow> batch_send option \<Rightarrow> bytes \<Rightarrow> generator \<Rightarrow> outcome svc" where
  "send_chunk env fl rest frame_bytes g = reads (\<lambda>s.
     bind (on_peer_session (fl_peer fl) (encrypt_frame (se_crypto env) frame_bytes)) (\<lambda>encrypted.
     if se_send_ok env (length (sv_events s))
     then seq (emit (Chunk_Sent (fl_peer fl) frame_bytes encrypted))
         (bind (sending_progress fl frame_bytes) (\<lambda>fl'. ret (Suspend (Streaming fl' rest g))))
     else raise OSError))"

definition stream_step :: "service_env \<Rightarrow> file_send \<Rightarrow> batch_send option \<Rightarrow> generator \<Rightarrow> outcome svc" where
  "stream_step env fl rest g = reads (\<lambda>s.
     case stream_next (se_platform env) (se_os env) True (sv_fs s) (se_source_read_ok env) g (sv_xfers s (fl_xfer fl)) of
       (y, xfer) \<Rightarrow>
         seq (upd (sv_xfers_update (\<lambda>xs. xs(fl_xfer fl := xfer))))
           (case y of
              Yield frame_bytes g' \<Rightarrow>
                if og_cancelled xfer \<or> og_state xfer = CANCELLING then chunks_sent env fl rest
                else send_chunk env fl rest frame_bytes g'
            | Stop \<Rightarrow> chunks_sent env fl rest
            | Raise e \<Rightarrow>
                if e = TransferError
                then seq (try_send env (fl_peer fl) TRANSFER_CANCEL (reason_obj (fl_tid fl) ''IO_ERROR''))
                    (seq (outgoing_ended env fl (lit ''FAILED'') (md_sha256 (fl_meta fl)) False) (ret (Returned False)))
                else raise e))"

definition on_response :: "service_env \<Rightarrow> file_send \<Rightarrow> batch_send option \<Rightarrow> pystr \<Rightarrow> outcome svc" where
  "on_response env fl rest response = reads (\<lambda>s.
     if response \<noteq> lit ''ACCEPT''
     then seq (outgoing_ended env fl
                 (if response = lit ''CANCEL'' \<or> og_cancelled (sv_xfers s (fl_xfer fl)) then lit ''CANCELLED'' else lit ''REJECTED'')
                 (md_sha256 (fl_meta fl)) False)
              (ret (Returned False))
     else stream_step env
            (fl\<lparr>fl_batch := (if fl_batch_id fl \<noteq> [] then dict_get (sv_batches s) (fl_batch_id fl) else None)\<rparr>) rest (Fresh 0))"

definition on_result :: "service_env \<Rightarrow> file_send \<Rightarrow> bool \<Rightarrow> outcome svc" where
  "on_result env fl success =
     seq (outgoing_ended env fl (if success then lit ''COMPLETED'' else lit ''FAILED'')
            (if success then md_sha256 (fl_meta fl) else []) success)
         (ret (Returned success))"

section \<open>Sending a batch\<close>

definition batch_end :: "service_env \<Rightarrow> batch_send \<Rightarrow> outcome svc" where
  "batch_end env bs = reads (\<lambda>s.
     let success = (bs_success_count bs = bs_total_items bs) in
     seq (if dict_has (sv_batches s) (bs_batch_id bs)
          then seq (send_encrypted env (bs_peer bs) BATCH_COMPLETE (JObj [(lit ''batch_id'', JStr (bs_batch_id bs))]))
                   (bind (pop_batch (bs_batch_id bs)) (\<lambda>_. ret ()))
          else ret ())
    (seq (reads (\<lambda>s. record_transfer_once env (bs_batch_id bs) (peer_device (se_platform env) (sv_peers s (bs_peer bs)))
            (bs_batch_name bs) (bs_total_bytes bs) OUTGOING (if success then lit ''COMPLETED'' else lit ''FAILED'')
            (bs_created_at bs) []))
    (seq (notify_transfer_complete (bs_batch_id bs) success (bs_batch_name bs) OUTGOING)
         (ret (Returned success)))))"

definition count_item :: "batch_send \<Rightarrow> bool \<Rightarrow> batch_send svc" where
  "count_item bs success =
     seq (upd (\<lambda>s. case dict_get (sv_batches s) (bs_batch_id bs) of
            None \<Rightarrow> s
          | Some b \<Rightarrow> s\<lparr>sv_batches := dict_set (bs_batch_id bs)
              (if success then b\<lparr>bi_items_completed := bi_items_completed b + 1\<rparr>
               else b\<lparr>bi_items_failed := bi_items_failed b + 1\<rparr>) (sv_batches s)\<rparr>))
         (ret (if success then bs\<lparr>bs_success_count := bs_success_count bs + 1\<rparr> else bs))"

text \<open>The loop over the files: it stops at the first file whose sending suspends.\<close>

fun batch_items :: "service_env \<Rightarrow> batch_send \<Rightarrow> (path \<times> pystr) list \<Rightarrow> outcome svc" where
  "batch_items env bs [] = batch_end env bs"
| "batch_items env bs ((abs_path, rel_path) # files) = reads (\<lambda>s.
     if \<not> dict_has (sv_batches s) (bs_batch_id bs) then batch_end env bs
     else bind (begin_file env (bs_addr bs) abs_path None (bs_batch_id bs) rel_path (Some (bs\<lparr>bs_files := files\<rparr>))) (\<lambda>r.
          case r of
            Suspend c \<Rightarrow> ret (Suspend c)
          | Returned success \<Rightarrow> bind (count_item bs success) (\<lambda>bs'. batch_items env bs' files)))"

text \<open>
  The files and their total size, found by walking the directories, are an input.
\<close>

definition begin_batch :: "service_env \<Rightarrow> pystr \<Rightarrow> (path \<times> pystr) list \<Rightarrow> int \<Rightarrow> pystr \<Rightarrow> outcome svc" where
  "begin_batch env addr all_files total_bytes batch_name = reads (\<lambda>s.
     case dict_get (sv_active_sessions s) addr of
       None \<Rightarrow> ret (Returned False)
     | Some p \<Rightarrow>
         if fs_state (ps_session (sv_peers s p)) \<noteq> S_ESTABLISHED \<or> all_files = [] then ret (Returned False)
         else
           (let batch_id = se_uuid env; total_items = int (length all_files);
                req = \<lparr>br_batch_id = batch_id, br_batch_name = batch_name, br_total_items = total_items,
                       br_total_bytes = total_bytes, br_sender_identity = se_own_key env, br_created_at = se_now env,
                       br_protocol_version = PROTOCOL_VERSION\<rparr>
            in seq (upd (sv_batches_update (dict_set batch_id (new_batch_incoming batch_id batch_name total_items total_bytes))))
              (seq (send_encrypted env p BATCH_REQUEST (batch_request_to_dict req))
              (bind (await_transfer p batch_id) (\<lambda>h.
                 ret (Suspend (Batch_Waiting
                   \<lparr>bs_addr = addr, bs_peer = p, bs_batch_id = batch_id, bs_batch_name = batch_name,
                    bs_total_items = total_items, bs_total_bytes = total_bytes, bs_created_at = br_created_at req,
                    bs_success_count = 0, bs_files = all_files\<rparr> h))))))) "

definition on_batch_response :: "service_env \<Rightarrow> batch_send \<Rightarrow> pystr \<Rightarrow> outcome svc" where
  "on_batch_response env bs response =
     (if response \<noteq> lit ''ACCEPT'' then bind (pop_batch (bs_batch_id bs)) (\<lambda>_. ret (Returned False))
      else batch_items env bs (bs_files bs))"

section \<open>Requesting a resumption\<close>

text \<open>The transfer object built from the stored metadata, in state INTERRUPTED.\<close>

definition stored_transfer :: "metadata \<Rightarrow> path \<Rightarrow> incoming" where
  "stored_transfer meta dir =
     (let t = new_incoming meta dir in t\<lparr>in_temp_path := Some (part_path t), in_state := transfer_state.INTERRUPTED\<rparr>)"

definition begin_resume :: "service_env \<Rightarrow> pystr \<Rightarrow> pystr \<Rightarrow> outcome svc" where
  "begin_resume env addr tid = reads (\<lambda>s.
     case dict_get (sv_active_sessions s) addr of
       None \<Rightarrow> ret (Returned False)
     | Some p \<Rightarrow>
         bind (on_database (get_interrupted_transfer tid)) (\<lambda>found. case found of
           None \<Rightarrow> ret (Returned False)
         | Some info \<Rightarrow>
             (case res_bind (loads (se_platform env) (ii_original_metadata_json info)) (metadata_from_dict (se_platform env) (se_now env)) of
                Inl e \<Rightarrow> ret (Returned False)
              | Inr meta \<Rightarrow>
                  (case prepare_resume_request (se_platform env) (se_os env) (Some (ii_bytes_received info))
                          (Some (ii_resume_chunk_index info)) (stored_transfer meta (sv_download_dir s), sv_fs s) of
                     (Inl e, _) \<Rightarrow> ret (Returned False)
                   | (Inr req, t, fs') \<Rightarrow>
                       seq (upd (\<lambda>s. s\<lparr>sv_incoming := dict_set tid t (sv_incoming s),
                                      sv_incoming_peers := dict_set tid p (sv_incoming_peers s), sv_fs := fs'\<rparr>))
                      (seq (send_encrypted env p TRANSFER_RESUME_REQUEST (resume_request_to_dict req))
                      (bind (await_transfer p tid) (\<lambda>h.
                         ret (Suspend (Resume_Waiting p tid (rr_resume_chunk_index req) h)))))))))"

text \<open>
  The object is the one in the dictionary; when a handler has taken it out, it was cancelled or its staging file
  deleted, and \<^verbatim>\<open>resume\<close> raises.
\<close>

definition on_resume_response :: "service_env \<Rightarrow> pystr \<Rightarrow> int \<Rightarrow> pystr \<Rightarrow> outcome svc" where
  "on_resume_response env tid index response =
     (let give_up = bind (pop_incoming tid) (\<lambda>_. bind (pop_incoming_peer tid) (\<lambda>_. ret (Returned False)))
      in if response \<noteq> lit ''ACCEPT'' then give_up
         else catch (seq (on_incoming tid (resume (se_os env) index)) (ret (Returned True))) (\<lambda>_. give_up))"

section \<open>Running the coroutines\<close>

text \<open>When \<^verbatim>\<open>send_file\<close> returns to \<^verbatim>\<open>send_batch\<close>, the next files follow.\<close>

definition in_file :: "service_env \<Rightarrow> file_send \<Rightarrow> batch_send option \<Rightarrow> outcome svc \<Rightarrow> outcome svc" where
  "in_file env fl rest m =
     bind (leaving (fl_tid fl) m) (\<lambda>r. case r of
       Suspend c \<Rightarrow> ret (Suspend c)
     | Returned success \<Rightarrow>
         (case rest of
            None \<Rightarrow> ret (Returned success)
          | Some bs \<Rightarrow> bind (count_item bs success) (\<lambda>bs'. batch_items env bs' (bs_files bs))))"

text \<open>The event a coroutine waits for is set as soon as there is an answer.\<close>

definition may_continue :: "service \<Rightarrow> suspended \<Rightarrow> bool" where
  "may_continue s c =
     (case c of
        Batch_Waiting bs h \<Rightarrow> sv_transfer_answers s h \<noteq> []
      | Accept_Waiting fl rest h \<Rightarrow> sv_transfer_answers s h \<noteq> []
      | Streaming fl rest g \<Rightarrow> True
      | Result_Waiting fl rest h \<Rightarrow> sv_result_answers s h \<noteq> []
      | Resume_Waiting p tid index h \<Rightarrow> sv_transfer_answers s h \<noteq> [])"

definition continue_segment :: "service_env \<Rightarrow> suspended \<Rightarrow> outcome svc" where
  "continue_segment env c =
     (case c of
        Batch_Waiting bs h \<Rightarrow> bind (take_response (bs_peer bs) (bs_batch_id bs) h) (on_batch_response env bs)
      | Accept_Waiting fl rest h \<Rightarrow>
          in_file env fl rest (bind (take_response (fl_peer fl) (fl_tid fl) h) (on_response env fl rest))
      | Streaming fl rest g \<Rightarrow> in_file env fl rest (stream_step env fl rest g)
      | Result_Waiting fl rest h \<Rightarrow> in_file env fl rest (bind (take_result (fl_peer fl) (fl_tid fl) h) (on_result env fl))
      | Resume_Waiting p tid index h \<Rightarrow> bind (take_response p tid h) (on_resume_response env tid index))"

text \<open>\<^verbatim>\<open>asyncio.wait_for\<close> gives up; only \<^verbatim>\<open>send_batch\<close> does not catch the exception.\<close>

definition timeout_segment :: "service_env \<Rightarrow> suspended \<Rightarrow> outcome svc" where
  "timeout_segment env c =
     (case c of
        Batch_Waiting bs h \<Rightarrow> raise TimeoutError
      | Accept_Waiting fl rest h \<Rightarrow> in_file env fl rest (on_response env fl rest (lit ''REJECT''))
      | Streaming fl rest g \<Rightarrow> ret (Suspend c)
      | Result_Waiting fl rest h \<Rightarrow> in_file env fl rest (on_result env fl False)
      | Resume_Waiting p tid index h \<Rightarrow> on_resume_response env tid index (lit ''REJECT''))"

definition settle :: "nat \<Rightarrow> outcome svc \<Rightarrow> unit svc" where
  "settle c m =
     bind (catch (bind m (\<lambda>r. ret (Inr r))) (\<lambda>e. ret (Inl e))) (\<lambda>x. case x of
       Inr (Suspend sp) \<Rightarrow> upd (sv_coroutines_update (dict_set c sp))
     | Inr (Returned b) \<Rightarrow> seq (upd (sv_coroutines_update (dict_pop c))) (emit (Coroutine_Done c (Inr b)))
     | Inl e \<Rightarrow> seq (upd (sv_coroutines_update (dict_pop c))) (emit (Coroutine_Done c (Inl e))))"

definition continue_coroutine :: "service_env \<Rightarrow> nat \<Rightarrow> unit svc" where
  "continue_coroutine env c = reads (\<lambda>s.
     case dict_get (sv_coroutines s) c of
       None \<Rightarrow> ret ()
     | Some sp \<Rightarrow> if may_continue s sp then settle c (continue_segment env sp) else ret ())"

definition timeout_coroutine :: "service_env \<Rightarrow> nat \<Rightarrow> unit svc" where
  "timeout_coroutine env c = reads (\<lambda>s.
     case dict_get (sv_coroutines s) c of
       None \<Rightarrow> ret ()
     | Some sp \<Rightarrow> settle c (timeout_segment env sp))"

definition send_file :: "service_env \<Rightarrow> pystr \<Rightarrow> path \<Rightarrow> unit svc" where
  "send_file env addr source_path = bind fresh_ref (\<lambda>c. settle c (begin_file env addr source_path None [] [] None))"

definition send_batch :: "service_env \<Rightarrow> pystr \<Rightarrow> (path \<times> pystr) list \<Rightarrow> int \<Rightarrow> pystr \<Rightarrow> unit svc" where
  "send_batch env addr all_files total_bytes batch_name =
     bind fresh_ref (\<lambda>c. settle c (begin_batch env addr all_files total_bytes batch_name))"

definition request_resume :: "service_env \<Rightarrow> pystr \<Rightarrow> pystr \<Rightarrow> unit svc" where
  "request_resume env addr tid = bind fresh_ref (\<lambda>c. settle c (begin_resume env addr tid))"

end
