(* ===== verification/Service_Loop.thy ===== *)
theory Service_Loop
  imports Service_Senders
begin

text \<open>
  The session loop of \<^verbatim>\<open>FerryService\<close>: resume requests, the dispatch of a decrypted message, the
  reading of frames until the session ends, and the steps of the whole service.
\<close>

section \<open>Resuming\<close>

definition refuse_resume :: "service_env \<Rightarrow> nat \<Rightarrow> json \<Rightarrow> string \<Rightarrow> unit svc" where
  "refuse_resume env p transfer_id r = try_send env p TRANSFER_RESUME_REJECT
     (JObj [(lit ''transfer_id'', transfer_id), (lit ''reason'', JStr (lit r))])"

definition accept_resume :: "service_env \<Rightarrow> nat \<Rightarrow> pystr \<Rightarrow> interrupted_info \<Rightarrow> unit svc" where
  "accept_resume env p tid info =
     bind (lift (res_bind (loads (se_platform env) (ii_original_metadata_json info))
                  (metadata_from_dict (se_platform env) (se_now env)))) (\<lambda>meta.
     bind (gets sv_download_dir) (\<lambda>dir.
     bind (on_object (stored_transfer meta dir) (resume (se_os env) (ii_resume_chunk_index info))) (\<lambda>t.
     seq (upd (\<lambda>s. s\<lparr>sv_incoming := dict_set tid t (sv_incoming s), sv_incoming_peers := dict_set tid p (sv_incoming_peers s)\<rparr>))
         (send_encrypted env p TRANSFER_RESUME_ACCEPT (JObj
            [(lit ''transfer_id'', JStr tid), (lit ''resume_chunk_index'', JInt (ii_resume_chunk_index info)),
             (lit ''protocol_version'', JInt 1)])))))"

text \<open>\<^verbatim>\<open>partial.lower()\<close>; the stored hash is hexadecimal, so only ASCII letters matter for the comparison.\<close>

fun lower_json :: "json \<Rightarrow> pystr res" where
  "lower_json (JStr s) = Inr (ascii_lower s)"
| "lower_json _ = Inl AttributeError"

text \<open>
  The checks in the order of the code. A transfer id that is not a string is looked up as text by
  SQLite and never equals a stored id, which is a UUID.
\<close>

definition on_transfer_resume_request :: "service_env \<Rightarrow> nat \<Rightarrow> json \<Rightarrow> unit svc" where
  "on_transfer_resume_request env p payload =
     bind (lift (obj_get payload (lit ''transfer_id'') JNull)) (\<lambda>transfer_id.
     if \<not> py_bool (se_platform env) transfer_id then ret ()
     else bind (lift (sql_param (se_platform env) transfer_id)) (\<lambda>k.
          bind (on_database (get_interrupted_transfer (case k of Some x \<Rightarrow> x | None \<Rightarrow> []))) (\<lambda>found.
          case (found, transfer_id) of
            (Some info, JStr tid) \<Rightarrow> reads (\<lambda>s.
              if ps_remote_static_pub_b64 (sv_peers s p) \<noteq> Some (ii_sender_identity info)
              then refuse_resume env p transfer_id ''WRONG_PEER''
              else bind (lift (res_bind (obj_get payload (lit ''partial_sha256'') (JStr [])) lower_json)) (\<lambda>partial.
                if partial \<noteq> ascii_lower (ii_partial_sha256 info) then refuse_resume env p transfer_id ''PARTIAL_CORRUPT''
                else bind (lift (obj_get payload (lit ''resume_chunk_index'') (JInt 0))) (\<lambda>index.
                  if \<not> py_eq_int (se_platform env) index (ii_resume_chunk_index info)
                  then refuse_resume env p transfer_id ''PARTIAL_CORRUPT''
                  else catch (accept_resume env p tid info) (\<lambda>_. refuse_resume env p transfer_id ''SOURCE_MODIFIED''))))
          | _ \<Rightarrow> refuse_resume env p transfer_id ''TRANSFER_NOT_FOUND'')))"

section \<open>Dispatch\<close>

definition is_message :: "json \<Rightarrow> message_type \<Rightarrow> bool" where
  "is_message ty mt \<longleftrightarrow> ty = JStr (message_value mt)"

text \<open>\<^verbatim>\<open>_handle_transfer_message\<close>; an unknown type is only logged.\<close>

definition handle_transfer_message :: "service_env \<Rightarrow> nat \<Rightarrow> envelope \<Rightarrow> unit svc" where
  "handle_transfer_message env p e =
     (let ty = ev_type e; pl = ev_payload e in
      bind (lift (obj_get pl (lit ''transfer_id'') (JStr []))) (\<lambda>tid.
      let with_batch = (\<lambda>f. bind (lift (obj_get pl (lit ''batch_id'') (JStr []))) f) in
      if is_message ty TRANSFER_REQUEST then on_transfer_request env p pl
      else if is_message ty TRANSFER_ACCEPT then signal_transfer p tid (lit ''ACCEPT'')
      else if is_message ty TRANSFER_REJECT then signal_transfer p tid (lit ''REJECT'')
      else if is_message ty TRANSFER_COMPLETE then on_transfer_complete env p tid
      else if is_message ty TRANSFER_RESULT
        then bind (lift (obj_get pl (lit ''success'') (JBool False))) (\<lambda>v. signal_result p tid (py_bool (se_platform env) v))
      else if is_message ty TRANSFER_CANCEL then on_transfer_cancel env p tid
      else if is_message ty TRANSFER_ERROR then cancel_incoming_transfer env tid
      else if is_message ty TRANSFER_RESUME_REQUEST then on_transfer_resume_request env p pl
      else if is_message ty TRANSFER_RESUME_ACCEPT then signal_transfer p tid (lit ''ACCEPT'')
      else if is_message ty TRANSFER_RESUME_REJECT then signal_transfer p tid (lit ''REJECT'')
      else if is_message ty BATCH_REQUEST then on_batch_request env p pl
      else if is_message ty BATCH_ACCEPT then with_batch (\<lambda>b. signal_transfer p b (lit ''ACCEPT''))
      else if is_message ty BATCH_REJECT then with_batch (\<lambda>b. signal_transfer p b (lit ''REJECT''))
      else if is_message ty BATCH_CANCEL then with_batch on_batch_cancel
      else if is_message ty BATCH_COMPLETE then with_batch on_batch_complete
      else ret ()))"

section \<open>One frame\<close>

definition capabilities_obj :: json where
  "capabilities_obj = JObj [(lit ''capabilities'', JArr [JStr (lit ''notify.v1'')])]"

text \<open>\<^verbatim>\<open>list(caps)\<close>.\<close>

fun py_list :: "json \<Rightarrow> json list res" where
  "py_list (JArr vs) = Inr vs"
| "py_list (JStr s) = Inr (map (\<lambda>c. JStr [c]) s)"
| "py_list (JObj d) = Inr (map (JStr \<circ> fst) d)"
| "py_list _ = Inl TypeError"

text \<open>The peer has accepted the pairing.\<close>

definition peer_accepts :: "service_env \<Rightarrow> nat \<Rightarrow> unit svc" where
  "peer_accepts env p = reads (\<lambda>s.
     let st = fs_state (ps_session (sv_peers s p)) in
     if st = S_PAIRING then on_peer_session p (session_transition S_WAITING_FOR_LOCAL_DECISION)
     else if st = S_WAITING_FOR_REMOTE_DECISION
       then seq (complete_pairing env p) (try_send env p CAPABILITIES capabilities_obj)
     else ret ())"

text \<open>The answer of the peer to the pairing; the result tells whether the loop goes on.\<close>

definition on_pair_decision :: "service_env \<Rightarrow> nat \<Rightarrow> json \<Rightarrow> bool svc" where
  "on_pair_decision env p pl =
     bind (lift (obj_get pl (lit ''decision'') JNull)) (\<lambda>decision.
     if decision = JStr (lit ''REJECT'') then ret False
     else seq (if decision = JStr (lit ''ACCEPT'')
               then seq (peer_accepts env p)
                    (reads (\<lambda>s. notify_session (ps_remote_addr (sv_peers s p)) (fs_state (ps_session (sv_peers s p)))))
               else ret ())
          (ret True))"

definition ignore_malformed :: "unit svc \<Rightarrow> unit svc" where
  "ignore_malformed m = catch m (\<lambda>e. if e = ValueError \<or> e = KeyError then ret () else raise e)"

definition on_notification_post :: "service_env \<Rightarrow> json \<Rightarrow> unit svc" where
  "on_notification_post env pl =
     bind (lift (res_bind (dumps (se_platform env) [32] pl) utf8_encode)) (\<lambda>raw.
     if MAX_NOTIFICATION_FRAME_BYTES < length raw then ret ()
     else ignore_malformed
       (bind (lift (notification_post_from_dict (se_platform env) pl)) (\<lambda>dto.
        bind (on_bridge (post (se_monotonic env) (se_monotonic env) (se_monotonic env) (se_notify env)
               (np_ferry_id dto) (np_app_label dto) (np_title dto) (np_body dto))) (\<lambda>_. ret ()))))"

definition on_notification_remove :: "service_env \<Rightarrow> json \<Rightarrow> unit svc" where
  "on_notification_remove env pl = ignore_malformed
     (bind (lift (notification_remove_from_dict (se_platform env) pl)) (\<lambda>ferry_id.
      bind (on_bridge (remove_notification ferry_id)) (\<lambda>_. ret ())))"

definition on_message :: "service_env \<Rightarrow> nat \<Rightarrow> envelope \<Rightarrow> bool svc" where
  "on_message env p e =
     (let ty = ev_type e; pl = ev_payload e in
      if is_message ty DISCONNECT then ret False
      else if is_message ty PAIR_DECISION then on_pair_decision env p pl
      else if is_message ty CAPABILITIES
        then bind (lift (obj_get pl (lit ''capabilities'') (JArr []))) (\<lambda>caps.
             bind (lift (py_list caps)) (\<lambda>cs.
             seq (on_peer_session p (upd (fs_peer_capabilities_update (\<lambda>_. cs)))) (ret True)))
      else if is_message ty NOTIFICATION_POST then seq (on_notification_post env pl) (ret True)
      else if is_message ty NOTIFICATION_REMOVE then seq (on_notification_remove env pl) (ret True)
      else seq (handle_transfer_message env p e) (ret True))"

text \<open>The body of the loop for one frame.\<close>

definition on_plaintext :: "service_env \<Rightarrow> nat \<Rightarrow> bytes \<Rightarrow> bool svc" where
  "on_plaintext env p plaintext =
     (if is_chunk_frame plaintext then seq (on_chunk_received env plaintext) (ret True)
      else bind (lift (utf8_decode plaintext)) (\<lambda>txt.
           bind (lift (envelope_from_json (se_platform env) (se_uuid env) (se_now env) txt)) (on_message env p)))"

definition on_frame :: "service_env \<Rightarrow> nat \<Rightarrow> bytes \<Rightarrow> bool svc" where
  "on_frame env p frame = bind (on_peer_session p (decrypt_frame (se_crypto env) frame)) (on_plaintext env p)"

section \<open>The end of a session\<close>

text \<open>
  The \<^verbatim>\<open>finally\<close> block of \<^verbatim>\<open>_run_session_loop\<close>; it raises when the session has already failed. Then the
  \<^verbatim>\<open>except\<close> and \<^verbatim>\<open>finally\<close> blocks of \<^verbatim>\<open>_run_handshake\<close>, which runs the loop.
\<close>

definition end_session_loop :: "service_env \<Rightarrow> nat \<Rightarrow> unit svc" where
  "end_session_loop env p =
     seq (cancel_incoming_for_peer env p)
    (seq (cancel_outgoing_for_peer p)
    (seq (on_peer_session p (session_transition S_CLOSING)) (on_peer_session p (session_transition S_DISCONNECTED))))"

definition fail_session :: "nat \<Rightarrow> unit svc" where
  "fail_session p =
     seq (reads (\<lambda>s. if fs_state (ps_session (sv_peers s p)) \<notin> {S_ESTABLISHED, S_CLOSING, S_FAILED, S_DISCONNECTED}
                     then catch (on_peer_session p (session_transition S_FAILED)) (\<lambda>_. ret ()) else ret ()))
         (reads (\<lambda>s. notify_session (ps_remote_addr (sv_peers s p)) S_FAILED))"

definition close_session :: "nat \<Rightarrow> unit svc" where
  "close_session p =
     seq (upd (\<lambda>s. s\<lparr>sv_active_sessions := dict_pop (ps_remote_addr (sv_peers s p)) (sv_active_sessions s)\<rparr>))
    (seq (on_peer p (upd (sp_closed_update (\<lambda>_. True))))
    (seq (reads (\<lambda>s. if fs_state (ps_session (sv_peers s p)) \<notin> {S_DISCONNECTED, S_FAILED}
            then catch (seq (on_peer_session p (session_transition S_CLOSING)) (on_peer_session p (session_transition S_DISCONNECTED)))
                   (\<lambda>_. ret ())
            else ret ()))
         (reads (\<lambda>s. notify_session (ps_remote_addr (sv_peers s p)) (fs_state (ps_session (sv_peers s p)))))))"

definition end_session :: "service_env \<Rightarrow> nat \<Rightarrow> unit svc" where
  "end_session env p =
     seq (catch (end_session_loop env p) (\<lambda>_. fail_session p))
    (seq (close_session p) (on_peer p (upd (sp_looping_update (\<lambda>_. False)))))"

text \<open>One frame of a running session; an exception or the end of the loop closes the session.\<close>

definition serve_frame :: "service_env \<Rightarrow> nat \<Rightarrow> bytes \<Rightarrow> unit svc" where
  "serve_frame env p frame =
     bind (catch (on_frame env p frame) (\<lambda>_. ret False)) (\<lambda>continue. if continue then ret () else end_session env p)"

section \<open>New connections\<close>

text \<open>
  The handshake of a new connection against the service's database; its frames are not among the
  events. On success the peer joins the active sessions under its address.
\<close>

definition peer_of_connection :: "connection \<Rightarrow> speer" where
  "peer_of_connection c = peer_session.extend (cn_ps c) (speer.fields [] [] (\<not> cn_active c) (cn_active c))"

definition connect_peer :: "service_env \<Rightarrow> signatures \<Rightarrow> local_side \<Rightarrow> bool \<Rightarrow> pystr \<Rightarrow> envelope res \<Rightarrow> envelope res \<Rightarrow> unit svc" where
  "connect_peer env sg ls is_initiator addr hello auth = upd (\<lambda>s.
     case run_handshake (se_crypto env) sg (se_platform env) ls is_initiator hello auth (new_connection (sv_db s) is_initiator addr) of
       (r, c) \<Rightarrow>
         s\<lparr>sv_peers := (sv_peers s)(sv_next_peer s := peer_of_connection c), sv_next_peer := Suc (sv_next_peer s), sv_db := cn_db c,
           sv_active_sessions := (if cn_active c then dict_set addr (sv_next_peer s) else dict_pop addr) (sv_active_sessions s),
           sv_events := sv_events s @ map (\<lambda>(a, n, sas). Pairing_Shown a n sas) (cn_prompts c) @ map (Session_Changed addr) (cn_notified c)\<rparr>)"

section \<open>Commands without a method of their own\<close>

text \<open>\<^verbatim>\<open>svc.db.remove_device_by_public_key\<close>, and the clipboard text that goes to every established session, each
  in a task of its own whose exception is lost (\<^verbatim>\<open>core/ipc.py\<close>).\<close>

definition remove_trusted :: "pystr \<Rightarrow> unit svc" where
  "remove_trusted key = on_database (remove_device_by_public_key key)"

definition send_clipboard :: "service_env \<Rightarrow> json \<Rightarrow> unit svc" where
  "send_clipboard env t = reads (\<lambda>s.
     for_each (filter (\<lambda>p. fs_state (ps_session (sv_peers s p)) = S_ESTABLISHED) (map snd (sv_active_sessions s)))
       (\<lambda>p. try_send env p CLIPBOARD_SYNC (JObj [(lit ''text'', t), (lit ''ts'', JInt (se_now env))])))"

section \<open>Start and stop\<close>

text \<open>
  \<^verbatim>\<open>start\<close>: the download directory, and the staging files that a crash left behind, unless they belong to an
  interrupted transfer that has not expired. The names that \<^verbatim>\<open>glob("*.part")\<close> finds are an input.
\<close>

definition make_download_dir :: "service_env \<Rightarrow> unit svc" where
  "make_download_dir env = (\<lambda>s.
     case mkdir_p (se_os env) (sv_download_dir s) (sv_fs s) of (r, fs') \<Rightarrow> (r, s\<lparr>sv_fs := fs'\<rparr>))"

definition part_stem :: "pystr \<Rightarrow> pystr" where
  "part_stem name = (if name = lit ''.part'' then name else take (length name - 5) name)"

definition staging_path :: "service \<Rightarrow> path" where
  "staging_path s = sv_download_dir s @ [lit ''staging'']"

definition clean_stale :: "service_env \<Rightarrow> pystr \<Rightarrow> unit svc" where
  "clean_stale env name = catch
     (bind (on_database (get_interrupted_transfer (part_stem name))) (\<lambda>info.
        if (case info of Some i \<Rightarrow> se_now env < ii_expire_at i | None \<Rightarrow> False) then ret ()
        else (\<lambda>s. case unlink_file (se_os env) (staging_path s @ [name]) (sv_fs s) of (r, fs') \<Rightarrow> (r, s\<lparr>sv_fs := fs'\<rparr>))))
     (\<lambda>_. ret ())"

definition prepare_start :: "service_env \<Rightarrow> pystr list \<Rightarrow> unit svc" where
  "prepare_start env stale =
     seq (make_download_dir env)
         (reads (\<lambda>s. if exists_path (sv_fs s) (staging_path s) then for_each stale (clean_stale env) else ret ()))"

text \<open>\<^verbatim>\<open>stop\<close> cancels the tasks: a session loop ends as when the peer is lost, a pending acceptance timeout is dropped.\<close>

definition cancel_tasks :: "service_env \<Rightarrow> unit svc" where
  "cancel_tasks env = reads (\<lambda>s.
     seq (for_each (filter (\<lambda>p. sp_looping (sv_peers s p)) [0..<sv_next_peer s]) (end_session env))
         (upd (sv_tasks_update (\<lambda>_. []))))"

section \<open>The steps of the service\<close>

text \<open>
  Frames of connected peers, their loss, new connections, the decisions of the user, the timers, and the
  coroutines: started by the user, continued when what they wait for has come, or given up by their timeout.
  An exception of a step that the user or a timer started is reported to the caller.
\<close>

datatype service_op =
    Connect signatures local_side bool pystr "envelope res" "envelope res"
  | Frame nat bytes
  | Lost nat
  | Accept_Pairing pystr
  | Reject_Pairing pystr
  | Accept_Transfer pystr pystr
  | Reject_Transfer pystr pystr
  | Accept_Batch pystr pystr
  | Reject_Batch pystr pystr
  | Cancel_Transfer pystr pystr
  | Discard_Interrupted pystr
  | Timeout_Due nat
  | Check_Stalls
  | Send_File pystr path
  | Send_Batch pystr "(path \<times> pystr) list" int pystr
  | Request_Resume pystr pystr
  | Continue nat
  | Give_Up nat
  | Remove_Trusted pystr
  | Send_Clipboard json
  | Prepare "pystr list"
  | Cancel_Tasks

definition connected :: "service \<Rightarrow> nat \<Rightarrow> bool" where
  "connected s p \<longleftrightarrow> p < sv_next_peer s \<and> sp_looping (sv_peers s p)"

fun service_step :: "service_env \<Rightarrow> service_op \<Rightarrow> service \<Rightarrow> service" where
  "service_step env (Connect sg ls ini addr hello auth) s = snd (connect_peer env sg ls ini addr hello auth s)"
| "service_step env (Frame p frame) s = (if connected s p then snd (serve_frame env p frame s) else s)"
| "service_step env (Lost p) s = (if connected s p then snd (end_session env p s) else s)"
| "service_step env (Accept_Pairing addr) s = snd (accept_pairing env addr s)"
| "service_step env (Reject_Pairing addr) s = snd (reject_pairing env addr s)"
| "service_step env (Accept_Transfer addr tid) s = snd (accept_transfer env addr tid s)"
| "service_step env (Reject_Transfer addr tid) s = snd (reject_transfer env addr tid s)"
| "service_step env (Accept_Batch addr bid) s = snd (accept_batch env addr bid s)"
| "service_step env (Reject_Batch addr bid) s = snd (reject_batch env addr bid s)"
| "service_step env (Cancel_Transfer tid r) s = snd (cancel_transfer env tid r s)"
| "service_step env (Discard_Interrupted tid) s = snd (discard_interrupted_transfer env tid s)"
| "service_step env (Timeout_Due task) s = snd (acceptance_timeout env task s)"
| "service_step env Check_Stalls s = snd (monitor_stalls env s)"
| "service_step env (Send_File addr source_path) s = snd (send_file env addr source_path s)"
| "service_step env (Send_Batch addr files size_all name) s = snd (send_batch env addr files size_all name s)"
| "service_step env (Request_Resume addr tid) s = snd (request_resume env addr tid s)"
| "service_step env (Continue c) s = snd (continue_coroutine env c s)"
| "service_step env (Give_Up c) s = snd (timeout_coroutine env c s)"
| "service_step env (Remove_Trusted key) s = snd (remove_trusted key s)"
| "service_step env (Send_Clipboard t) s = snd (send_clipboard env t s)"
| "service_step env (Prepare stale) s = snd (prepare_start env stale s)"
| "service_step env Cancel_Tasks s = snd (cancel_tasks env s)"

fun service_run :: "(service_env \<times> service_op) list \<Rightarrow> service \<Rightarrow> service" where
  "service_run [] s = s"
| "service_run ((env, op) # ops) s = service_run ops (service_step env op s)"

lemma service_run_append: "service_run (xs @ ys) s = service_run ys (service_run xs s)"
  by (induction xs s rule: service_run.induct) auto

definition new_service :: "db \<Rightarrow> fs \<Rightarrow> path \<Rightarrow> rat \<Rightarrow> service" where
  "new_service d fs dir now =
     \<lparr>sv_peers = (\<lambda>_. peer_session.extend (new_peer_session (new_session False) []) (speer.fields [] [] True False)), sv_next_peer = 0,
      sv_active_sessions = [], sv_incoming = [], sv_incoming_peers = [], sv_outgoing = [], sv_xfers = (\<lambda>_. new_outgoing [] [] [] None [] []),
      sv_transfer_answers = (\<lambda>_. []), sv_result_answers = (\<lambda>_. []), sv_next_ref = 0, sv_coroutines = [], sv_batches = [],
      sv_accept_timeouts = [], sv_tasks = [], sv_next_task = 0, sv_last_chunk = [], sv_recorded = [], sv_db = d, sv_fs = fs,
      sv_bridge = new_bridge now, sv_download_dir = dir, sv_events = []\<rparr>"

end
