(* ===== verification/Service_Invariants.thy ===== *)
theory Service_Invariants
  imports Service_Loop
begin

text \<open>
  The contract of an invariant of the service: a predicate that the elementary changes of the state
  respect is respected by every handler. The locale states it once; the theorems about the service
  interpret it on their invariants.
\<close>

lemma keeps_sum [keeps_intros]:
  "(\<And>e. x = Inl e \<Longrightarrow> keeps I (f e)) \<Longrightarrow> (\<And>y. x = Inr y \<Longrightarrow> keeps I (g y)) \<Longrightarrow> keeps I (case x of Inl e \<Rightarrow> f e | Inr y \<Rightarrow> g y)"
  by (cases x) auto

lemma keeps_prod [keeps_intros]: "(\<And>a b. x = (a, b) \<Longrightarrow> keeps I (f a b)) \<Longrightarrow> keeps I (case x of (a, b) \<Rightarrow> f a b)"
  by (cases x) auto

lemma keeps_json [keeps_intros]:
  "(\<And>v. x = JStr v \<Longrightarrow> keeps I (f v)) \<Longrightarrow> keeps I m \<Longrightarrow> keeps I (case x of JStr v \<Rightarrow> f v | _ \<Rightarrow> m)"
  by (cases x) auto

section \<open>Elementary changes of a peer\<close>

definition same_standing :: "speer \<Rightarrow> speer \<Rightarrow> bool" where
  "same_standing x y \<longleftrightarrow> fs_state (ps_session y) = fs_state (ps_session x) \<and> ps_remote_addr y = ps_remote_addr x
     \<and> ps_remote_device_id y = ps_remote_device_id x \<and> ps_remote_device_name y = ps_remote_device_name x
     \<and> ps_remote_static_pub_b64 y = ps_remote_static_pub_b64 x"

lemma same_standing_simps [simp]:
  "same_standing x (x\<lparr>sp_transfer_events := a\<rparr>)" "same_standing x (x\<lparr>sp_result_events := b\<rparr>)"
  "same_standing x (x\<lparr>sp_closed := c\<rparr>)" "same_standing x (x\<lparr>sp_looping := d\<rparr>)" "same_standing x x"
  "same_standing x (sp_transfer_events_update f x)" "same_standing x (sp_result_events_update g x)"
  "same_standing x (sp_closed_update h x)" "same_standing x (sp_looping_update h x)"
  by (simp_all add: same_standing_def)

text \<open>\<^verbatim>\<open>_persist_trust\<close> raises or stores the key the peer has shown.\<close>

lemma persist_shape:
  "snd (persist_trust env p s) = s \<or> (\<exists>t k. ps_remote_static_pub_b64 (sv_peers s p) = Some k \<and> td_identity_public_key_b64 t = k
      \<and> snd (persist_trust env p s) = s\<lparr>sv_db := snd (add_or_update_device t (sv_db s))\<rparr>)"
proof -
  let ?id = "text_or (se_platform env) (ps_remote_device_id (sv_peers s p)) (se_uuid env)"
  let ?name = "text_or (se_platform env) (ps_remote_device_name (sv_peers s p)) (lit ''Unknown'')"
  have raises: ?thesis if "persist_trust env p s = (Inl e, s)" for e using that by simp
  show ?thesis
  proof (cases ?id)
    case (Inl e)
    then show ?thesis by (intro raises) (simp add: persist_trust_def Let_def bind_apply)
  next
    case id: (Inr i)
    show ?thesis
    proof (cases ?name)
      case (Inl e)
      with id show ?thesis by (intro raises) (simp add: persist_trust_def Let_def bind_apply del: lit_simps)
    next
      case name: (Inr n)
      show ?thesis
      proof (cases "ps_remote_static_pub_b64 (sv_peers s p)")
        case None
        with id name show ?thesis by (intro raises) (simp add: persist_trust_def Let_def bind_apply del: lit_simps)
      next
        case (Some k)
        let ?t = "\<lparr>td_device_id = i, td_device_name = n, td_public_key = k, td_identity_public_key_b64 = k,
          td_paired_at = se_now env, td_last_seen = se_now env\<rparr>"
        have "persist_trust env p s = on_database (add_or_update_device ?t) s"
          using id name Some by (simp add: persist_trust_def Let_def bind_apply del: lit_simps)
        with Some show ?thesis
          by (intro disjI2 exI [of _ ?t] exI [of _ k]) (simp add: on_database_def split: prod.split)
      qed
    qed
  qed
qed

text \<open>The states of a session that has ended.\<close>

definition ended :: "session_state \<Rightarrow> bool" where
  "ended st \<longleftrightarrow> st \<in> {S_FAILED, S_CLOSING, S_DISCONNECTED}"

text \<open>A pairing is shown only at the end of a handshake; all other events may happen at any time.\<close>

definition quiet_event :: "service_event \<Rightarrow> bool" where
  "quiet_event e \<longleftrightarrow> (case e of Pairing_Shown a n sas \<Rightarrow> False | _ \<Rightarrow> True)"

lemma quiet_events [simp, keeps_intros]:
  "quiet_event (Sent p ty pl f)" "quiet_event (Session_Changed a st)" "quiet_event (Transfer_Progress tid m n)"
  "quiet_event (Transfer_Complete tid b name dir)" "quiet_event (Request_Shown a tid name n)" "quiet_event (Desktop_Note x y)"
  "quiet_event (Chunk_Sent p c g)" "quiet_event (Coroutine_Done i r)"
  by (simp_all add: quiet_event_def)

text \<open>
  \<open>I\<close> may depend on the pairings shown, the standing of the peers, the database, the recorded transfers and the active
  sessions, and must survive the end of a session.
\<close>

locale service_invariant =
  fixes I :: "service \<Rightarrow> bool"
  assumes quiet_fields:
    "I s \<Longrightarrow> I (sv_incoming_update f1 s)" "I s \<Longrightarrow> I (sv_incoming_peers_update f2 s)" "I s \<Longrightarrow> I (sv_outgoing_update f3 s)"
    "I s \<Longrightarrow> I (sv_batches_update f4 s)" "I s \<Longrightarrow> I (sv_accept_timeouts_update f5 s)" "I s \<Longrightarrow> I (sv_tasks_update f6 s)"
    "I s \<Longrightarrow> I (sv_next_task_update f7 s)" "I s \<Longrightarrow> I (sv_last_chunk_update f8 s)" "I s \<Longrightarrow> I (sv_fs_update f9 s)"
    "I s \<Longrightarrow> I (sv_bridge_update f10 s)" "quiet_event e \<Longrightarrow> I s \<Longrightarrow> I (s\<lparr>sv_events := sv_events s @ [e]\<rparr>)"
    "I s \<Longrightarrow> I (sv_xfers_update f12 s)" "I s \<Longrightarrow> I (sv_transfer_answers_update f13 s)" "I s \<Longrightarrow> I (sv_result_answers_update f14 s)"
    "I s \<Longrightarrow> I (sv_next_ref_update f15 s)" "I s \<Longrightarrow> I (sv_coroutines_update f16 s)"
  and quiet_peer: "I s \<Longrightarrow> same_standing (sv_peers s p) x \<Longrightarrow> I (s\<lparr>sv_peers := (sv_peers s)(p := x)\<rparr>)"
  and ending_peer: "I s \<Longrightarrow> ended st \<Longrightarrow>
      I (s\<lparr>sv_peers := (sv_peers s)(p := (sv_peers s p)\<lparr>ps_session := (ps_session (sv_peers s p))\<lparr>fs_state := st\<rparr>\<rparr>)\<rparr>)"
  and leaving_session: "I s \<Longrightarrow> I (s\<lparr>sv_active_sessions := dict_pop a (sv_active_sessions s)\<rparr>)"
  and recording: "status \<noteq> INTERRUPTED_STATUS \<Longrightarrow> keeps I (record_transfer_once env tid dev fname sz dir status started h)"
  and discarding: "keeps I (on_database (delete_interrupted_transfer tid))"
  and revoking: "keeps I (on_database (remove_device_by_public_key key))"
begin

lemma quiet_upd: "(\<And>s. I s \<Longrightarrow> I (f s)) \<Longrightarrow> keeps I (upd f)"
  by (rule keeps_upd)

lemma keeps_fields [keeps_intros]:
  "keeps I (upd (sv_incoming_update f1))" "keeps I (upd (sv_incoming_peers_update f2))" "keeps I (upd (sv_outgoing_update f3))"
  "keeps I (upd (sv_batches_update f4))" "keeps I (upd (sv_accept_timeouts_update f5))" "keeps I (upd (sv_tasks_update f6))"
  "keeps I (upd (sv_last_chunk_update f8))"
  "keeps I (upd (sv_xfers_update f12))" "keeps I (upd (sv_transfer_answers_update f13))" "keeps I (upd (sv_result_answers_update f14))"
  "keeps I (upd (sv_coroutines_update f16))"
  by (rule keeps_upd, erule quiet_fields)+

lemma keeps_emit [keeps_intros]: "quiet_event e \<Longrightarrow> keeps I (emit e)"
  unfolding emit_def by (intro keeps_upd quiet_fields)

lemma keeps_on_peer: "(\<And>x. same_standing x (snd (m x))) \<Longrightarrow> keeps I (on_peer p m)"
proof -
  assume m: "\<And>x. same_standing x (snd (m x))"
  have "I (snd (on_peer p m s))" if "I s" for s
    using quiet_peer [OF that m [of "sv_peers s p"]] by (auto simp: on_peer_def split: prod.splits)
  then show ?thesis by (simp add: keeps_def)
qed

lemma keeps_peer_upd [keeps_intros]:
  "keeps I (on_peer p (upd (sp_transfer_events_update f)))" "keeps I (on_peer p (upd (sp_result_events_update g)))"
  "keeps I (on_peer p (upd (sp_closed_update h)))" "keeps I (on_peer p (upd (sp_looping_update h)))"
  by (rule keeps_on_peer; simp)+

lemma keeps_session:
  assumes "\<And>s. fs_state (snd (m s)) = fs_state s"
  shows "keeps I (on_peer_session p m)"
  unfolding on_peer_session_def
proof (rule keeps_on_peer)
  fix x
  show "same_standing x (snd (case m (ps_session x) of (r, ss) \<Rightarrow> (r, x\<lparr>ps_session := ss\<rparr>)))"
    using assms [of "ps_session x"] by (auto simp: same_standing_def split: prod.splits)
qed

lemma keeps_capabilities [keeps_intros]: "keeps I (on_peer_session p (upd (fs_peer_capabilities_update f)))"
  by (rule keeps_session) simp

lemma keeps_decrypt [keeps_intros]: "keeps I (on_peer_session p (decrypt_frame cr f))"
proof (rule keeps_session)
  fix s
  obtain r s' where "decrypt_frame cr f s = (r, s')" by fastforce
  with decrypt_frame_cases [OF this] show "fs_state (snd (decrypt_frame cr f s)) = fs_state s" by auto
qed

lemma keeps_encrypt [keeps_intros]: "keeps I (on_peer_session p (encrypt_message cr pf st ty pl))"
proof (rule keeps_session)
  fix s
  obtain r s' where e: "encrypt_message cr pf st ty pl s = (r, s')" by fastforce
  then show "fs_state (snd (encrypt_message cr pf st ty pl s)) = fs_state s"
    using encrypt_message_counter [OF e] by auto
qed

lemma keeps_ending: "ended st \<Longrightarrow> keeps I (on_peer_session p (session_transition st))"
  unfolding keeps_def on_peer_session_def on_peer_def session_transition_def
  using ending_peer [of _ st p] quiet_peer [where p = p] by (auto simp: bind_apply session_step_def)

lemma keeps_ended [keeps_intros]:
  "keeps I (on_peer_session p (session_transition S_FAILED))" "keeps I (on_peer_session p (session_transition S_CLOSING))"
  "keeps I (on_peer_session p (session_transition S_DISCONNECTED))"
  by (rule keeps_ending, simp add: ended_def)+

lemma keeps_on_incoming [keeps_intros]: "keeps I (on_incoming tid m)"
  unfolding keeps_def on_incoming_def using quiet_fields(1,9) by (auto split: option.splits prod.splits)

lemma keeps_on_object [keeps_intros]: "keeps I (on_object t m)"
  unfolding keeps_def on_object_def using quiet_fields(9) by (auto split: prod.splits)

lemma keeps_on_bridge [keeps_intros]: "keeps I (on_bridge m)"
  unfolding keeps_def on_bridge_def using quiet_fields(10) by (auto split: prod.splits)

lemma keeps_database_get [keeps_intros]: "keeps I (on_database (get_interrupted_transfer tid))"
proof -
  have "snd (on_database (get_interrupted_transfer tid) s) = s" for s
    by (cases s) (simp add: on_database_def get_interrupted_transfer_def seq_apply split: sum.split prod.split)
  then show ?thesis by (simp add: keeps_def)
qed

lemma keeps_for_each [keeps_intros]: "(\<And>x. keeps I (f x)) \<Longrightarrow> keeps I (for_each xs f)"
  by (induction xs) (auto intro: keeps_intros)

section \<open>The handlers\<close>

lemma keeps_pops [keeps_intros]:
  "keeps I (pop_incoming tid)" "keeps I (pop_incoming_peer tid)" "keeps I (pop_last_chunk tid)" "keeps I (pop_batch tid)"
  unfolding pop_incoming_def pop_incoming_peer_def pop_last_chunk_def pop_batch_def by (intro keeps_intros)+

lemma keeps_cancel_timeout [keeps_intros]: "keeps I (cancel_timeout tid)"
  unfolding cancel_timeout_def by (intro keeps_intros)

lemma keeps_notify [keeps_intros]:
  "keeps I (notify_session a st)" "keeps I (notify_transfer_progress tid n t)" "keeps I (notify_transfer_complete tid b f d)"
  unfolding notify_session_def notify_transfer_progress_def notify_transfer_complete_def by (intro keeps_intros)+

lemma keeps_send [keeps_intros]: "keeps I (send_encrypted env p ty pl)" "keeps I (try_send env p ty pl)"
proof -
  show "keeps I (send_encrypted env p ty pl)" unfolding send_encrypted_def by (intro keeps_intros)
  then show "keeps I (try_send env p ty pl)" unfolding try_send_def by (intro keeps_intros)
qed

lemma keeps_signals [keeps_intros]: "keeps I (signal_transfer p j v)" "keeps I (signal_result p j b)"
  unfolding signal_transfer_def signal_result_def key_get_def by (intro keeps_intros)+

lemma keeps_release [keeps_intros]: "keeps I (release_waiters p j)"
  unfolding release_waiters_def by (intro keeps_intros)

lemmas keeps_discarded [keeps_intros] = discarding

text \<open>The statuses that the service records.\<close>

lemma keeps_record [keeps_intros]:
  "keeps I (record_transfer_once env tid dev fname sz dir (lit ''COMPLETED'') started h)"
  "keeps I (record_transfer_once env tid dev fname sz dir (lit ''FAILED'') started h)"
  "keeps I (record_transfer_once env tid dev fname sz dir (lit ''CANCELLED'') started h)"
  "keeps I (record_transfer_once env tid dev fname sz dir (lit ''REJECTED'') started h)"
  "keeps I (record_transfer_once env tid dev fname sz dir (if b then lit ''COMPLETED'' else lit ''FAILED'') started h)"
  "keeps I (record_transfer_once env tid dev fname sz dir (if b then lit ''CANCELLED'' else lit ''REJECTED'') started h)"
  by (rule recording; simp)+

lemma keeps_close_incoming [keeps_intros]:
  "keeps I (close_incoming env dev t tid (lit ''CANCELLED'') started)" "keeps I (close_incoming env dev t tid (lit ''FAILED'') started)"
  unfolding close_incoming_def by (intro keeps_intros)+

lemma keeps_disconnect [keeps_intros]: "keeps I (disconnect_session p)"
  unfolding disconnect_session_def by (intro keeps_intros)

lemma keeps_reject_pairing: "keeps I (reject_pairing env addr)"
  unfolding reject_pairing_def by (intro keeps_intros)

lemma keeps_chunk_progress [keeps_intros]: "keeps I (chunk_progress tid n)"
  unfolding chunk_progress_def Let_def by (intro keeps_intros)

lemma keeps_chunk_failed [keeps_intros]: "keeps I (chunk_failed env tid t)" "keeps I (chunk_refused env tid)"
  unfolding chunk_failed_def chunk_refused_def by (intro keeps_intros)+

lemma keeps_chunk [keeps_intros]: "keeps I (on_chunk_received env plaintext)"
  unfolding on_chunk_received_def Let_def by (intro keeps_intros)

lemma keeps_start_timeout [keeps_intros]: "keeps I (start_timeout p meta)"
proof -
  have "I s \<Longrightarrow> I (sv_next_task_update a (sv_accept_timeouts_update b (sv_tasks_update c s)))" for s a b c
    by (intro quiet_fields)
  from this [where a = "\<lambda>_. Suc (sv_next_task s)" and s = s for s]
  show ?thesis unfolding start_timeout_def by (intro keeps_upd) simp
qed

lemma keeps_register [keeps_intros]: "keeps I (register_request env p meta is_batched)"
proof -
  have "I s \<Longrightarrow> I (s\<lparr>sv_incoming := x, sv_incoming_peers := y\<rparr>)" for s x y
    by (intro quiet_fields)
  then have "keeps I (upd (\<lambda>s. s\<lparr>sv_incoming := f s, sv_incoming_peers := g s\<rparr>))" for f g
    by (intro keeps_upd)
  moreover have "keeps I (incoming_note env p meta)"
    unfolding incoming_note_def Let_def by (intro keeps_intros)
  ultimately show ?thesis unfolding register_request_def Let_def by (intro keeps_intros)
qed

lemma keeps_transfer_request [keeps_intros]: "keeps I (on_transfer_request env p payload)"
  unfolding on_transfer_request_def send_reject_def Let_def by (intro keeps_intros)

lemma keeps_timeout [keeps_intros]: "keeps I (acceptance_timeout env task)"
  unfolding acceptance_timeout_def by (intro keeps_intros)

lemma keeps_complete [keeps_intros]: "keeps I (on_transfer_complete env p j)"
proof -
  have "keeps I (batch_item_done env p t b)" "keeps I (single_item_done env p tid t b)" for p t b tid
    unfolding batch_item_done_def single_item_done_def Let_def by (intro keeps_intros)+
  then have "keeps I (complete_incoming env p tid t)" for tid t
    unfolding complete_incoming_def by (intro keeps_intros)
  then show ?thesis
    unfolding on_transfer_complete_def key_get_def by (intro keeps_intros)
qed

lemma keeps_cancel_incoming_transfer [keeps_intros]: "keeps I (cancel_incoming_transfer env j)"
  unfolding cancel_incoming_transfer_def by (intro keeps_intros)

lemma keeps_mark [keeps_intros]: "keeps I (mark_outgoing_cancelled tid)"
  unfolding mark_outgoing_cancelled_def by (rule keeps_upd) (auto intro: quiet_fields split: option.split)

lemma keeps_transfer_cancel [keeps_intros]: "keeps I (on_transfer_cancel env p j)"
  unfolding on_transfer_cancel_def by (intro keeps_intros)

lemma keeps_drop_incoming [keeps_intros]: "keeps I (drop_incoming_of_peer env p x)"
proof -
  obtain tid t where x: "x = (tid, t)" by fastforce
  have c: "keeps I (bind (on_object t (cancel_incoming (se_os env))) (\<lambda>t'. reads (\<lambda>s.
       close_incoming env (peer_device (se_platform env) (sv_peers s p)) t' tid
         (if in_state t' = transfer_state.INTERRUPTED then lit ''INTERRUPTED'' else lit ''FAILED'') (md_created_at (in_meta t')))))"
  proof (rule keeps_bind_post)
    fix s t' s'
    assume "on_object t (cancel_incoming (se_os env)) s = (Inr t', s')"
    then have "in_state t' = CANCELLED" using cancel_incoming_result [of "se_os env" t "sv_fs s"] by (auto simp: on_object_def)
    then have f: "(if in_state t' = transfer_state.INTERRUPTED then lit ''INTERRUPTED'' else lit ''FAILED'') = lit ''FAILED''" by simp
    show "keeps I (reads (\<lambda>s. close_incoming env (peer_device (se_platform env) (sv_peers s p)) t' tid
         (if in_state t' = transfer_state.INTERRUPTED then lit ''INTERRUPTED'' else lit ''FAILED'') (md_created_at (in_meta t'))))"
      unfolding f by (intro keeps_intros)
  qed (intro keeps_intros)
  show ?thesis unfolding x drop_incoming_of_peer_def prod.case by (intro keeps_intros c)
qed

lemma keeps_for_peer [keeps_intros]: "keeps I (cancel_incoming_for_peer env p)" "keeps I (cancel_outgoing_for_peer p)"
  unfolding cancel_incoming_for_peer_def cancel_outgoing_for_peer_def by (intro keeps_intros)+

lemma keeps_batch_handlers [keeps_intros]:
  "keeps I (on_batch_request env p pl)" "keeps I (on_batch_complete j)" "keeps I (on_batch_cancel j)"
  "keeps I (accept_batch env addr tid)" "keeps I (reject_batch env addr tid)"
  unfolding on_batch_request_def on_batch_complete_def on_batch_cancel_def accept_batch_def reject_batch_def
  by (intro keeps_intros)+

lemma keeps_decisions:
  "keeps I (accept_transfer env addr tid)" "keeps I (reject_transfer env addr tid)" "keeps I (cancel_transfer env tid r)"
  unfolding accept_transfer_def reject_transfer_def cancel_transfer_def cancel_batch_locally_def cancel_incoming_locally_def
    send_reject_def by (intro keeps_intros)+

lemma keeps_fresh_ref [keeps_intros]: "keeps I fresh_ref"
  using quiet_fields(15) by (auto simp: fresh_ref_def keeps_def)

lemma keeps_waiting [keeps_intros]:
  "keeps I (await_transfer p tid)" "keeps I (await_result p tid)" "keeps I (take_response p tid h)" "keeps I (take_result p tid h)"
  unfolding await_transfer_def await_result_def take_response_def take_result_def by (intro keeps_intros)+

lemma keeps_outcome [keeps_intros]:
  "(\<And>c. keeps I (f c)) \<Longrightarrow> (\<And>b. keeps I (g b)) \<Longrightarrow> keeps I (case r of Suspend c \<Rightarrow> f c | Returned b \<Rightarrow> g b)"
  by (cases r) auto

lemma keeps_leaving [keeps_intros]: "keeps I m \<Longrightarrow> keeps I (leaving tid m)"
  unfolding leaving_def by (intro keeps_intros)

lemma keeps_outgoing_ended [keeps_intros]:
  "keeps I (outgoing_ended env fl (lit ''FAILED'') sha b)" "keeps I (outgoing_ended env fl (lit ''CANCELLED'') sha b)"
  "keeps I (outgoing_ended env fl (if c then lit ''COMPLETED'' else lit ''FAILED'') sha b)"
  "keeps I (outgoing_ended env fl (if c then lit ''CANCELLED'' else lit ''REJECTED'') sha b)"
  unfolding outgoing_ended_def by (intro keeps_intros)+

lemma keeps_begin_file [keeps_intros]: "keeps I (begin_file env addr path tid bid rel rest)"
proof -
  have "I s \<Longrightarrow> I (s\<lparr>sv_xfers := x, sv_outgoing := y\<rparr>)" for s x y
    by (intro quiet_fields)
  then have "keeps I (upd (\<lambda>s. s\<lparr>sv_xfers := f s, sv_outgoing := g s\<rparr>))" for f g
    by (intro keeps_upd)
  then show ?thesis unfolding begin_file_def Let_def by (intro keeps_intros)
qed

lemma keeps_chunks_sent [keeps_intros]: "keeps I (chunks_sent env fl rest)"
  unfolding chunks_sent_def Let_def by (intro keeps_intros)

lemma keeps_batch_counts [keeps_intros]: "keeps I (add_transferred bid n)" "keeps I (count_item bs b)"
proof -
  show "keeps I (add_transferred bid n)"
    unfolding add_transferred_def by (rule keeps_upd) (auto intro: quiet_fields split: option.split)
  have "keeps I (upd (\<lambda>s. case dict_get (sv_batches s) x of None \<Rightarrow> s | Some b \<Rightarrow> s\<lparr>sv_batches := f b s\<rparr>))" for x f
    by (rule keeps_upd) (auto intro: quiet_fields split: option.split)
  then show "keeps I (count_item bs b)" unfolding count_item_def by (intro keeps_intros)
qed

lemma keeps_stream_step [keeps_intros]: "keeps I (stream_step env fl rest g)"
proof -
  have "keeps I (sending_progress fl f)" for fl f
    unfolding sending_progress_def Let_def by (intro keeps_intros)
  moreover have "keeps I (on_peer_session p (encrypt_frame cr f))" for p cr f
  proof (rule keeps_session)
    fix s
    obtain r s' where e: "encrypt_frame cr f s = (r, s')" by fastforce
    then show "fs_state (snd (encrypt_frame cr f s)) = fs_state s" using encrypt_frame_counter [OF e] by auto
  qed
  ultimately have c: "keeps I (send_chunk env fl rest f g)" for fl f g
    unfolding send_chunk_def by (intro keeps_intros)
  have y: "keeps I (case y of Yield f g' \<Rightarrow> a f g' | Stop \<Rightarrow> b | Raise e \<Rightarrow> d e)"
    if "\<And>f g'. keeps I (a f g')" "keeps I b" "\<And>e. keeps I (d e)" for y and a :: "bytes \<Rightarrow> generator \<Rightarrow> outcome svc" and b d
    using that by (cases y) auto
  show ?thesis unfolding stream_step_def by (intro keeps_intros y c)
qed

lemma keeps_file_segments [keeps_intros]: "keeps I (on_response env fl rest r)" "keeps I (on_result env fl b)"
  unfolding on_response_def on_result_def by (intro keeps_intros)+

lemma keeps_batch_items [keeps_intros]: "keeps I (batch_items env bs files)"
proof (induction files arbitrary: bs)
  case Nil
  show ?case unfolding batch_items.simps batch_end_def Let_def by (intro keeps_intros)
next
  case (Cons f files)
  obtain a b where f: "f = (a, b)" by fastforce
  have "keeps I (batch_end env bs)" unfolding batch_end_def Let_def by (intro keeps_intros)
  then show ?case unfolding f batch_items.simps by (intro keeps_intros Cons)
qed

lemma keeps_in_file [keeps_intros]: "keeps I m \<Longrightarrow> keeps I (in_file env fl rest m)"
  unfolding in_file_def by (intro keeps_intros)

lemma keeps_begin_batch: "keeps I (begin_batch env addr files n name)"
  unfolding begin_batch_def Let_def by (intro keeps_intros)

lemma keeps_begin_resume: "keeps I (begin_resume env addr tid)"
proof -
  have "I s \<Longrightarrow> I (s\<lparr>sv_incoming := x, sv_incoming_peers := y, sv_fs := z\<rparr>)" for s x y z
    by (intro quiet_fields)
  then have "keeps I (upd (\<lambda>s. s\<lparr>sv_incoming := f s, sv_incoming_peers := g s, sv_fs := h s\<rparr>))" for f g h
    by (intro keeps_upd)
  then show ?thesis unfolding begin_resume_def by (intro keeps_intros)
qed

lemma keeps_resume_response [keeps_intros]: "keeps I (on_resume_response env tid i r)"
  unfolding on_resume_response_def Let_def by (intro keeps_intros)

lemma keeps_segments: "keeps I (continue_segment env c)" "keeps I (timeout_segment env c)"
  unfolding continue_segment_def timeout_segment_def on_batch_response_def
  by (cases c; simp only: suspended.case; intro keeps_intros)+

lemma keeps_settle: "keeps I m \<Longrightarrow> keeps I (settle c m)"
  unfolding settle_def by (intro keeps_intros)

lemma keeps_coroutines:
  "keeps I (send_file env addr path)" "keeps I (send_batch env addr files n name)" "keeps I (request_resume env addr tid)"
  "keeps I (continue_coroutine env c)" "keeps I (timeout_coroutine env c)"
  unfolding send_file_def send_batch_def request_resume_def continue_coroutine_def timeout_coroutine_def
  by (intro keeps_intros keeps_settle keeps_begin_batch keeps_begin_resume keeps_segments)+

lemma keeps_discard: "keeps I (discard_interrupted_transfer env tid)"
proof -
  have "keeps I (upd (\<lambda>s. s\<lparr>sv_fs := f s\<rparr>))" for f by (intro keeps_upd quiet_fields)
  then show ?thesis unfolding discard_interrupted_transfer_def Let_def by (intro keeps_intros)
qed

lemma keeps_stalls: "keeps I (monitor_stalls env)"
  unfolding monitor_stalls_def by (intro keeps_intros)

lemma keeps_resume_request [keeps_intros]: "keeps I (on_transfer_resume_request env p pl)"
proof -
  have "I s \<Longrightarrow> I (s\<lparr>sv_incoming := x, sv_incoming_peers := y\<rparr>)" for s x y
    by (intro quiet_fields)
  then have "keeps I (upd (\<lambda>s. s\<lparr>sv_incoming := f s, sv_incoming_peers := g s\<rparr>))" for f g
    by (intro keeps_upd)
  then have "keeps I (accept_resume env p tid info)" for tid info
    unfolding accept_resume_def by (intro keeps_intros)
  then show ?thesis
    unfolding on_transfer_resume_request_def refuse_resume_def by (intro keeps_intros)
qed

lemma keeps_transfer_message [keeps_intros]: "keeps I (handle_transfer_message env p e)"
  unfolding handle_transfer_message_def Let_def by (intro keeps_intros)

lemma keeps_notifications [keeps_intros]: "keeps I (on_notification_post env pl)" "keeps I (on_notification_remove env pl)"
  unfolding on_notification_post_def on_notification_remove_def ignore_malformed_def by (intro keeps_intros)+

lemma keeps_end_session [keeps_intros]: "keeps I (end_session env p)"
proof -
  have "keeps I (upd (\<lambda>s. s\<lparr>sv_active_sessions := dict_pop (ps_remote_addr (sv_peers s p)) (sv_active_sessions s)\<rparr>))"
    by (intro keeps_upd leaving_session)
  then show ?thesis
    unfolding end_session_def end_session_loop_def fail_session_def close_session_def by (intro keeps_intros)
qed

text \<open>The frames of a peer, given the same for its pairing decisions.\<close>

lemma keeps_on_message:
  assumes "is_message (ev_type e) PAIR_DECISION \<Longrightarrow> keeps I (on_pair_decision env p (ev_payload e))"
  shows "keeps I (on_message env p e)"
  unfolding on_message_def Let_def by (intro keeps_intros assms)

lemma keeps_frame:
  assumes "\<And>pl. keeps I (on_pair_decision env p pl)"
  shows "keeps I (serve_frame env p frame)"
  unfolding serve_frame_def on_frame_def on_plaintext_def on_message_def Let_def by (intro keeps_intros assms)

lemma keeps_ui_commands: "keeps I (remove_trusted key)" "keeps I (send_clipboard env t)"
  unfolding remove_trusted_def send_clipboard_def by (intro keeps_intros revoking)+

lemma keeps_start_stop: "keeps I (prepare_start env stale)" "keeps I (cancel_tasks env)"
proof -
  have fs: "keeps I (\<lambda>s. case f s of (r, fs') \<Rightarrow> (r, s\<lparr>sv_fs := fs'\<rparr>))" for f :: "service \<Rightarrow> 'r res \<times> fs"
    unfolding keeps_def using quiet_fields(9) by (auto split: prod.splits)
  have "keeps I (clean_stale env name)" for name
    unfolding clean_stale_def by (intro keeps_intros fs)
  then show "keeps I (prepare_start env stale)"
    unfolding prepare_start_def make_download_dir_def by (intro keeps_intros fs)
  show "keeps I (cancel_tasks env)" unfolding cancel_tasks_def by (intro keeps_intros)
qed

text \<open>Every step but new connections, frames, and the user's acceptance of a pairing.\<close>

lemma other_steps:
  assumes "I s" and "case op of Connect sg ls ini addr hello auth \<Rightarrow> False | Frame p f \<Rightarrow> False | Accept_Pairing addr \<Rightarrow> False | _ \<Rightarrow> True"
  shows "I (service_step env op s)"
  using assms keepsD [OF keeps_end_session] keepsD [OF keeps_reject_pairing]
    keepsD [OF keeps_decisions(1)] keepsD [OF keeps_decisions(2)] keepsD [OF keeps_decisions(3)]
    keepsD [OF keeps_discard] keepsD [OF keeps_stalls] keepsD [OF keeps_timeout]
    keepsD [OF keeps_coroutines(1)] keepsD [OF keeps_coroutines(2)] keepsD [OF keeps_coroutines(3)]
    keepsD [OF keeps_coroutines(4)] keepsD [OF keeps_coroutines(5)] keepsD [OF keeps_ui_commands(1)] keepsD [OF keeps_ui_commands(2)]
    keepsD [OF keeps_start_stop(1)] keepsD [OF keeps_start_stop(2)]
    keepsD [OF keeps_batch_handlers(4)] keepsD [OF keeps_batch_handlers(5)]
  by (cases op) auto

end

text \<open>An invariant that pairing and new connections respect as well holds throughout a run.\<close>

locale service_pairing_invariant = service_invariant +
  assumes pairing: "keeps I (on_peer_session p (session_transition st))" "keeps I (persist_trust env p)"
begin

lemma keeps_pairing: "keeps I (accept_pairing env addr)" "keeps I (on_pair_decision env p pl)"
  unfolding accept_pairing_def on_pair_decision_def peer_accepts_def complete_pairing_def Let_def by (intro keeps_intros pairing)+

lemma step_but_connect: "I s \<Longrightarrow> (case op of Connect sg ls ini addr hello auth \<Rightarrow> False | _ \<Rightarrow> True) \<Longrightarrow> I (service_step env op s)"
  using keepsD [OF keeps_frame [OF keeps_pairing(2)]] keepsD [OF keeps_pairing(1)] other_steps [of s op env]
  by (cases op) auto

end

locale service_run_invariant = service_pairing_invariant +
  assumes connecting: "I s \<Longrightarrow> I (snd (connect_peer env sg ls ini addr hello auth s))"
begin

lemma step: "I s \<Longrightarrow> I (service_step env op s)"
  using connecting step_but_connect [of s op env] by (cases op) auto

lemma run: "I s \<Longrightarrow> I (service_run ops s)"
  by (induction ops s rule: service_run.induct) (auto intro: step)

end

end
