(* ===== verification/Service_Trust.thy ===== *)
theory Service_Trust
  imports Service_Invariants Agreement
begin

text \<open>
  Who becomes trusted. Over any run of the service, a key is added to the trusted devices only when
  the local user and the peer with that key have both accepted the pairing.
\<close>

definition trusted_keys :: "db \<Rightarrow> pystr set" where
  "trusted_keys d = td_identity_public_key_b64 ` snd ` set (db_trusted_devices d)"

lemma dict_set_values: "td_identity_public_key_b64 ` snd ` set (dict_set k v m) \<subseteq> insert (td_identity_public_key_b64 v) (td_identity_public_key_b64 ` snd ` set m)"
  by (induction k v m rule: dict_set.induct) auto

lemma trusted_keys_add:
  "trusted_keys (snd (add_or_update_device t d)) \<subseteq> insert (td_identity_public_key_b64 t) (trusted_keys d)"
proof (cases "bind_values [SqlText (td_device_id t), SqlText (td_device_name t), SqlText (td_public_key t),
            SqlText (td_identity_public_key_b64 t), SqlInt (td_paired_at t), SqlInt (td_last_seen t)]")
  case (Inr u)
  let ?v = "case dict_get (db_trusted_devices d) (td_device_id t) of None \<Rightarrow> t | Some old \<Rightarrow> t\<lparr>td_paired_at := td_paired_at old\<rparr>"
  have "td_identity_public_key_b64 ?v = td_identity_public_key_b64 t" by (simp split: option.split)
  with dict_set_values [of "td_device_id t" ?v "db_trusted_devices d"] Inr show ?thesis
    by (simp add: add_or_update_device_def seq_apply trusted_keys_def)
qed (auto simp: add_or_update_device_def seq_apply)

lemma find_member: "find P xs = Some x \<Longrightarrow> x \<in> set xs \<and> P x"
  by (induction xs) (auto split: if_splits)

lemma trusted_keys_device: "device_by_key k d = Some dev \<Longrightarrow> k \<in> trusted_keys d \<and> td_identity_public_key_b64 dev = k"
  unfolding device_by_key_def trusted_keys_def by (drule find_member) force

text \<open>
  The peers whose pairing was accepted: by the local user, who accepts under the address of an active
  session, and by the peer, in a decrypted \<^verbatim>\<open>PAIR_DECISION\<close>.
\<close>

definition local_accept :: "service_op \<Rightarrow> service \<Rightarrow> nat set" where
  "local_accept op s = (case op of Accept_Pairing addr \<Rightarrow> set_option (dict_get (sv_active_sessions s) addr) | _ \<Rightarrow> {})"

definition frame_message :: "service_env \<Rightarrow> nat \<Rightarrow> bytes \<Rightarrow> service \<Rightarrow> envelope option" where
  "frame_message env p frame s =
     (case fst (on_peer_session p (decrypt_frame (se_crypto env) frame) s) of
        Inl e \<Rightarrow> None
      | Inr plaintext \<Rightarrow>
          if is_chunk_frame plaintext then None
          else case res_bind (utf8_decode plaintext) (envelope_from_json (se_platform env) (se_uuid env) (se_now env)) of
                 Inl e \<Rightarrow> None | Inr m \<Rightarrow> Some m)"

definition is_accept :: "envelope \<Rightarrow> bool" where
  "is_accept e \<longleftrightarrow> is_message (ev_type e) PAIR_DECISION
     \<and> obj_get (ev_payload e) (lit ''decision'') JNull = Inr (JStr (lit ''ACCEPT''))"

definition remote_accept :: "service_env \<Rightarrow> service_op \<Rightarrow> service \<Rightarrow> nat set" where
  "remote_accept env op s =
     (case op of
        Frame p frame \<Rightarrow> if connected s p \<and> (case frame_message env p frame s of Some e \<Rightarrow> is_accept e | None \<Rightarrow> False) then {p} else {}
      | _ \<Rightarrow> {})"

fun accepted_locally :: "(service_env \<times> service_op) list \<Rightarrow> service \<Rightarrow> nat set" where
  "accepted_locally [] s = {}"
| "accepted_locally ((env, op) # ops) s = local_accept op s \<union> accepted_locally ops (service_step env op s)"

fun accepted_remotely :: "(service_env \<times> service_op) list \<Rightarrow> service \<Rightarrow> nat set" where
  "accepted_remotely [] s = {}"
| "accepted_remotely ((env, op) # ops) s = remote_accept env op s \<union> accepted_remotely ops (service_step env op s)"

section \<open>The invariant\<close>

text \<open>\<open>K\<close> are the keys trusted at the start, \<open>L\<close> and \<open>R\<close> the peers accepted so far by either side.\<close>

definition allowed :: "pystr set \<Rightarrow> nat set \<Rightarrow> nat set \<Rightarrow> service \<Rightarrow> pystr set" where
  "allowed K L R s = K \<union> {k. \<exists>p\<in>L \<inter> R. p < sv_next_peer s \<and> ps_remote_static_pub_b64 (sv_peers s p) = Some k}"

definition standing_ok :: "pystr set \<Rightarrow> nat set \<Rightarrow> nat set \<Rightarrow> service \<Rightarrow> nat \<Rightarrow> bool" where
  "standing_ok K L R s p \<longleftrightarrow>
     (let st = fs_state (ps_session (sv_peers s p)) in
      (st = S_WAITING_FOR_REMOTE_DECISION \<longrightarrow> p \<in> L) \<and> (st = S_WAITING_FOR_LOCAL_DECISION \<longrightarrow> p \<in> R)
      \<and> (st = S_PAIR_ACCEPTED \<longrightarrow> p \<in> L \<inter> R)
      \<and> (st = S_ESTABLISHED \<longrightarrow> set_option (ps_remote_static_pub_b64 (sv_peers s p)) \<subseteq> allowed K L R s))"

definition trust_inv :: "pystr set \<Rightarrow> nat set \<Rightarrow> nat set \<Rightarrow> service \<Rightarrow> bool" where
  "trust_inv K L R s \<longleftrightarrow>
     trusted_keys (sv_db s) \<subseteq> allowed K L R s \<and> (\<forall>p. p < sv_next_peer s \<longrightarrow> standing_ok K L R s p)
     \<and> (\<forall>a p. dict_get (sv_active_sessions s) a = Some p \<longrightarrow> p < sv_next_peer s) \<and> L \<union> R \<subseteq> {..< sv_next_peer s}"

lemma trust_inv_mono:
  assumes "trust_inv K L R s" and "L \<subseteq> L'" and "R \<subseteq> R'" and "L' \<union> R' \<subseteq> {..< sv_next_peer s}"
  shows "trust_inv K L' R' s"
proof -
  have "allowed K L R s \<subseteq> allowed K L' R' s" using assms(2,3) by (auto simp: allowed_def)
  then show ?thesis using assms unfolding trust_inv_def standing_ok_def Let_def by blast
qed

lemma allowed_cong:
  "sv_next_peer s' = sv_next_peer s \<Longrightarrow> (\<And>p. ps_remote_static_pub_b64 (sv_peers s' p) = ps_remote_static_pub_b64 (sv_peers s p))
    \<Longrightarrow> allowed K L R s' = allowed K L R s"
  by (simp add: allowed_def)

lemma trust_inv_quiet:
  assumes "trust_inv K L R s" and "sv_next_peer s' = sv_next_peer s" and "trusted_keys (sv_db s') \<subseteq> trusted_keys (sv_db s)"
    and "\<And>a p. dict_get (sv_active_sessions s') a = Some p \<Longrightarrow> dict_get (sv_active_sessions s) a = Some p"
    and "\<And>p. ps_remote_static_pub_b64 (sv_peers s' p) = ps_remote_static_pub_b64 (sv_peers s p)"
    and "\<And>p. fs_state (ps_session (sv_peers s' p)) = fs_state (ps_session (sv_peers s p)) \<or> ended (fs_state (ps_session (sv_peers s' p)))"
  shows "trust_inv K L R s'"
proof -
  have a: "allowed K L R s' = allowed K L R s" using assms(2,5) by (rule allowed_cong)
  have st: "standing_ok K L R s' p" if "standing_ok K L R s p" for p
    using that assms(5) [of p] assms(6) [of p] by (auto simp: standing_ok_def ended_def Let_def a)
  show ?thesis
    using assms(1) st assms(3,4) unfolding trust_inv_def a assms(2) by blast
qed

lemma trusted_record: "trusted_keys (sv_db (snd (record_transfer_once env tid dev fname sz dir status started h s))) = trusted_keys (sv_db s)
    \<and> sv_peers (snd (record_transfer_once env tid dev fname sz dir status started h s)) = sv_peers s
    \<and> sv_next_peer (snd (record_transfer_once env tid dev fname sz dir status started h s)) = sv_next_peer s
    \<and> sv_active_sessions (snd (record_transfer_once env tid dev fname sz dir status started h s)) = sv_active_sessions s"
  by (auto simp: record_transfer_once_def catch_apply bind_apply seq_apply on_database_def add_transfer_def trusted_keys_def
      split: prod.splits sum.splits)

interpretation trust: service_invariant "trust_inv K L R" for K L R
proof
  fix s :: service and p x assume i: "trust_inv K L R s" "same_standing (sv_peers s p) x"
  show "trust_inv K L R (s\<lparr>sv_peers := (sv_peers s)(p := x)\<rparr>)"
    by (rule trust_inv_quiet [OF i(1)]) (use i(2) in \<open>auto simp: same_standing_def\<close>)
next
  fix s :: service and p st assume i: "trust_inv K L R s" "ended st"
  show "trust_inv K L R (s\<lparr>sv_peers := (sv_peers s)(p := (sv_peers s p)\<lparr>ps_session := (ps_session (sv_peers s p))\<lparr>fs_state := st\<rparr>\<rparr>)\<rparr>)"
    by (rule trust_inv_quiet [OF i(1)]) (use i(2) in auto)
next
  fix s :: service and a assume i: "trust_inv K L R s"
  show "trust_inv K L R (s\<lparr>sv_active_sessions := dict_pop a (sv_active_sessions s)\<rparr>)"
    by (rule trust_inv_quiet [OF i]) (auto simp: dict_get_pop split: if_splits)
next
  fix env tid dev fname sz dir status started h
  show "keeps (trust_inv K L R) (record_transfer_once env tid dev fname sz dir status started h)"
    unfolding keeps_def using trust_inv_quiet trusted_record by (metis order_refl)
next
  fix tid
  have "trusted_keys (sv_db (snd (on_database (delete_interrupted_transfer tid) s))) = trusted_keys (sv_db s)" for s
    by (auto simp: on_database_def delete_interrupted_transfer_def seq_apply trusted_keys_def split: prod.splits sum.splits)
  then show "keeps (trust_inv K L R) (on_database (delete_interrupted_transfer tid))"
    unfolding keeps_def by (intro allI impI, elim trust_inv_quiet) (auto simp: on_database_def split: prod.splits)
next
  fix key
  have "trusted_keys (sv_db (snd (on_database (remove_device_by_public_key key) s))) \<subseteq> trusted_keys (sv_db s)" for s
    by (auto simp: on_database_def remove_device_by_public_key_def seq_apply trusted_keys_def split: prod.splits sum.splits)
  then show "keeps (trust_inv K L R) (on_database (remove_device_by_public_key key))"
    unfolding keeps_def by (intro allI impI, elim trust_inv_quiet) (auto simp: on_database_def split: prod.splits)
qed (auto elim!: trust_inv_quiet)

section \<open>The pairing decisions\<close>

text \<open>A change of one peer's session state that the accepted peers justify.\<close>

lemma trust_transition:
  assumes "st = S_WAITING_FOR_REMOTE_DECISION \<longrightarrow> p \<in> L" and "st = S_WAITING_FOR_LOCAL_DECISION \<longrightarrow> p \<in> R"
    and "st \<in> {S_PAIR_ACCEPTED, S_ESTABLISHED} \<longrightarrow> p \<in> L \<inter> R"
  shows "keeps (trust_inv K L R) (on_peer_session p (session_transition st))"
  unfolding keeps_def
proof (intro allI impI)
  fix s assume i: "trust_inv K L R s"
  let ?s = "s\<lparr>sv_peers := (sv_peers s)(p := (sv_peers s p)\<lparr>ps_session := (ps_session (sv_peers s p))\<lparr>fs_state := st\<rparr>\<rparr>)\<rparr>"
  have a: "allowed K L R ?s = allowed K L R s" by (rule allowed_cong) auto
  have n: "L \<union> R \<subseteq> {..< sv_next_peer s}" using i by (simp add: trust_inv_def)
  have "standing_ok K L R ?s q" if "standing_ok K L R s q" for q
    using that assms n by (cases "q = p") (auto simp: standing_ok_def a Let_def allowed_def)
  then have j: "trust_inv K L R ?s" using i unfolding trust_inv_def a by auto
  have "snd (on_peer_session p (session_transition st) s) \<in> {s\<lparr>sv_peers := (sv_peers s)(p := sv_peers s p)\<rparr>, ?s}"
    by (auto simp: on_peer_session_def on_peer_def session_transition_def session_step_def bind_apply)
  then show "trust_inv K L R (snd (on_peer_session p (session_transition st) s))" using i j by auto
qed

lemma trust_persist:
  assumes "p \<in> L \<inter> R"
  shows "keeps (trust_inv K L R) (persist_trust env p)"
  unfolding keeps_def
proof (intro allI impI)
  fix s assume i: "trust_inv K L R s"
  have n: "L \<union> R \<subseteq> {..< sv_next_peer s}" using i by (simp add: trust_inv_def)
  obtain d where d: "snd (persist_trust env p s) = s\<lparr>sv_db := d\<rparr>" "trusted_keys d \<subseteq> allowed K L R s"
  proof -
    from persist_shape [of env p s] show ?thesis
    proof
      assume "snd (persist_trust env p s) = s"
      with that [of "sv_db s"] i show ?thesis by (simp add: trust_inv_def)
    next
      assume "\<exists>t k. ps_remote_static_pub_b64 (sv_peers s p) = Some k \<and> td_identity_public_key_b64 t = k
        \<and> snd (persist_trust env p s) = s\<lparr>sv_db := snd (add_or_update_device t (sv_db s))\<rparr>"
      then obtain t k where t: "ps_remote_static_pub_b64 (sv_peers s p) = Some k" "td_identity_public_key_b64 t = k"
        "snd (persist_trust env p s) = s\<lparr>sv_db := snd (add_or_update_device t (sv_db s))\<rparr>" by blast
      have "k \<in> allowed K L R s" using t(1) assms n by (auto simp: allowed_def)
      then have "trusted_keys (snd (add_or_update_device t (sv_db s))) \<subseteq> allowed K L R s"
        using trusted_keys_add [of t "sv_db s"] i t(2) by (auto simp: trust_inv_def)
      with t(3) that show ?thesis by blast
    qed
  qed
  have "allowed K L R (s\<lparr>sv_db := d\<rparr>) = allowed K L R s" by (rule allowed_cong) auto
  then show "trust_inv K L R (snd (persist_trust env p s))"
    using i d unfolding trust_inv_def standing_ok_def by simp
qed

lemma trust_complete: "p \<in> L \<inter> R \<Longrightarrow> keeps (trust_inv K L R) (complete_pairing env p)"
  unfolding complete_pairing_def by (intro keeps_intros trust_transition trust_persist) simp_all

lemma trust_accept_pairing:
  assumes "trust_inv K L R s"
  shows "trust_inv K (L \<union> local_accept (Accept_Pairing addr) s) R (snd (accept_pairing env addr s))"
proof (cases "dict_get (sv_active_sessions s) addr")
  case None
  then show ?thesis using assms by (simp add: accept_pairing_def local_accept_def)
next
  case (Some p)
  let ?L = "insert p L"
  have n: "p < sv_next_peer s" using assms Some unfolding trust_inv_def by blast
  have i: "trust_inv K ?L R s"
    by (rule trust_inv_mono [OF assms]) (use assms n in \<open>auto simp: trust_inv_def\<close>)
  let ?st = "fs_state (ps_session (sv_peers s p))"
  let ?m = "if ?st = S_PAIRING then on_peer_session p (session_transition S_WAITING_FOR_REMOTE_DECISION)
    else if ?st = S_WAITING_FOR_LOCAL_DECISION then complete_pairing env p else ret ()"
  have "p \<in> R" if "?st = S_WAITING_FOR_LOCAL_DECISION"
    using assms n that by (auto simp: trust_inv_def standing_ok_def Let_def)
  then have "keeps (trust_inv K ?L R) ?m"
    by (intro keeps_intros trust_transition trust_complete) auto
  then have "keeps (trust_inv K ?L R) (seq ?m (seq (reads (\<lambda>s. notify_session (ps_remote_addr (sv_peers s p)) (fs_state (ps_session (sv_peers s p)))))
              (send_encrypted env p PAIR_DECISION (JObj [(lit ''decision'', JStr (lit ''ACCEPT''))]))))"
    by (rule keeps_seq) (intro keeps_intros trust.keeps_notify trust.keeps_send)
  from keepsD [OF this i] Some show ?thesis by (simp add: accept_pairing_def local_accept_def Let_def)
qed

lemma trust_pair_decision:
  assumes "p \<in> R"
  shows "keeps (trust_inv K L R) (on_pair_decision env p pl)"
proof -
  have "keeps (trust_inv K L R) (peer_accepts env p)"
    unfolding peer_accepts_def
  proof (rule keeps_reads_inv)
    fix s assume i: "trust_inv K L R s"
    let ?st = "fs_state (ps_session (sv_peers s p))"
    let ?m = "if ?st = S_PAIRING then on_peer_session p (session_transition S_WAITING_FOR_LOCAL_DECISION)
      else if ?st = S_WAITING_FOR_REMOTE_DECISION then seq (complete_pairing env p) (try_send env p CAPABILITIES capabilities_obj) else ret ()"
    have "p < sv_next_peer s" using i assms by (auto simp: trust_inv_def)
    then have "p \<in> L" if "?st = S_WAITING_FOR_REMOTE_DECISION"
      using i that by (auto simp: trust_inv_def standing_ok_def Let_def)
    then have "keeps (trust_inv K L R) ?m"
      using assms by (intro keeps_intros trust_transition trust_complete trust.keeps_send) auto
    from keepsD [OF this i] show "trust_inv K L R (snd ((let st = ?st in
                      if st = S_PAIRING then on_peer_session p (session_transition S_WAITING_FOR_LOCAL_DECISION)
                      else if st = S_WAITING_FOR_REMOTE_DECISION
                        then seq (complete_pairing env p) (try_send env p CAPABILITIES capabilities_obj)
                      else ret ()) s))" by (simp add: Let_def)
  qed
  then show ?thesis unfolding on_pair_decision_def by (intro keeps_intros trust.keeps_notify)
qed

section \<open>Every step\<close>

lemma pair_decision_declined:
  assumes "obj_get pl (lit ''decision'') JNull \<noteq> Inr (JStr (lit ''ACCEPT''))"
  shows "snd (on_pair_decision env p pl s) = s"
  using assms by (auto simp: on_pair_decision_def bind_apply simp del: lit_simps split: sum.splits)

lemma trust_message:
  assumes "is_accept e \<Longrightarrow> p \<in> R"
  shows "keeps (trust_inv K L R) (on_message env p e)"
proof (rule trust.keeps_on_message)
  assume m: "is_message (ev_type e) PAIR_DECISION"
  show "keeps (trust_inv K L R) (on_pair_decision env p (ev_payload e))"
  proof (cases "is_accept e")
    case False
    then have "snd (on_pair_decision env p (ev_payload e) s) = s" for s
      using m by (intro pair_decision_declined) (simp add: is_accept_def del: lit_simps)
    then show ?thesis by (simp add: keeps_def)
  qed (use assms trust_pair_decision in blast)
qed

lemma trust_frame:
  assumes "trust_inv K L R s" and "connected s p"
  shows "trust_inv K L (R \<union> remote_accept env (Frame p frame) s) (snd (serve_frame env p frame s))"
proof -
  let ?R = "R \<union> remote_accept env (Frame p frame) s"
  have i: "trust_inv K L ?R s"
    by (rule trust_inv_mono [OF assms(1)]) (use assms in \<open>auto simp: trust_inv_def remote_accept_def connected_def\<close>)
  obtain r s1 where d: "on_peer_session p (decrypt_frame (se_crypto env) frame) s = (r, s1)" by fastforce
  have s1: "trust_inv K L ?R s1" using keepsD [OF trust.keeps_decrypt i] d by (metis snd_conv)
  have "trust_inv K L ?R (snd (on_frame env p frame s))"
  proof (cases r)
    case (Inl e)
    then show ?thesis using s1 d by (simp add: on_frame_def bind_apply)
  next
    case (Inr plaintext)
    have "keeps (trust_inv K L ?R) (on_plaintext env p plaintext)"
    proof (cases "is_chunk_frame plaintext")
      case True
      then show ?thesis by (simp add: on_plaintext_def) (intro keeps_intros trust.keeps_chunk)
    next
      case False
      have "keeps (trust_inv K L ?R) (bind (lift (envelope_from_json (se_platform env) (se_uuid env) (se_now env) js)) (on_message env p))"
        if "utf8_decode plaintext = Inr js" for js
      proof (rule keeps_bind_post [OF keeps_lift])
        fix s' e s'' assume "lift (envelope_from_json (se_platform env) (se_uuid env) (se_now env) js) s' = (Inr e, s'')"
        then have "frame_message env p frame s = Some e"
          using d Inr False that by (simp add: frame_message_def res_simps)
        then have "is_accept e \<Longrightarrow> p \<in> ?R" using assms(2) by (simp add: remote_accept_def)
        then show "keeps (trust_inv K L ?R) (on_message env p e)" by (rule trust_message)
      qed
      then show ?thesis
        unfolding on_plaintext_def using False by (cases "utf8_decode plaintext") (auto simp: keeps_def bind_apply)
    qed
    from keepsD [OF this s1] show ?thesis using d Inr by (simp add: on_frame_def bind_apply)
  qed
  then have "trust_inv K L ?R (snd (catch (on_frame env p frame) (\<lambda>_. ret False) s))"
    by (auto simp: catch_apply split: prod.splits sum.splits)
  moreover have "keeps (trust_inv K L ?R) (end_session env p)" by (rule trust.keeps_end_session)
  ultimately show ?thesis
    unfolding serve_frame_def keeps_def by (auto simp: bind_apply split: prod.splits sum.splits)
qed

lemma trust_connect:
  assumes "trust_inv K L R s"
  shows "trust_inv K L R (snd (connect_peer env sg ls ini addr hello auth s))"
proof -
  obtain r c where h: "run_handshake (se_crypto env) sg (se_platform env) ls ini hello auth (new_connection (sv_db s) ini addr) = (r, c)"
    by fastforce
  let ?n = "sv_next_peer s" and ?s' = "snd (connect_peer env sg ls ini addr hello auth s)"
  have s': "sv_next_peer ?s' = Suc ?n" "sv_db ?s' = cn_db c" "sv_peers ?s' = (sv_peers s)(?n := peer_of_connection c)"
    "sv_active_sessions ?s' = (if cn_active c then dict_set addr ?n else dict_pop addr) (sv_active_sessions s)"
    using h by (simp_all add: connect_peer_def)
  have LR: "L \<union> R \<subseteq> {..< ?n}" using assms by (simp add: trust_inv_def)
  have a: "allowed K L R ?s' = allowed K L R s"
  proof -
    have "(p < Suc ?n \<and> ps_remote_static_pub_b64 (((sv_peers s)(?n := peer_of_connection c)) p) = Some k)
      = (p < ?n \<and> ps_remote_static_pub_b64 (sv_peers s p) = Some k)" if "p \<in> L \<inter> R" for p k
      using that LR by auto
    then show ?thesis unfolding allowed_def s' by blast
  qed
  have out: "(r = Inr None \<and> cn_db c = sv_db s \<and> fs_state (ps_session (cn_ps c)) = S_FAILED)
      \<or> (\<exists>b. r = Inr (Some b))"
    using handshake_outcome [where cr = "se_crypto env" and sg = sg and pf = "se_platform env" and ls = ls and ini = ini and hello = hello
      and auth = auth and d = "sv_db s" and addr = addr] h
    by (auto split: sum.splits option.splits)
  have key: "trusted_keys (cn_db c) \<subseteq> trusted_keys (sv_db s)
    \<and> (fs_state (ps_session (cn_ps c)) = S_ESTABLISHED \<longrightarrow> set_option (ps_remote_static_pub_b64 (cn_ps c)) \<subseteq> trusted_keys (sv_db s))
    \<and> fs_state (ps_session (cn_ps c)) \<in> {S_ESTABLISHED, S_PAIRING, S_FAILED}"
    using out
  proof
    assume "\<exists>b. r = Inr (Some b)"
    then obtain b where "run_handshake (se_crypto env) sg (se_platform env) ls ini hello auth (new_connection (sv_db s) ini addr) = (Inr (Some b), c)"
      using h by blast
    from handshake_success [OF this] obtain k where k: "peer_proved sg hello auth (cn_ps c) k"
      and c: "if b then \<exists>dev t. device_by_key k (sv_db s) = Some dev \<and> td_identity_public_key_b64 t = td_identity_public_key_b64 dev
           \<and> cn_db c = snd (add_or_update_device t (sv_db s)) \<and> fs_state (ps_session (cn_ps c)) = S_ESTABLISHED \<and> cn_prompts c = []
       else device_by_key k (sv_db s) = None \<and> cn_db c = sv_db s \<and> fs_state (ps_session (cn_ps c)) = S_PAIRING
         \<and> (\<exists>name \<in> {ps_remote_device_name (cn_ps c), JStr addr}. cn_prompts c = [(addr, name, case sas_code (ps_session (cn_ps c)) of Some sas \<Rightarrow> sas | None \<Rightarrow> [])])"
      by blast
    have "ps_remote_static_pub_b64 (cn_ps c) = Some k" using k by (auto simp: peer_proved_def)
    then show ?thesis
      using c trusted_keys_device [of k "sv_db s"] trusted_keys_add by (cases b) (fastforce split: if_splits)+
  qed auto
  have st: "standing_ok K L R ?s' p" if "p < Suc ?n" for p
  proof (cases "p = ?n")
    case True
    then show ?thesis using key assms
      by (auto simp: standing_ok_def s' a Let_def peer_of_connection_def peer_session.defs speer.defs trust_inv_def)
  next
    case False
    then have "standing_ok K L R s p" using that assms by (simp add: trust_inv_def)
    with False show ?thesis by (simp add: standing_ok_def s' a Let_def)
  qed
  have act: "p < Suc ?n" if "dict_get (sv_active_sessions ?s') x = Some p" for x p
    using that assms by (auto simp: s' dict_get_set dict_get_pop trust_inv_def less_Suc_eq split: if_splits)
  show ?thesis
    using assms key st act LR unfolding trust_inv_def a by (auto simp: s')
qed

lemma trust_step:
  assumes "trust_inv K L R s"
  shows "trust_inv K (L \<union> local_accept op s) (R \<union> remote_accept env op s) (service_step env op s)"
proof (cases op)
  case (Frame p frame)
  show ?thesis
  proof (cases "connected s p")
    case True
    from trust_frame [OF assms this, of env frame] True Frame show ?thesis by (simp add: local_accept_def)
  qed (use assms Frame in \<open>simp add: local_accept_def remote_accept_def\<close>)
next
  case (Accept_Pairing addr)
  from trust_accept_pairing [OF assms, of addr env] Accept_Pairing show ?thesis by (simp add: remote_accept_def)
next
  case (Connect sg ls ini addr hello auth)
  with trust_connect [OF assms] show ?thesis by (simp add: local_accept_def remote_accept_def)
qed (use trust.other_steps [OF assms, of op env] in \<open>simp_all add: local_accept_def remote_accept_def\<close>)

lemma trust_run:
  "trust_inv K L R s \<Longrightarrow> trust_inv K (L \<union> accepted_locally ops s) (R \<union> accepted_remotely ops s) (service_run ops s)"
proof (induction ops s arbitrary: L R rule: service_run.induct)
  case (2 env op ops s)
  from "2.IH" [OF trust_step [OF "2.prems", of op env]] show ?case by (simp add: Un_assoc)
qed simp

lemma new_service_trusted: "trust_inv (trusted_keys d) {} {} (new_service d fs dir now)"
  by (simp add: trust_inv_def new_service_def allowed_def)

lemma both_sides_accepted:
  assumes "k \<in> trusted_keys (sv_db (service_run ops (new_service d fs dir now)))
      \<or> (\<exists>q. q < sv_next_peer (service_run ops (new_service d fs dir now))
          \<and> fs_state (ps_session (sv_peers (service_run ops (new_service d fs dir now)) q)) = S_ESTABLISHED
          \<and> ps_remote_static_pub_b64 (sv_peers (service_run ops (new_service d fs dir now)) q) = Some k)"
    and "k \<notin> trusted_keys d"
  shows "\<exists>p. p \<in> accepted_locally ops (new_service d fs dir now) \<and> p \<in> accepted_remotely ops (new_service d fs dir now)
    \<and> ps_remote_static_pub_b64 (sv_peers (service_run ops (new_service d fs dir now)) p) = Some k"
proof -
  let ?s = "service_run ops (new_service d fs dir now)"
  have i: "trust_inv (trusted_keys d) (accepted_locally ops (new_service d fs dir now))
      (accepted_remotely ops (new_service d fs dir now)) ?s"
    using trust_run [OF new_service_trusted] by simp
  then have "k \<in> allowed (trusted_keys d) (accepted_locally ops (new_service d fs dir now))
      (accepted_remotely ops (new_service d fs dir now)) ?s"
    using assms(1) by (auto simp: trust_inv_def standing_ok_def Let_def)
  with assms(2) show ?thesis by (auto simp: allowed_def)
qed

text \<open>
  C1: nobody is trusted without both users. Whatever peers connect, whatever frames they send, and
  whatever the user and the timers do, in any order: a key that is stored as trusted at the end, or
  that belongs to a session that is ESTABLISHED, was trusted at the start, or it is the key of a peer
  whose pairing the local user accepted and from which a decrypted acceptance was received.
\<close>

theorem trust_needs_both_sides:
  assumes "k \<in> trusted_keys (sv_db (service_run ops (new_service d fs dir now)))
      \<or> (\<exists>q. q < sv_next_peer (service_run ops (new_service d fs dir now))
          \<and> fs_state (ps_session (sv_peers (service_run ops (new_service d fs dir now)) q)) = S_ESTABLISHED
          \<and> ps_remote_static_pub_b64 (sv_peers (service_run ops (new_service d fs dir now)) q) = Some k)"
    and "k \<notin> trusted_keys d"
  shows "\<exists>p. p \<in> accepted_locally ops (new_service d fs dir now) \<and> p \<in> accepted_remotely ops (new_service d fs dir now)
    \<and> ps_remote_static_pub_b64 (sv_peers (service_run ops (new_service d fs dir now)) p) = Some k"
  using assms by (rule both_sides_accepted)

section \<open>A pairing that succeeds\<close>

lemma send_standing:
  "\<exists>n e. snd (send_encrypted env p ty pl s) = s\<lparr>sv_peers := (sv_peers s)(p := (sv_peers s p)\<lparr>ps_session :=
      (ps_session (sv_peers s p))\<lparr>fs_send_counter := n\<rparr>\<rparr>), sv_events := e\<rparr>"
proof -
  obtain r ss where e: "encrypt_message (se_crypto env) (se_platform env) (se_stamp env (length (sv_events s))) ty pl
      (ps_session (sv_peers s p)) = (r, ss)" by fastforce
  obtain n where "ss = (ps_session (sv_peers s p))\<lparr>fs_send_counter := n\<rparr>" using encrypt_message_counter [OF e] by blast
  then show ?thesis
    using e by (intro exI [of _ n] exI [of _ "sv_events (snd (send_encrypted env p ty pl s))"])
      (auto simp: send_encrypted_def bind_apply on_peer_session_def on_peer_def emit_def split: sum.split)
qed

lemma try_send_ok: "\<exists>x e. same_standing (sv_peers s p) x
    \<and> try_send env p ty pl s = (Inr (), s\<lparr>sv_peers := (sv_peers s)(p := x), sv_events := e\<rparr>)"
proof -
  obtain r s' where e: "send_encrypted env p ty pl s = (r, s')" by fastforce
  moreover obtain n ev where "s' = s\<lparr>sv_peers := (sv_peers s)(p := (sv_peers s p)\<lparr>ps_session :=
      (ps_session (sv_peers s p))\<lparr>fs_send_counter := n\<rparr>\<rparr>), sv_events := ev\<rparr>"
    using send_standing [of env p ty pl s] e by auto
  moreover have "same_standing (sv_peers s p) ((sv_peers s p)\<lparr>ps_session := (ps_session (sv_peers s p))\<lparr>fs_send_counter := n\<rparr>\<rparr>)"
    by (simp add: same_standing_def)
  ultimately show ?thesis by (auto simp: try_send_def catch_apply split: sum.split)
qed

text \<open>The peer's acceptance after the user's.\<close>

lemma accept_after_user:
  assumes "connected s p" and "frame_message env p frame s = Some e" and "is_accept e"
    and "fs_state (ps_session (sv_peers s p)) = S_WAITING_FOR_REMOTE_DECISION"
    and "ps_remote_static_pub_b64 (sv_peers s p) = Some k"
    and "text_or (se_platform env) (ps_remote_device_id (sv_peers s p)) (se_uuid env) = Inr i"
    and "text_or (se_platform env) (ps_remote_device_name (sv_peers s p)) (lit ''Unknown'') = Inr n"
    and "add_or_update_device \<lparr>td_device_id = i, td_device_name = n, td_public_key = k, td_identity_public_key_b64 = k,
          td_paired_at = se_now env, td_last_seen = se_now env\<rparr> (sv_db s) = (Inr (), d)"
  shows "\<exists>x ev. service_step env (Frame p frame) s = s\<lparr>sv_peers := (sv_peers s)(p := x), sv_db := d, sv_events := ev\<rparr>
    \<and> fs_state (ps_session x) = S_ESTABLISHED"
proof -
  obtain plaintext ss where dec: "decrypt_frame (se_crypto env) frame (ps_session (sv_peers s p)) = (Inr plaintext, ss)"
    and c: "\<not> is_chunk_frame plaintext"
    and m: "res_bind (utf8_decode plaintext) (envelope_from_json (se_platform env) (se_uuid env) (se_now env)) = Inr e"
    using assms(2) by (auto simp: frame_message_def on_peer_session_def on_peer_def split: prod.splits sum.splits if_splits)
  obtain js where js: "utf8_decode plaintext = Inr js" "envelope_from_json (se_platform env) (se_uuid env) (se_now env) js = Inr e"
    using m by (auto simp: res_simps)
  have ss: "fs_state ss = S_WAITING_FOR_REMOTE_DECISION" using decrypt_frame_cases [OF dec] assms(4) by auto
  let ?x = "(sv_peers s p)\<lparr>ps_session := ss\<rparr>"
  let ?s1 = "s\<lparr>sv_peers := (sv_peers s)(p := ?x)\<rparr>"
  let ?s2 = "s\<lparr>sv_peers := (sv_peers s)(p := ?x\<lparr>ps_session := ss\<lparr>fs_state := S_PAIR_ACCEPTED\<rparr>\<rparr>)\<rparr>"
  let ?s3 = "s\<lparr>sv_peers := (sv_peers s)(p := ?x\<lparr>ps_session := ss\<lparr>fs_state := S_ESTABLISHED\<rparr>\<rparr>), sv_db := d\<rparr>"
  have "on_peer_session p (session_transition S_PAIR_ACCEPTED) ?s1 = (Inr (), ?s2)"
    using ss by (simp add: on_peer_session_def on_peer_def session_transition_def session_step_def bind_apply)
  moreover have "persist_trust env p ?s2 = (Inr (), ?s2\<lparr>sv_db := d\<rparr>)"
    using assms(5-8) by (simp add: persist_trust_def Let_def bind_apply on_database_def del: lit_simps)
  moreover have "on_peer_session p (session_transition S_ESTABLISHED) (?s2\<lparr>sv_db := d\<rparr>) = (Inr (), ?s3)"
    by (simp add: on_peer_session_def on_peer_def session_transition_def session_step_def bind_apply)
  ultimately have "complete_pairing env p ?s1 = (Inr (), ?s3)" by (simp add: complete_pairing_def seq_apply)
  moreover obtain y ev where y: "same_standing (sv_peers ?s3 p) y"
    "try_send env p CAPABILITIES capabilities_obj ?s3 = (Inr (), ?s3\<lparr>sv_peers := (sv_peers ?s3)(p := y), sv_events := ev\<rparr>)"
    using try_send_ok by blast
  ultimately have "peer_accepts env p ?s1 = (Inr (), ?s3\<lparr>sv_peers := (sv_peers ?s3)(p := y), sv_events := ev\<rparr>)"
    using ss by (simp add: peer_accepts_def Let_def seq_apply)
  then have "\<exists>ev. on_pair_decision env p (ev_payload e) ?s1 = (Inr True, ?s3\<lparr>sv_peers := (sv_peers ?s3)(p := y), sv_events := ev\<rparr>)"
    using assms(3)
    by (intro exI [of _ "ev @ [Session_Changed (ps_remote_addr y) (fs_state (ps_session y))]"])
      (simp add: on_pair_decision_def is_accept_def bind_apply seq_apply notify_session_def emit_def)
  then obtain ev' where "on_pair_decision env p (ev_payload e) ?s1 = (Inr True, ?s3\<lparr>sv_peers := (sv_peers ?s3)(p := y), sv_events := ev'\<rparr>)" ..
  then have "on_frame env p frame s = (Inr True, ?s3\<lparr>sv_peers := (sv_peers ?s3)(p := y), sv_events := ev'\<rparr>)"
    using dec c js assms(3)
    by (simp add: on_frame_def bind_apply on_peer_session_def on_peer_def on_plaintext_def on_message_def is_accept_def is_message_def Let_def)
  then show ?thesis
    using assms(1) y(1) by (intro exI [of _ y] exI [of _ ev']) (simp add: serve_frame_def bind_apply catch_apply same_standing_def)
qed

section \<open>A sample run\<close>

definition sample_env :: service_env where
  "sample_env = \<lparr>se_crypto = toy_crypto, se_platform = ascii_platform, se_os = calm, se_now = 0, se_monotonic = 0, se_uuid = [],
     se_stamp = (\<lambda>_. ([109], 5)), se_send_ok = (\<lambda>_. True), se_exc_text = (\<lambda>_. []), se_notify = (\<lambda>_ _ _. None),
     se_own_key = [], se_mime = (\<lambda>_. None), se_source_read_ok = True\<rparr>"

definition sample_accept :: envelope where
  "sample_accept = make_envelope [109] 5 PAIR_DECISION (JObj [(lit ''decision'', JStr (lit ''ACCEPT''))])"

definition accept_text :: pystr where
  "accept_text = dump ascii_platform [32] (envelope_to_dict sample_accept)"

lemma accept_text:
  "utf8_decode (utf8_bytes accept_text) = Inr accept_text"
  "envelope_from_json ascii_platform fresh now accept_text = Inr sample_accept"
  "length (utf8_bytes accept_text) \<le> MAX_AEAD_PLAINTEXT" "\<not> is_chunk_frame (utf8_bytes accept_text)" "is_accept sample_accept"
proof -
  have d: "dumpable (envelope_to_dict sample_accept)" "jdepth (envelope_to_dict sample_accept) \<le> json_depth ascii_platform"
    by (simp_all add: sample_accept_def make_envelope_def envelope_to_dict_def PROTOCOL_VERSION_def short_digits ascii_platform_def)
  have u: "utf8_encode accept_text = Inr (utf8_bytes accept_text) \<and> length (utf8_bytes accept_text) = length accept_text"
    using dump_ascii [OF d(1), of "[32]"] unfolding accept_text_def by (intro utf8_ascii) auto
  then show "utf8_decode (utf8_bytes accept_text) = Inr accept_text" by (intro utf8_decode_encode) simp
  show "envelope_from_json ascii_platform fresh now accept_text = Inr sample_accept"
    using d printable_dumpable [OF d(1)]
    by (intro envelope_json_roundtrip) (simp_all add: sendable_envelope_def envelope_to_json_def dumps_def accept_text_def)
  have "length accept_text \<le> json_bound 1 (envelope_to_dict sample_accept)"
    using dump_length [OF d(1), of ascii_platform "[32]"] unfolding accept_text_def by simp
  also have "\<dots> \<le> MAX_AEAD_PLAINTEXT"
    by (simp add: sample_accept_def make_envelope_def envelope_to_dict_def PROTOCOL_VERSION_def short_digits MAX_AEAD_PLAINTEXT_def)
  finally show "length (utf8_bytes accept_text) \<le> MAX_AEAD_PLAINTEXT" using u by simp
  show "\<not> is_chunk_frame (utf8_bytes accept_text)"
    by (simp add: is_chunk_frame_def CHUNK_MAGIC_SIZE_def CHUNK_MAGIC_def accept_text_def envelope_to_dict_def utf8_cp_def byte_of_def)
  show "is_accept sample_accept" by (simp add: is_accept_def is_message_def sample_accept_def make_envelope_def)
qed

definition sample_key :: pystr where "sample_key = public_key_b64 (ls_identity (sample_side 2))"

definition sample_recv_key :: bytes where
  "sample_recv_key = the (fs_recv_cipher (keyed_session toy_crypto (sample_side 1) (sample_side 2) True [3]))"

definition sample_frame :: bytes where
  "sample_frame = aead_frame toy_crypto sample_recv_key (nonce_at 0) (utf8_bytes accept_text)"

abbreviation fresh_service :: service where "fresh_service \<equiv> new_service empty_db Map.empty [] 0"

text \<open>The bytes of the acceptance and the frame that carries it, as the peer of the sample handshake sends it.\<close>

abbreviation sample_keyed :: session where
  "sample_keyed \<equiv> keyed_session toy_crypto (sample_side 1) (sample_side 2) True [3]"

lemma sample_keyed: "fs_state sample_keyed = S_PAIRING" "fs_recv_cipher sample_keyed = Some sample_recv_key"
  "fs_recv_counter sample_keyed = 0"
  by (simp_all add: sample_recv_key_def keyed_session_def new_session_def Let_def)

lemma sample_frame_message:
  assumes "ps_session (sv_peers s 0) = sample_keyed\<lparr>fs_state := S_WAITING_FOR_REMOTE_DECISION, fs_send_counter := n\<rparr>"
  shows "frame_message sample_env 0 sample_frame s = Some sample_accept"
proof -
  have "make_nonce 0 = Inr (nonce_at 0)" "length (nonce_at 0) = 12" using nonce_at [of 0] by simp_all
  then show ?thesis
    using decrypt_frame_frame [OF toy_crypto_ok(1) _ accept_text(3), of "nonce_at 0" "ps_session (sv_peers s 0)" sample_recv_key "nonce_at 0"]
      assms accept_text sample_keyed
    by (simp add: frame_message_def sample_frame_def on_peer_session_def on_peer_def sample_env_def res_simps)
qed

lemma accept_pairing_waits:
  assumes "dict_get (sv_active_sessions s) addr = Some p" and "fs_state (ps_session (sv_peers s p)) = S_PAIRING"
  shows "\<exists>n e. snd (accept_pairing env addr s) = s\<lparr>sv_peers := (sv_peers s)(p := (sv_peers s p)\<lparr>ps_session :=
    (ps_session (sv_peers s p))\<lparr>fs_state := S_WAITING_FOR_REMOTE_DECISION, fs_send_counter := n\<rparr>\<rparr>), sv_events := e\<rparr>"
proof -
  let ?x = "(sv_peers s p)\<lparr>ps_session := (ps_session (sv_peers s p))\<lparr>fs_state := S_WAITING_FOR_REMOTE_DECISION\<rparr>\<rparr>"
  let ?s = "s\<lparr>sv_peers := (sv_peers s)(p := ?x), sv_events := sv_events s @ [Session_Changed (ps_remote_addr ?x) S_WAITING_FOR_REMOTE_DECISION]\<rparr>"
  have "accept_pairing env addr s = send_encrypted env p PAIR_DECISION (JObj [(lit ''decision'', JStr (lit ''ACCEPT''))]) ?s"
    using assms by (simp add: accept_pairing_def Let_def seq_apply on_peer_session_def on_peer_def session_transition_def
        session_step_def bind_apply notify_session_def emit_def del: lit_simps)
  then show ?thesis
    using send_standing [of env p PAIR_DECISION "JObj [(lit ''decision'', JStr (lit ''ACCEPT''))]" ?s] by (simp del: lit_simps)
qed

lemma bind_values_ascii:
  assumes "\<forall>v\<in>set vs. case v of SqlInt n \<Rightarrow> - (2 ^ 63) \<le> n \<and> n < 2 ^ 63 | SqlText t \<Rightarrow> \<forall>c\<in>set t. c < 128"
  shows "bind_values vs = Inr ()"
  using assms
proof (induction vs)
  case (Cons v vs)
  have "bind_value v = Inr ()"
  proof (cases v)
    case (SqlText x)
    then have "\<forall>c\<in>set x. c < 128" using Cons.prems by simp
    from utf8_ascii [OF this] show ?thesis by (simp add: SqlText)
  qed (use Cons.prems in simp)
  with Cons show ?case by (simp add: bind_values.simps)
qed (simp add: bind_values.simps)

lemma sample_device:
  "add_or_update_device \<lparr>td_device_id = [97], td_device_name = [98], td_public_key = sample_key,
     td_identity_public_key_b64 = sample_key, td_paired_at = 0, td_last_seen = 0\<rparr> empty_db
   = (Inr (), empty_db\<lparr>db_trusted_devices := [([97], \<lparr>td_device_id = [97], td_device_name = [98], td_public_key = sample_key,
     td_identity_public_key_b64 = sample_key, td_paired_at = 0, td_last_seen = 0\<rparr>)]\<rparr>)"
proof -
  have "\<forall>c\<in>set sample_key. c < 128" unfolding sample_key_def public_key_b64_def using b64url_ascii by blast
  then have "bind_values [SqlText [97], SqlText [98], SqlText sample_key, SqlText sample_key, SqlInt 0, SqlInt 0] = Inr ()"
    by (intro bind_values_ascii) auto
  then show ?thesis by (simp add: add_or_update_device_def seq_apply lift_def upd_def empty_db_def)
qed

text \<open>Connecting to an unknown peer, accepting it, and receiving its acceptance.\<close>

lemma sample_pairing:
  "\<exists>hello auth. let ops = [(sample_env, Connect toy_signatures (sample_side 1) True [] hello auth),
      (sample_env, Accept_Pairing []), (sample_env, Frame 0 sample_frame)]
    in sample_key \<in> trusted_keys (sv_db (service_run ops fresh_service))
      \<and> fs_state (ps_session (sv_peers (service_run ops fresh_service) 0)) = S_ESTABLISHED
      \<and> sv_active_sessions (service_run ops fresh_service) = [([], 0)]
      \<and> sv_recorded (service_run ops fresh_service) = [] \<and> sv_batches (service_run ops fresh_service) = []"
proof -
  obtain hello auth c where h: "run_handshake toy_crypto toy_signatures ascii_platform (sample_side 1) True hello auth (new_connection empty_db True []) = (Inr (Some False), c)"
    and c: "ps_session (cn_ps c) = sample_keyed" "cn_db c = empty_db" "ps_remote_static_pub_b64 (cn_ps c) = Some sample_key"
      "ps_remote_device_id (cn_ps c) = JStr [97]" "ps_remote_device_name (cn_ps c) = JStr [98]"
    using sample_handshake unfolding sample_key_def by blast
  have act: "cn_active c" "ps_remote_addr (cn_ps c) = []" using handshake_success [OF h] by auto
  define s1 where "s1 = service_step sample_env (Connect toy_signatures (sample_side 1) True [] hello auth) fresh_service"
  have s1: "sv_peers s1 0 = peer_of_connection c" "sv_active_sessions s1 = [([], 0)]" "sv_db s1 = empty_db" "sv_next_peer s1 = 1"
    "sv_recorded s1 = []" "sv_batches s1 = []"
    using h c act by (simp_all add: s1_def connect_peer_def sample_env_def new_service_def)
  have p0: "ps_session (peer_of_connection c) = sample_keyed" "sp_looping (peer_of_connection c)"
    "ps_remote_static_pub_b64 (peer_of_connection c) = Some sample_key"
    "ps_remote_device_id (peer_of_connection c) = JStr [97]" "ps_remote_device_name (peer_of_connection c) = JStr [98]"
    using c act by (simp_all add: peer_of_connection_def peer_session.defs speer.defs)
  define s2 where "s2 = service_step sample_env (Accept_Pairing []) s1"
  obtain n e where s2: "s2 = s1\<lparr>sv_peers := (sv_peers s1)(0 := (sv_peers s1 0)\<lparr>ps_session :=
      sample_keyed\<lparr>fs_state := S_WAITING_FOR_REMOTE_DECISION, fs_send_counter := n\<rparr>\<rparr>), sv_events := e\<rparr>"
    using accept_pairing_waits [of s1 "[]" 0 sample_env] s1 p0 sample_keyed unfolding s2_def by auto
  let ?d = "\<lparr>td_device_id = [97], td_device_name = [98], td_public_key = sample_key, td_identity_public_key_b64 = sample_key,
    td_paired_at = 0, td_last_seen = 0\<rparr>"
  have "\<exists>x ev. service_step sample_env (Frame 0 sample_frame) s2 = s2\<lparr>sv_peers := (sv_peers s2)(0 := x),
      sv_db := empty_db\<lparr>db_trusted_devices := [([97], ?d)]\<rparr>, sv_events := ev\<rparr> \<and> fs_state (ps_session x) = S_ESTABLISHED"
  proof (rule accept_after_user)
    show "connected s2 0" using s1 p0 by (simp add: s2 connected_def)
    show "frame_message sample_env 0 sample_frame s2 = Some sample_accept" by (rule sample_frame_message) (simp add: s2)
    show "is_accept sample_accept" by (rule accept_text)
    show "fs_state (ps_session (sv_peers s2 0)) = S_WAITING_FOR_REMOTE_DECISION" by (simp add: s2)
    show "ps_remote_static_pub_b64 (sv_peers s2 0) = Some sample_key" using s1 p0 by (simp add: s2)
    show "text_or (se_platform sample_env) (ps_remote_device_id (sv_peers s2 0)) (se_uuid sample_env) = Inr [97]"
      "text_or (se_platform sample_env) (ps_remote_device_name (sv_peers s2 0)) (lit ''Unknown'') = Inr [98]"
      using s1 p0 by (simp_all add: s2 text_or_def res_simps utf8_ascii del: lit_simps)
    show "add_or_update_device \<lparr>td_device_id = [97], td_device_name = [98], td_public_key = sample_key, td_identity_public_key_b64 = sample_key,
          td_paired_at = se_now sample_env, td_last_seen = se_now sample_env\<rparr> (sv_db s2) = (Inr (), empty_db\<lparr>db_trusted_devices := [([97], ?d)]\<rparr>)"
      using s1 sample_device by (simp add: s2 sample_env_def)
  qed
  then obtain x ev where s3: "service_step sample_env (Frame 0 sample_frame) s2 = s2\<lparr>sv_peers := (sv_peers s2)(0 := x),
      sv_db := empty_db\<lparr>db_trusted_devices := [([97], ?d)]\<rparr>, sv_events := ev\<rparr>" "fs_state (ps_session x) = S_ESTABLISHED" by blast
  moreover have "service_run [(sample_env, Connect toy_signatures (sample_side 1) True [] hello auth), (sample_env, Accept_Pairing []),
      (sample_env, Frame 0 sample_frame)] fresh_service = service_step sample_env (Frame 0 sample_frame) s2"
    by (simp add: s2_def s1_def del: service_step.simps)
  ultimately show ?thesis
    using s1 by (intro exI [of _ hello] exI [of _ auth]) (simp add: Let_def trusted_keys_def s2 del: service_step.simps)
qed

theorem trust_needs_both_sides_witness:
  "\<exists>hello auth p. let ops = [(sample_env, Connect toy_signatures (sample_side 1) True [] hello auth),
      (sample_env, Accept_Pairing []), (sample_env, Frame 0 sample_frame)]
    in p \<in> accepted_locally ops fresh_service \<and> p \<in> accepted_remotely ops fresh_service
      \<and> ps_remote_static_pub_b64 (sv_peers (service_run ops fresh_service) p) = Some sample_key"
proof -
  obtain hello auth where t: "sample_key \<in> trusted_keys (sv_db (service_run [(sample_env, Connect toy_signatures (sample_side 1) True [] hello auth),
      (sample_env, Accept_Pairing []), (sample_env, Frame 0 sample_frame)] fresh_service))"
    using sample_pairing unfolding Let_def by blast
  have "sample_key \<notin> trusted_keys empty_db" by (simp add: trusted_keys_def empty_db_def)
  from trust_needs_both_sides [OF disjI1 [OF t] this] show ?thesis unfolding Let_def by blast
qed

end
