(* ===== verification/Service_History.thy ===== *)
theory Service_History
  imports Service_Trust
begin

text \<open>
  The history of transfers over the runs of the service: the outcome of a transfer is recorded at most
  once (\<^verbatim>\<open>_record_transfer_once\<close> of \<^verbatim>\<open>core/service.py\<close>) and then never changes.
\<close>

section \<open>What changes the history\<close>

abbreviation history :: "service \<Rightarrow> (pystr, history_row) dict" where
  "history s \<equiv> db_transfer_history (sv_db s)"

lemma add_device_history [simp]: "db_transfer_history (snd (add_or_update_device t d)) = db_transfer_history d"
  by (auto simp: add_or_update_device_def seq_apply split: sum.split)

lemma connect_history: "history (snd (connect_peer env sg ls ini addr hello auth s)) = history s"
proof -
  obtain r c where h: "run_handshake (se_crypto env) sg (se_platform env) ls ini hello auth (new_connection (sv_db s) ini addr) = (r, c)"
    by fastforce
  have out: "case (r, c) of (Inl e, c) \<Rightarrow> False | (Inr (Some trusted), c) \<Rightarrow> cn_active c | (Inr None, c) \<Rightarrow> cn_db c = sv_db s"
    using handshake_outcome [where cr = "se_crypto env" and sg = sg and pf = "se_platform env" and ls = ls and ini = ini and hello = hello
      and auth = auth and d = "sv_db s" and addr = addr] h by (auto split: sum.splits option.splits)
  have "db_transfer_history (cn_db c) = history s"
  proof (cases r)
    case (Inr x)
    then show ?thesis
    proof (cases x)
      case (Some b)
      then show ?thesis using handshake_success [OF h [unfolded Inr Some]] by (cases b) auto
    qed (use out Inr in auto)
  qed (use out in auto)
  then show ?thesis using h by (simp add: connect_peer_def)
qed

lemma persist_trust_history: "history (snd (persist_trust env p s)) = history s" "sv_recorded (snd (persist_trust env p s)) = sv_recorded s"
  using persist_shape [of env p s] by auto

text \<open>Recording: nothing happens, or the transfer gets its row.\<close>

lemma add_transfer_cases:
  "(\<exists>e. add_transfer r d = (Inl e, d)) \<or> (\<exists>row. tc_status (hr_record row) = tc_status r
     \<and> add_transfer r d = (Inr (), d\<lparr>db_transfer_history := dict_set (tc_transfer_id r) row (db_transfer_history d)\<rparr>))"
proof -
  let ?vs = "[SqlText (tc_transfer_id r), SqlText (tc_device_id r), SqlText (tc_file_name r), SqlInt (tc_file_size r),
    SqlText (tc_direction r), SqlText (tc_status r), SqlInt (tc_started_at r)]
    @ (case tc_completed_at r of None \<Rightarrow> [] | Some n \<Rightarrow> [SqlInt n]) @ [SqlText (tc_sha256 r)]"
  let ?row = "case dict_get (db_transfer_history d) (tc_transfer_id r) of None \<Rightarrow> new_history_row r
     | Some old \<Rightarrow> old\<lparr>hr_record := (hr_record old)\<lparr>tc_status := tc_status r, tc_completed_at := tc_completed_at r\<rparr>\<rparr>"
  have "tc_status (hr_record ?row) = tc_status r" by (auto simp: new_history_row_def split: option.split)
  moreover have "add_transfer r d = (case bind_values ?vs of Inl e \<Rightarrow> (Inl e, d)
      | Inr _ \<Rightarrow> (Inr (), d\<lparr>db_transfer_history := dict_set (tc_transfer_id r) ?row (db_transfer_history d)\<rparr>))"
    by (simp add: add_transfer_def seq_apply split: sum.split)
  ultimately show ?thesis
  proof (cases "bind_values ?vs")
    case (Inr u)
    with \<open>tc_status (hr_record ?row) = tc_status r\<close> show ?thesis
      by (intro disjI2 exI [of _ ?row]) (simp add: add_transfer_def seq_apply)
  qed simp
qed

lemma record_cases:
  obtains "snd (record_transfer_once env tid dev fname sz dir status started h s) = s"
  | row where "tid \<notin> set (sv_recorded s)" "tc_status (hr_record row) = status"
      "snd (record_transfer_once env tid dev fname sz dir status started h s)
        = s\<lparr>sv_db := (sv_db s)\<lparr>db_transfer_history := dict_set tid row (history s)\<rparr>, sv_recorded := sv_recorded s @ [tid]\<rparr>"
proof (cases "tid \<in> set (sv_recorded s) \<or> (\<exists>e. bind_device (se_platform env) dev = Inl e)")
  case True
  then show thesis by (intro that(1)) (auto simp: record_transfer_once_def catch_apply bind_apply)
next
  case False
  then obtain dv where dv: "bind_device (se_platform env) dev = Inr dv"
    by (cases "bind_device (se_platform env) dev") auto
  let ?rec = "\<lparr>tc_transfer_id = tid, tc_device_id = dv, tc_file_name = fname, tc_file_size = sz, tc_direction = dir, tc_status = status,
    tc_started_at = started, tc_completed_at = Some (se_now env), tc_sha256 = h\<rparr>"
  have run: "record_transfer_once env tid dev fname sz dir status started h s =
      catch (seq (on_database (add_transfer ?rec)) (upd (sv_recorded_update (\<lambda>r. r @ [tid])))) (\<lambda>_. ret ()) s"
    using False dv by (simp add: record_transfer_once_def catch_apply bind_apply)
  from add_transfer_cases [of ?rec "sv_db s"] show thesis
  proof (elim disjE exE conjE)
    fix e assume "add_transfer ?rec (sv_db s) = (Inl e, sv_db s)"
    then show thesis using run by (intro that(1)) (simp add: catch_apply seq_apply on_database_def)
  next
    fix row assume "tc_status (hr_record row) = tc_status ?rec"
      "add_transfer ?rec (sv_db s) = (Inr (), (sv_db s)\<lparr>db_transfer_history := dict_set (tc_transfer_id ?rec) row (history s)\<rparr>)"
    then show thesis using run False by (intro that(2) [of row]) (simp_all add: catch_apply seq_apply on_database_def)
  qed
qed

section \<open>The invariant\<close>

text \<open>Every recorded transfer has a row that does not say interrupted; one row in particular stays as it is.\<close>

definition all_recorded :: "service \<Rightarrow> bool" where
  "all_recorded s \<longleftrightarrow> (\<forall>tid\<in>set (sv_recorded s). \<exists>row. dict_get (history s) tid = Some row \<and> \<not> is_interrupted row)"

definition recorded_as :: "pystr \<Rightarrow> history_row \<Rightarrow> service \<Rightarrow> bool" where
  "recorded_as tid row s \<longleftrightarrow> tid \<in> set (sv_recorded s) \<and> dict_get (history s) tid = Some row \<and> \<not> is_interrupted row"

lemma history_invariant:
  assumes quiet: "\<And>s s'. I s \<Longrightarrow> history s' = history s \<Longrightarrow> sv_recorded s' = sv_recorded s \<Longrightarrow> I s'"
    and rec: "\<And>env tid dev fname sz dir status started h s. status \<noteq> INTERRUPTED_STATUS \<Longrightarrow> I s \<Longrightarrow>
      I (snd (record_transfer_once env tid dev fname sz dir status started h s))"
    and del: "\<And>tid s. I s \<Longrightarrow> I (snd (on_database (delete_interrupted_transfer tid) s))"
  shows "service_run_invariant I"
proof
  fix env sg ls ini addr hello auth s assume "I s"
  then show "I (snd (connect_peer env sg ls ini addr hello auth s))"
  proof (rule quiet)
    show "sv_recorded (snd (connect_peer env sg ls ini addr hello auth s)) = sv_recorded s"
      by (simp add: connect_peer_def split: prod.split)
  qed (rule connect_history)
next
  fix p st show "keeps I (on_peer_session p (session_transition st))"
    unfolding keeps_def by (intro allI impI, erule quiet) (auto simp: on_peer_session_def on_peer_def split: prod.split)
next
  fix env p show "keeps I (persist_trust env p)"
    unfolding keeps_def by (intro allI impI, erule quiet) (simp_all add: persist_trust_history)
next
  fix key show "keeps I (on_database (remove_device_by_public_key key))"
    unfolding keeps_def by (intro allI impI, erule quiet)
      (auto simp: on_database_def remove_device_by_public_key_def seq_apply split: prod.split sum.split)
qed (auto simp: keeps_def rec del elim: quiet)

interpretation all_recorded: service_run_invariant all_recorded
proof (rule history_invariant)
  fix env tid dev fname sz dir status started h s assume st: "status \<noteq> INTERRUPTED_STATUS" and i: "all_recorded s"
  show "all_recorded (snd (record_transfer_once env tid dev fname sz dir status started h s))"
    by (rule record_cases [of env tid dev fname sz dir status started h s]) (use i st in \<open>auto simp: all_recorded_def is_interrupted_def dict_get_set\<close>)
next
  fix tid s assume "all_recorded s"
  then show "all_recorded (snd (on_database (delete_interrupted_transfer tid) s))"
    by (fastforce simp: all_recorded_def on_database_def delete_interrupted_transfer_def seq_apply dict_get_map split: prod.splits sum.splits)
qed (auto simp: all_recorded_def)

interpretation recorded_as: service_run_invariant "recorded_as tid row" for tid row
proof (rule history_invariant)
  fix env t dev fname sz dir status started h s assume st: "status \<noteq> INTERRUPTED_STATUS" and i: "recorded_as tid row s"
  show "recorded_as tid row (snd (record_transfer_once env t dev fname sz dir status started h s))"
    by (rule record_cases [of env t dev fname sz dir status started h s]) (use i st in \<open>auto simp: recorded_as_def dict_get_set\<close>)
next
  fix t s assume "recorded_as tid row s"
  then show "recorded_as tid row (snd (on_database (delete_interrupted_transfer t) s))"
    by (auto simp: recorded_as_def on_database_def delete_interrupted_transfer_def seq_apply dict_get_map split: prod.splits sum.splits)
qed (auto simp: recorded_as_def)

section \<open>The history of a run\<close>

text \<open>
  C10: the outcome of a transfer is recorded once. Once the service has recorded a transfer, the history has a row
  for it whose status is an outcome (not INTERRUPTED), and whatever frames, decisions, timeouts and
  connections follow, that row never changes.
\<close>

theorem outcome_recorded_once:
  assumes "tid \<in> set (sv_recorded (service_run ops (new_service d fs dir now)))"
  shows "\<exists>row. dict_get (history (service_run (ops @ later) (new_service d fs dir now))) tid = Some row \<and> \<not> is_interrupted row
    \<and> dict_get (history (service_run ops (new_service d fs dir now))) tid = Some row"
proof -
  let ?s = "service_run ops (new_service d fs dir now)"
  have "all_recorded (new_service d fs dir now)" by (simp add: all_recorded_def new_service_def)
  then have "all_recorded ?s" by (rule all_recorded.run)
  with assms obtain row where row: "recorded_as tid row ?s" by (auto simp: all_recorded_def recorded_as_def)
  then have "recorded_as tid row (service_run later ?s)" by (rule recorded_as.run)
  moreover have "service_run (ops @ later) (new_service d fs dir now) = service_run later ?s" by (rule service_run_append)
  ultimately show ?thesis using row by (auto simp: recorded_as_def)
qed

section \<open>A run that records\<close>

lemma settle_frame: "sv_batches (snd (settle c m s)) = sv_batches (snd (m s))" "sv_recorded (snd (settle c m s)) = sv_recorded (snd (m s))"
  by (auto simp: settle_def bind_apply catch_apply seq_apply emit_def split: sum.split prod.split outcome.split)

lemma await_frame: "sv_batches (snd (await_transfer p tid s)) = sv_batches s" "sv_recorded (snd (await_transfer p tid s)) = sv_recorded s"
  by (simp_all add: await_transfer_def fresh_ref_def bind_apply seq_apply on_peer_def)

lemma send_frame: "sv_batches (snd (send_encrypted env p ty pl s)) = sv_batches s" "sv_recorded (snd (send_encrypted env p ty pl s)) = sv_recorded s"
  using send_standing [of env p ty pl s] by auto

lemma send_batch_registers:
  assumes "dict_get (sv_active_sessions s) addr = Some p" and "fs_state (ps_session (sv_peers s p)) = S_ESTABLISHED" and "files \<noteq> []"
  shows "\<exists>b. dict_get (sv_batches (snd (send_batch env addr files n name s))) (se_uuid env) = Some b \<and> bi_batch_name b = name
    \<and> bi_total_bytes b = n" "sv_recorded (snd (send_batch env addr files n name s)) = sv_recorded s"
proof -
  let ?b = "new_batch_incoming (se_uuid env) name (int (length files)) n"
  let ?s' = "sv_batches_update (dict_set (se_uuid env) ?b) (s\<lparr>sv_next_ref := Suc (sv_next_ref s)\<rparr>)"
  have upd: "seq (upd f) m s = m (f s)" for f :: "service \<Rightarrow> service" and m :: "outcome svc" and s by (simp add: seq_apply)
  have "\<exists>pl k. begin_batch env addr files n name (s\<lparr>sv_next_ref := Suc (sv_next_ref s)\<rparr>) =
      seq (send_encrypted env p BATCH_REQUEST pl) (bind (await_transfer p (se_uuid env)) (\<lambda>h. ret (k h))) ?s'"
    using assms by (simp add: begin_batch_def Let_def upd) (intro exI, rule refl)
  then obtain pl k where "begin_batch env addr files n name (s\<lparr>sv_next_ref := Suc (sv_next_ref s)\<rparr>) =
      seq (send_encrypted env p BATCH_REQUEST pl) (bind (await_transfer p (se_uuid env)) (\<lambda>h. ret (k h))) ?s'" by blast
  then have "sv_batches (snd (begin_batch env addr files n name (s\<lparr>sv_next_ref := Suc (sv_next_ref s)\<rparr>))) = sv_batches ?s'
      \<and> sv_recorded (snd (begin_batch env addr files n name (s\<lparr>sv_next_ref := Suc (sv_next_ref s)\<rparr>))) = sv_recorded s"
    using send_frame [of env p BATCH_REQUEST pl ?s'] await_frame
    by (auto simp: seq_apply bind_apply split: sum.split prod.split) (metis snd_conv)+
  then show "\<exists>b. dict_get (sv_batches (snd (send_batch env addr files n name s))) (se_uuid env) = Some b \<and> bi_batch_name b = name
    \<and> bi_total_bytes b = n" "sv_recorded (snd (send_batch env addr files n name s)) = sv_recorded s"
    by (simp_all add: send_batch_def bind_apply fresh_ref_def settle_frame dict_get_set new_batch_incoming_def)
qed

lemma cancel_batch_records:
  assumes "dict_get (sv_batches s) tid = Some b" and "tid \<notin> set (sv_recorded s)"
    and "bind_values [SqlText tid, SqlText (lit ''unknown''), SqlText (bi_batch_name b), SqlInt (bi_total_bytes b), SqlText OUTGOING,
      SqlText (lit ''CANCELLED''), SqlInt (se_now env), SqlInt (se_now env), SqlText []] = Inr ()"
  shows "tid \<in> set (sv_recorded (snd (cancel_transfer env tid r s)))"
proof -
  let ?s1 = "sv_batches_update (dict_pop tid) s"
  have each: "\<exists>s2. for_each ps (\<lambda>p. try_send env p BATCH_CANCEL pl) s1 = (Inr (), s2) \<and> sv_recorded s2 = sv_recorded s1" for ps pl s1
  proof (induction ps arbitrary: s1)
    case (Cons p ps)
    obtain x ev where "try_send env p BATCH_CANCEL pl s1 = (Inr (), s1\<lparr>sv_peers := (sv_peers s1)(p := x), sv_events := ev\<rparr>)"
      using try_send_ok by blast
    moreover obtain s2 where "for_each ps (\<lambda>p. try_send env p BATCH_CANCEL pl) (s1\<lparr>sv_peers := (sv_peers s1)(p := x), sv_events := ev\<rparr>) = (Inr (), s2)"
      "sv_recorded s2 = sv_recorded s1" using Cons.IH by fastforce
    ultimately show ?case by (simp add: bind_apply)
  qed simp
  obtain s2 where s2: "for_each (map snd (sv_active_sessions ?s1)) (\<lambda>p. try_send env p BATCH_CANCEL (JObj [(lit ''batch_id'', JStr tid)])) ?s1 = (Inr (), s2)"
    "sv_recorded s2 = sv_recorded ?s1" using each by blast
  have "tid \<in> set (sv_recorded (snd (record_transfer_once env tid (JStr (lit ''unknown'')) (bi_batch_name b) (bi_total_bytes b) OUTGOING
      (lit ''CANCELLED'') (se_now env) [] s2)))"
    using s2(2) assms(2,3) by (simp add: record_transfer_once_def catch_apply bind_apply seq_apply on_database_def add_transfer_def bind_device_def)
  moreover have "cancel_transfer env tid r s = (Inr True, snd (notify_transfer_complete tid False (bi_batch_name b) OUTGOING
      (snd (record_transfer_once env tid (JStr (lit ''unknown'')) (bi_batch_name b) (bi_total_bytes b) OUTGOING (lit ''CANCELLED'') (se_now env) [] s2))))"
    using assms(1) s2(1) by (simp add: cancel_transfer_def cancel_batch_locally_def pop_batch_def bind_apply seq_apply dict_has_iff
        record_transfer_once_def catch_apply notify_transfer_complete_def emit_def split: sum.split prod.split)
  ultimately show ?thesis by (simp add: notify_transfer_complete_def emit_def)
qed

theorem outcome_recorded_once_witness:
  "\<exists>hello auth row. let ops = [(sample_env, Connect toy_signatures (sample_side 1) True [] hello auth), (sample_env, Accept_Pairing []),
      (sample_env, Frame 0 sample_frame), (sample_env, Send_Batch [] [([[97]], [97])] 1 [98]), (sample_env, Cancel_Transfer [] [])]
    in dict_get (history (service_run (ops @ [(sample_env, Lost 0)]) fresh_service)) [] = Some row \<and> \<not> is_interrupted row"
proof -
  obtain hello auth where run: "let ops = [(sample_env, Connect toy_signatures (sample_side 1) True [] hello auth),
      (sample_env, Accept_Pairing []), (sample_env, Frame 0 sample_frame)]
    in sample_key \<in> trusted_keys (sv_db (service_run ops fresh_service))
      \<and> fs_state (ps_session (sv_peers (service_run ops fresh_service) 0)) = S_ESTABLISHED
      \<and> sv_active_sessions (service_run ops fresh_service) = [([], 0)]
      \<and> sv_recorded (service_run ops fresh_service) = [] \<and> sv_batches (service_run ops fresh_service) = []"
    using sample_pairing by blast
  define s3 where "s3 = service_run [(sample_env, Connect toy_signatures (sample_side 1) True [] hello auth),
      (sample_env, Accept_Pairing []), (sample_env, Frame 0 sample_frame)] fresh_service"
  have s3: "fs_state (ps_session (sv_peers s3 0)) = S_ESTABLISHED" "dict_get (sv_active_sessions s3) [] = Some 0" "sv_recorded s3 = []"
    using run unfolding Let_def s3_def [symmetric] by simp_all
  define s4 where "s4 = service_step sample_env (Send_Batch [] [([[97]], [97])] 1 [98]) s3"
  have "se_uuid sample_env = []" by (simp add: sample_env_def)
  then obtain b where b: "dict_get (sv_batches s4) [] = Some b" "bi_batch_name b = [98]" "bi_total_bytes b = 1" and r: "sv_recorded s4 = []"
    using send_batch_registers [OF s3(2,1), of "[([[97]], [97])]" sample_env 1 "[98]"] s3(3) by (auto simp: s4_def)
  have "bind_values [SqlText [], SqlText (lit ''unknown''), SqlText (bi_batch_name b), SqlInt (bi_total_bytes b), SqlText OUTGOING,
      SqlText (lit ''CANCELLED''), SqlInt (se_now sample_env), SqlInt (se_now sample_env), SqlText []] = Inr ()"
    by (rule bind_values_ascii) (simp add: b sample_env_def)
  from cancel_batch_records [OF b(1) _ this, of "[]"] r
  have "[] \<in> set (sv_recorded (service_step sample_env (Cancel_Transfer [] []) s4))" by simp
  then have rec: "[] \<in> set (sv_recorded (service_run [(sample_env, Connect toy_signatures (sample_side 1) True [] hello auth), (sample_env, Accept_Pairing []),
      (sample_env, Frame 0 sample_frame), (sample_env, Send_Batch [] [([[97]], [97])] 1 [98]), (sample_env, Cancel_Transfer [] [])] fresh_service))"
    by (simp add: s4_def s3_def del: service_step.simps)
  from outcome_recorded_once [OF rec, of "[(sample_env, Lost 0)]"] show ?thesis unfolding Let_def by blast
qed

end
