(* ===== verification/Service_End.thy ===== *)
theory Service_End
  imports Service_History
begin

text \<open>
  The end of a session (the \<^verbatim>\<open>finally\<close> blocks of \<^verbatim>\<open>_run_session_loop\<close> and \<^verbatim>\<open>_run_handshake\<close> in
  \<^verbatim>\<open>core/service.py\<close>): nothing of the peer stays behind, and no coroutine keeps waiting for it.
\<close>

section \<open>Dropping the incoming transfers\<close>

lemma record_shape: "\<exists>d r. record_transfer_once env tid dev fname sz dir status started h s = (Inr (), s\<lparr>sv_db := d, sv_recorded := r\<rparr>)"
proof -
  have "fst (record_transfer_once env tid dev fname sz dir status started h s) = Inr ()"
    by (simp add: record_transfer_once_def catch_apply split: prod.split sum.split)
  moreover have "\<exists>d r. snd (record_transfer_once env tid dev fname sz dir status started h s) = s\<lparr>sv_db := d, sv_recorded := r\<rparr>"
  proof (rule record_cases [of env tid dev fname sz dir status started h s])
    assume "snd (record_transfer_once env tid dev fname sz dir status started h s) = s"
    then show ?thesis by (intro exI [of _ "sv_db s"] exI [of _ "sv_recorded s"]) simp
  qed blast
  ultimately show ?thesis by (metis prod.collapse)
qed

lemma drop_incoming_result:
  "\<exists>tm tk lc fs d r ev. drop_incoming_of_peer env p (tid, t) s = (Inr (), s\<lparr>sv_incoming := dict_pop tid (sv_incoming s),
     sv_incoming_peers := dict_pop tid (sv_incoming_peers s), sv_accept_timeouts := tm, sv_tasks := tk, sv_last_chunk := lc,
     sv_fs := fs, sv_db := d, sv_recorded := r, sv_events := ev\<rparr>)"
proof -
  obtain t' fs' where c: "cancel_incoming (se_os env) (t, sv_fs s) = (Inr (), (t', fs'))" "in_state t' = CANCELLED"
    using cancel_incoming_result by blast
  obtain tm tk where tm: "cancel_timeout tid (sv_incoming_peers_update (dict_pop tid) (sv_incoming_update (dict_pop tid) s))
    = (Inr (), s\<lparr>sv_incoming := dict_pop tid (sv_incoming s), sv_incoming_peers := dict_pop tid (sv_incoming_peers s),
        sv_accept_timeouts := tm, sv_tasks := tk\<rparr>)"
  proof (cases "dict_get (sv_accept_timeouts s) tid")
    case None
    then show ?thesis using that [of "sv_tasks s" "dict_pop tid (sv_accept_timeouts s)"] by (simp add: cancel_timeout_def seq_apply)
  next
    case (Some k)
    then show ?thesis using that [of "dict_pop k (sv_tasks s)" "dict_pop tid (sv_accept_timeouts s)"] by (simp add: cancel_timeout_def seq_apply)
  qed
  let ?s1 = "sv_last_chunk_update (dict_pop tid) (s\<lparr>sv_incoming := dict_pop tid (sv_incoming s),
     sv_incoming_peers := dict_pop tid (sv_incoming_peers s), sv_accept_timeouts := tm, sv_tasks := tk\<rparr>)\<lparr>sv_fs := fs'\<rparr>"
  obtain d r where r: "record_transfer_once env tid (peer_device (se_platform env) (sv_peers s p)) (md_file_name (in_meta t')) (md_file_size (in_meta t'))
      INCOMING (lit ''FAILED'') (md_created_at (in_meta t')) [] ?s1 = (Inr (), ?s1\<lparr>sv_db := d, sv_recorded := r\<rparr>)"
    using record_shape by blast
  have "drop_incoming_of_peer env p (tid, t) s = (Inr (), ?s1\<lparr>sv_db := d, sv_recorded := r,
      sv_events := sv_events s @ [Transfer_Complete tid False (md_file_name (in_meta t')) INCOMING]\<rparr>)"
    using c tm r by (simp add: drop_incoming_of_peer_def pop_incoming_def pop_incoming_peer_def pop_last_chunk_def bind_apply seq_apply
        on_object_def close_incoming_def notify_transfer_complete_def emit_def del: lit_simps)
  then show ?thesis
    by (intro exI [of _ tm] exI [of _ tk] exI [of _ "dict_pop tid (sv_last_chunk s)"] exI [of _ fs'] exI [of _ d] exI [of _ r]
        exI [of _ "sv_events s @ [Transfer_Complete tid False (md_file_name (in_meta t')) INCOMING]"]) simp
qed

lemma dict_get_pops: "dict_get (fold dict_pop ks m) k = (if k \<in> set ks then None else dict_get m k)"
  by (induction ks arbitrary: m) (auto simp: dict_get_pop)

lemma drop_all_incoming:
  "\<exists>tm tk lc fs d r ev. for_each xs (drop_incoming_of_peer env p) s = (Inr (), s\<lparr>sv_incoming := fold dict_pop (map fst xs) (sv_incoming s),
     sv_incoming_peers := fold dict_pop (map fst xs) (sv_incoming_peers s), sv_accept_timeouts := tm, sv_tasks := tk, sv_last_chunk := lc,
     sv_fs := fs, sv_db := d, sv_recorded := r, sv_events := ev\<rparr>)"
proof (induction xs arbitrary: s)
  case Nil
  then show ?case
    by (intro exI [of _ "sv_accept_timeouts s"] exI [of _ "sv_tasks s"] exI [of _ "sv_last_chunk s"] exI [of _ "sv_fs s"] exI [of _ "sv_db s"]
        exI [of _ "sv_recorded s"] exI [of _ "sv_events s"]) simp
next
  case (Cons x xs)
  obtain tid t where x: "x = (tid, t)" by fastforce
  obtain tm tk lc fs d r ev where s1: "drop_incoming_of_peer env p (tid, t) s = (Inr (), s\<lparr>sv_incoming := dict_pop tid (sv_incoming s),
     sv_incoming_peers := dict_pop tid (sv_incoming_peers s), sv_accept_timeouts := tm, sv_tasks := tk, sv_last_chunk := lc,
     sv_fs := fs, sv_db := d, sv_recorded := r, sv_events := ev\<rparr>)"
    using drop_incoming_result [of env p tid t s] by (elim exE) (rule that)
  show ?case
    using Cons.IH [of "s\<lparr>sv_incoming := dict_pop tid (sv_incoming s),
     sv_incoming_peers := dict_pop tid (sv_incoming_peers s), sv_accept_timeouts := tm, sv_tasks := tk, sv_last_chunk := lc,
     sv_fs := fs, sv_db := d, sv_recorded := r, sv_events := ev\<rparr>"] s1
    by (simp add: bind_apply x)
qed

lemma cancel_incoming_for_peer_result:
  "\<exists>s'. cancel_incoming_for_peer env p s = (Inr (), s')
     \<and> (\<forall>tid. dict_get (sv_incoming s') tid = (if dict_get (sv_incoming_peers s) tid = Some p then None else dict_get (sv_incoming s) tid))
     \<and> sv_peers s' = sv_peers s \<and> sv_outgoing s' = sv_outgoing s \<and> sv_active_sessions s' = sv_active_sessions s"
proof -
  let ?xs = "filter (\<lambda>(tid, t). dict_get (sv_incoming_peers s) tid = Some p) (sv_incoming s)"
  obtain s' where s': "for_each ?xs (drop_incoming_of_peer env p) s = (Inr (), s')" "sv_incoming s' = fold dict_pop (map fst ?xs) (sv_incoming s)"
    "sv_peers s' = sv_peers s" "sv_outgoing s' = sv_outgoing s" "sv_active_sessions s' = sv_active_sessions s"
    using drop_all_incoming [of ?xs env p s] by fastforce
  have "dict_get (sv_incoming s') tid = (if dict_get (sv_incoming_peers s) tid = Some p then None else dict_get (sv_incoming s) tid)" for tid
  proof (cases "dict_get (sv_incoming s) tid")
    case (Some t)
    then have "(tid, t) \<in> set (sv_incoming s)" by (auto simp: dict_get_def dest: map_of_SomeD)
    then show ?thesis by (auto simp: s'(2) dict_get_pops image_iff)
  qed (simp add: s'(2) dict_get_pops)
  with s' show ?thesis unfolding cancel_incoming_for_peer_def by auto
qed

section \<open>Releasing the outgoing transfers\<close>

lemma cancel_outgoing_item:
  "\<exists>xs a b. seq (mark_outgoing_cancelled tid) (release_waiters p (JStr tid)) s
      = (Inr (), s\<lparr>sv_xfers := xs, sv_transfer_answers := a, sv_result_answers := b\<rparr>)
    \<and> (\<forall>x. og_cancelled (sv_xfers s x) \<or> (\<exists>q. dict_get (sv_outgoing s) tid = Some (q, x)) \<longrightarrow> og_cancelled (xs x))
    \<and> (\<forall>h. sv_transfer_answers s h \<noteq> [] \<or> dict_get (sp_transfer_events (sv_peers s p)) tid = Some h \<longrightarrow> a h \<noteq> [])
    \<and> (\<forall>h. sv_result_answers s h \<noteq> [] \<or> dict_get (sp_result_events (sv_peers s p)) tid = Some h \<longrightarrow> b h \<noteq> [])"
proof -
  let ?xs = "case dict_get (sv_outgoing s) tid of None \<Rightarrow> sv_xfers s | Some (q, x) \<Rightarrow> (sv_xfers s)(x := cancel_outgoing (sv_xfers s x))"
  let ?a = "case dict_get (sp_transfer_events (sv_peers s p)) tid of None \<Rightarrow> sv_transfer_answers s
    | Some h \<Rightarrow> (sv_transfer_answers s)(h := sv_transfer_answers s h @ [lit ''CANCEL''])"
  let ?b = "case dict_get (sp_result_events (sv_peers s p)) tid of None \<Rightarrow> sv_result_answers s
    | Some h \<Rightarrow> (sv_result_answers s)(h := sv_result_answers s h @ [False])"
  have "seq (mark_outgoing_cancelled tid) (release_waiters p (JStr tid)) s
      = (Inr (), s\<lparr>sv_xfers := ?xs, sv_transfer_answers := ?a, sv_result_answers := ?b\<rparr>)"
    by (simp add: mark_outgoing_cancelled_def release_waiters_def signal_transfer_def signal_result_def key_get_def
        seq_apply bind_apply del: lit_simps split: option.split)
  then show ?thesis
    by (intro exI [of _ ?xs] exI [of _ ?a] exI [of _ ?b] conjI)
      (assumption, auto simp: cancel_outgoing_def simp del: lit_simps split: option.split)
qed

lemma cancel_outgoing_for_peer_result:
  "\<exists>xs a b. cancel_outgoing_for_peer p s = (Inr (), s\<lparr>sv_xfers := xs, sv_transfer_answers := a, sv_result_answers := b\<rparr>)
    \<and> (\<forall>tid x. dict_get (sv_outgoing s) tid = Some (p, x) \<longrightarrow> og_cancelled (xs x)
        \<and> (\<forall>h. dict_get (sp_transfer_events (sv_peers s p)) tid = Some h \<longrightarrow> a h \<noteq> [])
        \<and> (\<forall>h. dict_get (sp_result_events (sv_peers s p)) tid = Some h \<longrightarrow> b h \<noteq> []))"
proof -
  have all: "\<exists>xs a b. for_each tids (\<lambda>tid. seq (mark_outgoing_cancelled tid) (release_waiters p (JStr tid))) s
      = (Inr (), s\<lparr>sv_xfers := xs, sv_transfer_answers := a, sv_result_answers := b\<rparr>)
    \<and> (\<forall>x. og_cancelled (sv_xfers s x) \<or> (\<exists>tid\<in>set tids. \<exists>q. dict_get (sv_outgoing s) tid = Some (q, x)) \<longrightarrow> og_cancelled (xs x))
    \<and> (\<forall>h. sv_transfer_answers s h \<noteq> [] \<or> (\<exists>tid\<in>set tids. dict_get (sp_transfer_events (sv_peers s p)) tid = Some h) \<longrightarrow> a h \<noteq> [])
    \<and> (\<forall>h. sv_result_answers s h \<noteq> [] \<or> (\<exists>tid\<in>set tids. dict_get (sp_result_events (sv_peers s p)) tid = Some h) \<longrightarrow> b h \<noteq> [])" for tids s
  proof (induction tids arbitrary: s)
    case Nil
    then show ?case
      by (intro exI [of _ "sv_xfers s"] exI [of _ "sv_transfer_answers s"] exI [of _ "sv_result_answers s"]) simp
  next
    case (Cons tid tids)
    obtain xs a b where 1: "seq (mark_outgoing_cancelled tid) (release_waiters p (JStr tid)) s
      = (Inr (), s\<lparr>sv_xfers := xs, sv_transfer_answers := a, sv_result_answers := b\<rparr>)"
      "\<forall>x. og_cancelled (sv_xfers s x) \<or> (\<exists>q. dict_get (sv_outgoing s) tid = Some (q, x)) \<longrightarrow> og_cancelled (xs x)"
      "\<forall>h. sv_transfer_answers s h \<noteq> [] \<or> dict_get (sp_transfer_events (sv_peers s p)) tid = Some h \<longrightarrow> a h \<noteq> []"
      "\<forall>h. sv_result_answers s h \<noteq> [] \<or> dict_get (sp_result_events (sv_peers s p)) tid = Some h \<longrightarrow> b h \<noteq> []"
      using cancel_outgoing_item [of tid p s] by (elim exE conjE) (rule that)
    let ?s1 = "s\<lparr>sv_xfers := xs, sv_transfer_answers := a, sv_result_answers := b\<rparr>"
    obtain xs' a' b' where 2: "for_each tids (\<lambda>tid. seq (mark_outgoing_cancelled tid) (release_waiters p (JStr tid))) ?s1
      = (Inr (), ?s1\<lparr>sv_xfers := xs', sv_transfer_answers := a', sv_result_answers := b'\<rparr>)"
      "\<forall>x. og_cancelled (xs x) \<or> (\<exists>tid\<in>set tids. \<exists>q. dict_get (sv_outgoing s) tid = Some (q, x)) \<longrightarrow> og_cancelled (xs' x)"
      "\<forall>h. a h \<noteq> [] \<or> (\<exists>tid\<in>set tids. dict_get (sp_transfer_events (sv_peers s p)) tid = Some h) \<longrightarrow> a' h \<noteq> []"
      "\<forall>h. b h \<noteq> [] \<or> (\<exists>tid\<in>set tids. dict_get (sp_result_events (sv_peers s p)) tid = Some h) \<longrightarrow> b' h \<noteq> []"
      using Cons.IH [of ?s1] by auto
    show ?case
      using 1 2 by (intro exI [of _ xs'] exI [of _ a'] exI [of _ b'] conjI) (simp add: bind_apply, (auto)+)
  qed
  let ?tids = "map fst (filter (\<lambda>(tid, (q, x)). q = p) (sv_outgoing s))"
  have "tid \<in> set ?tids" if "dict_get (sv_outgoing s) tid = Some (p, x)" for tid x
    using that by (force simp: dict_get_def dest: map_of_SomeD)
  moreover obtain xs a b where r: "for_each ?tids (\<lambda>tid. seq (mark_outgoing_cancelled tid) (release_waiters p (JStr tid))) s
      = (Inr (), s\<lparr>sv_xfers := xs, sv_transfer_answers := a, sv_result_answers := b\<rparr>)"
    "\<And>x tid q. tid \<in> set ?tids \<Longrightarrow> dict_get (sv_outgoing s) tid = Some (q, x) \<Longrightarrow> og_cancelled (xs x)"
    "\<And>h tid. tid \<in> set ?tids \<Longrightarrow> dict_get (sp_transfer_events (sv_peers s p)) tid = Some h \<Longrightarrow> a h \<noteq> []"
    "\<And>h tid. tid \<in> set ?tids \<Longrightarrow> dict_get (sp_result_events (sv_peers s p)) tid = Some h \<Longrightarrow> b h \<noteq> []"
    using all [of ?tids s] by blast
  ultimately show ?thesis
    by (intro exI [of _ xs] exI [of _ a] exI [of _ b]) (simp only: cancel_outgoing_for_peer_def reads_def, blast)
qed


section \<open>The end of the session\<close>

text \<open>
  Whatever state the session is in, its end raises nothing: the state changes that may fail are caught.
  \<open>same_transfers\<close> collects what the rest of the clean-up leaves alone.
\<close>

definition same_transfers :: "service \<Rightarrow> service \<Rightarrow> bool" where
  "same_transfers s s' \<longleftrightarrow> sv_incoming s' = sv_incoming s \<and> sv_xfers s' = sv_xfers s
     \<and> sv_transfer_answers s' = sv_transfer_answers s \<and> sv_result_answers s' = sv_result_answers s"

lemmas session_change_defs = on_peer_def on_peer_session_def session_transition_def session_step_def notify_session_def emit_def

lemma catch_after: "m s = (Inr u, s') \<Longrightarrow> catch (seq m k) h s = catch k h s'"
  by (simp add: catch_apply seq_apply)

lemma leave_loop:
  fixes p s
  defines "m \<equiv> catch (seq (on_peer_session p (session_transition S_CLOSING)) (on_peer_session p (session_transition S_DISCONNECTED)))
    (\<lambda>_. fail_session p) s"
    and "st \<equiv> fs_state (ps_session (sv_peers s p))"
  shows "fst m = Inr ()" "same_transfers s (snd m)" "sv_active_sessions (snd m) = sv_active_sessions s"
    "ps_remote_addr (sv_peers (snd m) p) = ps_remote_addr (sv_peers s p)"
    "fs_state (ps_session (sv_peers (snd m) p)) = (if st \<in> {S_FAILED, S_CLOSING} then st else S_DISCONNECTED)"
  unfolding m_def st_def
  by (cases "fs_state (ps_session (sv_peers s p))";
      simp add: same_transfers_def session_change_defs fail_session_def eff_apply)+

lemma close_session_effect:
  fixes p s
  defines "m \<equiv> close_session p s"
  shows "fst m = Inr ()" "same_transfers s (snd m)"
    "sv_active_sessions (snd m) = dict_pop (ps_remote_addr (sv_peers s p)) (sv_active_sessions s)"
    "sp_closed (sv_peers (snd m) p)"
    "fs_state (ps_session (sv_peers (snd m) p)) =
       (let st = fs_state (ps_session (sv_peers s p)) in if st \<in> {S_FAILED, S_CLOSING} then st else S_DISCONNECTED)"
  unfolding m_def
  by (cases "fs_state (ps_session (sv_peers s p))";
      simp add: same_transfers_def session_change_defs close_session_def eff_apply)+

text \<open>What the peer had under way: the objects of its outgoing transfers, and the events its coroutines wait for.\<close>

definition objects_of_peer :: "service \<Rightarrow> nat \<Rightarrow> nat set" where
  "objects_of_peer s p = {x. \<exists>tid. dict_get (sv_outgoing s) tid = Some (p, x)}"

definition accept_events_of_peer :: "service \<Rightarrow> nat \<Rightarrow> nat set" where
  "accept_events_of_peer s p =
     {h. \<exists>tid x. dict_get (sv_outgoing s) tid = Some (p, x) \<and> dict_get (sp_transfer_events (sv_peers s p)) tid = Some h}"

definition result_events_of_peer :: "service \<Rightarrow> nat \<Rightarrow> nat set" where
  "result_events_of_peer s p =
     {h. \<exists>tid x. dict_get (sv_outgoing s) tid = Some (p, x) \<and> dict_get (sp_result_events (sv_peers s p)) tid = Some h}"


end
