(* ===== verification/Service_Start.thy ===== *)
theory Service_Start
  imports Service_Loop
begin

text \<open>
  What the start of the service does to the files: the staging files of a crash are removed, those that a
  resumption still needs are kept (\<^verbatim>\<open>FerryService.start\<close>).
\<close>

text \<open>
  A staging file is kept when its transfer is interrupted and has not expired, and also when the database refuses its
  name, since the exception skips it.
\<close>

definition kept_at_start :: "service_env \<Rightarrow> db \<Rightarrow> pystr \<Rightarrow> bool" where
  "kept_at_start env db name =
     (case fst (get_interrupted_transfer (part_stem name) db) of
        Inl e \<Rightarrow> True
      | Inr None \<Rightarrow> False
      | Inr (Some info) \<Rightarrow> se_now env < ii_expire_at info)"

definition is_file :: "fs \<Rightarrow> path \<Rightarrow> bool" where
  "is_file fs p = (case fs p of Some (File c) \<Rightarrow> True | _ \<Rightarrow> False)"

definition clean_file :: "service_env \<Rightarrow> db \<Rightarrow> path \<Rightarrow> pystr \<Rightarrow> fs \<Rightarrow> fs" where
  "clean_file env db dir name fs =
     (if kept_at_start env db name \<or> \<not> os_unlink_ok (se_os env) \<or> \<not> is_file fs (dir @ [name]) then fs else fs(dir @ [name] := None))"

lemma get_interrupted_db: "snd (get_interrupted_transfer tid db) = db"
  by (simp add: get_interrupted_transfer_def seq_apply split: sum.split)

lemma clean_stale_run:
  "clean_stale env name s = (Inr (), s\<lparr>sv_fs := clean_file env (sv_db s) (staging_path s) name (sv_fs s)\<rparr>)"
proof -
  obtain r where r: "get_interrupted_transfer (part_stem name) (sv_db s) = (r, sv_db s)"
    using get_interrupted_db [of "part_stem name" "sv_db s"] by (metis prod.collapse)
  have u: "snd (unlink_file (se_os env) p fs) = (if \<not> os_unlink_ok (se_os env) \<or> \<not> is_file fs p then fs else fs(p := None))" for p fs
    by (auto simp: unlink_file_def is_file_def split: option.split node.split)
  obtain x fs' where f: "unlink_file (se_os env) (staging_path s @ [name]) (sv_fs s) = (x, fs')" by fastforce
  then have f': "fs' = (if \<not> os_unlink_ok (se_os env) \<or> \<not> is_file (sv_fs s) (staging_path s @ [name]) then sv_fs s
      else (sv_fs s)(staging_path s @ [name] := None))"
    using u [of "staging_path s @ [name]" "sv_fs s"] by simp
  have d: "on_database (get_interrupted_transfer (part_stem name)) s = (r, s)" by (simp add: on_database_def r)
  have k: "kept_at_start env (sv_db s) name
      = (case r of Inl e \<Rightarrow> True | Inr None \<Rightarrow> False | Inr (Some info) \<Rightarrow> se_now env < ii_expire_at info)"
    by (simp add: kept_at_start_def r)
  show ?thesis
  proof (cases r)
    case (Inr info)
    then have "clean_stale env name s
        = catch (\<lambda>s. if kept_at_start env (sv_db s) name then (Inr (), s)
            else case unlink_file (se_os env) (staging_path s @ [name]) (sv_fs s) of (r, fs') \<Rightarrow> (r, s\<lparr>sv_fs := fs'\<rparr>)) (\<lambda>_. ret ()) s"
      using d k by (cases info) (simp_all add: clean_stale_def catch_apply bind_apply)
    then show ?thesis by (cases x) (simp_all add: catch_apply f f' clean_file_def)
  qed (simp add: clean_stale_def catch_apply bind_apply d clean_file_def k)
qed

lemma clean_all_run:
  "\<exists>fs'. for_each names (clean_stale env) s = (Inr (), s\<lparr>sv_fs := fs'\<rparr>)
    \<and> (\<forall>p. fs' p = (if os_unlink_ok (se_os env) \<and> is_file (sv_fs s) p
          \<and> p \<in> (\<lambda>n. staging_path s @ [n]) ` {n \<in> set names. \<not> kept_at_start env (sv_db s) n} then None else sv_fs s p))"
proof (induction names arbitrary: s)
  case Nil
  show ?case by (intro exI [of _ "sv_fs s"]) simp
next
  case (Cons n names)
  let ?s1 = "s\<lparr>sv_fs := clean_file env (sv_db s) (staging_path s) n (sv_fs s)\<rparr>"
  have same: "staging_path ?s1 = staging_path s" by (simp add: staging_path_def)
  from Cons.IH [of ?s1] obtain fs' where fs': "for_each names (clean_stale env) ?s1 = (Inr (), ?s1\<lparr>sv_fs := fs'\<rparr>)"
    "\<And>p. fs' p = (if os_unlink_ok (se_os env) \<and> is_file (sv_fs ?s1) p
          \<and> p \<in> (\<lambda>n. staging_path s @ [n]) ` {n \<in> set names. \<not> kept_at_start env (sv_db s) n} then None else sv_fs ?s1 p)"
    unfolding same by auto
  have "fs' p = (if os_unlink_ok (se_os env) \<and> is_file (sv_fs s) p
          \<and> p \<in> (\<lambda>n. staging_path s @ [n]) ` {x \<in> set (n # names). \<not> kept_at_start env (sv_db s) x} then None else sv_fs s p)" for p
    unfolding fs'(2) by (auto simp: clean_file_def is_file_def)
  moreover have "for_each (n # names) (clean_stale env) s = (Inr (), s\<lparr>sv_fs := fs'\<rparr>)"
    using fs'(1) clean_stale_run [of env n s] by (simp add: bind_apply)
  ultimately show ?case by blast
qed


end
