(* ===== verification/Discovery.thy ===== *)
theory Discovery
  imports Json Utf8 Effects Identity
begin

text \<open>
  \<^verbatim>\<open>core/discovery.py\<close>: the peers found on the local network. Registration, browsing and the resolution of
  a service belong to the \<^verbatim>\<open>zeroconf\<close> package; what it reports is an input. The fields of the daemon's
  own configuration have their declared types here.
\<close>

section \<open>Discovered devices\<close>

text \<open>What is read of an \<^verbatim>\<open>AsyncServiceInfo\<close>: the TXT properties, the addresses by family, port and name.\<close>

record service_info =
  si_properties :: "(bytes, bytes option) dict"
  si_v4 :: "pystr list"
  si_v6 :: "pystr list"
  si_port :: "int option"
  si_name :: pystr

text \<open>\<open>dd_last_seen\<close> is the literal of a float.\<close>

record discovered =
  dd_device_id :: pystr
  dd_device_name :: pystr
  dd_device_type :: pystr
  dd_os_name :: pystr
  dd_protocol_version :: int
  dd_addresses :: "pystr list"
  dd_port :: "int option"
  dd_service_name :: pystr
  dd_last_seen :: pystr
  dd_is_available :: bool

definition discovered_to_dict :: "discovered \<Rightarrow> json" where
  "discovered_to_dict d = JObj
     [(lit ''device_id'', JStr (dd_device_id d)), (lit ''device_name'', JStr (dd_device_name d)),
      (lit ''device_type'', JStr (dd_device_type d)), (lit ''os_name'', JStr (dd_os_name d)),
      (lit ''protocol_version'', JInt (dd_protocol_version d)), (lit ''addresses'', JArr (map JStr (dd_addresses d))),
      (lit ''port'', case dd_port d of None \<Rightarrow> JNull | Some n \<Rightarrow> JInt n), (lit ''service_name'', JStr (dd_service_name d)),
      (lit ''last_seen'', JFloat (dd_last_seen d)), (lit ''is_available'', JBool (dd_is_available d))]"

text \<open>\<^verbatim>\<open>bytes.decode("utf-8", errors="replace")\<close>.\<close>

definition utf8_decode_replace :: "bytes \<Rightarrow> pystr" where
  "utf8_decode_replace bs = map (\<lambda>c. case c of None \<Rightarrow> 65533 | Some n \<Rightarrow> n) (utf8_scan bs)"

definition get_prop :: "(bytes, bytes option) dict \<Rightarrow> string \<Rightarrow> string \<Rightarrow> pystr" where
  "get_prop props key dflt =
     (case dict_get props (blit key) of Some (Some v) \<Rightarrow> utf8_decode_replace v | _ \<Rightarrow> lit dflt)"

fun add_addresses :: "pystr \<Rightarrow> pystr list \<Rightarrow> pystr list \<Rightarrow> pystr list" where
  "add_addresses local_prefix [] addresses = addresses"
| "add_addresses local_prefix (addr # addrs) addresses =
     add_addresses local_prefix addrs
       (if addr \<notin> set addresses \<and> \<not> is_prefix local_prefix addr then addresses @ [addr] else addresses)"

definition DISCOVERY_PROTOCOL_VERSION :: int where "DISCOVERY_PROTOCOL_VERSION = 1"

definition from_service_info :: "platform \<Rightarrow> pystr \<Rightarrow> service_info \<Rightarrow> discovered option" where
  "from_service_info pf now info =
     (let props = si_properties info
      in if props = [] then None
         else case int_of_str pf (get_prop props ''v'' ''1'') of
                Inl _ \<Rightarrow> None
              | Inr proto_ver \<Rightarrow>
                  if proto_ver \<noteq> DISCOVERY_PROTOCOL_VERSION then None
                  else if get_prop props ''id'' '''' = [] then None
                  else
                    (let addresses = add_addresses (lit ''::1'') (si_v6 info) (add_addresses (lit ''127.'') (si_v4 info) [])
                     in if addresses = [] then None
                        else Some
                          \<lparr>dd_device_id = get_prop props ''id'' '''',
                           dd_device_name = get_prop props ''name'' ''Unknown Raven Peer'',
                           dd_device_type = get_prop props ''type'' ''unknown'',
                           dd_os_name = get_prop props ''os'' ''unknown'',
                           dd_protocol_version = proto_ver, dd_addresses = addresses, dd_port = si_port info,
                           dd_service_name = si_name info, dd_last_seen = now, dd_is_available = True\<rparr>))"

section \<open>The manager\<close>

record own_config =
  oc_device_id :: pystr
  oc_device_name :: pystr
  oc_listen_port :: int

text \<open>
  Whether the daemon's service is registered and browsed for, the table of devices, the listeners, the
  resolutions under way (task and service name), and the calls of the listeners so far.
\<close>

record discovery =
  dy_azc :: bool
  dy_service_info :: "service_info option"
  dy_browser :: bool
  dy_running :: bool
  dy_devices :: "(pystr, discovered) dict"
  dy_service_to_device :: "(pystr, pystr) dict"
  dy_listeners :: "nat list"
  dy_requests :: "(nat, pystr) dict"
  dy_calls :: "(nat \<times> discovered list) list"

definition new_discovery :: discovery where
  "new_discovery =
     \<lparr>dy_azc = False, dy_service_info = None, dy_browser = False, dy_running = False, dy_devices = [], dy_service_to_device = [],
      dy_listeners = [], dy_requests = [], dy_calls = []\<rparr>"

definition get_devices :: "discovery \<Rightarrow> discovered list" where
  "get_devices d = filter dd_is_available (map snd (dy_devices d))"

definition discovered_device :: "discovery \<Rightarrow> pystr \<Rightarrow> discovered option" where
  "discovered_device d device_id =
     (case dict_get (dy_devices d) device_id of None \<Rightarrow> None | Some dev \<Rightarrow> if dd_is_available dev then Some dev else None)"

definition add_listener :: "nat \<Rightarrow> discovery \<Rightarrow> discovery" where
  "add_listener cb d =
     d\<lparr>dy_listeners := (if cb \<in> set (dy_listeners d) then dy_listeners d else dy_listeners d @ [cb]),
       dy_calls := dy_calls d @ [(cb, get_devices d)]\<rparr>"

definition remove_listener :: "nat \<Rightarrow> discovery \<Rightarrow> discovery" where
  "remove_listener cb d = d\<lparr>dy_listeners := filter (\<lambda>c. c \<noteq> cb) (dy_listeners d)\<rparr>"

definition notify_listeners :: "discovery \<Rightarrow> discovery" where
  "notify_listeners d = d\<lparr>dy_calls := dy_calls d @ map (\<lambda>cb. (cb, get_devices d)) (dy_listeners d)\<rparr>"

text \<open>The service a daemon announces; \<^verbatim>\<open>str.encode\<close> refuses lone surrogates.\<close>

definition own_service :: "own_config \<Rightarrow> pystr list \<Rightarrow> service_info res" where
  "own_service oc local_addrs =
     res_bind (utf8_encode (oc_device_id oc)) (\<lambda>device_id.
     res_bind (utf8_encode (oc_device_name oc)) (\<lambda>device_name.
       Inr \<lparr>si_properties =
              [(blit ''v'', Some (blit ''1'')), (blit ''id'', Some device_id), (blit ''name'', Some device_name),
               (blit ''type'', Some (blit ''desktop'')), (blit ''os'', Some (blit ''archlinux'')),
               (blit ''port'', Some (map word_of_nat (int_str (oc_listen_port oc)))), (blit ''app_version'', Some (blit ''0.1.0''))],
            si_v4 = (if local_addrs \<noteq> [] then local_addrs else [lit ''127.0.0.1'']), si_v6 = [],
            si_port = Some (oc_listen_port oc),
            si_name = lit ''Ferry-'' @ (if oc_device_id oc \<noteq> [] then take 8 (oc_device_id oc) else lit ''host'')
                        @ lit ''._ferry._tcp.local.''\<rparr>))"

text \<open>\<open>register_ok\<close>: whether \<^verbatim>\<open>async_register_service\<close> returns.\<close>

definition start_discovery :: "own_config \<Rightarrow> pystr list \<Rightarrow> bool \<Rightarrow> (discovery, unit) eff" where
  "start_discovery oc local_addrs register_ok = reads (\<lambda>d.
     if dy_running d then ret ()
     else seq (upd (\<lambda>d. d\<lparr>dy_azc := True\<rparr>))
         (bind (lift (own_service oc local_addrs)) (\<lambda>info.
          seq (upd (\<lambda>d. d\<lparr>dy_service_info := Some info\<rparr>))
             (if register_ok then upd (\<lambda>d. d\<lparr>dy_browser := True, dy_running := True\<rparr>) else raise RuntimeError))))"

definition stop_discovery :: "discovery \<Rightarrow> discovery" where
  "stop_discovery d =
     (if \<not> dy_running d then d
      else notify_listeners
        (d\<lparr>dy_running := False, dy_browser := False, dy_service_info := None, dy_azc := False, dy_devices := [],
           dy_service_to_device := []\<rparr>))"

text \<open>
  \<^verbatim>\<open>_async_handle_state_change\<close>: an addition or update is resolved first, which takes up to three seconds;
  the answer arrives as a step of its own.
\<close>

datatype state_change = Added | Updated | Removed

definition service_removed :: "pystr \<Rightarrow> discovery \<Rightarrow> discovery" where
  "service_removed name d =
     (let d' = d\<lparr>dy_service_to_device := dict_pop name (dy_service_to_device d)\<rparr>
      in case dict_get (dy_service_to_device d) name of
           None \<Rightarrow> d'
         | Some device_id \<Rightarrow>
             (case (if device_id \<noteq> [] then dict_get (dy_devices d) device_id else None) of
                None \<Rightarrow> d'
              | Some dev \<Rightarrow>
                  notify_listeners (d'\<lparr>dy_devices := dict_set device_id (dev\<lparr>dd_is_available := False\<rparr>) (dy_devices d)\<rparr>)))"

definition service_changed :: "nat \<Rightarrow> pystr \<Rightarrow> state_change \<Rightarrow> discovery \<Rightarrow> discovery" where
  "service_changed task name change d =
     (if \<not> dy_azc d \<or> \<not> dy_running d then d
      else if change = Removed then service_removed name d
      else d\<lparr>dy_requests := dict_set task name (dy_requests d)\<rparr>)"

text \<open>\<open>None\<close>: the request was not answered in time.\<close>

definition request_answered ::
    "platform \<Rightarrow> own_config \<Rightarrow> pystr \<Rightarrow> nat \<Rightarrow> service_info option \<Rightarrow> discovery \<Rightarrow> discovery" where
  "request_answered pf oc now task answer d =
     (case dict_get (dy_requests d) task of
        None \<Rightarrow> d
      | Some name \<Rightarrow>
          (let d' = d\<lparr>dy_requests := dict_pop task (dy_requests d)\<rparr>
           in case (case answer of None \<Rightarrow> None | Some info \<Rightarrow> from_service_info pf now info) of
                None \<Rightarrow> d'
              | Some dev \<Rightarrow>
                  if dd_device_id dev = oc_device_id oc then d'
                  else notify_listeners
                    (d'\<lparr>dy_devices := dict_set (dd_device_id dev) dev (dy_devices d),
                        dy_service_to_device := dict_set name (dd_device_id dev) (dy_service_to_device d)\<rparr>)))"

section \<open>Steps\<close>

text \<open>The life of the manager: calls of the service, and reports of the \<^verbatim>\<open>zeroconf\<close> package in any order.\<close>

inductive discovery_step :: "platform \<Rightarrow> own_config \<Rightarrow> discovery \<Rightarrow> discovery \<Rightarrow> bool" for pf oc where
  Start: "discovery_step pf oc d (snd (start_discovery oc local_addrs register_ok d))"
| Stop: "discovery_step pf oc d (stop_discovery d)"
| Listen: "discovery_step pf oc d (add_listener cb d)"
| Unlisten: "discovery_step pf oc d (remove_listener cb d)"
| Change: "discovery_step pf oc d (service_changed task name change d)"
| Answer: "discovery_step pf oc d (request_answered pf oc now task answer d)"

inductive discovery_reach :: "platform \<Rightarrow> own_config \<Rightarrow> discovery \<Rightarrow> bool" for pf oc where
  Init: "discovery_reach pf oc new_discovery"
| Step: "discovery_reach pf oc d \<Longrightarrow> discovery_step pf oc d d' \<Longrightarrow> discovery_reach pf oc d'"

inductive_cases discovery_stepE: "discovery_step pf oc d d'"

section \<open>What is in the table\<close>

lemma set_add_addresses: "set (add_addresses pre as acc) = set acc \<union> {a \<in> set as. \<not> is_prefix pre a}"
  by (induction pre as acc rule: add_addresses.induct) auto

lemma distinct_add_addresses: "distinct acc \<Longrightarrow> distinct (add_addresses pre as acc)"
  by (induction pre as acc rule: add_addresses.induct) auto

text \<open>A device as the table may hold it.\<close>

definition device_ok :: "own_config \<Rightarrow> discovered \<Rightarrow> bool" where
  "device_ok oc dev \<longleftrightarrow> dd_device_id dev \<noteq> [] \<and> dd_device_id dev \<noteq> oc_device_id oc
     \<and> dd_protocol_version dev = DISCOVERY_PROTOCOL_VERSION \<and> dd_addresses dev \<noteq> [] \<and> distinct (dd_addresses dev)"

lemma from_service_info_ok:
  assumes "from_service_info pf now info = Some dev"
  shows "dd_device_id dev \<noteq> []" "dd_protocol_version dev = DISCOVERY_PROTOCOL_VERSION" "dd_addresses dev \<noteq> []"
    "distinct (dd_addresses dev)" "dd_is_available dev"
    "set (dd_addresses dev) = {a \<in> set (si_v4 info). \<not> is_prefix (lit ''127.'') a} \<union> {a \<in> set (si_v6 info). \<not> is_prefix (lit ''::1'') a}"
  using assms
  by (auto simp: from_service_info_def Let_def set_add_addresses distinct_add_addresses split: if_splits sum.splits)

definition table_ok :: "own_config \<Rightarrow> discovery \<Rightarrow> bool" where
  "table_ok oc d \<longleftrightarrow> dict_ok (dy_devices d)
     \<and> (\<forall>k dev. dict_get (dy_devices d) k = Some dev \<longrightarrow> device_ok oc dev \<and> dd_device_id dev = k)"

lemma notify_frame [simp]: "dy_devices (notify_listeners d) = dy_devices d" "dy_running (notify_listeners d) = dy_running d"
    "dy_service_to_device (notify_listeners d) = dy_service_to_device d" "dy_requests (notify_listeners d) = dy_requests d"
  by (simp_all add: notify_listeners_def)

lemma table_okI: "table_ok oc d \<Longrightarrow> dy_devices d' = dy_devices d \<Longrightarrow> table_ok oc d'"
  by (simp add: table_ok_def)

lemma table_ok_set:
  "table_ok oc d \<Longrightarrow> device_ok oc dev \<Longrightarrow> dy_devices d' = dict_set (dd_device_id dev) dev (dy_devices d) \<Longrightarrow> table_ok oc d'"
  by (auto simp: table_ok_def dict_get_set dict_ok_set)

lemma start_devices: "dy_devices (snd (start_discovery oc local_addrs ok d)) = dy_devices d"
  by (auto simp: start_discovery_def seq_apply bind_apply split: sum.split)

lemma removed_table: "table_ok oc d \<Longrightarrow> table_ok oc (service_removed name d)"
proof (cases "dict_get (dy_service_to_device d) name")
  case None
  then show "table_ok oc d \<Longrightarrow> ?thesis" by (simp add: service_removed_def table_ok_def)
next
  case (Some i)
  assume ok: "table_ok oc d"
  show ?thesis
  proof (cases "if i \<noteq> [] then dict_get (dy_devices d) i else None")
    case None
    then show ?thesis using ok Some by (simp add: service_removed_def table_ok_def)
  next
    case (Some dev)
    then have dev: "device_ok oc (dev\<lparr>dd_is_available := False\<rparr>)" "dd_device_id dev = i" "i \<noteq> []"
      using ok by (auto simp: table_ok_def device_ok_def split: if_splits)
    have "service_removed name d = notify_listeners (d\<lparr>dy_service_to_device := dict_pop name (dy_service_to_device d),
        dy_devices := dict_set i (dev\<lparr>dd_is_available := False\<rparr>) (dy_devices d)\<rparr>)"
      using Some dev(3) by (simp add: service_removed_def \<open>dict_get (dy_service_to_device d) name = Some i\<close>)
    then show ?thesis by (intro table_ok_set [OF ok dev(1)]) (simp add: dev(2))
  qed
qed

lemma answered_table: "table_ok oc d \<Longrightarrow> table_ok oc (request_answered pf oc now task answer d)"
proof -
  assume ok: "table_ok oc d"
  show ?thesis
  proof (cases "dict_get (dy_requests d) task")
    case (Some name)
    show ?thesis
    proof (cases "case answer of None \<Rightarrow> None | Some info \<Rightarrow> from_service_info pf now info")
      case None
      then show ?thesis using ok Some by (simp add: request_answered_def table_ok_def)
    next
      case (Some dev)
      then have dev: "device_ok oc dev" if "dd_device_id dev \<noteq> oc_device_id oc"
        using that from_service_info_ok by (auto simp: device_ok_def split: option.splits)
      have run: "request_answered pf oc now task answer d = (if dd_device_id dev = oc_device_id oc then d\<lparr>dy_requests := dict_pop task (dy_requests d)\<rparr>
          else notify_listeners (d\<lparr>dy_requests := dict_pop task (dy_requests d), dy_devices := dict_set (dd_device_id dev) dev (dy_devices d),
                 dy_service_to_device := dict_set name (dd_device_id dev) (dy_service_to_device d)\<rparr>))"
        by (simp add: request_answered_def \<open>dict_get (dy_requests d) task = Some name\<close> Some)
      show ?thesis
      proof (cases "dd_device_id dev = oc_device_id oc")
        case True
        then show ?thesis using ok by (simp add: run table_ok_def)
      next
        case False
        show ?thesis by (rule table_ok_set [OF ok dev [OF False]]) (simp add: run False)
      qed
    qed
  qed (use ok in \<open>simp add: request_answered_def\<close>)
qed

lemma stop_table: "table_ok oc d \<Longrightarrow> table_ok oc (stop_discovery d)"
  by (simp add: stop_discovery_def table_ok_def)

lemma changed_table: "table_ok oc d \<Longrightarrow> table_ok oc (service_changed task name change d)"
  using removed_table [of oc d name] by (simp add: service_changed_def) (simp add: table_ok_def)

lemma listener_tables: "table_ok oc d \<Longrightarrow> table_ok oc (add_listener cb d)" "table_ok oc d \<Longrightarrow> table_ok oc (remove_listener cb d)"
    "table_ok oc d \<Longrightarrow> table_ok oc (snd (start_discovery oc local_addrs ok d))"
  using start_devices [of oc local_addrs ok d] by (simp_all add: table_ok_def add_listener_def remove_listener_def)

lemma step_table: "discovery_step pf oc d d' \<Longrightarrow> table_ok oc d \<Longrightarrow> table_ok oc d'"
  by (erule discovery_stepE) (simp_all only: stop_table changed_table listener_tables answered_table)

lemma reach_table: "discovery_reach pf oc d \<Longrightarrow> table_ok oc d"
proof (induction rule: discovery_reach.induct)
  case Init
  then show ?case by (simp add: table_ok_def new_discovery_def)
qed (rule step_table)

text \<open>
  C27: whatever the network reports, in any order, the table of discovered devices is well formed: one entry per
  device id, under that id, never the daemon's own or an empty id, only peers of the supported
  protocol version, each with at least one address and none twice.
\<close>

theorem discovery_wellformed:
  assumes "discovery_reach pf oc d"
  shows "dict_ok (dy_devices d)
    \<and> list_all (\<lambda>(k, dev). dd_device_id dev = k \<and> k \<noteq> [] \<and> k \<noteq> oc_device_id oc
        \<and> dd_protocol_version dev = DISCOVERY_PROTOCOL_VERSION \<and> dd_addresses dev \<noteq> [] \<and> distinct (dd_addresses dev)) (dy_devices d)"
proof -
  have ok: "table_ok oc d" using assms by (rule reach_table)
  have "dict_get (dy_devices d) k = Some dev" if "(k, dev) \<in> set (dy_devices d)" for k dev
    using that ok by (simp add: table_ok_def dict_ok_def dict_get_def)
  then show ?thesis using ok by (fastforce simp: table_ok_def device_ok_def list_all_iff)
qed

section \<open>A daemon is found by another one\<close>

lemma decode_replace_encode: "utf8_encode s = Inr bs \<Longrightarrow> utf8_decode_replace bs = s"
proof -
  assume "utf8_encode s = Inr bs"
  then have d: "utf8_decode bs = Inr s" by (rule utf8_decode_encode)
  then have "None \<notin> set (utf8_scan bs)" "s = map the (utf8_scan bs)" by (auto simp: utf8_decode_def split: if_splits)
  moreover have "map (\<lambda>c. case c of None \<Rightarrow> 65533 | Some n \<Rightarrow> n) xs = map the xs" if "None \<notin> set xs" for xs :: "nat option list"
    using that by (induction xs) (auto split: option.split)
  ultimately show ?thesis by (simp add: utf8_decode_replace_def)
qed

lemma scan_ascii: "list_all (\<lambda>b. unat b < 128) bs \<Longrightarrow> utf8_scan bs = map (\<lambda>b. Some (unat b)) bs"
  by (induction bs) (auto simp: utf8_lead_def)

lemma announced_device:
  assumes "own_service oc local_addrs = Inr info" and "oc_device_id oc \<noteq> []"
    and "local_addrs \<noteq> []" and "distinct local_addrs" and "list_all (\<lambda>a. \<not> is_prefix (lit ''127.'') a) local_addrs"
  shows "\<exists>dev. from_service_info pf now info = Some dev \<and> dd_device_id dev = oc_device_id oc \<and> dd_device_name dev = oc_device_name oc
    \<and> dd_port dev = Some (oc_listen_port oc) \<and> dd_addresses dev = local_addrs \<and> dd_is_available dev"
proof -
  obtain i n where i: "utf8_encode (oc_device_id oc) = Inr i" and n: "utf8_encode (oc_device_name oc) = Inr n"
    using assms(1) by (auto simp: own_service_def res_simps)
  have info: "si_v4 info = local_addrs" "si_v6 info = []" "si_port info = Some (oc_listen_port oc)"
    "si_properties info = [(blit ''v'', Some (blit ''1'')), (blit ''id'', Some i), (blit ''name'', Some n),
       (blit ''type'', Some (blit ''desktop'')), (blit ''os'', Some (blit ''archlinux'')),
       (blit ''port'', Some (map word_of_nat (int_str (oc_listen_port oc)))), (blit ''app_version'', Some (blit ''0.1.0''))]"
    using assms(1,3) by (auto simp: own_service_def i n)
  have props: "get_prop (si_properties info) ''v'' ''1'' = lit ''1''" "get_prop (si_properties info) ''id'' '''' = oc_device_id oc"
    "get_prop (si_properties info) ''name'' ''Unknown Raven Peer'' = oc_device_name oc"
    using decode_replace_encode [OF i] decode_replace_encode [OF n]
    by (simp_all add: info(4) get_prop_def blit_def utf8_decode_replace_def utf8_lead_def)
  have v: "int_of_str pf [49] = Inr 1" using int_of_int_str [of 1 pf] by (simp add: int_str_def dec_digits_one)
  have "add_addresses pre as acc = acc @ as" if "distinct (acc @ as)" "list_all (\<lambda>a. \<not> is_prefix pre a) as" for pre as acc
    using that by (induction pre as acc rule: add_addresses.induct) auto
  from this [of "[]" local_addrs] assms(4,5) have "add_addresses (lit ''127.'') local_addrs [] = local_addrs" by simp
  then show ?thesis
    using assms(2,3) by (simp add: from_service_info_def props v info(1-3) DISCOVERY_PROTOCOL_VERSION_def Let_def) (simp add: info(4))
qed


section \<open>Sample runs\<close>

definition sample_own :: own_config where
  "sample_own = \<lparr>oc_device_id = [97], oc_device_name = [], oc_listen_port = 1\<rparr>"

definition sample_other :: own_config where
  "sample_other = \<lparr>oc_device_id = [98], oc_device_name = [], oc_listen_port = 1\<rparr>"

lemma sample_announcement: "\<exists>info dev. own_service sample_other [[49]] = Inr info
    \<and> from_service_info ascii_platform [] info = Some dev \<and> dd_device_id dev = [98] \<and> dd_is_available dev"
proof -
  have "\<exists>info. own_service sample_other [[49]] = Inr info"
    by (simp add: own_service_def sample_other_def utf8_encode_def scalar_def)
  then obtain info where info: "own_service sample_other [[49]] = Inr info" by blast
  from announced_device [OF info, of ascii_platform "[]"] info show ?thesis
    by (auto simp: sample_other_def is_prefix_def)
qed

text \<open>A peer is found while the manager runs; \<open>stopped\<close>: it was stopped before the answer came.\<close>

lemma sample_found:
  "\<exists>d dev. discovery_reach ascii_platform sample_own d \<and> dy_devices d = [([98], dev)] \<and> dd_is_available dev \<and> dy_running d = (\<not> stopped)"
proof -
  obtain info dev where info: "from_service_info ascii_platform [] info = Some dev" "dd_device_id dev = [98]" "dd_is_available dev"
    using sample_announcement by blast
  let ?d1 = "snd (start_discovery sample_own [] True new_discovery)"
  let ?d2 = "service_changed 0 [] Added ?d1"
  let ?d3 = "if stopped then stop_discovery ?d2 else ?d2"
  let ?d4 = "request_answered ascii_platform sample_own [] 0 (Some info) ?d3"
  have "\<exists>i. own_service sample_own [] = Inr i"
    by (simp add: own_service_def sample_own_def utf8_encode_def scalar_def)
  then obtain i where "own_service sample_own [] = Inr i" by blast
  then have d1: "dy_azc ?d1" "dy_running ?d1" "dy_devices ?d1 = []" "dy_requests ?d1 = []" "dy_service_to_device ?d1 = []"
    by (simp_all add: start_discovery_def new_discovery_def seq_apply bind_apply)
  have d2: "dy_running ?d2" "dy_devices ?d2 = []" "dy_requests ?d2 = [(0, [])]"
    using d1 by (simp_all add: service_changed_def)
  have d3: "dy_running ?d3 = (\<not> stopped)" "dy_devices ?d3 = []" "dy_requests ?d3 = [(0, [])]"
    using d2 by (simp_all add: stop_discovery_def)
  have "dy_devices ?d4 = [([98], dev)]" "dy_running ?d4 = (\<not> stopped)"
    using d3 info by (simp_all add: request_answered_def sample_own_def)
  moreover have "discovery_reach ascii_platform sample_own ?d2"
    by (rule Step [OF Step [OF Init Start] Change])
  then have "discovery_reach ascii_platform sample_own ?d3"
    using Step [OF _ Stop, of ascii_platform sample_own ?d2] by simp
  then have "discovery_reach ascii_platform sample_own ?d4"
    by (rule Step [OF _ Answer])
  ultimately show ?thesis using info(3) by blast
qed

theorem discovery_wellformed_witness:
  "\<exists>d dev. discovery_reach ascii_platform sample_own d \<and> dy_devices d = [([98], dev)] \<and> dd_device_id dev = [98] \<and> dd_addresses dev \<noteq> []"
proof -
  obtain d dev where d: "discovery_reach ascii_platform sample_own d" "dy_devices d = [([98], dev)]" using sample_found [of False] by blast
  from discovery_wellformed [OF d(1)] d show ?thesis by auto
qed


text \<open>
  An answer that arrives after \<^verbatim>\<open>stop()\<close> is still entered: the handler tests \<^verbatim>\<open>_is_running\<close> only before it waits.
\<close>

theorem late_answer_listed:
  "\<exists>d. discovery_reach ascii_platform sample_own d \<and> \<not> dy_running d \<and> get_devices d \<noteq> []"
  using sample_found [of True] by (auto simp: get_devices_def)

end
