(* ===== verification/Config.thy ===== *)
theory Config
  imports Filesystem Json Utf8
begin

text \<open>
  \<^verbatim>\<open>core/config.py\<close>: the settings of the daemon (\<^verbatim>\<open>FerryConfig\<close>) and the file they are kept in
  (\<^verbatim>\<open>ConfigManager\<close>). The fields of a loaded configuration are not converted, so they are JSON values.
\<close>

section \<open>Settings\<close>

record config =
  cf_device_name :: json
  cf_device_id :: json
  cf_listen_port :: json
  cf_download_dir :: json
  cf_auto_accept_paired :: json
  cf_max_chunk_size :: json

text \<open>What the default factories ask the system for: the host's name, a fresh id, the download directory
  below the home directory.\<close>

record config_env =
  ce_hostname :: pystr
  ce_uuid :: pystr
  ce_download_dir :: pystr

definition config_from_dict :: "config_env \<Rightarrow> json \<Rightarrow> config res" where
  "config_from_dict ce data =
     (case data of
        JObj d \<Rightarrow>
          (let field = (\<lambda>k dflt. case dict_get d (lit k) of None \<Rightarrow> dflt | Some v \<Rightarrow> v)
           in Inr \<lparr>cf_device_name = field ''device_name'' (JStr (ce_hostname ce @ lit '' (Raven)'')),
                   cf_device_id = field ''device_id'' (JStr (ce_uuid ce)),
                   cf_listen_port = field ''listen_port'' (JInt 53770),
                   cf_download_dir = field ''download_dir'' (JStr (ce_download_dir ce)),
                   cf_auto_accept_paired = field ''auto_accept_paired'' (JBool False),
                   cf_max_chunk_size = field ''max_chunk_size'' (JInt 65536)\<rparr>)
      | _ \<Rightarrow> Inl AttributeError)"

definition config_to_dict :: "config \<Rightarrow> json" where
  "config_to_dict c = JObj
     [(lit ''device_name'', cf_device_name c), (lit ''device_id'', cf_device_id c),
      (lit ''listen_port'', cf_listen_port c), (lit ''download_dir'', cf_download_dir c),
      (lit ''auto_accept_paired'', cf_auto_accept_paired c), (lit ''max_chunk_size'', cf_max_chunk_size c)]"

definition default_config :: "config_env \<Rightarrow> config" where
  "default_config ce =
     \<lparr>cf_device_name = JStr (ce_hostname ce @ lit '' (Raven)''), cf_device_id = JStr (ce_uuid ce), cf_listen_port = JInt 53770,
      cf_download_dir = JStr (ce_download_dir ce), cf_auto_accept_paired = JBool False, cf_max_chunk_size = JInt 65536\<rparr>"

section \<open>Indented JSON\<close>

text \<open>\<^verbatim>\<open>json.dump(..., indent=2)\<close>; \<open>l\<close> is the nesting level.\<close>

definition newline :: "nat \<Rightarrow> pystr" where
  "newline l = 10 # replicate (2 * l) 32"

fun dump_indent :: "platform \<Rightarrow> nat \<Rightarrow> json \<Rightarrow> pystr" where
  "dump_indent pf l (JArr vs) =
     (if vs = [] then [91, 93]
      else [91] @ newline (Suc l) @ join_with (44 # newline (Suc l)) (map (dump_indent pf (Suc l)) vs) @ newline l @ [93])"
| "dump_indent pf l (JObj d) =
     (if d = [] then [123, 125]
      else [123] @ newline (Suc l)
        @ join_with (44 # newline (Suc l)) (map (\<lambda>(k, v). quote k @ [58, 32] @ dump_indent pf (Suc l) v) d) @ newline l @ [125])"
| "dump_indent pf l JNull = lit ''null''"
| "dump_indent pf l (JBool b) = (if b then lit ''true'' else lit ''false'')"
| "dump_indent pf l (JInt n) = int_str n"
| "dump_indent pf l (JFloat x) = flt_json pf x"
| "dump_indent pf l (JStr s) = quote s"

section \<open>The file\<close>

record config_manager =
  cm_config_dir :: path
  cm_data_dir :: path
  cm_runtime_dir :: path

definition cm_config_file :: "config_manager \<Rightarrow> path" where
  "cm_config_file m = cm_config_dir m @ [lit ''config.json'']"

definition cm_db_file :: "config_manager \<Rightarrow> path" where
  "cm_db_file m = cm_data_dir m @ [lit ''ferry.db'']"

definition cm_ipc_socket_file :: "config_manager \<Rightarrow> path" where
  "cm_ipc_socket_file m = cm_runtime_dir m @ [lit ''ferry.sock'']"

text \<open>The directories the environment names (\<^verbatim>\<open>XDG_CONFIG_HOME\<close>, \<^verbatim>\<open>XDG_DATA_HOME\<close>, \<^verbatim>\<open>XDG_RUNTIME_DIR\<close>, with their
  defaults), or those below an explicit base directory.\<close>

definition manager_dirs :: "path option \<Rightarrow> path \<Rightarrow> path \<Rightarrow> path \<Rightarrow> config_manager" where
  "manager_dirs base_dir xdg_config xdg_data xdg_runtime =
     (case base_dir of
        Some b \<Rightarrow> \<lparr>cm_config_dir = b @ [lit ''config''], cm_data_dir = b @ [lit ''data''], cm_runtime_dir = b @ [lit ''runtime'']\<rparr>
      | None \<Rightarrow> \<lparr>cm_config_dir = xdg_config @ [lit ''ferry''], cm_data_dir = xdg_data @ [lit ''ferry''],
                 cm_runtime_dir = xdg_runtime @ [lit ''ferry'']\<rparr>)"

definition ensure_directories :: "os_env \<Rightarrow> config_manager \<Rightarrow> (fs, config_manager) eff" where
  "ensure_directories env m =
     seq (mkdir_p env (cm_config_dir m))
    (seq (mkdir_p env (cm_data_dir m))
         (catch (seq (mkdir_p env (cm_runtime_dir m)) (ret m))
           (\<lambda>e. if is_oserror e
                then (let m' = m\<lparr>cm_runtime_dir := cm_data_dir m @ [lit ''runtime'']\<rparr>
                      in seq (mkdir_p env (cm_runtime_dir m')) (ret m'))
                else raise e)))"

text \<open>\<^verbatim>\<open>with open(p, "w") as f: json.dump(..., f, indent=2)\<close>: the file is closed also when writing fails.\<close>

definition write_closed :: "os_env \<Rightarrow> bytes res \<Rightarrow> handle \<Rightarrow> (fs, unit) eff" where
  "write_closed env body h = (\<lambda>fs.
     case (case body of Inl e \<Rightarrow> (Inl e, h, fs) | Inr bs \<Rightarrow> fh_write env bs h fs) of
       (r, h', fs1) \<Rightarrow>
         (case fh_close env h' fs1 of
            (r2, _, fs2) \<Rightarrow> (case r of Inl e \<Rightarrow> Inl e | Inr _ \<Rightarrow> r2, fs2)))"

definition config_text :: "platform \<Rightarrow> config \<Rightarrow> bytes res" where
  "config_text pf c =
     (if printable_ints (config_to_dict c) then utf8_encode (dump_indent pf 0 (config_to_dict c)) else Inl ValueError)"

definition save_config :: "platform \<Rightarrow> os_env \<Rightarrow> config_manager \<Rightarrow> config \<Rightarrow> (fs, unit) eff" where
  "save_config pf env m c =
     seq (mkdir_p env (cm_config_dir m))
         (bind (open_wb env (cm_config_file m)) (write_closed env (config_text pf c)))"

definition read_config :: "platform \<Rightarrow> config_env \<Rightarrow> os_env \<Rightarrow> path \<Rightarrow> fs \<Rightarrow> config res" where
  "read_config pf ce env p fs =
     res_bind (read_file env p fs) (\<lambda>bs.
     res_bind (utf8_decode bs) (\<lambda>s.
     res_bind (loads pf s) (config_from_dict ce)))"

text \<open>Every call of a factory draws new values: \<open>ce\<close> for the fields a file lacks, \<open>ce1\<close> for an empty device id,
  \<open>ce2\<close> for the configuration that replaces an unreadable one.\<close>

definition load_config ::
    "platform \<Rightarrow> config_env \<Rightarrow> config_env \<Rightarrow> config_env \<Rightarrow> os_env \<Rightarrow> config_manager \<Rightarrow> (fs, config) eff" where
  "load_config pf ce ce1 ce2 env m = reads (\<lambda>fs.
     if \<not> exists_path fs (cm_config_file m)
     then seq (save_config pf env m (default_config ce2)) (ret (default_config ce2))
     else catch
       (bind (lift (read_config pf ce env (cm_config_file m) fs)) (\<lambda>c.
          if \<not> py_bool pf (cf_device_id c)
          then (let c' = c\<lparr>cf_device_id := JStr (ce_uuid ce1)\<rparr> in seq (save_config pf env m c') (ret c'))
          else ret c))
       (\<lambda>_. seq (save_config pf env m (default_config ce2)) (ret (default_config ce2))))"

section \<open>Indented JSON is read back\<close>

text \<open>A text that the parser turns into a value, whatever follows.\<close>

definition spells :: "platform \<Rightarrow> pystr \<Rightarrow> json \<Rightarrow> bool" where
  "spells pf t v \<longleftrightarrow> t \<noteq> [] \<and> \<not> json_ws (hd t) \<and> hd t \<noteq> 93 \<and> hd t \<noteq> 125
     \<and> (\<forall>n d r. follows r \<longrightarrow> jdepth v \<le> d \<longrightarrow> 2 * length (t @ r) < n \<longrightarrow> parse_value pf n d (t @ r) = Inr (v, r))"

lemma spellsD:
  "spells pf t v \<Longrightarrow> follows r \<Longrightarrow> jdepth v \<le> d \<Longrightarrow> 2 * length (t @ r) < n \<Longrightarrow> parse_value pf n d (t @ r) = Inr (v, r)"
  by (simp add: spells_def)

lemma spells_skip: "spells pf t v \<Longrightarrow> skip_ws (t @ r) = t @ r"
  by (intro skip_ws_id) (simp_all add: spells_def)

lemma spells_hd: "spells pf t v \<Longrightarrow> \<not> is_prefix [93] (t @ r) \<and> \<not> is_prefix [125] (t @ r)"
  by (cases t) (auto simp: spells_def)

lemma newline_ws [simp]: "list_all json_ws (newline l)" "newline l \<noteq> []" "hd (newline l) = 10"
  by (simp_all add: newline_def json_ws_def list_all_iff)

lemma follows_newline [simp]: "follows (newline l @ s)"
  by (simp add: newline_def follows_def json_ws_def)

lemma skip_newline [simp]: "skip_ws (newline l @ s) = skip_ws s"
  by (rule skip_ws_sep) simp

lemma parse_elems_spelled:
  assumes "\<forall>x\<in>set (v # vs). spells pf (rd x) x \<and> jdepth x \<le> d"
    and "2 * length (join_with (44 # newline k) (map rd (v # vs)) @ newline l @ 93 # r) + 1 < n"
  shows "parse_elems pf n d acc (join_with (44 # newline k) (map rd (v # vs)) @ newline l @ 93 # r)
    = Inr (JArr (rev acc @ v # vs), r)"
  using assms
proof (induction vs arbitrary: v acc n)
  case Nil
  then obtain m where m: "n = Suc m" by (cases n) auto
  have "parse_value pf m d (rd v @ newline l @ 93 # r) = Inr (v, newline l @ 93 # r)"
    using Nil by (intro spellsD) (simp_all add: m)
  then show ?case by (simp add: m)
next
  case (Cons w ws)
  then obtain m where m: "n = Suc m" by (cases n) auto
  let ?rest = "join_with (44 # newline k) (map rd (w # ws)) @ newline l @ 93 # r"
  have "parse_value pf m d (rd v @ 44 # newline k @ ?rest) = Inr (v, 44 # newline k @ ?rest)"
    using Cons.prems by (intro spellsD) (simp_all add: m)
  moreover have "skip_ws ?rest = ?rest"
    using Cons.prems spells_skip [of pf "rd w" w] by (cases ws) auto
  moreover have "parse_elems pf m d (v # acc) ?rest = Inr (JArr (rev (v # acc) @ w # ws), r)"
    using Cons.prems by (intro Cons.IH) (simp_all add: m)
  ultimately show ?case by (simp add: m)
qed

definition indent_pair :: "(json \<Rightarrow> pystr) \<Rightarrow> pystr \<times> json \<Rightarrow> pystr" where
  "indent_pair rd p = quote (fst p) @ [58, 32] @ rd (snd p)"

lemma length_indent_pair: "length (indent_pair rd p) = length (quote (fst p)) + 2 + length (rd (snd p))"
  by (simp add: indent_pair_def)

lemma parse_members_spelled:
  assumes "\<forall>x\<in>set (p # ps). spells pf (rd (snd x)) (snd x) \<and> jdepth (snd x) \<le> d \<and> well_paired (fst x)"
    and "distinct (map fst (acc @ p # ps))"
    and "2 * length (join_with (44 # newline k) (map (indent_pair rd) (p # ps)) @ newline l @ 125 # r) + 1 < n"
  shows "parse_members pf n d acc (join_with (44 # newline k) (map (indent_pair rd) (p # ps)) @ newline l @ 125 # r)
    = Inr (JObj (acc @ p # ps), r)"
  using assms
proof (induction ps arbitrary: p acc n)
  case Nil
  then obtain m where m: "n = Suc m" by (cases n) auto
  obtain key v where p: "p = (key, v)" by fastforce
  have "parse_value pf m d (rd v @ newline l @ 125 # r) = Inr (v, newline l @ 125 # r)"
    using Nil by (intro spellsD) (simp_all add: m p length_indent_pair)
  moreover have "dict_set key v acc = acc @ [(key, v)]" using Nil(2) by (intro dict_set_fresh) (simp add: p)
  moreover have "skip_ws (32 # rd v @ newline l @ 125 # r) = rd v @ newline l @ 125 # r"
    using Nil(1) spells_skip [of pf "rd v" v "newline l @ 125 # r"] by (simp add: p skip_ws_def json_ws_def)
  ultimately show ?case
    using Nil(1) scan_quote [of key "[]"] by (simp add: m p indent_pair_def quote_def)
next
  case (Cons q qs)
  then obtain m where m: "n = Suc m" by (cases n) auto
  obtain key v where p: "p = (key, v)" by fastforce
  let ?rest = "join_with (44 # newline k) (map (indent_pair rd) (q # qs)) @ newline l @ 125 # r"
  have "parse_value pf m d (rd v @ 44 # newline k @ ?rest) = Inr (v, 44 # newline k @ ?rest)"
    using Cons.prems by (intro spellsD) (simp_all add: m p length_indent_pair)
  moreover have "skip_ws ?rest = ?rest"
    by (cases qs) (simp_all add: indent_pair_def quote_def)
  moreover have "parse_members pf m d (acc @ [(key, v)]) ?rest = Inr (JObj ((acc @ [(key, v)]) @ q # qs), r)"
    using Cons.prems by (intro Cons.IH) (simp_all add: m p length_indent_pair)
  moreover have "dict_set key v acc = acc @ [(key, v)]"
    using Cons.prems(2) by (intro dict_set_fresh) (simp add: p)
  moreover have "skip_ws (32 # rd v @ 44 # newline k @ ?rest) = rd v @ 44 # newline k @ ?rest"
    using Cons.prems(1) spells_skip [of pf "rd v" v "44 # newline k @ ?rest"] by (simp add: p skip_ws_def json_ws_def)
  moreover have "indent_pair rd (key, v) = 34 # esc_string key @ 34 # 58 # 32 # rd v"
    by (simp add: indent_pair_def quote_def)
  ultimately show ?case
    using Cons.prems(1) scan_quote [of key "[]"] by (simp add: m p)
qed

lemma dump_indent_spells: "dumpable v \<Longrightarrow> spells pf (dump_indent pf l v) v"
proof (induction v arbitrary: l)
  case (JArr vs)
  show ?case
  proof (cases vs)
    case (Cons v ws)
    have "parse_value pf n d (dump_indent pf l (JArr vs) @ r) = Inr (JArr vs, r)"
      if a: "follows r" "jdepth (JArr vs) \<le> d" "2 * length (dump_indent pf l (JArr vs) @ r) < n" for n d r
    proof -
      obtain m where m: "n = Suc m" using a by (cases n) auto
      have le: "\<forall>x\<in>set vs. jdepth x \<le> d - 1" using a(2) by (cases d) (auto simp: fold_max_le)
      let ?t = "join_with (44 # newline (Suc l)) (map (dump_indent pf (Suc l)) (v # ws)) @ newline l @ 93 # r"
      have sp: "\<forall>x\<in>set (v # ws). spells pf (dump_indent pf (Suc l) x) x" using JArr Cons by (auto simp: list_all_iff)
      have "parse_elems pf m (d - 1) [] ?t = Inr (JArr (rev [] @ v # ws), r)"
        using a(3) le sp Cons by (intro parse_elems_spelled) (auto simp: m)
      moreover have "skip_ws ?t = ?t" "\<not> is_prefix [93] ?t"
        using sp spells_skip [of pf "dump_indent pf (Suc l) v" v] spells_hd [of pf "dump_indent pf (Suc l) v" v] by (cases ws; auto)+
      ultimately show ?thesis using a by (simp add: m Cons)
    qed
    then show ?thesis using Cons by (simp add: spells_def json_ws_def)
  qed (auto simp: spells_def json_ws_def elim!: less_natE)
next
  case (JObj kvs)
  have dp: "map (\<lambda>(k, v). quote k @ [58, 32] @ dump_indent pf (Suc l) v) kvs = map (indent_pair (dump_indent pf (Suc l))) kvs"
    by (auto simp: indent_pair_def)
  show ?case
  proof (cases kvs)
    case (Cons p ps)
    have "parse_value pf n d (dump_indent pf l (JObj kvs) @ r) = Inr (JObj kvs, r)"
      if a: "follows r" "jdepth (JObj kvs) \<le> d" "2 * length (dump_indent pf l (JObj kvs) @ r) < n" for n d r
    proof -
      obtain m where m: "n = Suc m" using a by (cases n) auto
      have le: "\<forall>x\<in>set kvs. jdepth (snd x) \<le> d - 1" using a(2) by (cases d) (auto simp: fold_max_le split_beta)
      let ?t = "join_with (44 # newline (Suc l)) (map (indent_pair (dump_indent pf (Suc l))) (p # ps)) @ newline l @ 125 # r"
      have ok: "\<forall>x\<in>set kvs. spells pf (dump_indent pf (Suc l) (snd x)) (snd x) \<and> well_paired (fst x)"
        using JObj by (fastforce simp: list_all_iff)
      have "parse_members pf m (d - 1) [] ?t = Inr (JObj ([] @ p # ps), r)"
        using a(3) le ok JObj.prems unfolding dump_indent.simps dp
        by (intro parse_members_spelled) (simp_all add: m Cons)
      moreover have "skip_ws ?t = ?t" "\<not> is_prefix [125] ?t"
        by (cases ps; simp add: indent_pair_def quote_def)+
      ultimately show ?thesis using a unfolding dump_indent.simps dp by (simp add: m Cons)
    qed
    then show ?thesis using Cons by (simp add: spells_def json_ws_def)
  qed (auto simp: spells_def json_ws_def elim!: less_natE)
next
  case (JInt n)
  then show ?case using dumpable_reads_back [of "[]" "JInt n" pf] dump_hd [of "JInt n" pf "[]"] by (simp add: spells_def reads_back_def)
next
  case (JStr s)
  then show ?case using dumpable_reads_back [of "[]" "JStr s" pf] dump_hd [of "JStr s" pf "[]"] by (simp add: spells_def reads_back_def)
next
  case (JBool b)
  then show ?case using dumpable_reads_back [of "[]" "JBool b" pf] dump_hd [of "JBool b" pf "[]"] by (simp add: spells_def reads_back_def)
next
  case JNull
  then show ?case using dumpable_reads_back [of "[]" "JNull" pf] dump_hd [of "JNull" pf "[]"] by (simp add: spells_def reads_back_def)
qed simp

lemma loads_indent:
  assumes "dumpable v" and "jdepth v \<le> json_depth pf"
  shows "loads pf (dump_indent pf 0 v) = Inr v"
proof -
  have s: "spells pf (dump_indent pf 0 v) v" using assms(1) by (rule dump_indent_spells)
  have "parse_value pf (Suc (2 * length (dump_indent pf 0 v))) (json_depth pf) (dump_indent pf 0 v @ []) = Inr (v, [])"
    using s assms(2) by (intro spellsD) simp_all
  moreover have "skip_ws (dump_indent pf 0 v) = dump_indent pf 0 v" using spells_skip [OF s, of "[]"] by simp
  ultimately show ?thesis by (simp add: loads_def skip_ws_def del: parse_value.simps)
qed

section \<open>A saved configuration is loaded again\<close>

lemma config_from_to_dict [simp]: "config_from_dict ce (config_to_dict c) = Inr c"
  by (simp add: config_from_dict_def config_to_dict_def)

lemma write_closed_result:
  assumes "write_closed env body \<lparr>h_path = p, h_buf = [], h_closed = False\<rparr> (fs(p \<mapsto> File [])) = (Inr (), fs')"
  shows "\<exists>bs. body = Inr bs \<and> fs' p = Some (File bs)"
  using assms
  by (auto simp: write_closed_def fh_write_def fh_close_def append_file_def Let_def split: sum.splits if_splits)

lemma save_config_result:
  assumes "save_config pf env m c fs = (Inr (), fs')"
  shows "\<exists>bs. config_text pf c = Inr bs \<and> fs' (cm_config_file m) = Some (File bs)"
proof -
  from assms obtain fs1 where "bind (open_wb env (cm_config_file m)) (write_closed env (config_text pf c)) fs1 = (Inr (), fs')"
    by (auto simp: save_config_def seq_apply split: prod.splits sum.splits)
  then show ?thesis
    using write_closed_result by (fastforce simp: bind_apply open_wb_def split: if_splits)
qed

text \<open>
  C31: the settings survive a restart: once \<^verbatim>\<open>save_config\<close> has succeeded, every later \<^verbatim>\<open>load_config\<close> that can read
  the file returns the same configuration, draws no new device id and leaves the file alone.
\<close>

theorem config_kept:
  assumes "save_config pf env m c fs = (Inr (), fs')"
    and "dumpable (config_to_dict c)" and "jdepth (config_to_dict c) \<le> json_depth pf"
    and "py_bool pf (cf_device_id c)" and "os_read_ok env'"
  shows "load_config pf ce ce1 ce2 env' m fs' = (Inr c, fs')"
proof -
  obtain bs where bs: "config_text pf c = Inr bs" "fs' (cm_config_file m) = Some (File bs)"
    using save_config_result [OF assms(1)] by blast
  then have "utf8_encode (dump_indent pf 0 (config_to_dict c)) = Inr bs"
    by (simp add: config_text_def split: if_splits)
  then have "read_config pf ce env' (cm_config_file m) fs' = Inr c"
    using assms(5) bs(2) utf8_decode_encode [of "dump_indent pf 0 (config_to_dict c)" bs] loads_indent [OF assms(2,3)]
    by (simp add: read_config_def read_file_def)
  then show ?thesis
    using assms(4) bs(2) by (simp add: load_config_def exists_path_def catch_apply bind_apply)
qed

definition sample_factories :: config_env where
  "sample_factories = \<lparr>ce_hostname = lit ''pc'', ce_uuid = lit ''id'', ce_download_dir = lit ''d''\<rparr>"

definition sample_config :: config where
  "sample_config = default_config sample_factories"

lemma sample_config_text: "\<exists>bs. config_text ascii_platform sample_config = Inr bs"
proof -
  let ?s = "dump_indent ascii_platform 0 (config_to_dict sample_config)"
  have "\<forall>c\<in>set ?s. c < 128"
    by (simp add: sample_config_def sample_factories_def default_config_def config_to_dict_def newline_def quote_def esc_string_def esc_char_def int_str_def)
      (auto simp: dec_digits.simps)
  then have "list_all scalar ?s" by (auto simp: list_all_iff scalar_def)
  moreover have "printable_ints (config_to_dict sample_config)"
    by (simp add: sample_config_def sample_factories_def default_config_def config_to_dict_def dec_digits.simps)
  ultimately show ?thesis by (simp add: config_text_def utf8_encode_def)
qed

theorem config_kept_witness:
  "\<exists>fs'. save_config ascii_platform calm \<lparr>cm_config_dir = [[99]], cm_data_dir = [[100]], cm_runtime_dir = [[114]]\<rparr> sample_config
      (\<lambda>_. None) = (Inr (), fs')
    \<and> load_config ascii_platform sample_factories sample_factories sample_factories calm \<lparr>cm_config_dir = [[99]], cm_data_dir = [[100]], cm_runtime_dir = [[114]]\<rparr> fs'
      = (Inr sample_config, fs')"
proof -
  let ?m = "\<lparr>cm_config_dir = [[99]], cm_data_dir = [[100]], cm_runtime_dir = [[114]]\<rparr>"
  obtain bs where "config_text ascii_platform sample_config = Inr bs" using sample_config_text by blast
  then have "\<exists>fs'. save_config ascii_platform calm ?m sample_config (\<lambda>_. None) = (Inr (), fs')"
    by (simp add: save_config_def seq_apply bind_apply mkdir_p_def open_wb_def cm_config_file_def is_dir_def calm_def
        write_closed_def fh_write_def fh_close_def del: lit_simps)
  then obtain fs' where s: "save_config ascii_platform calm ?m sample_config (\<lambda>_. None) = (Inr (), fs')" by blast
  moreover have "load_config ascii_platform sample_factories sample_factories sample_factories calm ?m fs' = (Inr sample_config, fs')"
    by (rule config_kept [OF s])
      (simp_all add: sample_config_def sample_factories_def default_config_def config_to_dict_def ascii_platform_def calm_def dec_digits.simps)
  ultimately show ?thesis by blast
qed

end
