(* ===== verification/Ipc.thy ===== *)
theory Ipc
  imports Framing Frame_Size Utf8 Effects "HOL-Library.Sublist"
begin

text \<open>
  The local socket between the daemon and its user interfaces: the frames (the same functions in
  \<^verbatim>\<open>core/ipc.py\<close> and \<^verbatim>\<open>ui/ipc_client.py\<close>) and the loops that read them.
\<close>

section \<open>Frames\<close>

definition IPC_MAGIC :: bytes where "IPC_MAGIC = blit ''FY''"
definition IPC_MAX_FRAME :: nat where "IPC_MAX_FRAME = 8388608"

type_synonym ipc_message = "pystr \<times> int \<times> json"

definition ipc_envelope :: "ipc_message \<Rightarrow> json" where
  "ipc_envelope m = (case m of (msg_type, ts, payload) \<Rightarrow>
     JObj [(lit ''type'', JStr msg_type), (lit ''ts'', JInt ts), (lit ''payload'', payload)])"

definition frame_json :: "platform \<Rightarrow> json \<Rightarrow> bytes res" where
  "frame_json pf envelope =
     res_bind (dumps pf [] envelope) (\<lambda>js.
     res_bind (utf8_encode js) (\<lambda>body.
     res_bind (struct_pack 4 (int (length body))) (\<lambda>len.
       Inr (IPC_MAGIC @ len @ body))))"

definition encode_ipc_frame :: "platform \<Rightarrow> ipc_message \<Rightarrow> bytes res" where
  "encode_ipc_frame pf m = frame_json pf (ipc_envelope m)"

text \<open>
  \<^verbatim>\<open>None\<close> (\<open>JNull\<close>, which \<^verbatim>\<open>json.loads\<close> also returns for \<^verbatim>\<open>null\<close>) ends the connection. Bytes that are not UTF-8 raise
  \<^verbatim>\<open>UnicodeDecodeError\<close>, which is not caught here but ends the connection as well.
\<close>

definition decode_ipc_body :: "platform \<Rightarrow> bytes \<Rightarrow> json res" where
  "decode_ipc_body pf body =
     res_bind (utf8_decode body) (\<lambda>js.
       case loads pf js of
         Inl e \<Rightarrow> if e = ValueError then Inr JNull else Inl e
       | Inr v \<Rightarrow> Inr v)"

definition read_ipc_frame :: "platform \<Rightarrow> bytes \<Rightarrow> (json \<times> bytes) res" where
  "read_ipc_frame pf stream =
     (case readexactly 6 stream of
        Inl e \<Rightarrow> Inr (JNull, [])
      | Inr (header, s1) \<Rightarrow>
          if take 2 header \<noteq> IPC_MAGIC then Inr (JNull, s1)
          else res_bind (struct_unpack 4 (drop 2 header)) (\<lambda>len.
            if IPC_MAX_FRAME < len then Inr (JNull, s1)
            else case readexactly len s1 of
                   Inl e \<Rightarrow> Inr (JNull, [])
                 | Inr (body, s2) \<Rightarrow> res_bind (decode_ipc_body pf body) (\<lambda>v. Inr (v, s2))))"

text \<open>The messages that a reading loop sees before it ends.\<close>

lemma readexactly_shorter: "readexactly n s = Inr (b, r) \<Longrightarrow> length r = length s - n \<and> n \<le> length s"
  by (auto simp: readexactly_def split: if_splits)

lemma read_ipc_frame_someE:
  assumes "read_ipc_frame pf s = Inr (v, r)" and "v \<noteq> JNull"
  obtains header s1 len body where "readexactly 6 s = Inr (header, s1)" "readexactly len s1 = Inr (body, r)"
proof (cases "readexactly 6 s")
  case (Inr hs)
  obtain header s1 where h: "hs = (header, s1)" by fastforce
  note run = assms(1) [unfolded read_ipc_frame_def Inr h sum.case prod.case]
  have magic: "take 2 header = IPC_MAGIC" using run assms(2) by (auto split: if_splits)
  then obtain len where len: "struct_unpack 4 (drop 2 header) = Inr len"
    using run by (cases "struct_unpack 4 (drop 2 header)") (auto simp: res_simps)
  then show thesis
    using run assms(2) magic that [OF Inr [unfolded h], of len]
    by (cases "readexactly len s1") (auto simp: res_simps split: if_splits sum.splits)
qed (use assms in \<open>simp add: read_ipc_frame_def\<close>)

lemma read_ipc_frame_shorter:
  assumes "read_ipc_frame pf s = Inr (v, r)" and "v \<noteq> JNull"
  shows "length r < length s"
  using assms by (rule read_ipc_frame_someE) (auto dest!: readexactly_shorter)

function ipc_messages :: "platform \<Rightarrow> bytes \<Rightarrow> json list" where
  "ipc_messages pf s =
     (case read_ipc_frame pf s of
        Inl e \<Rightarrow> []
      | Inr (v, r) \<Rightarrow> if v = JNull then [] else v # ipc_messages pf r)"
  by pat_completeness auto
termination
  by (relation "measure (\<lambda>(pf, s). length s)") (auto dest: read_ipc_frame_shorter)

declare ipc_messages.simps [simp del]

section \<open>Frames are restored\<close>

text \<open>The messages a reader accepts: within the size limit, which only the reader tests.\<close>

definition ipc_readable :: "platform \<Rightarrow> json \<Rightarrow> bool" where
  "ipc_readable pf v \<longleftrightarrow> v \<noteq> JNull \<and> dumpable v \<and> jdepth v \<le> json_depth pf
     \<and> (case utf8_encode (dump pf [] v) of Inl e \<Rightarrow> False | Inr body \<Rightarrow> length body \<le> IPC_MAX_FRAME)"

text \<open>The reader seen as a codec: only complete frames count.\<close>

definition recv_ipc :: "platform \<Rightarrow> bytes \<Rightarrow> (json \<times> bytes) res" where
  "recv_ipc pf s = res_bind (read_ipc_frame pf s) (\<lambda>(v, r). if v = JNull then Inl IncompleteReadError else Inr (v, r))"

lemma length_IPC_MAGIC [simp]: "length IPC_MAGIC = 2"
  by (simp add: IPC_MAGIC_def)

lemma ipc_frameE:
  assumes "ipc_readable pf v" and "frame_json pf v = Inr f"
  obtains body where "utf8_decode body = Inr (dump pf [] v)" "length body \<le> IPC_MAX_FRAME"
    "f = (IPC_MAGIC @ be_bytes 4 (length body)) @ body" "be_nat (be_bytes 4 (length body)) = length body"
proof -
  have d: "dumps pf [] v = Inr (dump pf [] v)" using assms(1) by (intro loads_dumps(1)) (simp_all add: ipc_readable_def)
  obtain body where b: "utf8_encode (dump pf [] v) = Inr body" "length body \<le> IPC_MAX_FRAME"
    using assms(1) by (auto simp: ipc_readable_def split: sum.splits)
  then have "f = (IPC_MAGIC @ be_bytes 4 (length body)) @ body" "be_nat (be_bytes 4 (length body)) = length body"
    using assms(2) d by (simp_all add: frame_json_def struct_pack_def IPC_MAX_FRAME_def be_nat_be_bytes)
  with that b utf8_decode_encode show thesis by blast
qed

lemma recv_ipc_frame:
  assumes "ipc_readable pf v" and "frame_json pf v = Inr f"
  shows "recv_ipc pf (f @ r) = Inr (v, r)"
proof -
  obtain body where body: "utf8_decode body = Inr (dump pf [] v)" "length body \<le> IPC_MAX_FRAME"
    and f: "f = (IPC_MAGIC @ be_bytes 4 (length body)) @ body" and n: "be_nat (be_bytes 4 (length body)) = length body"
    using assms by (rule ipc_frameE)
  have "readexactly 6 (f @ r) = Inr (IPC_MAGIC @ be_bytes 4 (length body), body @ r)"
    unfolding f append_assoc [symmetric] by (simp only: append_assoc [of _ body r]) (simp add: readexactly_def)
  moreover have "loads pf (dump pf [] v) = Inr v" using assms(1) by (intro loads_dumps(2)) (simp_all add: ipc_readable_def)
  ultimately show ?thesis
    using body n assms(1) by (simp add: recv_ipc_def read_ipc_frame_def decode_ipc_body_def struct_unpack_def ipc_readable_def not_le [symmetric])
qed

lemma recv_ipc_cut:
  assumes "ipc_readable pf v" and "frame_json pf v = Inr f" and "k < length f"
  shows "recv_ipc pf (take k f) = Inl IncompleteReadError"
proof -
  obtain body where le: "length body \<le> IPC_MAX_FRAME"
    and f: "f = (IPC_MAGIC @ be_bytes 4 (length body)) @ body" and n: "be_nat (be_bytes 4 (length body)) = length body"
    using assms(1,2) by (rule ipc_frameE)
  let ?h = "IPC_MAGIC @ be_bytes 4 (length body)"
  show ?thesis
  proof (cases "k < 6")
    case True
    then show ?thesis using assms(3) by (simp add: recv_ipc_def read_ipc_frame_def readexactly_def)
  next
    case False
    then have "take k f = ?h @ take (k - 6) body" unfolding f by simp
    moreover have "readexactly 6 (?h @ take (k - 6) body) = Inr (?h, take (k - 6) body)"
      by (rule readexactly_append) simp
    moreover have "readexactly (length body) (take (k - 6) body) = Inl IncompleteReadError"
      using assms(3) False by (intro readexactly_short) (simp add: f)
    ultimately show ?thesis
      using le n by (simp add: recv_ipc_def read_ipc_frame_def struct_unpack_def not_le [symmetric])
  qed
qed

interpretation ipc: stream_codec "frame_json pf" "recv_ipc pf" "ipc_readable pf" for pf
  by unfold_locales (simp_all add: recv_ipc_frame recv_ipc_cut)

lemma ipc_messages_recv:
  "ipc_messages pf s = (case recv_ipc pf s of Inl e \<Rightarrow> [] | Inr (v, r) \<Rightarrow> v # ipc_messages pf r)"
  by (subst ipc_messages.simps) (auto simp: recv_ipc_def res_simps split: sum.splits)

lemma ipc_messages_Nil [simp]: "ipc_messages pf [] = []"
  by (simp add: ipc_messages.simps read_ipc_frame_def readexactly_def)

lemma ipc_messages_written:
  assumes "list_all (ipc_readable pf) vs" and "write_all (frame_json pf) vs = Inr bs"
  shows "ipc_messages pf (bs @ r) = vs @ ipc_messages pf r"
  using assms
proof (induction vs arbitrary: bs)
  case (Cons v vs)
  then obtain f fs where f: "frame_json pf v = Inr f" and fs: "write_all (frame_json pf) vs = Inr fs" and bs: "bs = f @ fs"
    by (auto simp: res_simps)
  then show ?case
    using Cons ipc.dec_enc [of pf v f "fs @ r"] by (simp add: ipc_messages_recv [of pf "f @ fs @ r"])
qed simp

lemma ipc_messages_cut:
  assumes "list_all (ipc_readable pf) vs" and "write_all (frame_json pf) vs = Inr bs"
  shows "prefix (ipc_messages pf (take k bs)) vs"
  using assms
proof (induction vs arbitrary: bs k)
  case (Cons v vs)
  then obtain f fs where f: "frame_json pf v = Inr f" and fs: "write_all (frame_json pf) vs = Inr fs" and bs: "bs = f @ fs"
    by (auto simp: res_simps)
  show ?case
  proof (cases "k < length f")
    case True
    then show ?thesis using Cons.prems(1) ipc.dec_cut [of pf v f k] f by (simp add: bs ipc_messages_recv [of pf "take k f"])
  next
    case False
    then have "ipc_messages pf (take k bs) = v # ipc_messages pf (take (k - length f) fs)"
      using Cons.prems(1) ipc.dec_enc [of pf v f "take (k - length f) fs"] f
      by (simp add: bs ipc_messages_recv [of pf "f @ take (k - length f) fs"])
    then show ?thesis using Cons.IH [OF _ fs] Cons.prems(1) by simp
  qed
qed simp

text \<open>A message within the bound is written, and the reader accepts it.\<close>

lemma ipc_frame_fits:
  assumes "dumpable v" "v \<noteq> JNull" "jdepth v \<le> json_depth pf" "json_bound 0 v \<le> IPC_MAX_FRAME"
  shows "ipc_readable pf v" "\<exists>f. frame_json pf v = Inr f"
proof -
  let ?s = "dump pf [] v"
  have u: "utf8_encode ?s = Inr (utf8_bytes ?s)" "length (utf8_bytes ?s) = length ?s"
    using utf8_ascii dump_ascii [OF assms(1), of "[]"] by auto
  have n: "length ?s \<le> IPC_MAX_FRAME" using dump_length [OF assms(1), of pf "[]"] assms(4) by simp
  then show "ipc_readable pf v" using assms u by (simp add: ipc_readable_def)
  have "dumps pf [] v = Inr ?s" using assms by (intro loads_dumps(1)) simp_all
  then show "\<exists>f. frame_json pf v = Inr f"
    using u n by (simp add: frame_json_def struct_pack_def IPC_MAX_FRAME_def)
qed



end
