(* ===== verification/Ui_Commands.thy ===== *)
theory Ui_Commands
  imports Ipc
begin

text \<open>
  The commands of a user interface: the messages that \<^verbatim>\<open>FerryIPCClient\<close> sends for them (\<^verbatim>\<open>ui/ipc_client.py\<close>) and
  how \<^verbatim>\<open>FerryIPCServer._dispatch_command\<close> reads them (\<^verbatim>\<open>core/ipc.py\<close>).
\<close>

section \<open>Commands\<close>

datatype ui_command =
    Ui_Accept_Transfer pystr pystr
  | Ui_Reject_Transfer pystr pystr
  | Ui_Cancel_Transfer pystr pystr
  | Ui_Accept_Batch pystr pystr
  | Ui_Reject_Batch pystr pystr
  | Ui_Accept_Pairing pystr
  | Ui_Reject_Pairing pystr
  | Ui_Send_File pystr pystr
  | Ui_Send_Batch pystr "pystr list" pystr
  | Ui_Connect_Peer json
  | Ui_Get_History int
  | Ui_Get_Trusted_Devices
  | Ui_Discard_Resume pystr
  | Ui_Request_Resume pystr pystr
  | Ui_Clipboard_Send json
  | Ui_Remove_Trusted_Device pystr
  | Ui_Set_Clipboard_Sync json

section \<open>The client\<close>

abbreviation str_obj :: "(string \<times> pystr) list \<Rightarrow> json" where
  "str_obj kvs \<equiv> JObj (map (\<lambda>(k, v). (lit k, JStr v)) kvs)"

text \<open>The command methods; the client never gives a reason for a cancellation.\<close>

fun command_message :: "ui_command \<Rightarrow> pystr \<times> json" where
  "command_message (Ui_Accept_Transfer addr tid) =
     (lit ''IPC_ACCEPT_TRANSFER'', str_obj [(''remote_addr'', addr), (''transfer_id'', tid)])"
| "command_message (Ui_Reject_Transfer addr tid) =
     (lit ''IPC_REJECT_TRANSFER'', str_obj [(''remote_addr'', addr), (''transfer_id'', tid)])"
| "command_message (Ui_Cancel_Transfer tid reason) = (lit ''IPC_CANCEL_TRANSFER'', str_obj [(''transfer_id'', tid)])"
| "command_message (Ui_Accept_Batch addr bid) =
     (lit ''IPC_ACCEPT_BATCH'', str_obj [(''remote_addr'', addr), (''batch_id'', bid)])"
| "command_message (Ui_Reject_Batch addr bid) =
     (lit ''IPC_REJECT_BATCH'', str_obj [(''remote_addr'', addr), (''batch_id'', bid)])"
| "command_message (Ui_Accept_Pairing addr) = (lit ''IPC_ACCEPT_PAIRING'', str_obj [(''remote_addr'', addr)])"
| "command_message (Ui_Reject_Pairing addr) = (lit ''IPC_REJECT_PAIRING'', str_obj [(''remote_addr'', addr)])"
| "command_message (Ui_Send_File addr file_path) =
     (lit ''IPC_SEND_FILE'', str_obj [(''remote_addr'', addr), (''file_path'', file_path)])"
| "command_message (Ui_Send_Batch addr paths batch_name) =
     (lit ''IPC_SEND_BATCH'',
      JObj [(lit ''remote_addr'', JStr addr), (lit ''paths'', JArr (map JStr paths)), (lit ''batch_name'', JStr batch_name)])"
| "command_message (Ui_Connect_Peer device_id) = (lit ''IPC_CONNECT_PEER'', JObj [(lit ''device_id'', device_id)])"
| "command_message (Ui_Get_History limit) = (lit ''IPC_GET_HISTORY'', JObj [(lit ''limit'', JInt limit)])"
| "command_message Ui_Get_Trusted_Devices = (lit ''IPC_GET_TRUSTED_DEVICES'', JObj [])"
| "command_message (Ui_Discard_Resume tid) = (lit ''IPC_DISCARD_RESUME'', str_obj [(''transfer_id'', tid)])"
| "command_message (Ui_Request_Resume addr tid) =
     (lit ''IPC_REQUEST_RESUME'', str_obj [(''remote_addr'', addr), (''transfer_id'', tid)])"
| "command_message (Ui_Clipboard_Send t) = (lit ''IPC_CLIPBOARD_SEND'', JObj [(lit ''text'', t)])"
| "command_message (Ui_Remove_Trusted_Device key) =
     (lit ''IPC_REMOVE_TRUSTED_DEVICE'', str_obj [(''public_key_b64'', key)])"
| "command_message (Ui_Set_Clipboard_Sync enabled) = (lit ''IPC_SET_CLIPBOARD_SYNC'', JObj [(lit ''enabled'', enabled)])"

text \<open>
  The events the user interface reacts to (\<^verbatim>\<open>_dispatch\<close>); \<open>registered\<close> are the callbacks set by \<^verbatim>\<open>on\<close>. A message that is
  not an object, or whose type cannot be looked up, ends the reading loop with an exception.
\<close>

definition event_callbacks :: "(pystr, pystr) dict" where
  "event_callbacks =
     [(lit ''IPC_STATE_SNAPSHOT'', lit ''state_snapshot''), (lit ''IPC_DEVICE_UPDATE'', lit ''device_update''),
      (lit ''IPC_SESSION_UPDATE'', lit ''session_update''), (lit ''IPC_TRANSFER_REQUEST'', lit ''transfer_request''),
      (lit ''IPC_TRANSFER_PROGRESS'', lit ''transfer_progress''), (lit ''IPC_TRANSFER_COMPLETE'', lit ''transfer_complete''),
      (lit ''IPC_PAIRING_REQUEST'', lit ''pairing_request''), (lit ''IPC_CLIPBOARD_INCOMING'', lit ''clipboard_incoming''),
      (lit ''IPC_HISTORY_RESULT'', lit ''history_result''), (lit ''IPC_TRUSTED_DEVICES_RESULT'', lit ''trusted_devices'')]"

datatype ui_event = Connected | Disconnected | Callback pystr json | Sent pystr json

definition ui_dispatch :: "pystr set \<Rightarrow> json \<Rightarrow> ui_event list res" where
  "ui_dispatch registered msg =
     res_bind (obj_get msg (lit ''type'') (JStr [])) (\<lambda>msg_type.
     res_bind (obj_get msg (lit ''payload'') (JObj [])) (\<lambda>payload.
     case msg_type of
       JArr _ \<Rightarrow> Inl TypeError
     | JObj _ \<Rightarrow> Inl TypeError
     | JStr ty \<Rightarrow>
         (case dict_get event_callbacks ty of
            Some cb \<Rightarrow> Inr (if cb \<in> registered then [Callback cb payload] else [])
          | None \<Rightarrow>
              if ty = lit ''IPC_ERROR'' then res_bind (obj_get payload (lit ''message'') (JStr [])) (\<lambda>_. Inr []) else Inr [])
     | _ \<Rightarrow> Inr []))"

text \<open>\<^verbatim>\<open>_read_loop\<close> over the messages of a connection, up to the first exception.\<close>

fun read_loop :: "pystr set \<Rightarrow> json list \<Rightarrow> ui_event list" where
  "read_loop registered [] = []"
| "read_loop registered (m # ms) =
     (case ui_dispatch registered m of Inl e \<Rightarrow> [] | Inr evs \<Rightarrow> evs @ read_loop registered ms)"

text \<open>
  \<^verbatim>\<open>_connect_and_run\<close>: each attempt to connect is refused or, after the subscription was sent, yields the bytes the
  daemon sends on it; ten refusals in a row end the client.
\<close>

definition CONNECT_MAX_RETRIES :: nat where "CONNECT_MAX_RETRIES = 10"

definition fire :: "pystr set \<Rightarrow> string \<Rightarrow> ui_event \<Rightarrow> ui_event list" where
  "fire registered event e = (if lit event \<in> registered then [e] else [])"

fun connect_and_run :: "platform \<Rightarrow> pystr set \<Rightarrow> nat \<Rightarrow> bytes option list \<Rightarrow> ui_event list \<times> nat" where
  "connect_and_run pf registered retries [] = ([], 0)"
| "connect_and_run pf registered retries (None # attempts) =
     (if CONNECT_MAX_RETRIES \<le> Suc retries then (fire registered ''disconnected'' Disconnected, 1)
      else (case connect_and_run pf registered (Suc retries) attempts of (evs, n) \<Rightarrow> (evs, Suc n)))"
| "connect_and_run pf registered retries (Some stream # attempts) =
     (case connect_and_run pf registered 0 attempts of (evs, n) \<Rightarrow>
        (fire registered ''connected'' Connected @ Sent (lit ''IPC_SUBSCRIBE'') (JObj []) # read_loop registered (ipc_messages pf stream)
           @ fire registered ''disconnected'' Disconnected @ evs, Suc n))"

section \<open>The server\<close>

text \<open>
  The fields a command needs, in the order in which the code reads them: a missing one raises \<^verbatim>\<open>KeyError\<close>. The methods
  of the service take texts; a value of another type, which no user interface sends, is refused here,
  while Python would hand it on.
\<close>

definition as_text :: "json \<Rightarrow> pystr res" where
  "as_text j = (case j of JStr s \<Rightarrow> Inr s | _ \<Rightarrow> Inl TypeError)"

definition as_int :: "json \<Rightarrow> int res" where
  "as_int j = (case j of JInt n \<Rightarrow> Inr n | _ \<Rightarrow> Inl TypeError)"

fun as_texts :: "json list \<Rightarrow> pystr list res" where
  "as_texts [] = Inr []"
| "as_texts (v # vs) = res_bind (as_text v) (\<lambda>s. res_bind (as_texts vs) (\<lambda>ss. Inr (s # ss)))"

definition text_field :: "json \<Rightarrow> string \<Rightarrow> pystr res" where
  "text_field payload k = res_bind (obj_item payload (lit k)) as_text"

definition text_field_or :: "json \<Rightarrow> string \<Rightarrow> string \<Rightarrow> pystr res" where
  "text_field_or payload k dflt = res_bind (obj_get payload (lit k) (JStr (lit dflt))) as_text"

text \<open>\<open>Inr None\<close>: the command is unknown.\<close>

definition parse_command :: "pystr \<Rightarrow> json \<Rightarrow> ui_command option res" where
  "parse_command ty payload =
     (if ty = lit ''IPC_ACCEPT_TRANSFER'' then
        res_bind (text_field payload ''transfer_id'') (\<lambda>tid. res_bind (text_field_or payload ''remote_addr'' '''') (\<lambda>addr.
          Inr (Some (Ui_Accept_Transfer addr tid))))
      else if ty = lit ''IPC_REJECT_TRANSFER'' then
        res_bind (text_field payload ''transfer_id'') (\<lambda>tid. res_bind (text_field_or payload ''remote_addr'' '''') (\<lambda>addr.
          Inr (Some (Ui_Reject_Transfer addr tid))))
      else if ty = lit ''IPC_CANCEL_TRANSFER'' then
        res_bind (text_field payload ''transfer_id'') (\<lambda>tid. res_bind (text_field_or payload ''reason'' ''USER_CANCELLED'') (\<lambda>r.
          Inr (Some (Ui_Cancel_Transfer tid r))))
      else if ty = lit ''IPC_ACCEPT_BATCH'' then
        res_bind (text_field payload ''batch_id'') (\<lambda>bid. res_bind (text_field payload ''remote_addr'') (\<lambda>addr.
          Inr (Some (Ui_Accept_Batch addr bid))))
      else if ty = lit ''IPC_REJECT_BATCH'' then
        res_bind (text_field payload ''batch_id'') (\<lambda>bid. res_bind (text_field payload ''remote_addr'') (\<lambda>addr.
          Inr (Some (Ui_Reject_Batch addr bid))))
      else if ty = lit ''IPC_ACCEPT_PAIRING'' then
        res_bind (text_field payload ''remote_addr'') (\<lambda>addr. Inr (Some (Ui_Accept_Pairing addr)))
      else if ty = lit ''IPC_REJECT_PAIRING'' then
        res_bind (text_field payload ''remote_addr'') (\<lambda>addr. Inr (Some (Ui_Reject_Pairing addr)))
      else if ty = lit ''IPC_SEND_FILE'' then
        res_bind (text_field payload ''remote_addr'') (\<lambda>addr. res_bind (text_field payload ''file_path'') (\<lambda>file_path.
          Inr (Some (Ui_Send_File addr file_path))))
      else if ty = lit ''IPC_SEND_BATCH'' then
        res_bind (text_field payload ''remote_addr'') (\<lambda>addr.
        res_bind (obj_item payload (lit ''paths'')) (\<lambda>paths.
        res_bind (case paths of JArr vs \<Rightarrow> as_texts vs | JStr s \<Rightarrow> Inr (map (\<lambda>c. [c]) s) | JObj d \<Rightarrow> Inr (map fst d)
                  | _ \<Rightarrow> Inl TypeError) (\<lambda>ps.
        res_bind (text_field_or payload ''batch_name'' ''Batch'') (\<lambda>batch_name.
          Inr (Some (Ui_Send_Batch addr ps batch_name))))))
      else if ty = lit ''IPC_CONNECT_PEER'' then
        res_bind (obj_get payload (lit ''device_id'') (JStr [])) (\<lambda>device_id. Inr (Some (Ui_Connect_Peer device_id)))
      else if ty = lit ''IPC_GET_HISTORY'' then
        res_bind (obj_get payload (lit ''limit'') (JInt 50)) (\<lambda>limit. res_bind (as_int limit) (\<lambda>n.
          Inr (Some (Ui_Get_History n))))
      else if ty = lit ''IPC_GET_TRUSTED_DEVICES'' then Inr (Some Ui_Get_Trusted_Devices)
      else if ty = lit ''IPC_DISCARD_RESUME'' then
        res_bind (text_field payload ''transfer_id'') (\<lambda>tid. Inr (Some (Ui_Discard_Resume tid)))
      else if ty = lit ''IPC_REQUEST_RESUME'' then
        res_bind (text_field payload ''remote_addr'') (\<lambda>addr. res_bind (text_field payload ''transfer_id'') (\<lambda>tid.
          Inr (Some (Ui_Request_Resume addr tid))))
      else if ty = lit ''IPC_CLIPBOARD_SEND'' then
        res_bind (obj_get payload (lit ''text'') (JStr [])) (\<lambda>t. Inr (Some (Ui_Clipboard_Send t)))
      else if ty = lit ''IPC_REMOVE_TRUSTED_DEVICE'' then
        res_bind (text_field payload ''public_key_b64'') (\<lambda>key. Inr (Some (Ui_Remove_Trusted_Device key)))
      else if ty = lit ''IPC_SET_CLIPBOARD_SYNC'' then
        res_bind (obj_item payload (lit ''enabled'')) (\<lambda>enabled. Inr (Some (Ui_Set_Clipboard_Sync enabled)))
      else Inr None)"

section \<open>The client gives up\<close>

lemma connect_gives_up:
  "retries + n = CONNECT_MAX_RETRIES \<Longrightarrow> 0 < n
    \<Longrightarrow> connect_and_run pf registered retries (replicate n None @ attempts) = (fire registered ''disconnected'' Disconnected, n)"
  by (induction n arbitrary: retries) (auto simp: CONNECT_MAX_RETRIES_def)

section \<open>Commands are understood\<close>

text \<open>The commands the client can send: those without a reason of their own.\<close>

definition client_command :: "ui_command \<Rightarrow> bool" where
  "client_command c = (case c of Ui_Cancel_Transfer tid r \<Rightarrow> r = lit ''USER_CANCELLED'' | _ \<Rightarrow> True)"

lemma as_texts_map [simp]: "as_texts (map JStr ss) = Inr ss"
  by (induction ss) (simp_all add: as_text_def)

lemma parse_command_message:
  "client_command c \<Longrightarrow> parse_command (fst (command_message c)) (snd (command_message c)) = Inr (Some c)"
  by (cases c) (simp_all add: parse_command_def text_field_def text_field_or_def as_text_def as_int_def client_command_def)

end
