(* ===== verification/Daemon.thy ===== *)
theory Daemon
  imports Service_Loop Discovery Config Ui_Commands
begin

text \<open>
  The daemon as a whole: the service with its discovery manager, its settings and the server of the local
  socket (\<^verbatim>\<open>FerryIPCServer\<close> of \<^verbatim>\<open>core/ipc.py\<close>), the start and stop of the service and its outgoing
  connections (\<^verbatim>\<open>core/service.py\<close>).
\<close>

section \<open>State\<close>

text \<open>
  A client object is a reference. \<open>dm_clients\<close> are the subscribed ones (\<^verbatim>\<open>_clients\<close>), \<open>dm_closed\<close> is the flag of the
  object, \<open>dm_ended\<close> whether the loop that reads from it has ended, and \<open>dm_written\<close> the frames written to its
  socket.
\<close>

record daemon =
  dm_running :: bool
  dm_service :: service
  dm_discovery :: discovery
  dm_config :: config
  dm_clients :: "nat list"
  dm_closed :: "nat \<Rightarrow> bool"
  dm_ended :: "nat \<Rightarrow> bool"
  dm_written :: "nat \<Rightarrow> bytes list"

text \<open>
  The environment of a step: that of the service, whether the socket of a client accepts a frame, what a path text
  denotes and which files a list of paths holds, and what comes of connecting to a device: nothing, or the
  inputs of the handshake.
\<close>

record dial =
  dl_signatures :: signatures
  dl_local :: local_side
  dl_hello :: "envelope res"
  dl_auth :: "envelope res"

record daemon_env =
  de_service :: service_env
  de_client_ok :: "nat \<Rightarrow> bool"
  de_path :: "pystr \<Rightarrow> path"
  de_walk :: "path list \<Rightarrow> (path \<times> pystr) list \<times> int"
  de_dial :: "discovered \<Rightarrow> dial option"

definition on_service :: "'a svc \<Rightarrow> (daemon, 'a) eff" where
  "on_service m = (\<lambda>d. case m (dm_service d) of (r, s) \<Rightarrow> (r, d\<lparr>dm_service := s\<rparr>))"

section \<open>Clients\<close>

text \<open>\<^verbatim>\<open>_IPCClient.send\<close>: an exception closes the client, silently.\<close>

definition close_client :: "nat \<Rightarrow> (daemon, unit) eff" where
  "close_client c = upd (\<lambda>d. d\<lparr>dm_closed := (dm_closed d)(c := True)\<rparr>)"

definition client_send :: "daemon_env \<Rightarrow> nat \<Rightarrow> pystr \<Rightarrow> json \<Rightarrow> (daemon, unit) eff" where
  "client_send env c msg_type payload = reads (\<lambda>d.
     if dm_closed d c then ret ()
     else case encode_ipc_frame (se_platform (de_service env)) (msg_type, se_now (de_service env), payload) of
            Inl _ \<Rightarrow> close_client c
          | Inr frame \<Rightarrow>
              if de_client_ok env c then upd (\<lambda>d. d\<lparr>dm_written := (dm_written d)(c := dm_written d c @ [frame])\<rparr>)
              else close_client c)"

fun send_each :: "daemon_env \<Rightarrow> pystr \<Rightarrow> json \<Rightarrow> nat list \<Rightarrow> nat list \<Rightarrow> (daemon, nat list) eff" where
  "send_each env msg_type payload [] dead = ret dead"
| "send_each env msg_type payload (c # cs) dead =
     seq (client_send env c msg_type payload)
         (reads (\<lambda>d. send_each env msg_type payload cs (if dm_closed d c then dead @ [c] else dead)))"

definition broadcast :: "daemon_env \<Rightarrow> pystr \<Rightarrow> json \<Rightarrow> (daemon, unit) eff" where
  "broadcast env msg_type payload = reads (\<lambda>d.
     bind (send_each env msg_type payload (dm_clients d) []) (\<lambda>dead.
       upd (\<lambda>d. d\<lparr>dm_clients := fold remove1 dead (dm_clients d)\<rparr>)))"

section \<open>Events for the clients\<close>

fun session_state_name :: "session_state \<Rightarrow> pystr" where
  "session_state_name S_DISCONNECTED = lit ''DISCONNECTED''"
| "session_state_name S_CONNECTING = lit ''CONNECTING''"
| "session_state_name S_HANDSHAKING = lit ''HANDSHAKING''"
| "session_state_name S_PAIRING = lit ''PAIRING''"
| "session_state_name S_WAITING_FOR_LOCAL_DECISION = lit ''WAITING_FOR_LOCAL_DECISION''"
| "session_state_name S_WAITING_FOR_REMOTE_DECISION = lit ''WAITING_FOR_REMOTE_DECISION''"
| "session_state_name S_PAIR_ACCEPTED = lit ''PAIR_ACCEPTED''"
| "session_state_name S_AUTHENTICATING = lit ''AUTHENTICATING''"
| "session_state_name S_ESTABLISHED = lit ''ESTABLISHED''"
| "session_state_name S_CLOSING = lit ''CLOSING''"
| "session_state_name S_FAILED = lit ''FAILED''"

fun transfer_state_name :: "transfer_state \<Rightarrow> pystr" where
  "transfer_state_name IDLE = lit ''IDLE''"
| "transfer_state_name REQUESTED = lit ''REQUESTED''"
| "transfer_state_name ACCEPTED = lit ''ACCEPTED''"
| "transfer_state_name TRANSFERRING = lit ''TRANSFERRING''"
| "transfer_state_name CANCELLING = lit ''CANCELLING''"
| "transfer_state_name COMPLETED = lit ''COMPLETED''"
| "transfer_state_name FAILED = lit ''FAILED''"
| "transfer_state_name CANCELLED = lit ''CANCELLED''"
| "transfer_state_name transfer_state.INTERRUPTED = lit ''INTERRUPTED''"
| "transfer_state_name RESUME_REQUESTED = lit ''RESUME_REQUESTED''"
| "transfer_state_name RESUMING = lit ''RESUMING''"

abbreviation opt_str :: "pystr option \<Rightarrow> json" where
  "opt_str x \<equiv> (case x of None \<Rightarrow> JNull | Some s \<Rightarrow> JStr s)"

definition on_devices_changed :: "daemon_env \<Rightarrow> discovered list \<Rightarrow> (daemon, unit) eff" where
  "on_devices_changed env devices =
     broadcast env (lit ''IPC_DEVICE_UPDATE'') (JObj [(lit ''devices'', JArr (map discovered_to_dict devices))])"

definition session_update :: "service \<Rightarrow> pystr \<Rightarrow> session_state \<Rightarrow> json" where
  "session_update s remote_addr st = JObj
     ([(lit ''remote_addr'', JStr remote_addr), (lit ''state'', JStr (session_state_name st))]
      @ (case dict_get (sv_active_sessions s) remote_addr of
           None \<Rightarrow> []
         | Some p \<Rightarrow>
             [(lit ''remote_device_id'', ps_remote_device_id (sv_peers s p)),
              (lit ''remote_device_name'', ps_remote_device_name (sv_peers s p)),
              (lit ''remote_static_pub_b64'', opt_str (ps_remote_static_pub_b64 (sv_peers s p)))]))"

definition on_session_changed :: "daemon_env \<Rightarrow> pystr \<Rightarrow> session_state \<Rightarrow> (daemon, unit) eff" where
  "on_session_changed env remote_addr st = reads (\<lambda>d.
     broadcast env (lit ''IPC_SESSION_UPDATE'') (session_update (dm_service d) remote_addr st))"

definition ipc_on_transfer_request :: "daemon_env \<Rightarrow> pystr \<Rightarrow> pystr \<Rightarrow> pystr \<Rightarrow> int \<Rightarrow> (daemon, unit) eff" where
  "ipc_on_transfer_request env remote_addr transfer_id file_name file_size =
     broadcast env (lit ''IPC_TRANSFER_REQUEST'') (JObj
       [(lit ''remote_addr'', JStr remote_addr), (lit ''transfer_id'', JStr transfer_id),
        (lit ''file_name'', JStr file_name), (lit ''file_size'', JInt file_size)])"

definition ipc_on_transfer_progress :: "daemon_env \<Rightarrow> pystr \<Rightarrow> int \<Rightarrow> int \<Rightarrow> (daemon, unit) eff" where
  "ipc_on_transfer_progress env transfer_id bytes_done total_bytes =
     broadcast env (lit ''IPC_TRANSFER_PROGRESS'') (JObj
       [(lit ''transfer_id'', JStr transfer_id), (lit ''bytes_done'', JInt bytes_done), (lit ''total_bytes'', JInt total_bytes)])"

definition ipc_on_transfer_complete :: "daemon_env \<Rightarrow> pystr \<Rightarrow> bool \<Rightarrow> pystr \<Rightarrow> pystr \<Rightarrow> (daemon, unit) eff" where
  "ipc_on_transfer_complete env transfer_id success file_name direction =
     broadcast env (lit ''IPC_TRANSFER_COMPLETE'') (JObj
       [(lit ''transfer_id'', JStr transfer_id), (lit ''success'', JBool success),
        (lit ''file_name'', JStr file_name), (lit ''direction'', JStr direction)])"

definition ipc_on_pairing_request :: "daemon_env \<Rightarrow> pystr \<Rightarrow> json \<Rightarrow> pystr \<Rightarrow> (daemon, unit) eff" where
  "ipc_on_pairing_request env remote_addr device_name sas =
     broadcast env (lit ''IPC_PAIRING_REQUEST'') (JObj
       [(lit ''remote_addr'', JStr remote_addr), (lit ''device_name'', device_name), (lit ''sas_code'', JStr sas)])"

definition ipc_on_clipboard_incoming :: "daemon_env \<Rightarrow> pystr \<Rightarrow> (daemon, unit) eff" where
  "ipc_on_clipboard_incoming env t = broadcast env (lit ''IPC_CLIPBOARD_INCOMING'') (JObj [(lit ''text'', JStr t)])"

section \<open>The snapshot\<close>

fun collect :: "('a \<Rightarrow> json res) \<Rightarrow> 'a list \<Rightarrow> json list res" where
  "collect f [] = Inr []"
| "collect f (x # xs) = res_bind (f x) (\<lambda>v. res_bind (collect f xs) (\<lambda>vs. Inr (v # vs)))"

text \<open>\<^verbatim>\<open>try: ... except Exception: x = []\<close>.\<close>

definition or_empty :: "json list res \<Rightarrow> json" where
  "or_empty r = (case r of Inl _ \<Rightarrow> JArr [] | Inr vs \<Rightarrow> JArr vs)"

text \<open>\<^verbatim>\<open>DatabaseManager\<close> has no method \<^verbatim>\<open>is_trusted\<close>.\<close>

definition snapshot_device :: "discovered \<Rightarrow> json res" where
  "snapshot_device d =
     (if dd_device_id d \<noteq> [] then Inl AttributeError
      else Inr (JObj
        [(lit ''device_id'', JStr (dd_device_id d)), (lit ''device_name'', JStr (dd_device_name d)),
         (lit ''device_type'', JStr (dd_device_type d)), (lit ''addresses'', JArr (map JStr (dd_addresses d))),
         (lit ''port'', case dd_port d of None \<Rightarrow> JNull | Some n \<Rightarrow> JInt n), (lit ''is_trusted'', JBool False)]))"

definition snapshot_session :: "service \<Rightarrow> pystr \<times> nat \<Rightarrow> json" where
  "snapshot_session s = (\<lambda>(addr, p). JObj
     [(lit ''remote_addr'', JStr addr), (lit ''remote_device_id'', ps_remote_device_id (sv_peers s p)),
      (lit ''remote_device_name'', ps_remote_device_name (sv_peers s p)),
      (lit ''state'', JStr (session_state_name (fs_state (ps_session (sv_peers s p)))))])"

definition snapshot_incoming :: "pystr \<times> incoming \<Rightarrow> json" where
  "snapshot_incoming = (\<lambda>(tid, t). JObj
     [(lit ''transfer_id'', JStr tid), (lit ''direction'', JStr INCOMING), (lit ''file_name'', JStr (md_file_name (in_meta t))),
      (lit ''file_size'', JInt (md_file_size (in_meta t))), (lit ''bytes_done'', JInt (in_bytes_received t)),
      (lit ''state'', JStr (transfer_state_name (in_state t)))])"

text \<open>\<^verbatim>\<open>OutgoingTransfer\<close> has no attribute \<^verbatim>\<open>meta\<close>.\<close>

definition snapshot_outgoing :: "pystr \<times> nat \<times> nat \<Rightarrow> json res" where
  "snapshot_outgoing x = Inl AttributeError"

definition active_transfers :: "service \<Rightarrow> json list res" where
  "active_transfers s =
     res_bind (collect snapshot_outgoing (sv_outgoing s)) (\<lambda>outs. Inr (map snapshot_incoming (sv_incoming s) @ outs))"

definition state_snapshot :: "daemon_env \<Rightarrow> daemon \<Rightarrow> json" where
  "state_snapshot env d =
     (let s = dm_service d; cfg = dm_config d
      in JObj
        [(lit ''devices'', or_empty (collect snapshot_device (get_devices (dm_discovery d)))),
         (lit ''sessions'', JArr (map (snapshot_session s) (sv_active_sessions s))),
         (lit ''active_transfers'', or_empty (active_transfers s)),
         (lit ''config'', JObj
            [(lit ''device_name'', cf_device_name cfg), (lit ''device_id'', cf_device_id cfg),
             (lit ''listen_port'', cf_listen_port cfg),
             (lit ''download_dir'', JStr (py_str (se_platform (de_service env)) (cf_download_dir cfg)))]),
         (lit ''identity_key_prefix'', JStr (take 12 (se_own_key (de_service env))))])"

definition send_state_snapshot :: "daemon_env \<Rightarrow> nat \<Rightarrow> (daemon, unit) eff" where
  "send_state_snapshot env c = reads (\<lambda>d. client_send env c (lit ''IPC_STATE_SNAPSHOT'') (state_snapshot env d))"

end
