(* ===== verification/Daemon_Steps.thy ===== *)
theory Daemon_Steps
  imports Daemon
begin

text \<open>
  What the daemon does: the commands of its user interfaces (\<^verbatim>\<open>_dispatch_command\<close> and \<^verbatim>\<open>_handle_client\<close> of
  \<^verbatim>\<open>core/ipc.py\<close>), outgoing connections, its start and its stop (\<^verbatim>\<open>core/service.py\<close>), as steps.
\<close>

section \<open>Outgoing connections\<close>

definition connect_to_peer :: "daemon_env \<Rightarrow> discovered \<Rightarrow> unit svc" where
  "connect_to_peer env device =
     (case dd_addresses device of
        [] \<Rightarrow> ret ()
      | host # _ \<Rightarrow>
          (case de_dial env device of
             None \<Rightarrow> ret ()
           | Some dl \<Rightarrow>
               connect_peer (de_service env) (dl_signatures dl) (dl_local dl) True
                 (host @ lit '':'' @ (case dd_port device of Some n \<Rightarrow> int_str n | None \<Rightarrow> lit ''None''))
                 (dl_hello dl) (dl_auth dl)))"

section \<open>Commands\<close>

definition record_obj :: "transfer_record \<Rightarrow> json" where
  "record_obj r = JObj
     [(lit ''transfer_id'', JStr (tc_transfer_id r)), (lit ''device_id'', JStr (tc_device_id r)),
      (lit ''file_name'', JStr (tc_file_name r)), (lit ''file_size'', JInt (tc_file_size r)),
      (lit ''direction'', JStr (tc_direction r)), (lit ''status'', JStr (tc_status r)),
      (lit ''started_at'', JInt (tc_started_at r)),
      (lit ''completed_at'', case tc_completed_at r of None \<Rightarrow> JNull | Some n \<Rightarrow> JInt n),
      (lit ''sha256'', JStr (tc_sha256 r))]"

definition devices_obj :: "db \<Rightarrow> json" where
  "devices_obj db = JObj [(lit ''devices'', JArr (map (\<lambda>t. JObj
     [(lit ''device_id'', JStr (td_device_id t)), (lit ''device_name'', JStr (td_device_name t)),
      (lit ''identity_public_key_b64'', JStr (td_identity_public_key_b64 t)), (lit ''last_seen'', JInt (td_last_seen t))])
     (list_devices db)))]"

definition send_error :: "daemon_env \<Rightarrow> nat \<Rightarrow> pystr \<Rightarrow> (daemon, unit) eff" where
  "send_error env c message = client_send env c (lit ''IPC_ERROR'') (JObj [(lit ''message'', JStr message)])"

definition get_history :: "daemon_env \<Rightarrow> nat \<Rightarrow> int \<Rightarrow> (daemon, unit) eff" where
  "get_history env c limit = reads (\<lambda>d.
     case bind_values [SqlInt limit] of
       Inl e \<Rightarrow> send_error env c (se_exc_text (de_service env) e)
     | Inr _ \<Rightarrow> client_send env c (lit ''IPC_HISTORY_RESULT'')
                  (JObj [(lit ''records'', JArr (map record_obj (list_transfers limit (sv_db (dm_service d)))))]))"

text \<open>
  The methods of the service that are awaited may raise; the tasks that \<^verbatim>\<open>ensure_future\<close> starts run next, and nobody
  looks at their exceptions. The service has no attribute \<^verbatim>\<open>clipboard_sync\<close>, so that setting has no effect.
\<close>

fun run_command :: "daemon_env \<Rightarrow> nat \<Rightarrow> ui_command \<Rightarrow> (daemon, unit) eff" where
  "run_command env c (Ui_Accept_Transfer addr tid) = on_service (accept_transfer (de_service env) addr tid)"
| "run_command env c (Ui_Reject_Transfer addr tid) = on_service (reject_transfer (de_service env) addr tid)"
| "run_command env c (Ui_Cancel_Transfer tid r) = bind (on_service (cancel_transfer (de_service env) tid r)) (\<lambda>_. ret ())"
| "run_command env c (Ui_Accept_Batch addr bid) = on_service (accept_batch (de_service env) addr bid)"
| "run_command env c (Ui_Reject_Batch addr bid) = on_service (reject_batch (de_service env) addr bid)"
| "run_command env c (Ui_Accept_Pairing addr) = on_service (accept_pairing (de_service env) addr)"
| "run_command env c (Ui_Reject_Pairing addr) = on_service (reject_pairing (de_service env) addr)"
| "run_command env c (Ui_Send_File addr file_path) = on_service (send_file (de_service env) addr (de_path env file_path))"
| "run_command env c (Ui_Send_Batch addr paths batch_name) =
     (case de_walk env (map (de_path env) paths) of (files, total_bytes) \<Rightarrow>
        on_service (send_batch (de_service env) addr files total_bytes batch_name))"
| "run_command env c (Ui_Connect_Peer device_id) = reads (\<lambda>d.
     case find (\<lambda>dev. JStr (dd_device_id dev) = device_id) (get_devices (dm_discovery d)) of
       Some device \<Rightarrow> on_service (connect_to_peer env device)
     | None \<Rightarrow> send_error env c (lit ''Device '' @ py_str (se_platform (de_service env)) device_id @ lit '' not found''))"
| "run_command env c (Ui_Get_History limit) = get_history env c limit"
| "run_command env c Ui_Get_Trusted_Devices = reads (\<lambda>d.
     client_send env c (lit ''IPC_TRUSTED_DEVICES_RESULT'') (devices_obj (sv_db (dm_service d))))"
| "run_command env c (Ui_Discard_Resume tid) = on_service (discard_interrupted_transfer (de_service env) tid)"
| "run_command env c (Ui_Request_Resume addr tid) = on_service (request_resume (de_service env) addr tid)"
| "run_command env c (Ui_Clipboard_Send t) = on_service (send_clipboard (de_service env) t)"
| "run_command env c (Ui_Remove_Trusted_Device key) =
     seq (on_service (remove_trusted key))
         (reads (\<lambda>d. broadcast env (lit ''IPC_TRUSTED_DEVICES_RESULT'') (devices_obj (sv_db (dm_service d)))))"
| "run_command env c (Ui_Set_Clipboard_Sync enabled) = ret ()"

definition dispatch_command :: "daemon_env \<Rightarrow> nat \<Rightarrow> json \<Rightarrow> json \<Rightarrow> (daemon, unit) eff" where
  "dispatch_command env c msg_type payload = catch
     (bind (lift (case msg_type of JStr ty \<Rightarrow> parse_command ty payload | _ \<Rightarrow> Inr None)) (\<lambda>cmd. case cmd of
        Some command \<Rightarrow> run_command env c command
      | None \<Rightarrow> send_error env c (lit ''Unknown command: '' @ py_str (se_platform (de_service env)) msg_type)))
     (\<lambda>e. send_error env c (if e = KeyError then lit ''Missing field: '' @ se_exc_text (de_service env) e
                            else se_exc_text (de_service env) e))"

text \<open>One message of a client; an exception ends the connection.\<close>

definition handle_message :: "daemon_env \<Rightarrow> nat \<Rightarrow> json \<Rightarrow> (daemon, unit) eff" where
  "handle_message env c msg =
     bind (lift (obj_get msg (lit ''type'') (JStr []))) (\<lambda>msg_type.
     bind (lift (obj_get msg (lit ''payload'') (JObj []))) (\<lambda>payload.
       if msg_type = JStr (lit ''IPC_SUBSCRIBE'')
       then seq (upd (\<lambda>d. d\<lparr>dm_clients := dm_clients d @ [c]\<rparr>)) (send_state_snapshot env c)
       else reads (\<lambda>d.
         if c \<notin> set (dm_clients d) then send_error env c (lit ''Must send IPC_SUBSCRIBE first'')
         else dispatch_command env c msg_type payload)))"

definition client_gone :: "nat \<Rightarrow> (daemon, unit) eff" where
  "client_gone c = seq (close_client c) (upd (\<lambda>d. d\<lparr>dm_clients := remove1 c (dm_clients d), dm_ended := (dm_ended d)(c := True)\<rparr>))"

definition serve_message :: "daemon_env \<Rightarrow> nat \<Rightarrow> json \<Rightarrow> (daemon, unit) eff" where
  "serve_message env c msg = catch (handle_message env c msg) (\<lambda>_. client_gone c)"

section \<open>Start and stop\<close>

definition own_of_config :: "config \<Rightarrow> own_config res" where
  "own_of_config cfg =
     res_bind (as_text (cf_device_id cfg)) (\<lambda>i. res_bind (as_text (cf_device_name cfg)) (\<lambda>n.
     res_bind (as_int (cf_listen_port cfg)) (\<lambda>p. Inr \<lparr>oc_device_id = i, oc_device_name = n, oc_listen_port = p\<rparr>)))"

definition on_discovery :: "(discovery, 'a) eff \<Rightarrow> (daemon, 'a) eff" where
  "on_discovery m = (\<lambda>d. case m (dm_discovery d) of (r, y) \<Rightarrow> (r, d\<lparr>dm_discovery := y\<rparr>))"

text \<open>The listener that the daemon registers with its discovery manager.\<close>

definition IPC_LISTENER :: nat where "IPC_LISTENER = 0"

text \<open>
  \<^verbatim>\<open>start\<close>: the names of the stale files, the addresses to announce, and whether the registration, the TCP server and
  the local socket succeed. What the discovery reports to the listener is sent in a task of its own, a step below.
\<close>

definition start_service :: "daemon_env \<Rightarrow> pystr list \<Rightarrow> pystr list \<Rightarrow> bool \<Rightarrow> bool \<Rightarrow> bool \<Rightarrow> (daemon, unit) eff" where
  "start_service env stale local_addrs register_ok tcp_ok ipc_ok = reads (\<lambda>d.
     if dm_running d then ret ()
     else seq (upd (\<lambda>d. d\<lparr>dm_running := True\<rparr>))
         (seq (on_service (prepare_start (de_service env) stale))
         (bind (lift (own_of_config (dm_config d))) (\<lambda>oc.
          seq (on_discovery (start_discovery oc local_addrs register_ok))
         (seq (on_discovery (upd (add_listener IPC_LISTENER)))
              (if tcp_ok \<and> ipc_ok then ret () else raise OSError))))))"

definition stop_service :: "daemon_env \<Rightarrow> (daemon, unit) eff" where
  "stop_service env = reads (\<lambda>d.
     if \<not> dm_running d then ret ()
     else seq (upd (\<lambda>d. d\<lparr>dm_running := False\<rparr>))
         (seq (on_discovery (upd stop_discovery))
         (seq (upd (\<lambda>d. d\<lparr>dm_closed := (\<lambda>c. c \<in> set (dm_clients d) \<or> dm_closed d c), dm_clients := []\<rparr>))
              (on_service (cancel_tasks (de_service env))))))"

section \<open>Steps\<close>

text \<open>
  Anything that may happen to the daemon: a step of the service (frames, connections, timers, coroutines), a message of a
  client or its end, a report of the discovery, a notification to the clients, start and stop. A
  notification of a listener is a step of its own, at any time.
\<close>

datatype notification =
    Note_Session pystr session_state
  | Note_Request pystr pystr pystr int
  | Note_Progress pystr int int
  | Note_Complete pystr bool pystr pystr
  | Note_Pairing pystr json pystr
  | Note_Devices "discovered list"

fun push :: "daemon_env \<Rightarrow> notification \<Rightarrow> (daemon, unit) eff" where
  "push env (Note_Session a st) = on_session_changed env a st"
| "push env (Note_Request a tid f n) = ipc_on_transfer_request env a tid f n"
| "push env (Note_Progress tid n t) = ipc_on_transfer_progress env tid n t"
| "push env (Note_Complete tid b f dir) = ipc_on_transfer_complete env tid b f dir"
| "push env (Note_Pairing a n sas) = ipc_on_pairing_request env a n sas"
| "push env (Note_Devices devs) = on_devices_changed env devs"

datatype daemon_op =
    Service_Does service_op
  | Client_Says nat json
  | Client_Leaves nat
  | Discovery_Does "discovery \<Rightarrow> discovery"
  | Push notification
  | Start_Service "pystr list" "pystr list" bool bool bool
  | Stop_Service

text \<open>The service by itself never accepts a pairing or does anything else that only a user asks for.\<close>

fun by_itself :: "service_op \<Rightarrow> bool" where
  "by_itself (Connect sg ls ini addr hello auth) = True"
| "by_itself (Frame p f) = True"
| "by_itself (Lost p) = True"
| "by_itself (Timeout_Due t) = True"
| "by_itself Check_Stalls = True"
| "by_itself (Continue c) = True"
| "by_itself (Give_Up c) = True"
| "by_itself _ = False"

fun daemon_step :: "daemon_env \<Rightarrow> daemon_op \<Rightarrow> daemon \<Rightarrow> daemon" where
  "daemon_step env (Service_Does op) d = (if by_itself op then d\<lparr>dm_service := service_step (de_service env) op (dm_service d)\<rparr> else d)"
| "daemon_step env (Client_Says c msg) d = (if dm_ended d c then d else snd (serve_message env c msg d))"
| "daemon_step env (Client_Leaves c) d = (if dm_ended d c then d else snd (client_gone c d))"
| "daemon_step env (Discovery_Does f) d = d\<lparr>dm_discovery := f (dm_discovery d)\<rparr>"
| "daemon_step env (Push n) d = snd (push env n d)"
| "daemon_step env (Start_Service stale addrs r t i) d = snd (start_service env stale addrs r t i d)"
| "daemon_step env Stop_Service d = snd (stop_service env d)"

fun daemon_run :: "(daemon_env \<times> daemon_op) list \<Rightarrow> daemon \<Rightarrow> daemon" where
  "daemon_run [] d = d"
| "daemon_run ((env, op) # ops) d = daemon_run ops (daemon_step env op d)"

definition new_daemon :: "config \<Rightarrow> service \<Rightarrow> daemon" where
  "new_daemon cfg s =
     \<lparr>dm_running = False, dm_service = s, dm_discovery = new_discovery, dm_config = cfg, dm_clients = [],
      dm_closed = (\<lambda>_. False), dm_ended = (\<lambda>_. False), dm_written = (\<lambda>_. [])\<rparr>"

end
