(* ===== verification/Daemon_Refine.thy ===== *)
theory Daemon_Refine
  imports Daemon_Steps Service_Trust
begin

text \<open>
  The daemon seen from its service: every run of the daemon is a run of the service whose operations are known,
  so what holds for all runs of the service holds for the daemon; and what the clients are told.
\<close>

section \<open>Sending does not concern the service\<close>

definition same_core :: "daemon \<Rightarrow> daemon \<Rightarrow> bool" where
  "same_core d d' \<longleftrightarrow> dm_service d' = dm_service d \<and> dm_discovery d' = dm_discovery d \<and> dm_running d' = dm_running d
     \<and> dm_config d' = dm_config d"

lemma same_core_refl [simp]: "same_core d d"
  by (simp add: same_core_def)

lemma same_core_trans: "same_core a b \<Longrightarrow> same_core b c \<Longrightarrow> same_core a c"
  by (simp add: same_core_def)

lemma client_send_core: "same_core d (snd (client_send env c ty pl d))" "fst (client_send env c ty pl d) = Inr ()"
  by (simp_all add: client_send_def close_client_def same_core_def split: sum.split)

lemma send_each_core: "same_core d (snd (send_each env ty pl cs dead d))" "\<exists>r. fst (send_each env ty pl cs dead d) = Inr r"
proof (induction cs arbitrary: dead d)
  case (Cons c cs)
  have s: "send_each env ty pl (c # cs) dead d = (\<lambda>d1. send_each env ty pl cs (if dm_closed d1 c then dead @ [c] else dead) d1)
      (snd (client_send env c ty pl d))" for dead d
    using client_send_core(2) [of env c ty pl d] by (simp add: seq_ok)
  {
    case 1
    then show ?case unfolding s by (rule same_core_trans [OF client_send_core(1) Cons.IH(1)])
  next
    case 2
    then show ?case unfolding s by (rule Cons.IH(2))
  }
qed simp_all

lemma broadcast_core: "same_core d (snd (broadcast env ty pl d))" "fst (broadcast env ty pl d) = Inr ()"
proof -
  obtain r where "fst (send_each env ty pl (dm_clients d) [] d) = Inr r" using send_each_core(2) by blast
  then have s: "send_each env ty pl (dm_clients d) [] d = (Inr r, snd (send_each env ty pl (dm_clients d) [] d))"
    by (simp add: prod_eq_iff)
  define d1 where "d1 = snd (send_each env ty pl (dm_clients d) [] d)"
  have "broadcast env ty pl d = (Inr (), d1\<lparr>dm_clients := fold remove1 r (dm_clients d1)\<rparr>)"
    by (simp add: broadcast_def bind_apply s [folded d1_def])
  moreover have "same_core d d1" unfolding d1_def by (rule send_each_core(1))
  ultimately show "same_core d (snd (broadcast env ty pl d))" "fst (broadcast env ty pl d) = Inr ()"
    by (simp_all add: same_core_def)
qed

lemma push_core: "same_core d (snd (push env n d))"
  by (cases n) (simp_all add: on_session_changed_def ipc_on_transfer_request_def ipc_on_transfer_progress_def
      ipc_on_transfer_complete_def ipc_on_pairing_request_def on_devices_changed_def broadcast_core)

lemma send_error_core: "same_core d (snd (send_error env c m d))" "fst (send_error env c m d) = Inr ()"
  by (simp_all add: send_error_def client_send_core)

section \<open>The operations behind a command\<close>

fun command_ops :: "daemon_env \<Rightarrow> discovery \<Rightarrow> ui_command \<Rightarrow> service_op list" where
  "command_ops env y (Ui_Accept_Transfer addr tid) = [Accept_Transfer addr tid]"
| "command_ops env y (Ui_Reject_Transfer addr tid) = [Reject_Transfer addr tid]"
| "command_ops env y (Ui_Cancel_Transfer tid r) = [Cancel_Transfer tid r]"
| "command_ops env y (Ui_Accept_Batch addr bid) = [Accept_Batch addr bid]"
| "command_ops env y (Ui_Reject_Batch addr bid) = [Reject_Batch addr bid]"
| "command_ops env y (Ui_Accept_Pairing addr) = [Accept_Pairing addr]"
| "command_ops env y (Ui_Reject_Pairing addr) = [Reject_Pairing addr]"
| "command_ops env y (Ui_Send_File addr f) = [Send_File addr (de_path env f)]"
| "command_ops env y (Ui_Send_Batch addr paths name) =
     (case de_walk env (map (de_path env) paths) of (files, n) \<Rightarrow> [Send_Batch addr files n name])"
| "command_ops env y (Ui_Connect_Peer device_id) =
     (case find (\<lambda>dev. JStr (dd_device_id dev) = device_id) (get_devices y) of
        None \<Rightarrow> []
      | Some dev \<Rightarrow>
          (case dd_addresses dev of
             [] \<Rightarrow> []
           | host # _ \<Rightarrow>
               (case de_dial env dev of
                  None \<Rightarrow> []
                | Some dl \<Rightarrow> [Connect (dl_signatures dl) (dl_local dl) True
                    (host @ lit '':'' @ (case dd_port dev of Some n \<Rightarrow> int_str n | None \<Rightarrow> lit ''None'')) (dl_hello dl) (dl_auth dl)])))"
| "command_ops env y (Ui_Discard_Resume tid) = [Discard_Interrupted tid]"
| "command_ops env y (Ui_Request_Resume addr tid) = [Request_Resume addr tid]"
| "command_ops env y (Ui_Clipboard_Send t) = [Send_Clipboard t]"
| "command_ops env y (Ui_Remove_Trusted_Device key) = [Remove_Trusted key]"
| "command_ops env y _ = []"

definition run_ops :: "daemon_env \<Rightarrow> service_op list \<Rightarrow> service \<Rightarrow> service" where
  "run_ops env ops s = service_run (map (Pair (de_service env)) ops) s"

lemma run_ops_simps [simp]: "run_ops env [] s = s" "run_ops env [op] s = service_step (de_service env) op s"
  by (simp_all add: run_ops_def)

lemma on_service_result: "dm_service (snd (on_service m d)) = snd (m (dm_service d))" "fst (on_service m d) = fst (m (dm_service d))"
    "dm_discovery (snd (on_service m d)) = dm_discovery d" "dm_clients (snd (on_service m d)) = dm_clients d"
  by (simp_all add: on_service_def split: prod.split)

lemma run_command_service: "dm_service (snd (run_command env c cmd d)) = run_ops env (command_ops env (dm_discovery d) cmd) (dm_service d)"
proof (cases cmd)
  case (Ui_Cancel_Transfer tid r)
  then show ?thesis using on_service_result [of "cancel_transfer (de_service env) tid r" d]
    by (auto simp: bind_apply split: prod.splits sum.splits)
next
  case (Ui_Connect_Peer i)
  then show ?thesis
    using send_error_core(1) by (auto simp: on_service_result connect_to_peer_def same_core_def split: option.split list.split)
next
  case (Ui_Get_History n)
  then show ?thesis using send_error_core(1) client_send_core(1) by (auto simp: get_history_def same_core_def split: sum.split)
next
  case Ui_Get_Trusted_Devices
  then show ?thesis using client_send_core(1) by (simp add: same_core_def)
next
  case (Ui_Remove_Trusted_Device key)
  then show ?thesis
    using on_service_result(1) [of "remove_trusted key" d] broadcast_core(1)
    by (auto simp: seq_apply same_core_def split: prod.splits sum.splits)
qed (simp_all add: on_service_result split: prod.split)

section \<open>Messages of a client\<close>

text \<open>The command in a message; \<open>Inr None\<close> for a type that is no command, the subscription among them.\<close>

definition msg_command :: "json \<Rightarrow> ui_command option res" where
  "msg_command msg =
     res_bind (obj_get msg (lit ''type'') (JStr [])) (\<lambda>t.
     res_bind (obj_get msg (lit ''payload'') (JObj [])) (\<lambda>payload.
       case t of JStr ty \<Rightarrow> parse_command ty payload | _ \<Rightarrow> Inr None))"

definition message_ops :: "daemon_env \<Rightarrow> nat \<Rightarrow> json \<Rightarrow> daemon \<Rightarrow> service_op list" where
  "message_ops env c msg d =
     (if dm_ended d c \<or> c \<notin> set (dm_clients d) then []
      else case msg_command msg of Inr (Some cmd) \<Rightarrow> command_ops env (dm_discovery d) cmd | _ \<Rightarrow> [])"

lemma subscribe_no_command: "parse_command (lit ''IPC_SUBSCRIBE'') payload = Inr None"
  by (simp add: parse_command_def)

lemma dispatch_service:
  "dm_service (snd (dispatch_command env c msg_type payload d)) = run_ops env
     (case msg_type of JStr ty \<Rightarrow> (case parse_command ty payload of Inr (Some cmd) \<Rightarrow> command_ops env (dm_discovery d) cmd | _ \<Rightarrow> [])
      | _ \<Rightarrow> []) (dm_service d)"
proof -
  let ?h = "\<lambda>e. send_error env c (if e = KeyError then lit ''Missing field: '' @ se_exc_text (de_service env) e
                                 else se_exc_text (de_service env) e)"
  have err: "dm_service (snd (send_error env c m d)) = dm_service d" "fst (send_error env c m d) = Inr ()" for m d
    using send_error_core by (auto simp: same_core_def)
  have run: "dm_service (snd (catch (run_command env c cmd) ?h d)) = dm_service (snd (run_command env c cmd d))" for cmd
    by (auto simp: catch_apply err split: prod.split sum.split)
  have unk: "dm_service (snd (catch (send_error env c m) ?h d)) = dm_service d" for m
    using err [of m d] by (auto simp: catch_apply split: prod.splits sum.splits)
  have parsed: "dm_service (snd (catch (bind (lift r) (\<lambda>cmd. case cmd of Some command \<Rightarrow> run_command env c command
      | None \<Rightarrow> send_error env c m)) ?h d)) = run_ops env (case r of Inr (Some cmd) \<Rightarrow> command_ops env (dm_discovery d) cmd | _ \<Rightarrow> []) (dm_service d)"
    for r m
  proof (cases r)
    case (Inl e)
    then show ?thesis by (simp add: catch_apply bind_apply err del: lit_simps)
  next
    case (Inr x)
    then have "bind (lift r) (\<lambda>cmd. case cmd of Some command \<Rightarrow> run_command env c command | None \<Rightarrow> send_error env c m)
        = (case x of Some command \<Rightarrow> run_command env c command | None \<Rightarrow> send_error env c m)"
      by (auto simp: bind_apply fun_eq_iff)
    then show ?thesis using Inr run run_command_service unk by (cases x) auto
  qed
  show ?thesis unfolding dispatch_command_def by (cases msg_type) (simp_all add: parsed del: lit_simps)
qed

lemma handle_message_service:
  "dm_ended d c = False \<Longrightarrow> dm_service (snd (handle_message env c msg d)) = run_ops env (message_ops env c msg d) (dm_service d)"
proof (cases "\<exists>t pl. obj_get msg (lit ''type'') (JStr []) = Inr t \<and> obj_get msg (lit ''payload'') (JObj []) = Inr pl")
  case False
  then obtain e where "obj_get msg (lit ''type'') (JStr []) = Inl e" by (cases msg) (auto simp del: lit_simps)
  then show ?thesis by (simp add: handle_message_def message_ops_def msg_command_def res_simps bind_apply del: lit_simps)
next
  case True
  assume open_: "dm_ended d c = False"
  from True obtain t pl where t: "obj_get msg (lit ''type'') (JStr []) = Inr t" "obj_get msg (lit ''payload'') (JObj []) = Inr pl" by blast
  then have run: "handle_message env c msg d =
      (if t = JStr (lit ''IPC_SUBSCRIBE'')
       then seq (upd (\<lambda>d. d\<lparr>dm_clients := dm_clients d @ [c]\<rparr>)) (send_state_snapshot env c) d
       else if c \<notin> set (dm_clients d) then send_error env c (lit ''Must send IPC_SUBSCRIBE first'') d
         else dispatch_command env c t pl d)"
    by (simp add: handle_message_def bind_apply del: lit_simps)
  consider "t = JStr (lit ''IPC_SUBSCRIBE'')" | "t \<noteq> JStr (lit ''IPC_SUBSCRIBE'')" "c \<notin> set (dm_clients d)"
    | "t \<noteq> JStr (lit ''IPC_SUBSCRIBE'')" "c \<in> set (dm_clients d)" by blast
  then show ?thesis
  proof cases
    case 1
    have "dm_service (snd (client_send env c ty v d')) = dm_service d'" for ty v d'
      using client_send_core(1) by (simp add: same_core_def)
    moreover have "message_ops env c msg d = []"
      using 1 t by (simp add: message_ops_def msg_command_def res_simps subscribe_no_command del: lit_simps)
    ultimately show ?thesis using 1 by (simp add: run seq_apply send_state_snapshot_def del: lit_simps)
  next
    case 2
    then show ?thesis using send_error_core(1) by (simp add: run message_ops_def same_core_def del: lit_simps)
  next
    case 3
    then have "message_ops env c msg d = (case t of JStr ty \<Rightarrow>
        (case parse_command ty pl of Inr (Some cmd) \<Rightarrow> command_ops env (dm_discovery d) cmd | _ \<Rightarrow> []) | _ \<Rightarrow> [])"
      using t open_ by (cases t) (simp_all add: message_ops_def msg_command_def res_simps del: lit_simps)
    then show ?thesis using 3 by (simp add: run dispatch_service del: lit_simps)
  qed
qed

section \<open>Every run of the daemon is a run of its service\<close>

definition daemon_ops :: "daemon_env \<Rightarrow> daemon_op \<Rightarrow> daemon \<Rightarrow> service_op list" where
  "daemon_ops env op d =
     (case op of
        Service_Does sop \<Rightarrow> if by_itself sop then [sop] else []
      | Client_Says c msg \<Rightarrow> message_ops env c msg d
      | Start_Service stale addrs r t i \<Rightarrow> if dm_running d then [] else [Prepare stale]
      | Stop_Service \<Rightarrow> if dm_running d then [Cancel_Tasks] else []
      | _ \<Rightarrow> [])"

fun service_trace :: "(daemon_env \<times> daemon_op) list \<Rightarrow> daemon \<Rightarrow> (service_env \<times> service_op) list" where
  "service_trace [] d = []"
| "service_trace ((env, op) # ops) d = map (Pair (de_service env)) (daemon_ops env op d) @ service_trace ops (daemon_step env op d)"

lemma client_gone_service: "dm_service (snd (client_gone c d)) = dm_service d"
  by (simp add: client_gone_def close_client_def seq_apply)

lemma serve_message_service:
  "dm_ended d c = False \<Longrightarrow> dm_service (snd (serve_message env c msg d)) = run_ops env (message_ops env c msg d) (dm_service d)"
  using handle_message_service [of d c env msg]
  by (auto simp: serve_message_def catch_apply client_gone_service split: prod.splits sum.splits)

lemma on_discovery_service: "dm_service (snd (on_discovery m d)) = dm_service d"
  by (simp add: on_discovery_def split: prod.split)

lemma seq_service:
  assumes "\<And>d. dm_service (snd (m d)) = dm_service d" and "\<And>d. dm_service (snd (k d)) = dm_service d"
  shows "dm_service (snd (seq m k d)) = dm_service d"
  using assms(1) [of d] assms(2) by (auto simp: seq_apply split: prod.split sum.split)

lemma start_service_service:
  "dm_service (snd (start_service env stale addrs r t i d)) = run_ops env (if dm_running d then [] else [Prepare stale]) (dm_service d)"
proof (cases "dm_running d")
  case False
  let ?d0 = "d\<lparr>dm_running := True\<rparr>"
  let ?rest = "\<lambda>oc. seq (on_discovery (start_discovery oc addrs r)) (seq (on_discovery (upd (add_listener IPC_LISTENER)))
         (if t \<and> i then ret () else raise OSError))"
  have rest: "dm_service (snd (?rest oc d1)) = dm_service d1" for oc d1
    by (intro seq_service on_discovery_service) simp
  have tail: "dm_service (snd (bind (lift (own_of_config (dm_config d))) ?rest d1)) = dm_service d1" for d1
    using rest by (cases "own_of_config (dm_config d)") (simp_all add: bind_apply)
  have run: "start_service env stale addrs r t i d
      = seq (on_service (prepare_start (de_service env) stale)) (bind (lift (own_of_config (dm_config d))) ?rest) ?d0"
    using False by (simp add: start_service_def seq_apply)
  obtain x d1 where d1: "on_service (prepare_start (de_service env) stale) ?d0 = (x, d1)" by fastforce
  have "dm_service (snd (start_service env stale addrs r t i d)) = dm_service d1"
    using tail [of d1] by (cases x) (simp_all only: run seq_apply d1 prod.case sum.case snd_conv)
  moreover have "dm_service d1 = run_ops env [Prepare stale] (dm_service d)"
    using on_service_result(1) [of "prepare_start (de_service env) stale" ?d0] d1 by simp
  ultimately show ?thesis using False by (simp only: if_False)
qed (simp add: start_service_def)

lemma stop_service_service:
  "dm_service (snd (stop_service env d)) = run_ops env (if dm_running d then [Cancel_Tasks] else []) (dm_service d)"
  by (simp add: stop_service_def seq_apply on_discovery_def on_service_def split: prod.split)

lemma daemon_step_service: "dm_service (daemon_step env op d) = run_ops env (daemon_ops env op d) (dm_service d)"
proof (cases op)
  case (Client_Says c msg)
  then show ?thesis using serve_message_service [of d c env msg] by (cases "dm_ended d c") (auto simp: daemon_ops_def message_ops_def)
next
  case (Push n)
  then show ?thesis using push_core [of d env n] by (simp add: daemon_ops_def same_core_def)
qed (simp_all add: daemon_ops_def client_gone_service start_service_service stop_service_service del: service_step.simps)

lemma daemon_run_service: "dm_service (daemon_run ops d) = service_run (service_trace ops d) (dm_service d)"
proof (induction ops d rule: daemon_run.induct)
  case (2 env op ops d)
  then show ?case by (simp add: daemon_step_service run_ops_def service_run_append del: daemon_step.simps)
qed simp

text \<open>
  C4: refinement. Whatever happens to the daemon - messages and commands of its user interfaces, frames and connections of
  peers, reports of the discovery, timers, notifications, start and stop, in any order - its service goes
  through a run of its own operations, the ones that \<^const>\<open>service_trace\<close> lists: the operation of a command that a subscribed
  client sent, what the service does by itself, the preparation of a start and the cancelling of a stop.
\<close>

theorem daemon_refines: "dm_service (daemon_run ops d) = service_run (service_trace ops d) (dm_service d)"
  by (rule daemon_run_service)

section \<open>Trust needs a user interface\<close>

lemma daemon_ops_single: "daemon_ops env op d = [] \<or> (\<exists>x. daemon_ops env op d = [x])"
proof -
  have "command_ops env y cmd = [] \<or> (\<exists>x. command_ops env y cmd = [x])" for y cmd
    by (cases cmd) (auto split: option.split list.split prod.split)
  then show ?thesis by (cases op) (auto simp: daemon_ops_def message_ops_def split: sum.split option.split)
qed

lemma accept_from_client:
  assumes "daemon_ops env op d = [Accept_Pairing addr]"
  obtains c msg where "op = Client_Says c msg" "\<not> dm_ended d c" "c \<in> set (dm_clients d)" "msg_command msg = Inr (Some (Ui_Accept_Pairing addr))"
proof -
  have cmd: "command_ops env y cmd = [Accept_Pairing addr] \<Longrightarrow> cmd = Ui_Accept_Pairing addr" for y cmd
    by (cases cmd) (auto split: option.splits list.splits prod.splits)
  show thesis
  proof (cases op)
    case (Service_Does x)
    then show ?thesis using assms by (cases x) (auto simp: daemon_ops_def)
  next
    case (Client_Says c msg)
    then have *: "message_ops env c msg d = [Accept_Pairing addr]" using assms by (simp add: daemon_ops_def)
    then obtain x where "msg_command msg = Inr (Some x)" "command_ops env (dm_discovery d) x = [Accept_Pairing addr]"
      by (auto simp: message_ops_def split: if_splits sum.splits option.splits)
    with * cmd show ?thesis by (intro that [OF Client_Says]) (auto simp: message_ops_def split: if_splits)
  qed (use assms in \<open>auto simp: daemon_ops_def split: if_splits\<close>)
qed

lemma accepted_from_client:
  assumes "p \<in> accepted_locally (service_trace ops d) (dm_service d)"
  shows "\<exists>pre env c msg post addr. ops = pre @ (env, Client_Says c msg) # post
    \<and> \<not> dm_ended (daemon_run pre d) c \<and> c \<in> set (dm_clients (daemon_run pre d))
    \<and> msg_command msg = Inr (Some (Ui_Accept_Pairing addr))
    \<and> dict_get (sv_active_sessions (dm_service (daemon_run pre d))) addr = Some p"
  using assms
proof (induction ops d rule: daemon_run.induct)
  case (2 env op ops d)
  let ?goal = "\<lambda>ops d. \<exists>pre env c msg post addr. ops = pre @ (env, Client_Says c msg) # post
    \<and> \<not> dm_ended (daemon_run pre d) c \<and> c \<in> set (dm_clients (daemon_run pre d))
    \<and> msg_command msg = Inr (Some (Ui_Accept_Pairing addr))
    \<and> dict_get (sv_active_sessions (dm_service (daemon_run pre d))) addr = Some p"
  have later: "?goal ((env, op) # ops) d" if "p \<in> accepted_locally (service_trace ops (daemon_step env op d)) (dm_service (daemon_step env op d))"
  proof -
    from "2.IH" [OF that] obtain pre env' c msg post addr where
      "ops = pre @ (env', Client_Says c msg) # post" "\<not> dm_ended (daemon_run ((env, op) # pre) d) c"
      "c \<in> set (dm_clients (daemon_run ((env, op) # pre) d))" "msg_command msg = Inr (Some (Ui_Accept_Pairing addr))"
      "dict_get (sv_active_sessions (dm_service (daemon_run ((env, op) # pre) d))) addr = Some p" by auto
    then show ?thesis by (intro exI [of _ "(env, op) # pre"]) (metis append_Cons)
  qed
  consider "daemon_ops env op d = []" | x where "daemon_ops env op d = [x]" using daemon_ops_single by blast
  then show ?case
  proof cases
    case 1
    then have "dm_service (daemon_step env op d) = dm_service d" by (simp add: daemon_step_service)
    then show ?thesis using 1 "2.prems" by (intro later) simp
  next
    case 2
    then have st: "dm_service (daemon_step env op d) = service_step (de_service env) x (dm_service d)" by (simp add: daemon_step_service)
    from "2.prems" 2 consider "p \<in> local_accept x (dm_service d)"
      | "p \<in> accepted_locally (service_trace ops (daemon_step env op d)) (dm_service (daemon_step env op d))" by (auto simp: st)
    then show ?thesis
    proof cases
      case 1
      then obtain addr where "x = Accept_Pairing addr" "dict_get (sv_active_sessions (dm_service d)) addr = Some p"
        by (cases x) (auto simp: local_accept_def)
      then show ?thesis using 2 accept_from_client [of env op d addr]
        by (intro exI [of _ "[]"]) (metis append_Nil daemon_run.simps(1))
    qed (rule later)
  qed
qed simp

text \<open>
  C7: no key becomes trusted behind the back of the user. Whatever happened to a daemon since it was created, a key that its
  trust database has gained belongs to a peer that sent its own acceptance and whose pairing was
  accepted, while its session was active, in a message of a client that had subscribed to the local socket.
\<close>

theorem daemon_trust:
  assumes "d0 = new_daemon cfg (new_service db fs dir now)"
    and "k \<in> trusted_keys (sv_db (dm_service (daemon_run ops d0)))" and "k \<notin> trusted_keys db"
  shows "\<exists>pre env c msg post addr p. ops = pre @ (env, Client_Says c msg) # post
    \<and> c \<in> set (dm_clients (daemon_run pre d0)) \<and> msg_command msg = Inr (Some (Ui_Accept_Pairing addr))
    \<and> dict_get (sv_active_sessions (dm_service (daemon_run pre d0))) addr = Some p
    \<and> p \<in> accepted_remotely (service_trace ops d0) (dm_service d0)
    \<and> ps_remote_static_pub_b64 (sv_peers (dm_service (daemon_run ops d0)) p) = Some k"
proof -
  have s: "dm_service d0 = new_service db fs dir now" by (simp add: assms(1) new_daemon_def)
  have "\<exists>p. p \<in> accepted_locally (service_trace ops d0) (dm_service d0) \<and> p \<in> accepted_remotely (service_trace ops d0) (dm_service d0)
      \<and> ps_remote_static_pub_b64 (sv_peers (dm_service (daemon_run ops d0)) p) = Some k"
    using both_sides_accepted [of k "service_trace ops d0" db fs dir now] assms(2,3) by (simp add: daemon_run_service s)
  then show ?thesis using accepted_from_client by metis
qed

text \<open>A user interface subscribes, a peer connects, the user accepts its pairing, and so does the peer.\<close>

definition sample_denv :: daemon_env where
  "sample_denv = \<lparr>de_service = sample_env, de_client_ok = (\<lambda>_. True), de_path = (\<lambda>_. []), de_walk = (\<lambda>_. ([], 0)), de_dial = (\<lambda>_. None)\<rparr>"

definition sample_daemon :: daemon where "sample_daemon = new_daemon sample_config fresh_service"

definition ui_subscribe :: json where "ui_subscribe = JObj [(lit ''type'', JStr (lit ''IPC_SUBSCRIBE''))]"

definition ui_accept :: json where
  "ui_accept = JObj [(lit ''type'', JStr (lit ''IPC_ACCEPT_PAIRING'')), (lit ''payload'', JObj [(lit ''remote_addr'', JStr [])])]"

lemma ui_accept_command: "msg_command ui_accept = Inr (Some (Ui_Accept_Pairing []))"
  by (simp add: msg_command_def ui_accept_def parse_command_def text_field_def as_text_def res_simps)

lemma subscribed:
  assumes "c \<notin> set (dm_clients d)" and "\<not> dm_ended d c"
  shows "dm_clients (daemon_step env (Client_Says c ui_subscribe) d) = dm_clients d @ [c]"
    "dm_ended (daemon_step env (Client_Says c ui_subscribe) d) = dm_ended d"
    "service_trace ((env, Client_Says c ui_subscribe) # ops) d = service_trace ops (daemon_step env (Client_Says c ui_subscribe) d)"
proof -
  have send: "dm_clients (snd (client_send env c ty pl d)) = dm_clients d" "dm_ended (snd (client_send env c ty pl d)) = dm_ended d" for ty pl d
    by (simp_all add: client_send_def close_client_def split: sum.split)
  have "handle_message env c ui_subscribe d = send_state_snapshot env c (d\<lparr>dm_clients := dm_clients d @ [c]\<rparr>)"
    by (simp add: handle_message_def ui_subscribe_def bind_apply seq_apply res_simps)
  then have "serve_message env c ui_subscribe d = send_state_snapshot env c (d\<lparr>dm_clients := dm_clients d @ [c]\<rparr>)"
    using client_send_core(2) by (simp add: serve_message_def catch_apply send_state_snapshot_def split: prod.splits sum.splits) (metis fst_conv sum.distinct(1))
  then show "dm_clients (daemon_step env (Client_Says c ui_subscribe) d) = dm_clients d @ [c]"
    "dm_ended (daemon_step env (Client_Says c ui_subscribe) d) = dm_ended d"
    using assms send by (simp_all add: send_state_snapshot_def)
  show "service_trace ((env, Client_Says c ui_subscribe) # ops) d = service_trace ops (daemon_step env (Client_Says c ui_subscribe) d)"
    using assms by (simp add: daemon_ops_def message_ops_def)
qed

definition sample_ops :: "envelope res \<Rightarrow> envelope res \<Rightarrow> (daemon_env \<times> daemon_op) list" where
  "sample_ops hello auth =
     [(sample_denv, Client_Says 0 ui_subscribe), (sample_denv, Service_Does (Connect toy_signatures (sample_side 1) True [] hello auth)),
      (sample_denv, Client_Says 0 ui_accept), (sample_denv, Service_Does (Frame 0 sample_frame))]"

lemma sample_trace: "service_trace (sample_ops hello auth) sample_daemon
  = [(sample_env, Connect toy_signatures (sample_side 1) True [] hello auth), (sample_env, Accept_Pairing []), (sample_env, Frame 0 sample_frame)]"
proof -
  let ?d1 = "daemon_step sample_denv (Client_Says 0 ui_subscribe) sample_daemon"
  let ?d2 = "daemon_step sample_denv (Service_Does (Connect toy_signatures (sample_side 1) True [] hello auth)) ?d1"
  have d1: "dm_clients ?d1 = [0]" "dm_ended ?d1 0 = False"
    "service_trace ((sample_denv, Client_Says 0 ui_subscribe) # ops) sample_daemon = service_trace ops ?d1" for ops
    using subscribed [of 0 sample_daemon sample_denv] by (simp_all add: sample_daemon_def new_daemon_def)
  then have "message_ops sample_denv 0 ui_accept ?d2 = [Accept_Pairing []]"
    by (simp add: message_ops_def ui_accept_command del: service_step.simps daemon_step.simps(2))
  then show ?thesis
    unfolding sample_ops_def d1(3) by (simp add: daemon_ops_def sample_denv_def [THEN arg_cong, of de_service] del: daemon_step.simps)
qed

theorem daemon_trust_witness:
  "\<exists>hello auth pre env c msg post addr p. sample_ops hello auth = pre @ (env, Client_Says c msg) # post
    \<and> c \<in> set (dm_clients (daemon_run pre sample_daemon)) \<and> msg_command msg = Inr (Some (Ui_Accept_Pairing addr))
    \<and> dict_get (sv_active_sessions (dm_service (daemon_run pre sample_daemon))) addr = Some p
    \<and> p \<in> accepted_remotely (service_trace (sample_ops hello auth) sample_daemon) (dm_service sample_daemon)
    \<and> ps_remote_static_pub_b64 (sv_peers (dm_service (daemon_run (sample_ops hello auth) sample_daemon)) p) = Some sample_key"
proof -
  obtain hello auth where t: "sample_key \<in> trusted_keys (sv_db (service_run [(sample_env, Connect toy_signatures (sample_side 1) True [] hello auth),
      (sample_env, Accept_Pairing []), (sample_env, Frame 0 sample_frame)] fresh_service))"
    using sample_pairing unfolding Let_def by blast
  have "dm_service sample_daemon = fresh_service" by (simp add: sample_daemon_def new_daemon_def)
  then have "sample_key \<in> trusted_keys (sv_db (dm_service (daemon_run (sample_ops hello auth) sample_daemon)))"
    using t by (simp only: daemon_run_service sample_trace)
  moreover have "sample_key \<notin> trusted_keys empty_db" by (simp add: trusted_keys_def empty_db_def)
  ultimately show ?thesis using daemon_trust [OF sample_daemon_def] by blast
qed

end
