(* ===== verification/Daemon_Clients.thy ===== *)
theory Daemon_Clients
  imports Daemon_Refine
begin

text \<open>
  What the clients of the local socket can do and what they are told: broadcasts, the snapshot, commands.
\<close>

section \<open>Broadcasts\<close>

abbreviation frame_of :: "daemon_env \<Rightarrow> pystr \<Rightarrow> json \<Rightarrow> bytes res" where
  "frame_of env ty pl \<equiv> encode_ipc_frame (se_platform (de_service env)) (ty, se_now (de_service env), pl)"

text \<open>The clients a broadcast reaches.\<close>

definition reachable :: "daemon_env \<Rightarrow> pystr \<Rightarrow> json \<Rightarrow> daemon \<Rightarrow> nat \<Rightarrow> bool" where
  "reachable env ty pl d c \<longleftrightarrow> \<not> dm_closed d c \<and> de_client_ok env c \<and> \<not> isl (frame_of env ty pl)"

definition delivered_frames :: "daemon_env \<Rightarrow> pystr \<Rightarrow> json \<Rightarrow> daemon \<Rightarrow> nat \<Rightarrow> bytes list" where
  "delivered_frames env ty pl d c = (case frame_of env ty pl of Inr f \<Rightarrow> if reachable env ty pl d c then [f] else [] | Inl e \<Rightarrow> [])"

lemma client_send_result:
  "dm_written (snd (client_send env c ty pl d)) = (dm_written d)(c := dm_written d c @ delivered_frames env ty pl d c)"
  "dm_closed (snd (client_send env c ty pl d)) c' = (dm_closed d c' \<or> (c' = c \<and> \<not> reachable env ty pl d c))"
  "dm_clients (snd (client_send env c ty pl d)) = dm_clients d"
  by (auto simp: client_send_def close_client_def reachable_def delivered_frames_def fun_eq_iff split: sum.split)

lemma reachable_send: "reachable env ty pl (snd (client_send env c ty pl d)) c' = reachable env ty pl d c'"
  by (auto simp: reachable_def client_send_result(2))

lemma delivered_send: "delivered_frames env ty pl (snd (client_send env c ty pl d)) c' = delivered_frames env ty pl d c'"
  unfolding delivered_frames_def reachable_send ..

lemma send_each_result:
  "fst (send_each env ty pl cs dead d) = Inr (dead @ filter (\<lambda>c. \<not> reachable env ty pl d c) cs)"
  "dm_written (snd (send_each env ty pl cs dead d)) c' = dm_written d c' @ concat (replicate (count_list cs c') (delivered_frames env ty pl d c'))"
  "dm_clients (snd (send_each env ty pl cs dead d)) = dm_clients d"
proof (induction cs arbitrary: dead d)
  case (Cons c cs)
  have closed: "dm_closed (snd (client_send env c ty pl d)) c = (\<not> reachable env ty pl d c)" for d
    by (auto simp: client_send_result(2) reachable_def)
  have s: "send_each env ty pl (c # cs) dead d
      = send_each env ty pl cs (if reachable env ty pl d c then dead else dead @ [c]) (snd (client_send env c ty pl d))" for dead d
    using client_send_core(2) [of env c ty pl d] by (simp add: seq_ok closed)
  {
    case 1
    show ?case unfolding s Cons.IH(1) reachable_send by simp
  next
    case 2
    show ?case unfolding s Cons.IH(2) delivered_send by (simp add: client_send_result(1))
  next
    case 3
    show ?case unfolding s Cons.IH(3) by (rule client_send_result(3))
  }
qed simp_all

lemma fold_remove1_other: "x \<notin> set ys \<Longrightarrow> fold remove1 ys (x # xs) = x # fold remove1 ys xs"
  by (induction ys arbitrary: xs) auto

lemma fold_remove1_filter: "fold remove1 (filter P xs) xs = filter (\<lambda>x. \<not> P x) xs"
  by (induction xs) (simp_all add: fold_remove1_other)

text \<open>
  C12: a broadcast reaches every client. Each client that is subscribed, open and whose socket works is sent the
  encoded event, as often as it has subscribed; nothing is written to any other; the clients that fail are
  dropped, all others stay; and the state of the service is not touched.
\<close>

theorem broadcast_reaches:
  "dm_written (snd (broadcast env ty pl d)) c
     = dm_written d c @ concat (replicate (count_list (dm_clients d) c) (delivered_frames env ty pl d c))
   \<and> dm_clients (snd (broadcast env ty pl d)) = filter (reachable env ty pl d) (dm_clients d)
   \<and> dm_service (snd (broadcast env ty pl d)) = dm_service d"
proof -
  define d1 where "d1 = snd (send_each env ty pl (dm_clients d) [] d)"
  have r: "send_each env ty pl (dm_clients d) [] d = (Inr (filter (\<lambda>c. \<not> reachable env ty pl d c) (dm_clients d)), d1)"
    by (simp add: d1_def prod_eq_iff send_each_result(1))
  have "dm_clients d1 = dm_clients d" "dm_written d1 c = dm_written d c @ concat (replicate (count_list (dm_clients d) c) (delivered_frames env ty pl d c))"
    by (simp_all add: d1_def send_each_result)
  moreover have "same_core d (snd (broadcast env ty pl d))" by (rule broadcast_core)
  ultimately show ?thesis by (simp add: broadcast_def bind_apply r fold_remove1_filter same_core_def)
qed

section \<open>Clients that have not subscribed\<close>

lemma send_error_others: "c' \<noteq> c \<Longrightarrow> dm_written (snd (send_error env c m d)) c' = dm_written d c'"
  by (simp add: send_error_def client_send_result(1))

lemma client_gone_written: "dm_written (snd (client_gone c d)) = dm_written d"
  by (simp add: client_gone_def close_client_def seq_apply)

text \<open>
  C17: who has not subscribed cannot do anything. Whatever message comes from a client that is not
  subscribed, the service is left as it is, and no other client is told anything.
\<close>

theorem unsubscribed_no_effect:
  "c \<in> set (dm_clients d) \<or> dm_service (daemon_step env (Client_Says c msg) d) = dm_service d
     \<and> (c' = c \<or> dm_written (daemon_step env (Client_Says c msg) d) c' = dm_written d c')"
proof (rule disjCI)
  assume *: "\<not> (dm_service (daemon_step env (Client_Says c msg) d) = dm_service d
     \<and> (c' = c \<or> dm_written (daemon_step env (Client_Says c msg) d) c' = dm_written d c'))"
  have written: "dm_written (snd (serve_message env c msg d)) c' = dm_written d c'" if "c \<notin> set (dm_clients d)" "c' \<noteq> c"
  proof -
    have "dm_written (snd (handle_message env c msg d)) c' = dm_written d c'"
      using that by (auto simp: handle_message_def bind_apply seq_apply send_state_snapshot_def client_send_result(1) send_error_others
          simp del: lit_simps split: sum.split)
    then show ?thesis by (auto simp: serve_message_def catch_apply client_gone_written split: prod.split sum.split)
  qed
  show "c \<in> set (dm_clients d)"
  proof (rule ccontr)
    assume "c \<notin> set (dm_clients d)"
    moreover from this have "dm_service (daemon_step env (Client_Says c msg) d) = dm_service d"
      by (simp add: daemon_step_service daemon_ops_def message_ops_def del: daemon_step.simps)
    ultimately show False using * written by (cases "dm_ended d c") auto
  qed
qed

section \<open>Commands\<close>

lemma msg_command_envelope:
  "client_command cmd \<Longrightarrow> msg_command (ipc_envelope (fst (command_message cmd), ts, snd (command_message cmd))) = Inr (Some cmd)"
  using parse_command_message [of cmd] by (simp add: msg_command_def ipc_envelope_def res_simps)

text \<open>
  C19: a command reaches the service. The bytes that a user interface writes for a command are read by
  the daemon as one message, and when the client has subscribed, that message makes the service perform exactly the
  operation behind the command, with the values the user gave.
\<close>

theorem ui_command_reaches_service:
  assumes "client_command cmd" and "ipc_readable pf (ipc_envelope (fst (command_message cmd), ts, snd (command_message cmd)))"
    and "encode_ipc_frame pf (fst (command_message cmd), ts, snd (command_message cmd)) = Inr frame"
    and "c \<in> set (dm_clients d)" and "\<not> dm_ended d c"
  shows "\<exists>msg. ipc_messages pf frame = [msg]
    \<and> dm_service (daemon_step env (Client_Says c msg) d) = run_ops env (command_ops env (dm_discovery d) cmd) (dm_service d)"
proof -
  let ?msg = "ipc_envelope (fst (command_message cmd), ts, snd (command_message cmd))"
  have "ipc_messages pf frame = [?msg]"
    using ipc_messages_written [of pf "[?msg]" frame "[]"] assms(2,3) by (simp add: encode_ipc_frame_def)
  moreover have "dm_service (daemon_step env (Client_Says c ?msg) d) = run_ops env (command_ops env (dm_discovery d) cmd) (dm_service d)"
    using assms msg_command_envelope [of cmd ts] by (simp add: daemon_step_service daemon_ops_def message_ops_def del: daemon_step.simps)
  ultimately show ?thesis by blast
qed

text \<open>The user accepts the pairing of a peer that is not there.\<close>

theorem ui_command_reaches_service_witness:
  "\<exists>frame msg. encode_ipc_frame ascii_platform (lit ''IPC_ACCEPT_PAIRING'', 5, JObj [(lit ''remote_addr'', JStr [97])]) = Inr frame
    \<and> ipc_messages ascii_platform frame = [msg]
    \<and> dm_service (daemon_step sample_denv (Client_Says 0 msg) (sample_daemon\<lparr>dm_clients := [0]\<rparr>))
        = service_step sample_env (Accept_Pairing [97]) fresh_service"
proof -
  let ?m = "(fst (command_message (Ui_Accept_Pairing [97])), 5, snd (command_message (Ui_Accept_Pairing [97])))"
  have v: "dumpable (ipc_envelope ?m)" "ipc_envelope ?m \<noteq> JNull" "jdepth (ipc_envelope ?m) \<le> json_depth ascii_platform"
    "json_bound 0 (ipc_envelope ?m) \<le> IPC_MAX_FRAME"
    by (simp_all add: ipc_envelope_def ascii_platform_def IPC_MAX_FRAME_def dec_digits_one)
  obtain frame where f: "encode_ipc_frame ascii_platform ?m = Inr frame"
    using ipc_frame_fits(2) [OF v] by (auto simp: encode_ipc_frame_def)
  have "\<exists>msg. ipc_messages ascii_platform frame = [msg]
    \<and> dm_service (daemon_step sample_denv (Client_Says 0 msg) (sample_daemon\<lparr>dm_clients := [0]\<rparr>))
      = run_ops sample_denv (command_ops sample_denv (dm_discovery (sample_daemon\<lparr>dm_clients := [0]\<rparr>)) (Ui_Accept_Pairing [97]))
          (dm_service (sample_daemon\<lparr>dm_clients := [0]\<rparr>))"
    by (rule ui_command_reaches_service [OF _ ipc_frame_fits(1) [OF v] f])
      (simp_all add: client_command_def sample_daemon_def new_daemon_def)
  moreover have "run_ops sample_denv (command_ops sample_denv y (Ui_Accept_Pairing [97])) (dm_service (sample_daemon\<lparr>dm_clients := [0]\<rparr>))
      = service_step sample_env (Accept_Pairing [97]) fresh_service" for y
    by (simp add: sample_daemon_def new_daemon_def sample_denv_def del: service_step.simps)
  ultimately show ?thesis using f by (intro exI [of _ frame]) (simp del: lit_simps daemon_step.simps service_step.simps)
qed

section \<open>The snapshot\<close>

lemma collect_error: "xs \<noteq> [] \<Longrightarrow> collect snapshot_outgoing xs = Inl AttributeError"
  by (cases xs) (auto simp: snapshot_outgoing_def res_simps)

lemma collect_devices: "\<exists>dev\<in>set devs. dd_device_id dev \<noteq> [] \<Longrightarrow> collect snapshot_device devs = Inl AttributeError"
  by (induction devs) (auto simp: snapshot_device_def res_simps)

lemma listed_device: "table_ok oc y \<Longrightarrow> dev \<in> set (get_devices y) \<Longrightarrow> dd_device_id dev \<noteq> []"
proof -
  assume ok: "table_ok oc y" and "dev \<in> set (get_devices y)"
  then obtain k where "(k, dev) \<in> set (dy_devices y)" by (auto simp: get_devices_def)
  then have "dict_get (dy_devices y) k = Some dev" using ok by (simp add: table_ok_def dict_ok_def dict_get_def)
  with ok show "dd_device_id dev \<noteq> []" by (auto simp: table_ok_def device_ok_def)
qed

definition snapshot_field :: "string \<Rightarrow> json \<Rightarrow> json" where
  "snapshot_field k j = (case obj_get j (lit k) JNull of Inr v \<Rightarrow> v | Inl e \<Rightarrow> JNull)"

lemma snapshot_fields:
  "snapshot_field ''devices'' (state_snapshot env d) = or_empty (collect snapshot_device (get_devices (dm_discovery d)))"
  "snapshot_field ''active_transfers'' (state_snapshot env d) = or_empty (active_transfers (dm_service d))"
  by (simp_all add: snapshot_field_def state_snapshot_def Let_def)

text \<open>
  C35: the snapshot for a new client leaves things out. As soon as one discovered device has an id, as all of them have, the
  snapshot lists no device at all; and while anything is being sent it lists no transfer, not
  even the incoming ones.
\<close>

theorem snapshot_incomplete:
  assumes "discovery_reach pf oc (dm_discovery d)"
  shows "snapshot_field ''devices'' (state_snapshot env d) = JArr []
    \<and> (sv_outgoing (dm_service d) = [] \<or> snapshot_field ''active_transfers'' (state_snapshot env d) = JArr [])"
proof -
  have "or_empty (collect snapshot_device (get_devices (dm_discovery d))) = JArr []"
  proof (cases "get_devices (dm_discovery d)")
    case (Cons dev devs)
    then have "\<exists>dev\<in>set (get_devices (dm_discovery d)). dd_device_id dev \<noteq> []" using listed_device [OF reach_table [OF assms]] by auto
    then show ?thesis by (simp add: collect_devices or_empty_def)
  qed (simp add: or_empty_def)
  moreover have "sv_outgoing (dm_service d) = [] \<or> or_empty (active_transfers (dm_service d)) = JArr []"
    using collect_error [of "sv_outgoing (dm_service d)"] by (cases "sv_outgoing (dm_service d) = []") (simp_all add: or_empty_def active_transfers_def)
  ultimately show ?thesis by (simp only: snapshot_fields) 
qed

text \<open>One discovered device, one outgoing transfer.\<close>

theorem snapshot_incomplete_witness:
  "\<exists>y. length (get_devices y) = 1
    \<and> snapshot_field ''devices'' (state_snapshot sample_denv
          (sample_daemon\<lparr>dm_discovery := y, dm_service := fresh_service\<lparr>sv_outgoing := [([97], 0, 0)]\<rparr>\<rparr>)) = JArr []
    \<and> snapshot_field ''active_transfers'' (state_snapshot sample_denv
          (sample_daemon\<lparr>dm_discovery := y, dm_service := fresh_service\<lparr>sv_outgoing := [([97], 0, 0)]\<rparr>\<rparr>)) = JArr []"
proof -
  obtain y dev where "discovery_reach ascii_platform sample_own y" "dy_devices y = [([98], dev)]" "dd_is_available dev"
    using sample_found by blast
  then have y: "discovery_reach ascii_platform sample_own y" "length (get_devices y) = 1" by (simp_all add: get_devices_def)
  from snapshot_incomplete [of ascii_platform sample_own "sample_daemon\<lparr>dm_discovery := y, dm_service := fresh_service\<lparr>sv_outgoing := [([97], 0, 0)]\<rparr>\<rparr>" sample_denv]
  show ?thesis using y by (intro exI [of _ y]) simp
qed

end
