(* ===== verification/Sizes.thy ===== *)
theory Sizes
  imports Json "HOL-Library.Log_Nat"
begin

text \<open>
  Sizes and percentages as texts: \<^verbatim>\<open>_format_size\<close> of \<^verbatim>\<open>ui/window.py\<close> and \<^verbatim>\<open>core/notifications.py\<close>, and the texts
  of the desktop notifications. Floating point numbers are rationals rounded to 53 binary digits, as for
  all magnitudes that neither overflow nor underflow.
\<close>

section \<open>Rounding\<close>

text \<open>To the nearest integer, halves to the even one: \<^verbatim>\<open>round\<close> of the decimal expansion in a format.\<close>

definition half_even :: "rat \<Rightarrow> int" where
  "half_even q =
     (let f = \<lfloor>q\<rfloor>; r = q - of_int f
      in if r < 1 / 2 \<or> (r = 1 / 2 \<and> even f) then f else f + 1)"

definition exponent :: "rat \<Rightarrow> int" where
  "exponent x = (case quotient_of x of (a, b) \<Rightarrow> let e = bitlen a - bitlen b in if x < 2 powi e then e - 1 else e)"

definition dbl :: "rat \<Rightarrow> rat" where
  "dbl x =
     (if x = 0 then 0
      else let e = exponent \<bar>x\<bar> - 52; m = of_int (half_even (\<bar>x\<bar> / 2 powi e)) * 2 powi e
           in if x < 0 then - m else m)"

lemma half_even_error: "\<bar>of_int (half_even q) - q\<bar> \<le> 1 / 2"
proof -
  have "of_int \<lfloor>q\<rfloor> \<le> q" "q < of_int \<lfloor>q\<rfloor> + 1" by linarith+
  then show ?thesis by (auto simp: half_even_def Let_def abs_le_iff)
qed

lemma half_even_int [simp]: "half_even (of_int n) = n"
  by (simp add: half_even_def)

lemma half_even_mono_bounds:
  "of_int a \<le> q \<Longrightarrow> a \<le> half_even q" "q \<le> of_int b \<Longrightarrow> half_even q \<le> b"
proof -
  show "a \<le> half_even q" if "of_int a \<le> q"
  proof -
    have "a \<le> \<lfloor>q\<rfloor>" using that by (simp add: le_floor_iff)
    then show ?thesis by (simp add: half_even_def Let_def)
  qed
  show "half_even q \<le> b" if "q \<le> of_int b"
  proof (cases "q = of_int b")
    case False
    then have "\<lfloor>q\<rfloor> < b" using that by (simp add: floor_less_iff)
    then show ?thesis by (auto simp: half_even_def Let_def)
  qed simp
qed

lemma exponent_bounds:
  assumes "0 < x"
  shows "2 powi exponent x \<le> x" "x < 2 powi (exponent x + 1)"
proof -
  obtain a b where q: "quotient_of x = (a, b)" by fastforce
  have b: "0 < b" using q by (rule quotient_of_denom_pos)
  have x: "x = of_int a / of_int b" using q by (rule quotient_of_div)
  then have a: "0 < a" using assms b by (simp add: zero_less_divide_iff)
  let ?A = "bitlen a" and ?B = "bitlen b"
  have pow: "of_int (2 ^ nat k) = (2 powi k :: rat)" if "0 \<le> k" for k
    using that by (simp add: power_int_def)
  have pos: "0 < ?A" "0 < ?B" using a b by (simp_all add: bitlen_alt_def)
  have A: "2 powi (?A - 1) \<le> (of_int a :: rat)" "(of_int a :: rat) < 2 powi ?A"
    using bitlen_bounds [OF a] pos pow [of "?A - 1"] pow [of ?A] by (metis of_int_le_iff of_int_less_iff zless_imp_add1_zle add.left_neutral
        diff_ge_0_iff_ge less_imp_le)+
  have B: "2 powi (?B - 1) \<le> (of_int b :: rat)" "(of_int b :: rat) < 2 powi ?B"
    using bitlen_bounds [OF b] pos pow [of "?B - 1"] pow [of ?B] by (metis of_int_le_iff of_int_less_iff zless_imp_add1_zle add.left_neutral
        diff_ge_0_iff_ge less_imp_le)+
  have p: "2 powi (k + l) = (2 powi k * 2 powi l :: rat)" for k l by (simp add: power_int_add)
  have "x < 2 powi ?A / 2 powi (?B - 1)"
    unfolding x using A(2) B(1) by (intro frac_less) (use a b in \<open>simp_all add: power_int_def\<close>)
  also have "\<dots> = 2 powi (?A - ?B + 1)" by (simp add: power_int_diff power_int_add)
  finally have up: "x < 2 powi (?A - ?B + 1)" .
  have "2 powi (?A - ?B - 1) = 2 powi (?A - 1) / (2 powi ?B :: rat)" by (simp add: power_int_diff power_int_add field_simps)
  also have "\<dots> \<le> x" unfolding x using A(1) B(2) a b by (intro frac_le) simp_all
  finally have low: "2 powi (?A - ?B - 1) \<le> x" .
  show "2 powi exponent x \<le> x" "x < 2 powi (exponent x + 1)"
    using up low by (auto simp: exponent_def q Let_def)
qed

lemma dbl_error: "0 \<le> x \<Longrightarrow> \<bar>dbl x - x\<bar> \<le> x / 2 ^ 53"
proof (cases "x = 0")
  case False
  assume "0 \<le> x"
  with False have x: "0 < x" by simp
  define p where "p = (2 powi (exponent x - 52) :: rat)"
  have p: "0 < p" by (simp add: p_def)
  have le: "p * 2 ^ 52 \<le> x" using exponent_bounds(1) [OF x] by (simp add: p_def power_int_diff)
  have "dbl x - x = (of_int (half_even (x / p)) - x / p) * p" using x p by (simp add: dbl_def Let_def p_def left_diff_distrib)
  then have "\<bar>dbl x - x\<bar> \<le> 1 / 2 * p"
    using half_even_error [of "x / p"] p by (simp add: abs_mult mult_right_mono)
  also have "\<dots> \<le> x / 2 ^ 53" using le by simp
  finally show ?thesis .
qed (simp add: dbl_def)

section \<open>Formats\<close>

text \<open>\<^verbatim>\<open>f"{x:.1f}"\<close> and \<^verbatim>\<open>f"{x:.2f}"\<close>: the number of units of the last digit, written with a point.\<close>

definition digits_pad :: "nat \<Rightarrow> nat \<Rightarrow> pystr" where
  "digits_pad d n = (let s = dec_digits n in replicate (d - length s) 48 @ s)"

definition scaled :: "nat \<Rightarrow> rat \<Rightarrow> int" where
  "scaled d x = half_even (\<bar>x\<bar> * 10 ^ d)"

definition fixed :: "nat \<Rightarrow> rat \<Rightarrow> pystr" where
  "fixed d x =
     (if x < 0 then [45] else []) @ dec_digits (nat (scaled d x) div 10 ^ d)
       @ (if d = 0 then [] else 46 # digits_pad d (nat (scaled d x) mod 10 ^ d))"

text \<open>\<^verbatim>\<open>_format_size\<close> of the window; the division of a number by 1024.0 is exact.\<close>

fun size_in :: "rat \<Rightarrow> string list \<Rightarrow> pystr" where
  "size_in x [] = fixed 1 x @ lit '' TB''"
| "size_in x (u # us) = (if x < 1024 then fixed 1 x @ [32] @ lit u else size_in (x / 1024) us)"

definition format_size :: "int \<Rightarrow> pystr" where
  "format_size size_bytes = size_in (dbl (of_int size_bytes)) [''B'', ''KB'', ''MB'', ''GB'']"

text \<open>\<^verbatim>\<open>_format_size\<close> of the notifications; the quotient of two integers is rounded once.\<close>

definition short_size :: "int \<Rightarrow> pystr" where
  "short_size size_bytes =
     (if size_bytes < 1024 then int_str size_bytes @ lit '' B''
      else if size_bytes < 1024 ^ 2 then fixed 1 (dbl (of_int size_bytes / 1024)) @ lit '' KB''
      else if size_bytes < 1024 ^ 3 then fixed 1 (dbl (of_int size_bytes / 1024 ^ 2)) @ lit '' MB''
      else fixed 2 (dbl (of_int size_bytes / 1024 ^ 3)) @ lit '' GB'')"

section \<open>Desktop notifications\<close>

text \<open>Title and body that \<^verbatim>\<open>NotificationManager\<close> hands to the desktop; \<open>8212\<close> is the dash.\<close>

definition quoted :: "pystr \<Rightarrow> pystr" where
  "quoted s = [34] @ s @ [34]"

definition incoming_request_note :: "pystr \<Rightarrow> pystr \<Rightarrow> int \<Rightarrow> pystr \<times> pystr" where
  "incoming_request_note device_name file_name file_size =
     (lit ''Incoming file from '' @ device_name,
      quoted file_name @ lit '' ('' @ short_size file_size @ lit '') '' @ [8212] @ lit '' open Raven to accept or reject.'')"

definition complete_note :: "pystr \<Rightarrow> bool \<Rightarrow> pystr \<Rightarrow> pystr \<times> pystr" where
  "complete_note file_name success direction =
     (if success
      then (lit ''Transfer complete'',
            quoted file_name @ [32] @ (if direction = lit ''INCOMING'' then lit ''received'' else lit ''sent'') @ lit '' successfully.'')
      else (lit ''Transfer failed'',
            lit ''Could not '' @ (if direction = lit ''INCOMING'' then lit ''receive'' else lit ''send'') @ [32] @ quoted file_name @ [46]))"

definition cancelled_note :: "pystr \<Rightarrow> pystr \<times> pystr" where
  "cancelled_note file_name = (lit ''Transfer cancelled'', quoted file_name @ lit '' transfer was cancelled.'')"

definition established_note :: "pystr \<Rightarrow> pystr \<times> pystr" where
  "established_note device_name = (lit ''Raven connected'', lit ''Secure session established with '' @ device_name @ [46])"

definition pairing_note :: "pystr \<Rightarrow> pystr \<Rightarrow> pystr \<times> pystr" where
  "pairing_note device_name sas =
     (lit ''Pairing request from '' @ device_name,
      lit ''Verify code: '' @ sas @ [32, 8212] @ lit '' open Raven to accept or reject.'')"

definition clipboard_note :: "pystr \<Rightarrow> pystr \<times> pystr" where
  "clipboard_note device_name = (lit ''Clipboard updated'', lit ''Clipboard synced from '' @ device_name @ [46])"

text \<open>\<^verbatim>\<open>_send\<close> only logs when GLib or the application is missing; the daemon has no application.\<close>

definition sent_note :: "bool \<Rightarrow> bool \<Rightarrow> pystr \<times> pystr \<Rightarrow> (pystr \<times> pystr) option" where
  "sent_note has_glib has_app note = (if has_glib \<and> has_app then Some note else None)"

section \<open>The text of a size\<close>

lemma dec_digits_small: "n < 10 \<Longrightarrow> length (dec_digits n) = 1"
  by (simp add: dec_digits.simps)

lemma fixed_tenths: "0 \<le> x \<Longrightarrow> fixed 1 x = dec_digits (nat (scaled 1 x) div 10) @ 46 # dec_digits (nat (scaled 1 x) mod 10)"
  using dec_digits_small [of "nat (scaled 1 x) mod 10"] by (simp add: fixed_def digits_pad_def)

lemma size_in_unit:
  assumes "0 \<le> x" and "i + length us = 4" and "us = drop i [''B'', ''KB'', ''MB'', ''GB'']"
  shows "\<exists>k. i \<le> k \<and> k \<le> 4 \<and> size_in x us = fixed 1 (x / 1024 ^ (k - i)) @ [32] @ lit ([''B'', ''KB'', ''MB'', ''GB'', ''TB''] ! k)
    \<and> (k = 4 \<or> x / 1024 ^ (k - i) < 1024) \<and> (k = i \<or> 1 \<le> x / 1024 ^ (k - i))"
  using assms
proof (induction x us arbitrary: i rule: size_in.induct)
  case (1 x)
  then show ?case by (intro exI [of _ 4]) simp
next
  case (2 x u us)
  have i: "i < 4" using "2.prems"(2) by simp
  then have u: "u = [''B'', ''KB'', ''MB'', ''GB'', ''TB''] ! i" and us: "us = drop (Suc i) [''B'', ''KB'', ''MB'', ''GB'']"
    using "2.prems"(3) by (auto simp: less_Suc_eq numeral_eq_Suc)
  show ?case
  proof (cases "x < 1024")
    case True
    then show ?thesis using i u by (intro exI [of _ i]) simp
  next
    case False
    have x: "x / 1024 / 1024 ^ (k - Suc i) = x / 1024 ^ (k - i)" if "Suc i \<le> k" for k
      using that by (simp add: Suc_diff_le [symmetric] power_Suc [symmetric] del: power_Suc)
    have "0 \<le> x / 1024" "Suc i + length us = 4" using "2.prems"(1,2) by simp_all
    from "2.IH" [OF False this us] obtain k where k: "Suc i \<le> k" "k \<le> 4"
      "size_in (x / 1024) us = fixed 1 (x / 1024 / 1024 ^ (k - Suc i)) @ [32] @ lit ([''B'', ''KB'', ''MB'', ''GB'', ''TB''] ! k)"
      "k = 4 \<or> x / 1024 / 1024 ^ (k - Suc i) < 1024" "k = Suc i \<or> 1 \<le> x / 1024 / 1024 ^ (k - Suc i)" by blast
    note k(3-5) [unfolded x [OF k(1)]]
    moreover have "1 \<le> x / 1024 ^ (k - i)" if "k = Suc i" using False that by simp
    ultimately show ?thesis using False k(1,2) by (intro exI [of _ k]) auto
  qed
qed

text \<open>
  C38: the size shown for a file is right. For every size the text is a number with one digit after the point and a
  unit; the number, in tenths, differs from the size by at most half a tenth of the unit and the rounding of a
  double, is below 1024.1 unless the unit is the largest, and is at least one except for bytes.
\<close>

theorem size_text:
  assumes "0 \<le> n"
  shows "\<exists>k m. k \<le> 4 \<and> format_size n = dec_digits (m div 10) @ 46 # dec_digits (m mod 10) @ 32 # lit ([''B'', ''KB'', ''MB'', ''GB'', ''TB''] ! k)
    \<and> \<bar>of_nat m / 10 * 1024 ^ k - of_int n\<bar> \<le> 1024 ^ k / 20 + (of_int n / 2 ^ 53 :: rat)
    \<and> (k = 4 \<or> m \<le> 10240) \<and> (k = 0 \<or> 10 \<le> m)"
proof -
  define x where "x = dbl (of_int n)"
  have err: "\<bar>x - of_int n\<bar> \<le> of_int n / 2 ^ 53" unfolding x_def using assms by (intro dbl_error) simp
  have "of_int n / 2 ^ 53 \<le> (of_int n :: rat)" using assms by simp
  then have x: "0 \<le> x" using err by linarith
  obtain k where k: "k \<le> 4" "format_size n = fixed 1 (x / 1024 ^ k) @ [32] @ lit ([''B'', ''KB'', ''MB'', ''GB'', ''TB''] ! k)"
    "k = 4 \<or> x / 1024 ^ k < 1024" "k = 0 \<or> 1 \<le> x / 1024 ^ k"
    using size_in_unit [OF x, of 0 "[''B'', ''KB'', ''MB'', ''GB'']"] by (auto simp: format_size_def x_def)
  define y where "y = x / 1024 ^ k"
  have y: "0 \<le> y" using x by (simp add: y_def)
  define m where "m = nat (scaled 1 y)"
  have m: "int m = half_even (y * 10)" using half_even_mono_bounds(1) [of 0 "y * 10"] y by (simp add: m_def scaled_def)
  have "\<bar>of_nat m - y * 10\<bar> \<le> (1 / 2 :: rat)"
    using half_even_error [of "y * 10"] unfolding m [symmetric] by simp
  then have "\<bar>of_nat m / 10 - y\<bar> \<le> 1 / 20" by linarith
  then have "\<bar>of_nat m / 10 * 1024 ^ k - x\<bar> \<le> 1024 ^ k / 20"
  proof -
    assume *: "\<bar>of_nat m / 10 - y\<bar> \<le> 1 / 20"
    have "of_nat m / 10 * 1024 ^ k - x = (of_nat m / 10 - y) * 1024 ^ k" by (simp add: y_def left_diff_distrib)
    then show ?thesis using mult_right_mono [OF *, of "1024 ^ k"] by (simp add: abs_mult)
  qed
  then have "\<bar>of_nat m / 10 * 1024 ^ k - of_int n\<bar> \<le> 1024 ^ k / 20 + (of_int n / 2 ^ 53 :: rat)" using err by linarith
  moreover have "k = 4 \<or> m \<le> 10240"
    using k(3) [folded y_def] half_even_mono_bounds(2) [of "y * 10" 10240] m by auto
  moreover have "k = 0 \<or> 10 \<le> m"
    using k(4) [folded y_def] half_even_mono_bounds(1) [of 10 "y * 10"] m by auto
  ultimately show ?thesis using k(1,2) fixed_tenths [OF y] by (intro exI [of _ k] exI [of _ m]) (simp add: y_def m_def)
qed

theorem size_text_witness:
  "\<exists>k m. k \<le> 4 \<and> format_size 1536 = dec_digits (m div 10) @ 46 # dec_digits (m mod 10) @ 32 # lit ([''B'', ''KB'', ''MB'', ''GB'', ''TB''] ! k)
    \<and> \<bar>of_nat m / 10 * 1024 ^ k - 1536\<bar> \<le> 1024 ^ k / 20 + (1536 / 2 ^ 53 :: rat) \<and> (k = 4 \<or> m \<le> 10240) \<and> (k = 0 \<or> 10 \<le> m)"
  using size_text [of 1536] by simp

end
