(* ===== verification/Ui_Window.thy ===== *)
theory Ui_Window
  imports Sizes Ui_Commands
begin

text \<open>
  \<^verbatim>\<open>FerryMainWindow\<close> of \<^verbatim>\<open>ui/window.py\<close>: what the window keeps of sessions, dialogs, transfers and lists, and what
  its handlers make of events and of the user. Of a widget the model keeps the texts and flags that
  the code sets; layout and style are left out.
\<close>

section \<open>State\<close>

text \<open>A row of a running transfer; its button cancels \<open>tr_transfer\<close>.\<close>

record transfer_row =
  tr_transfer :: pystr
  tr_title :: pystr
  tr_subtitle :: pystr
  tr_label :: pystr
  tr_fraction :: rat
  tr_cancel_visible :: bool
  tr_cancel_sensitive :: bool

text \<open>
  A row of the other lists: its texts, the address that its buttons send to, the key that its button
  unpairs, the transfer that its button resumes.
\<close>

record list_row =
  lr_title :: pystr
  lr_subtitle :: pystr
  lr_icon :: pystr
  lr_badge :: pystr
  lr_send :: "pystr option"
  lr_unpair :: "json option"
  lr_resume :: "json option"

type_synonym session_info = "(pystr, json) dict"

text \<open>What \<^verbatim>\<open>GLib.idle_add\<close> has queued.\<close>

datatype idle =
    Idle_Devices json
  | Idle_Device_Rows json
  | Idle_Trusted json
  | Idle_History json
  | Idle_Session pystr pystr
  | Idle_Request pystr pystr pystr int
  | Idle_Pairing pystr pystr pystr
  | Idle_Update_Trusted
  | Idle_Update_History
  | Idle_Diagnostics
  | Idle_Pending pystr

text \<open>
  Rows of transfers are objects: \<open>wi_row\<close> holds them, \<open>wi_transfer_rows\<close> are those shown, \<open>wi_transfers\<close> those that are
  updated, with the total. \<open>wi_timers\<close> are the rows that a timeout will remove. \<open>wi_dialogs\<close> are the pairing
  dialogs, \<open>wi_requests\<close> those for incoming transfers. \<open>wi_asked\<close> are the calls of the application.
\<close>

record window =
  wi_sessions :: "(pystr, session_info) dict"
  wi_row :: "nat \<Rightarrow> transfer_row"
  wi_next_row :: nat
  wi_transfer_rows :: "nat list"
  wi_transfers :: "(pystr, nat \<times> int) dict"
  wi_timers :: "nat list"
  wi_dialogs :: "(pystr, pystr \<times> pystr) dict"
  wi_requests :: "(pystr \<times> pystr \<times> pystr \<times> int) list"
  wi_pending :: "pystr option"
  wi_send :: bool
  wi_send_files :: bool
  wi_send_dir :: bool
  wi_trusted :: "list_row list"
  wi_devices :: "list_row list"
  wi_history :: "list_row list"
  wi_identity :: pystr
  wi_peer :: pystr
  wi_errors :: "pystr list"
  wi_idle :: "idle list"
  wi_asked :: "ui_command list"

text \<open>\<^verbatim>\<open>str.capitalize\<close> on any text, and whether closing a dialog from the program makes it respond.\<close>

record ui_env =
  ue_platform :: platform
  ue_capitalize :: "pystr \<Rightarrow> pystr"
  ue_close_responds :: bool

type_synonym 'a win = "(window, 'a) eff"

definition ask :: "ui_command \<Rightarrow> unit win" where
  "ask c = upd (\<lambda>w. w\<lparr>wi_asked := wi_asked w @ [c]\<rparr>)"

definition idle_add :: "idle \<Rightarrow> unit win" where
  "idle_add i = upd (\<lambda>w. w\<lparr>wi_idle := wi_idle w @ [i]\<rparr>)"

definition show_error_toast :: "pystr \<Rightarrow> unit win" where
  "show_error_toast message = upd (\<lambda>w. w\<lparr>wi_errors := wi_errors w @ [message]\<rparr>)"

section \<open>JSON values\<close>

text \<open>\<^verbatim>\<open>d.get(k)\<close>, \<^verbatim>\<open>v or x\<close>; equality of values is that of their constructors.\<close>

definition field_of :: "session_info \<Rightarrow> string \<Rightarrow> json" where
  "field_of d k = (case dict_get d (lit k) of None \<Rightarrow> JNull | Some v \<Rightarrow> v)"

definition json_or :: "platform \<Rightarrow> json \<Rightarrow> json \<Rightarrow> json" where
  "json_or pf v dflt = (if py_bool pf v then v else dflt)"

fun hashable :: "json \<Rightarrow> bool" where
  "hashable (JArr vs) = False"
| "hashable (JObj d) = False"
| "hashable _ = True"

definition as_list :: "json \<Rightarrow> json list res" where
  "as_list j = (case j of JArr vs \<Rightarrow> Inr vs | _ \<Rightarrow> Inl TypeError)"

definition is_established :: "session_info \<Rightarrow> bool" where
  "is_established s \<longleftrightarrow> dict_get s (lit ''state'') = Some (JStr (lit ''ESTABLISHED''))"

definition established :: "window \<Rightarrow> (pystr \<times> session_info) list" where
  "established w = filter (is_established \<circ> snd) (wi_sessions w)"

section \<open>Rows of transfers\<close>

definition plain_row :: "pystr \<Rightarrow> transfer_row" where
  "plain_row title =
     \<lparr>tr_transfer = [], tr_title = title, tr_subtitle = [], tr_label = [], tr_fraction = 0, tr_cancel_visible = False, tr_cancel_sensitive = True\<rparr>"

abbreviation no_transfers :: pystr where "no_transfers \<equiv> lit ''No active transfers''"

definition show_transfers_empty :: "unit win" where
  "show_transfers_empty = upd (\<lambda>w.
     w\<lparr>wi_row := (wi_row w)(wi_next_row w := plain_row no_transfers), wi_next_row := Suc (wi_next_row w),
       wi_transfer_rows := [wi_next_row w]\<rparr>)"

text \<open>The placeholder goes when the first transfer comes. \<open>8593\<close> and \<open>8595\<close> are the arrows, \<open>8230\<close> the dots.\<close>

definition shown_rows :: "window \<Rightarrow> nat list" where
  "shown_rows w =
     (case wi_transfer_rows w of [r] \<Rightarrow> if tr_title (wi_row w r) = no_transfers then [] else [r] | rs \<Rightarrow> rs)"

definition add_transfer_row :: "pystr \<Rightarrow> pystr \<Rightarrow> int \<Rightarrow> nat \<Rightarrow> unit win" where
  "add_transfer_row transfer_id file_name total_bytes arrow = upd (\<lambda>w.
     w\<lparr>wi_row := (wi_row w)(wi_next_row w :=
         \<lparr>tr_transfer = transfer_id, tr_title = arrow # [32, 32] @ file_name, tr_subtitle = lit ''Waiting'' @ [8230], tr_label = lit ''0 B'', tr_fraction = 0,
          tr_cancel_visible = True, tr_cancel_sensitive = True\<rparr>),
       wi_next_row := Suc (wi_next_row w), wi_transfer_rows := shown_rows w @ [wi_next_row w],
       wi_transfers := dict_set transfer_id (wi_next_row w, total_bytes) (wi_transfers w)\<rparr>)"

definition on_row :: "nat \<Rightarrow> (transfer_row \<Rightarrow> transfer_row) \<Rightarrow> unit win" where
  "on_row r f = upd (\<lambda>w. w\<lparr>wi_row := (wi_row w)(r := f (wi_row w r))\<rparr>)"

definition update_transfer_progress :: "pystr \<Rightarrow> int \<Rightarrow> int \<Rightarrow> unit win" where
  "update_transfer_progress transfer_id bytes_done total_bytes = reads (\<lambda>w.
     case dict_get (wi_transfers w) transfer_id of
       None \<Rightarrow> ret ()
     | Some (r, whole) \<Rightarrow>
         (let fraction = if 0 < whole then dbl (of_int bytes_done / of_int whole) else if whole \<le> bytes_done then 1 else 0
          in on_row r (\<lambda>x. x\<lparr>tr_fraction := min fraction 1, tr_label := format_size bytes_done @ lit '' / '' @ format_size whole,
                             tr_subtitle := fixed 0 (dbl (fraction * 100)) @ lit ''%''\<rparr>)))"

definition update_transfer_history :: "unit win" where
  "update_transfer_history = ask (Ui_Get_History 50)"

definition update_trusted_devices :: "unit win" where
  "update_trusted_devices = ask Ui_Get_Trusted_Devices"

text \<open>The end of a transfer; a timeout removes its row later. \<open>10003\<close> and \<open>10007\<close> are the marks.\<close>

definition finish_row :: "pystr \<Rightarrow> (transfer_row \<Rightarrow> transfer_row) \<Rightarrow> unit win" where
  "finish_row transfer_id f = reads (\<lambda>w.
     case dict_get (wi_transfers w) transfer_id of
       None \<Rightarrow> ret ()
     | Some (r, whole) \<Rightarrow>
         seq (on_row r (f \<circ> tr_cancel_visible_update (\<lambda>_. False)))
             (upd (\<lambda>w. w\<lparr>wi_transfers := dict_pop transfer_id (wi_transfers w), wi_timers := wi_timers w @ [r]\<rparr>)))"

definition handle_transfer_complete :: "pystr \<Rightarrow> bool \<Rightarrow> unit win" where
  "handle_transfer_complete transfer_id success =
     seq (finish_row transfer_id (\<lambda>x.
            if success then x\<lparr>tr_fraction := 1, tr_label := lit ''Done '' @ [10003], tr_subtitle := lit ''Completed''\<rparr>
            else x\<lparr>tr_label := lit ''Failed '' @ [10007], tr_subtitle := lit ''Transfer failed or cancelled''\<rparr>))
         update_transfer_history"

fun lose_rows :: "pystr list \<Rightarrow> unit win" where
  "lose_rows [] = ret ()"
| "lose_rows (tid # tids) =
     seq (finish_row tid (\<lambda>x. x\<lparr>tr_label := lit ''Lost '' @ [10007], tr_subtitle := lit ''Connection lost''\<rparr>)) (lose_rows tids)"

text \<open>The timeout: removing a row that is not shown raises, which is ignored.\<close>

definition remove_row :: "nat \<Rightarrow> unit win" where
  "remove_row r =
     seq (upd (\<lambda>w. w\<lparr>wi_timers := remove1 r (wi_timers w), wi_transfer_rows := remove1 r (wi_transfer_rows w)\<rparr>))
         (reads (\<lambda>w. if wi_transfer_rows w = [] then show_transfers_empty else ret ()))"

definition cancel_clicked :: "nat \<Rightarrow> unit win" where
  "cancel_clicked r =
     seq (on_row r (tr_cancel_sensitive_update (\<lambda>_. False)))
         (bind (gets (\<lambda>w. tr_transfer (wi_row w r))) (\<lambda>transfer_id. ask (Ui_Cancel_Transfer transfer_id (lit ''USER_CANCELLED''))))"

section \<open>Sessions and dialogs\<close>

definition pairing_response :: "pystr \<Rightarrow> pystr \<Rightarrow> unit win" where
  "pairing_response remote_addr response_id =
     seq (upd (\<lambda>w. w\<lparr>wi_dialogs := dict_pop remote_addr (wi_dialogs w)\<rparr>))
         (ask (if response_id = lit ''accept'' then Ui_Accept_Pairing remote_addr else Ui_Reject_Pairing remote_addr))"

text \<open>The program closes a dialog, which may make it respond with \<^verbatim>\<open>"close"\<close>.\<close>

definition close_dialog :: "ui_env \<Rightarrow> pystr \<Rightarrow> unit win" where
  "close_dialog env remote_addr = reads (\<lambda>w.
     if dict_has (wi_dialogs w) remote_addr
     then seq (upd (\<lambda>w. w\<lparr>wi_dialogs := dict_pop remote_addr (wi_dialogs w)\<rparr>))
              (if ue_close_responds env then pairing_response remote_addr (lit ''close'') else ret ())
     else ret ())"

definition set_send_buttons :: "(window \<Rightarrow> bool) \<Rightarrow> unit win" where
  "set_send_buttons f = upd (\<lambda>w. w\<lparr>wi_send := f w, wi_send_files := f w, wi_send_dir := f w\<rparr>)"

definition handle_session_state :: "ui_env \<Rightarrow> pystr \<Rightarrow> pystr \<Rightarrow> unit win" where
  "handle_session_state env remote_addr st =
     seq (if st = lit ''ESTABLISHED''
          then seq update_trusted_devices (seq (close_dialog env remote_addr) (seq (set_send_buttons (\<lambda>_. True)) (idle_add Idle_Diagnostics)))
          else ret ())
         (if st \<in> {lit ''FAILED'', lit ''DISCONNECTED'', lit ''CLOSING''}
          then seq update_trusted_devices
              (seq (close_dialog env remote_addr)
              (seq (set_send_buttons (\<lambda>w. established w \<noteq> []))
              (seq (idle_add Idle_Diagnostics)
              (seq (reads (\<lambda>w. lose_rows (map fst (wi_transfers w)))) update_transfer_history))))
          else ret ())"

definition show_pairing_dialog :: "pystr \<Rightarrow> pystr \<Rightarrow> pystr \<Rightarrow> unit win" where
  "show_pairing_dialog remote_addr device_name sas = upd (\<lambda>w.
     if dict_has (wi_dialogs w) remote_addr then w
     else w\<lparr>wi_dialogs := dict_set remote_addr (device_name, sas) (wi_dialogs w)\<rparr>)"

definition handle_transfer_request :: "pystr \<Rightarrow> pystr \<Rightarrow> pystr \<Rightarrow> int \<Rightarrow> unit win" where
  "handle_transfer_request remote_addr transfer_id file_name file_size = upd (\<lambda>w.
     w\<lparr>wi_requests := wi_requests w @ [(remote_addr, transfer_id, file_name, file_size)]\<rparr>)"

definition request_response :: "pystr \<times> pystr \<times> pystr \<times> int \<Rightarrow> pystr \<Rightarrow> unit win" where
  "request_response rq response_id =
     (case rq of (remote_addr, transfer_id, file_name, file_size) \<Rightarrow>
        seq (upd (\<lambda>w. w\<lparr>wi_requests := remove1 rq (wi_requests w)\<rparr>))
            (if response_id = lit ''accept''
             then seq (add_transfer_row transfer_id file_name file_size 8595) (ask (Ui_Accept_Transfer remote_addr transfer_id))
             else ask (Ui_Reject_Transfer remote_addr transfer_id)))"

definition check_pending_send :: "unit win" where
  "check_pending_send = reads (\<lambda>w.
     case (wi_pending w, established w) of
       (Some (c # cs), (remote_addr, s) # rest) \<Rightarrow>
         seq (upd (wi_pending_update (\<lambda>_. None))) (ask (Ui_Send_File remote_addr (c # cs)))
     | _ \<Rightarrow> ret ())"

definition handle_pending_send :: "pystr \<Rightarrow> unit win" where
  "handle_pending_send file_path = seq (upd (wi_pending_update (\<lambda>_. Some file_path))) check_pending_send"

section \<open>The list of trusted devices\<close>

definition text_row :: "pystr \<Rightarrow> list_row" where
  "text_row title =
     \<lparr>lr_title = title, lr_subtitle = [], lr_icon = [], lr_badge = [], lr_send = None, lr_unpair = None, lr_resume = None\<rparr>"

fun known_ids :: "platform \<Rightarrow> json list \<Rightarrow> json list res" where
  "known_ids pf [] = Inr []"
| "known_ids pf (JObj d # vs) =
     (let i = field_of d ''device_id''
      in if \<not> py_bool pf i then known_ids pf vs
         else if hashable i then res_bind (known_ids pf vs) (\<lambda>is. Inr (i # is))
         else Inl TypeError)"
| "known_ids pf (v # vs) = known_ids pf vs"

fun device_items :: "json list \<Rightarrow> (json \<times> json \<times> json \<times> bool) list res" where
  "device_items [] = Inr []"
| "device_items (JObj d # vs) =
     res_bind (device_items vs) (\<lambda>is.
       Inr ((field_of d ''device_id'', field_of d ''device_name'', field_of d ''identity_public_key_b64'', True) # is))"
| "device_items (v # vs) = Inl AttributeError"

fun session_items :: "platform \<Rightarrow> json list \<Rightarrow> (pystr \<times> session_info) list \<Rightarrow> (json \<times> json \<times> json \<times> bool) list res" where
  "session_items pf known [] = Inr []"
| "session_items pf known ((addr, s) # rest) =
     (let i = json_or pf (field_of s ''remote_device_id'') (JStr addr)
      in if \<not> hashable i then Inl TypeError
         else if i \<in> set known then session_items pf known rest
         else res_bind (session_items pf (i # known) rest) (\<lambda>is.
           Inr ((i, json_or pf (field_of s ''remote_device_name'') (JStr (lit ''Android'')),
                 json_or pf (field_of s ''remote_static_pub_b64'') (JStr []), False) # is)))"

definition is_session_of :: "platform \<Rightarrow> json \<Rightarrow> json \<Rightarrow> pystr \<times> session_info \<Rightarrow> bool" where
  "is_session_of pf i key p \<longleftrightarrow> field_of (snd p) ''remote_device_id'' = i \<or> JStr (fst p) = i
     \<or> py_bool pf key \<and> field_of (snd p) ''remote_static_pub_b64'' = key"

text \<open>\<open>9679\<close> is the dot of the badge.\<close>

definition trusted_row :: "platform \<Rightarrow> (pystr \<times> session_info) list \<Rightarrow> json \<times> json \<times> json \<times> bool \<Rightarrow> list_row res" where
  "trusted_row pf est item =
     (case item of (i, name, key, in_db) \<Rightarrow>
        res_bind (as_text (json_or pf name (JStr (lit ''Unknown'')))) (\<lambda>title.
        res_bind (as_text (json_or pf i (JStr []))) (\<lambda>t.
          (let send = map_option fst (find (is_session_of pf i key) est)
           in Inr \<lparr>lr_title = title, lr_subtitle = take 24 t @ [8230], lr_icon = lit ''phone-symbolic'',
                   lr_badge = (if send = None then [] else 9679 # lit '' Connected''), lr_send = send,
                   lr_unpair = (if in_db then Some key else None), lr_resume = None\<rparr>))))"

fun add_trusted_rows :: "platform \<Rightarrow> (pystr \<times> session_info) list \<Rightarrow> (json \<times> json \<times> json \<times> bool) list \<Rightarrow> unit win" where
  "add_trusted_rows pf est [] = ret ()"
| "add_trusted_rows pf est (item # rest) =
     bind (lift (trusted_row pf est item)) (\<lambda>row.
     seq (upd (\<lambda>w. w\<lparr>wi_trusted := wi_trusted w @ [row]\<rparr>)) (add_trusted_rows pf est rest))"

definition update_trusted_rows :: "ui_env \<Rightarrow> json \<Rightarrow> unit win" where
  "update_trusted_rows env devices =
     seq (upd (\<lambda>w. w\<lparr>wi_trusted := [], wi_send := (established w \<noteq> [])\<rparr>))
    (seq check_pending_send
    (bind (gets established) (\<lambda>est.
     bind (lift (as_list devices)) (\<lambda>vs.
     bind (lift (known_ids (ue_platform env) vs)) (\<lambda>known.
     bind (lift (device_items vs)) (\<lambda>items.
     bind (lift (session_items (ue_platform env) known est)) (\<lambda>more.
       if items @ more = [] then upd (wi_trusted_update (\<lambda>_. [text_row (lit ''No trusted devices'')]))
       else add_trusted_rows (ue_platform env) est (items @ more))))))))"

definition unpair_clicked :: "json \<Rightarrow> unit win" where
  "unpair_clicked key = bind (lift (as_text key)) (\<lambda>k. ask (Ui_Remove_Trusted_Device k))"

end
