(* ===== verification/Ui_App.thy ===== *)
theory Ui_App
  imports Ui_Window
begin

text \<open>
  The rest of the window (lists of devices and transfers, the choice of files) and \<^verbatim>\<open>FerryApplication\<close> of
  \<^verbatim>\<open>ui/app.py\<close>: the events of the daemon, the calls it forwards, and any sequence of events, timeouts, idle
  callbacks and actions of the user.
\<close>

section \<open>Discovered devices\<close>

definition empty_devices_row :: list_row where
  "empty_devices_row = (text_row (lit ''No Raven Devices Discovered''))
     \<lparr>lr_subtitle := lit ''Ensure Raven is open on your Android phone on the same Wi-Fi'', lr_icon := lit ''network-wireless-offline-symbolic''\<rparr>"

definition first_address :: "platform \<Rightarrow> json \<Rightarrow> pystr res" where
  "first_address pf addresses =
     (if \<not> py_bool pf addresses then Inr (lit ''Unknown Address'')
      else case addresses of JArr (v # vs) \<Rightarrow> Inr (py_str pf v) | JStr (c # cs) \<Rightarrow> Inr [c] | JObj d \<Rightarrow> Inl KeyError | _ \<Rightarrow> Inl TypeError)"

text \<open>A text method of a value that is no text raises; \<open>8226\<close> is the bullet.\<close>

definition capitalized :: "ui_env \<Rightarrow> json \<Rightarrow> pystr res" where
  "capitalized env v = (case v of JStr s \<Rightarrow> Inr (ue_capitalize env s) | _ \<Rightarrow> Inl AttributeError)"

definition device_row :: "ui_env \<Rightarrow> json \<Rightarrow> list_row res" where
  "device_row env dev =
     (let pf = ue_platform env in
      res_bind (obj_get dev (lit ''device_name'') (JStr (lit ''Unknown''))) (\<lambda>device_name.
      res_bind (obj_get dev (lit ''addresses'') (JArr [])) (\<lambda>addresses.
      res_bind (obj_get dev (lit ''port'') (JInt 0)) (\<lambda>port.
      res_bind (obj_get dev (lit ''os_name'') (JStr (lit ''unknown''))) (\<lambda>os_name.
      res_bind (obj_get dev (lit ''protocol_version'') (JInt 1)) (\<lambda>protocol_version.
      res_bind (obj_get dev (lit ''device_type'') (JStr (lit ''desktop''))) (\<lambda>device_type.
      res_bind (as_text device_name) (\<lambda>title.
      res_bind (first_address pf addresses) (\<lambda>addr_str.
      res_bind (capitalized env os_name) (\<lambda>os.
        Inr ((text_row title)
          \<lparr>lr_subtitle := addr_str @ [58] @ py_str pf port @ [32, 8226] @ lit '' OS: '' @ os @ [32, 8226] @ lit '' Protocol v'' @ py_str pf protocol_version,
           lr_icon := (if device_type = JStr (lit ''mobile'') then lit ''phone-symbolic'' else lit ''computer-symbolic''),
           lr_badge := lit ''Available''\<rparr>)))))))))))"

fun add_device_rows :: "ui_env \<Rightarrow> json list \<Rightarrow> unit win" where
  "add_device_rows env [] = ret ()"
| "add_device_rows env (dev # devs) =
     bind (lift (device_row env dev)) (\<lambda>row.
     seq (upd (\<lambda>w. w\<lparr>wi_devices := wi_devices w @ [row]\<rparr>)) (add_device_rows env devs))"

definition update_device_rows :: "ui_env \<Rightarrow> json \<Rightarrow> unit win" where
  "update_device_rows env devices =
     seq (upd (wi_devices_update (\<lambda>_. [])))
         (if \<not> py_bool (ue_platform env) devices then upd (wi_devices_update (\<lambda>_. [empty_devices_row]))
          else bind (lift (as_list devices)) (add_device_rows env))"

section \<open>The history of transfers\<close>

definition history_list_row :: "ui_env \<Rightarrow> json \<Rightarrow> list_row res" where
  "history_list_row env rec =
     res_bind (obj_get rec (lit ''direction'') (JStr (lit ''OUTGOING''))) (\<lambda>direction.
     res_bind (obj_get rec (lit ''file_name'') (JStr (lit ''Unknown''))) (\<lambda>file_name.
     res_bind (obj_get rec (lit ''file_size'') (JInt 0)) (\<lambda>file_size.
     res_bind (obj_get rec (lit ''status'') (JStr (lit ''UNKNOWN''))) (\<lambda>st.
     res_bind (capitalized env direction) (\<lambda>dir.
     res_bind (as_int file_size) (\<lambda>n.
     res_bind (capitalized env st) (\<lambda>status_text.
     res_bind (obj_get rec (lit ''transfer_id'') (JStr [])) (\<lambda>transfer_id.
       let incoming = (direction = JStr (lit ''INCOMING'')) in
       Inr \<lparr>lr_title = (if incoming then 8595 else 8593) # [32, 32] @ py_str (ue_platform env) file_name,
            lr_subtitle = dir @ [32, 8226, 32] @ format_size n @ [32, 8226, 32] @ status_text,
            lr_icon = (if incoming then lit ''document-save-symbolic'' else lit ''document-send-symbolic''),
            lr_badge = (if st = JStr (lit ''COMPLETED'') then [10003]
                        else if st = JStr (lit ''FAILED'') \<or> st = JStr (lit ''CANCELLED'') then [10007] else [9208]),
            lr_send = None, lr_unpair = None,
            lr_resume = (if st = JStr (lit ''INTERRUPTED'') \<and> incoming then Some transfer_id else None)\<rparr>))))))))"

fun add_history_rows :: "ui_env \<Rightarrow> json list \<Rightarrow> unit win" where
  "add_history_rows env [] = ret ()"
| "add_history_rows env (rec # recs) =
     bind (lift (history_list_row env rec)) (\<lambda>row.
     seq (upd (\<lambda>w. w\<lparr>wi_history := wi_history w @ [row]\<rparr>)) (add_history_rows env recs))"

definition update_history_rows :: "ui_env \<Rightarrow> json \<Rightarrow> unit win" where
  "update_history_rows env records =
     seq (upd (wi_history_update (\<lambda>_. [])))
         (if \<not> py_bool (ue_platform env) records then upd (wi_history_update (\<lambda>_. [text_row (lit ''No transfer history'')]))
          else bind (lift (as_list records)) (add_history_rows env))"

definition send_target :: "window \<Rightarrow> pystr option" where
  "send_target w = (case established w of [] \<Rightarrow> None | (remote_addr, s) # rest \<Rightarrow> Some remote_addr)"

definition resume_clicked :: "json \<Rightarrow> unit win" where
  "resume_clicked transfer_id = reads (\<lambda>w.
     case send_target w of
       None \<Rightarrow> show_error_toast (lit ''No active connection to peer to resume'')
     | Some remote_addr \<Rightarrow> bind (lift (as_text transfer_id)) (\<lambda>tid. ask (Ui_Request_Resume remote_addr tid)))"

section \<open>Diagnostics\<close>

definition update_diagnostics :: "ui_env \<Rightarrow> json \<Rightarrow> unit win" where
  "update_diagnostics env identity_key =
     seq (if py_bool (ue_platform env) identity_key
          then bind (lift (as_text identity_key)) (\<lambda>k. upd (wi_identity_update (\<lambda>_. k))) else ret ())
         (upd (\<lambda>w. w\<lparr>wi_peer :=
            (case established w of
               [] \<Rightarrow> lit ''Not connected''
             | (addr, s) # rest \<Rightarrow>
                 py_str (ue_platform env) (case dict_get s (lit ''remote_device_name'') of None \<Rightarrow> JStr (lit ''Unknown'') | Some v \<Rightarrow> v)
                   @ lit '' - ''
                   @ py_str (ue_platform env) (case dict_get s (lit ''remote_addr'') of None \<Rightarrow> JStr (lit ''Unknown IP'') | Some v \<Rightarrow> v)
                   @ lit '' (ESTABLISHED)'')\<rparr>))"

section \<open>Choosing what to send\<close>

text \<open>What comes of the file dialogs: the path, its last component, whether it is a file and its size. The row gets an id of
  its own.\<close>

definition file_chosen :: "pystr \<Rightarrow> pystr \<Rightarrow> pystr \<Rightarrow> bool \<Rightarrow> int \<Rightarrow> pystr \<Rightarrow> unit win" where
  "file_chosen remote_addr file_path name is_a_file file_size fresh_id =
     (if \<not> is_a_file then show_error_toast (lit ''Not a file: '' @ name)
      else seq (add_transfer_row fresh_id name file_size 8593) (ask (Ui_Send_File remote_addr file_path)))"

definition files_chosen :: "pystr \<Rightarrow> pystr list \<Rightarrow> unit win" where
  "files_chosen remote_addr paths =
     (if paths = [] then ret ()
      else ask (Ui_Send_Batch remote_addr paths (int_str (int (length paths)) @ lit '' files'')))"

definition folders_chosen :: "pystr \<Rightarrow> (pystr \<times> pystr) list \<Rightarrow> unit win" where
  "folders_chosen remote_addr folders =
     (case folders of
        [] \<Rightarrow> ret ()
      | (p, name) # rest \<Rightarrow>
          ask (Ui_Send_Batch remote_addr (map fst folders)
            (name @ (if rest = [] then [] else lit '' and '' @ int_str (int (length rest)) @ lit '' others''))))"

section \<open>Events\<close>

record ui =
  ui_window :: window
  ui_config :: json
  ui_identity_prefix :: json
  ui_discovered :: json
  ui_trusted_list :: json

definition on_window :: "'a win \<Rightarrow> (ui, 'a) eff" where
  "on_window m = (\<lambda>u. case m (ui_window u) of (r, w) \<Rightarrow> (r, u\<lparr>ui_window := w\<rparr>))"

definition merge_fields :: "(pystr \<times> json) list \<Rightarrow> session_info \<Rightarrow> session_info" where
  "merge_fields kvs s = fold (\<lambda>(k, v). dict_set k v) kvs s"

definition handle_session_update :: "json \<Rightarrow> unit win" where
  "handle_session_update payload =
     bind (lift (text_field_or payload ''remote_addr'' '''')) (\<lambda>remote_addr.
     bind (lift (text_field_or payload ''state'' '''')) (\<lambda>state_name.
     seq (upd (\<lambda>w. w\<lparr>wi_sessions :=
            (if state_name = lit ''DISCONNECTED'' then dict_pop remote_addr (wi_sessions w)
             else dict_set remote_addr
               (merge_fields (case payload of JObj kvs \<Rightarrow> kvs | _ \<Rightarrow> [])
                  (case dict_get (wi_sessions w) remote_addr of None \<Rightarrow> [(lit ''remote_addr'', JStr remote_addr)] | Some s \<Rightarrow> s))
               (wi_sessions w))\<rparr>))
         (idle_add (Idle_Session remote_addr state_name))))"

fun session_table :: "json list \<Rightarrow> (pystr, session_info) dict \<Rightarrow> (pystr, session_info) dict res" where
  "session_table [] acc = Inr acc"
| "session_table (v # vs) acc =
     res_bind (text_field v ''remote_addr'') (\<lambda>a.
       session_table vs (dict_set a (case v of JObj d \<Rightarrow> d | _ \<Rightarrow> []) acc))"

fun queue_sessions :: "json list \<Rightarrow> unit win" where
  "queue_sessions [] = ret ()"
| "queue_sessions (v # vs) =
     bind (lift (text_field v ''remote_addr'')) (\<lambda>a.
     bind (lift (text_field_or v ''state'' ''DISCONNECTED'')) (\<lambda>st.
     seq (idle_add (Idle_Session a st)) (queue_sessions vs)))"

text \<open>The snapshot carries no trusted devices, so their list is emptied.\<close>

definition apply_state_snapshot :: "ui_env \<Rightarrow> json \<Rightarrow> json \<Rightarrow> unit win" where
  "apply_state_snapshot env devices sessions =
     bind (lift (as_list (json_or (ue_platform env) sessions (JArr [])))) (\<lambda>vs.
     bind (lift (session_table vs [])) (\<lambda>table.
     seq (upd (wi_sessions_update (\<lambda>_. table)))
    (seq (idle_add (Idle_Devices (json_or (ue_platform env) devices (JArr []))))
    (seq (idle_add (Idle_Trusted (JArr []))) (queue_sessions vs)))))"

definition on_snapshot :: "ui_env \<Rightarrow> json \<Rightarrow> (ui, unit) eff" where
  "on_snapshot env payload =
     bind (lift (obj_get payload (lit ''config'') (JObj []))) (\<lambda>config.
     seq (upd (ui_config_update (\<lambda>_. config)))
    (bind (lift (obj_get payload (lit ''identity_key_prefix'') (JStr []))) (\<lambda>prefix.
     seq (upd (ui_identity_prefix_update (\<lambda>_. prefix)))
    (bind (lift (obj_get payload (lit ''devices'') (JArr []))) (\<lambda>devices.
     bind (lift (obj_get payload (lit ''sessions'') (JArr []))) (\<lambda>sessions.
       on_window (apply_state_snapshot env devices sessions)))))))"

definition int_field_or :: "json \<Rightarrow> string \<Rightarrow> int res" where
  "int_field_or payload k = res_bind (obj_get payload (lit k) (JInt 0)) as_int"

text \<open>
  The callbacks by the name they are registered under. Texts and numbers must have the type the daemon sends.
  \<^verbatim>\<open>connected\<close> and \<^verbatim>\<open>disconnected\<close> change nothing.
\<close>

definition on_event :: "ui_env \<Rightarrow> pystr \<Rightarrow> json \<Rightarrow> (ui, unit) eff" where
  "on_event env event payload =
     (if event = lit ''state_snapshot'' then on_snapshot env payload
      else if event = lit ''device_update'' then
        bind (lift (obj_get payload (lit ''devices'') (JArr []))) (\<lambda>devices.
        seq (upd (ui_discovered_update (\<lambda>_. devices))) (on_window (idle_add (Idle_Devices devices))))
      else if event = lit ''session_update'' then on_window (handle_session_update payload)
      else if event = lit ''transfer_request'' then
        bind (lift (text_field_or payload ''remote_addr'' '''')) (\<lambda>remote_addr.
        bind (lift (text_field_or payload ''transfer_id'' '''')) (\<lambda>transfer_id.
        bind (lift (text_field_or payload ''file_name'' '''')) (\<lambda>file_name.
        bind (lift (int_field_or payload ''file_size'')) (\<lambda>file_size.
          on_window (idle_add (Idle_Request remote_addr transfer_id file_name file_size))))))
      else if event = lit ''transfer_progress'' then
        bind (lift (text_field_or payload ''transfer_id'' '''')) (\<lambda>transfer_id.
        bind (lift (int_field_or payload ''bytes_done'')) (\<lambda>bytes_done.
        bind (lift (int_field_or payload ''total_bytes'')) (\<lambda>total_bytes.
          on_window (update_transfer_progress transfer_id bytes_done total_bytes))))
      else if event = lit ''transfer_complete'' then
        bind (lift (text_field_or payload ''transfer_id'' '''')) (\<lambda>transfer_id.
        bind (lift (obj_get payload (lit ''success'') (JBool False))) (\<lambda>success.
          on_window (handle_transfer_complete transfer_id (py_bool (ue_platform env) success))))
      else if event = lit ''pairing_request'' then
        bind (lift (text_field_or payload ''remote_addr'' '''')) (\<lambda>remote_addr.
        bind (lift (text_field_or payload ''device_name'' '''')) (\<lambda>device_name.
        bind (lift (text_field_or payload ''sas_code'' '''')) (\<lambda>sas.
          on_window (idle_add (Idle_Pairing remote_addr device_name sas)))))
      else if event = lit ''history_result'' then
        bind (lift (obj_get payload (lit ''records'') (JArr []))) (\<lambda>records. on_window (idle_add (Idle_History records)))
      else if event = lit ''trusted_devices'' then
        bind (lift (obj_get payload (lit ''devices'') (JArr []))) (\<lambda>devices.
        seq (upd (ui_trusted_list_update (\<lambda>_. devices))) (on_window (idle_add (Idle_Trusted devices))))
      else ret ())"

fun run_idle :: "ui_env \<Rightarrow> json \<Rightarrow> idle \<Rightarrow> unit win" where
  "run_idle env ident (Idle_Devices devices) = idle_add (Idle_Device_Rows devices)"
| "run_idle env ident (Idle_Device_Rows devices) = update_device_rows env devices"
| "run_idle env ident (Idle_Trusted devices) = update_trusted_rows env devices"
| "run_idle env ident (Idle_History records) = update_history_rows env records"
| "run_idle env ident (Idle_Session addr st) = handle_session_state env addr st"
| "run_idle env ident (Idle_Request addr tid file_name n) = handle_transfer_request addr tid file_name n"
| "run_idle env ident (Idle_Pairing addr name sas) = show_pairing_dialog addr name sas"
| "run_idle env ident Idle_Update_Trusted = update_trusted_devices"
| "run_idle env ident Idle_Update_History = update_transfer_history"
| "run_idle env ident Idle_Diagnostics = update_diagnostics env ident"
| "run_idle env ident (Idle_Pending p) = handle_pending_send p"

text \<open>\<^verbatim>\<open>_queue_send\<close>: the window has no method for several files.\<close>

definition queue_send :: "pystr list \<Rightarrow> unit win" where
  "queue_send paths = (case paths of [p] \<Rightarrow> idle_add (Idle_Pending p) | _ \<Rightarrow> ret ())"

section \<open>Calls of the application\<close>

text \<open>
  Where a call goes: to the daemon, or to the service of the same process, which lacks what the queries of the lists and
  the clipboard setting need.
\<close>

datatype forwarded = To_Daemon ui_command | To_Service ui_command | To_Nobody

definition forward :: "bool \<Rightarrow> ui_command \<Rightarrow> forwarded" where
  "forward in_process c =
     (if \<not> in_process then To_Daemon c
      else case c of
             Ui_Get_History n \<Rightarrow> To_Nobody
           | Ui_Get_Trusted_Devices \<Rightarrow> To_Nobody
           | Ui_Set_Clipboard_Sync b \<Rightarrow> To_Nobody
           | _ \<Rightarrow> To_Service c)"

text \<open>\<^verbatim>\<open>on\<close> of the client, and the events for which \<^verbatim>\<open>_start_ipc_client\<close> calls it.\<close>

definition client_events :: "pystr list" where
  "client_events = map lit [''state_snapshot'', ''device_update'', ''session_update'', ''transfer_request'', ''transfer_progress'',
     ''transfer_complete'', ''pairing_request'', ''clipboard_incoming'', ''history_result'', ''trusted_devices'', ''connected'', ''disconnected'']"

definition register :: "pystr \<Rightarrow> pystr set \<Rightarrow> pystr set res" where
  "register event registered = (if event \<in> set client_events then Inr (insert event registered) else Inl ValueError)"

fun register_each :: "pystr list \<Rightarrow> pystr set \<Rightarrow> pystr set res" where
  "register_each [] registered = Inr registered"
| "register_each (e # es) registered = res_bind (register e registered) (register_each es)"

definition start_ipc_client :: "pystr set res" where
  "start_ipc_client = register_each (map lit [''connected'', ''disconnected'', ''state_snapshot'', ''device_update'', ''session_update'',
     ''transfer_request'', ''transfer_progress'', ''transfer_complete'', ''pairing_request'', ''history_result'', ''trusted_devices'']) {}"

text \<open>\<^verbatim>\<open>_schedule\<close> and \<^verbatim>\<open>_send_raw\<close>: without a connection the command is dropped.\<close>

definition sent_message :: "bool \<Rightarrow> ui_command \<Rightarrow> (pystr \<times> json) option" where
  "sent_message has_connection c = (if has_connection then Some (command_message c) else None)"

section \<open>Steps\<close>

text \<open>
  The callback of an event, the first idle callback, a timeout, the buttons and dialogs of the user as far as they
  are shown, and files given on the command line. An exception of a callback is printed by the main loop.
\<close>

datatype ui_op =
    Do_Event pystr json
  | Do_Idle
  | Do_Timer nat
  | Do_Pairing pystr pystr
  | Do_Request "pystr \<times> pystr \<times> pystr \<times> int" pystr
  | Do_Cancel nat
  | Do_Unpair json
  | Do_Resume json
  | Do_File pystr pystr pystr bool int pystr
  | Do_Files pystr "pystr list"
  | Do_Folders pystr "(pystr \<times> pystr) list"
  | Do_Queue "pystr list"

definition on_window_step :: "'a win \<Rightarrow> ui \<Rightarrow> ui" where
  "on_window_step m u = snd (on_window m u)"

fun ui_step :: "ui_env \<Rightarrow> ui_op \<Rightarrow> ui \<Rightarrow> ui" where
  "ui_step env (Do_Event event payload) u = snd (on_event env event payload u)"
| "ui_step env Do_Idle u =
     (case wi_idle (ui_window u) of
        [] \<Rightarrow> u
      | i # is \<Rightarrow> on_window_step (seq (upd (wi_idle_update (\<lambda>_. is))) (run_idle env (ui_identity_prefix u) i)) u)"
| "ui_step env (Do_Timer r) u = (if r \<in> set (wi_timers (ui_window u)) then on_window_step (remove_row r) u else u)"
| "ui_step env (Do_Pairing addr response) u =
     (if dict_has (wi_dialogs (ui_window u)) addr then on_window_step (pairing_response addr response) u else u)"
| "ui_step env (Do_Request rq response) u =
     (if rq \<in> set (wi_requests (ui_window u)) then on_window_step (request_response rq response) u else u)"
| "ui_step env (Do_Cancel r) u =
     (if r \<in> set (wi_transfer_rows (ui_window u)) \<and> tr_cancel_visible (wi_row (ui_window u) r)
         \<and> tr_cancel_sensitive (wi_row (ui_window u) r)
      then on_window_step (cancel_clicked r) u else u)"
| "ui_step env (Do_Unpair key) u =
     (if Some key \<in> lr_unpair ` set (wi_trusted (ui_window u)) then on_window_step (unpair_clicked key) u else u)"
| "ui_step env (Do_Resume tid) u =
     (if Some tid \<in> lr_resume ` set (wi_history (ui_window u)) then on_window_step (resume_clicked tid) u else u)"
| "ui_step env (Do_File addr p name b n i) u = on_window_step (file_chosen addr p name b n i) u"
| "ui_step env (Do_Files addr ps) u = on_window_step (files_chosen addr ps) u"
| "ui_step env (Do_Folders addr ps) u = on_window_step (folders_chosen addr ps) u"
| "ui_step env (Do_Queue ps) u = on_window_step (queue_send ps) u"

fun ui_run :: "ui_env \<Rightarrow> ui_op list \<Rightarrow> ui \<Rightarrow> ui" where
  "ui_run env [] u = u"
| "ui_run env (op # ops) u = ui_run env ops (ui_step env op u)"

lemma ui_run_append: "ui_run env (xs @ ys) u = ui_run env ys (ui_run env xs u)"
  by (induction xs arbitrary: u) auto

definition new_window :: window where
  "new_window =
     \<lparr>wi_sessions = [], wi_row = (\<lambda>_. plain_row no_transfers), wi_next_row = 1, wi_transfer_rows = [0], wi_transfers = [], wi_timers = [],
      wi_dialogs = [], wi_requests = [], wi_pending = None, wi_send = False, wi_send_files = False, wi_send_dir = False,
      wi_trusted = [], wi_devices = [empty_devices_row], wi_history = [], wi_identity = [8212], wi_peer = lit ''Not connected'',
      wi_errors = [], wi_idle = [Idle_Update_Trusted, Idle_Update_History, Idle_Diagnostics], wi_asked = []\<rparr>"

definition new_ui :: ui where
  "new_ui = \<lparr>ui_window = new_window, ui_config = JObj [], ui_identity_prefix = JStr [], ui_discovered = JArr [], ui_trusted_list = JArr []\<rparr>"

end
