(* ===== verification/Ui_Safety.thy ===== *)
theory Ui_Safety
  imports Ui_App
begin

text \<open>
  What holds in every run of the user interface: nothing is accepted that the user did not accept in a dialog, and the
  rows of transfers stay in order.
\<close>

section \<open>Invariants of the window\<close>

text \<open>Commands that need the consent of the user, and idle callbacks that open a dialog.\<close>

fun consenting :: "ui_command \<Rightarrow> bool" where
  "consenting (Ui_Accept_Pairing addr) = True"
| "consenting (Ui_Accept_Transfer addr tid) = True"
| "consenting (Ui_Accept_Batch addr bid) = True"
| "consenting _ = False"

fun opens_dialog :: "idle \<Rightarrow> bool" where
  "opens_dialog (Idle_Request addr tid file_name n) = True"
| "opens_dialog (Idle_Pairing addr name sas) = True"
| "opens_dialog _ = False"

text \<open>
  The steps that bring or answer a dialog, and those that change the table of sessions.
\<close>

definition dialog_step :: "window \<Rightarrow> ui_op \<Rightarrow> bool" where
  "dialog_step w op =
     (case op of
        Do_Event event payload \<Rightarrow> event = lit ''pairing_request'' \<or> event = lit ''transfer_request''
      | Do_Idle \<Rightarrow> (case wi_idle w of [] \<Rightarrow> False | i # is \<Rightarrow> opens_dialog i)
      | Do_Pairing addr response \<Rightarrow> True
      | Do_Request rq response \<Rightarrow> True
      | _ \<Rightarrow> False)"

definition sessions_event :: "ui_op \<Rightarrow> bool" where
  "sessions_event op =
     (case op of Do_Event event payload \<Rightarrow> event = lit ''state_snapshot'' \<or> event = lit ''session_update'' | _ \<Rightarrow> False)"

lemma on_window_apply [simp]: "snd (on_window m u) = u\<lparr>ui_window := snd (m (ui_window u))\<rparr>"
  by (simp add: on_window_def split: prod.split)

lemma keeps_on_window: "keeps I m \<Longrightarrow> keeps (\<lambda>u. I (ui_window u)) (on_window m)"
  by (simp add: keeps_def)

text \<open>
  An invariant that survives the elementary changes survives every handler, except those that open a dialog or
  carry the user's consent.
\<close>

locale window_invariant =
  fixes I :: "window \<Rightarrow> bool"
  assumes ask_keeps: "\<not> consenting c \<Longrightarrow> I w \<Longrightarrow> I (w\<lparr>wi_asked := wi_asked w @ [c]\<rparr>)"
    and idle_keeps: "\<not> opens_dialog i \<Longrightarrow> I w \<Longrightarrow> I (w\<lparr>wi_idle := wi_idle w @ [i]\<rparr>)"
    and dialog_keeps: "I w \<Longrightarrow> I (w\<lparr>wi_dialogs := dict_pop addr (wi_dialogs w)\<rparr>)"
    and lists_keep: "I w \<Longrightarrow> I (w\<lparr>wi_trusted := rows\<rparr>)" "I w \<Longrightarrow> I (w\<lparr>wi_devices := rows\<rparr>)" "I w \<Longrightarrow> I (w\<lparr>wi_history := rows\<rparr>)"
    and texts_keep: "I w \<Longrightarrow> I (w\<lparr>wi_identity := t\<rparr>)" "I w \<Longrightarrow> I (w\<lparr>wi_peer := t\<rparr>)" "I w \<Longrightarrow> I (w\<lparr>wi_errors := ts\<rparr>)"
    and buttons_keep: "I w \<Longrightarrow> I (w\<lparr>wi_send := a\<rparr>)" "I w \<Longrightarrow> I (w\<lparr>wi_send := a, wi_send_files := b, wi_send_dir := a'\<rparr>)"
    and pending_keeps: "I w \<Longrightarrow> I (w\<lparr>wi_pending := p\<rparr>)"
    and row_keeps: "I w \<Longrightarrow> I (w\<lparr>wi_row := (wi_row w)(r := (wi_row w r)\<lparr>tr_fraction := f, tr_label := t, tr_subtitle := st\<rparr>)\<rparr>)"
      "I w \<Longrightarrow> I (w\<lparr>wi_row := (wi_row w)(r := (wi_row w r)\<lparr>tr_cancel_sensitive := a\<rparr>)\<rparr>)"
    and idle_pop_keeps: "I w \<Longrightarrow> wi_idle w = i # is \<Longrightarrow> I (w\<lparr>wi_idle := is\<rparr>)"
    and add_row_keeps: "arrow \<in> {8593, 8595} \<Longrightarrow> keeps I (add_transfer_row tid file_name size_all arrow)"
    and finish_row_keeps: "(\<And>x. tr_title (g x) = tr_title x \<and> tr_cancel_visible (g x) = tr_cancel_visible x) \<Longrightarrow> keeps I (finish_row tid g)"
    and remove_row_keeps: "I w \<Longrightarrow> r \<in> set (wi_timers w) \<Longrightarrow> I (snd (remove_row r w))"
begin

lemma keeps_ask: "\<not> consenting c \<Longrightarrow> keeps I (ask c)"
  unfolding ask_def by (intro keeps_upd ask_keeps)

lemma keeps_idle: "\<not> opens_dialog i \<Longrightarrow> keeps I (idle_add i)"
  unfolding idle_add_def by (intro keeps_upd idle_keeps)

lemma keeps_queries: "keeps I update_transfer_history" "keeps I update_trusted_devices"
  by (simp_all add: update_transfer_history_def update_trusted_devices_def keeps_ask)

lemma keeps_progress: "keeps I (update_transfer_progress tid n size_all)"
  unfolding update_transfer_progress_def on_row_def keeps_def
  by (auto simp: reads_def upd_def ret_def Let_def intro: row_keeps split: option.split prod.split)

lemma keeps_done: "keeps I (handle_transfer_complete tid success)"
  unfolding handle_transfer_complete_def by (intro keeps_intros finish_row_keeps keeps_queries) simp

lemma keeps_lose: "keeps I (lose_rows tids)"
proof (induction tids)
  case (Cons tid tids)
  then show ?case unfolding lose_rows.simps by (intro keeps_intros finish_row_keeps) simp_all
qed (unfold lose_rows.simps, rule keeps_ret)

lemma keeps_close_dialog: "keeps I (close_dialog env addr)"
proof -
  have "keeps I (upd (\<lambda>w. w\<lparr>wi_dialogs := dict_pop addr (wi_dialogs w)\<rparr>))" by (intro keeps_upd dialog_keeps)
  then have "keeps I (pairing_response addr (lit ''close''))"
    unfolding pairing_response_def by (intro keeps_intros keeps_ask) simp_all
  with \<open>keeps I (upd _)\<close> show ?thesis unfolding close_dialog_def by (intro keeps_intros)
qed

lemma keeps_session_state: "keeps I (handle_session_state env addr st)"
  unfolding handle_session_state_def set_send_buttons_def
  by (intro keeps_intros keeps_queries keeps_close_dialog keeps_upd buttons_keep keeps_idle keeps_lose) simp_all

lemma keeps_pending: "keeps I check_pending_send" "keeps I (handle_pending_send p)"
proof -
  show c: "keeps I check_pending_send"
    unfolding check_pending_send_def
    by (intro keeps_reads) (auto intro!: keeps_intros keeps_upd pending_keeps keeps_ask split: option.split list.split prod.split)
  show "keeps I (handle_pending_send p)"
    unfolding handle_pending_send_def by (intro keeps_intros keeps_upd pending_keeps c)
qed

lemma keeps_rows: "keeps I (add_trusted_rows pf est items)" "keeps I (add_device_rows env vs)" "keeps I (add_history_rows env vs)"
proof -
  show "keeps I (add_trusted_rows pf est items)"
    by (induction items) (unfold add_trusted_rows.simps, (intro keeps_intros keeps_upd lists_keep; assumption)+)
  show "keeps I (add_device_rows env vs)" "keeps I (add_history_rows env vs)"
    by (induction vs) (unfold add_device_rows.simps add_history_rows.simps, (intro keeps_intros keeps_upd lists_keep; assumption)+)
qed

lemma keeps_updates: "keeps I (update_trusted_rows env v)" "keeps I (update_device_rows env v)" "keeps I (update_history_rows env v)"
    "keeps I (update_diagnostics env v)"
proof -
  show "keeps I (update_trusted_rows env v)"
    unfolding update_trusted_rows_def
    by (intro keeps_intros keeps_pending keeps_rows keeps_upd buttons_keep(1) lists_keep(1); assumption)
  show "keeps I (update_device_rows env v)" "keeps I (update_history_rows env v)"
    unfolding update_device_rows_def update_history_rows_def by (intro keeps_intros keeps_rows keeps_upd lists_keep; assumption)+
  show "keeps I (update_diagnostics env v)"
    unfolding update_diagnostics_def by (intro keeps_intros keeps_upd texts_keep)
qed

lemma keeps_clicks: "keeps I (cancel_clicked r)" "keeps I (unpair_clicked key)" "keeps I (resume_clicked v)"
    "keeps I (file_chosen addr p name b n i)" "keeps I (files_chosen addr ps)" "keeps I (folders_chosen addr qs)" "keeps I (queue_send ps)"
proof -
  have toast: "keeps I (show_error_toast m)" for m
    unfolding show_error_toast_def by (intro keeps_upd texts_keep)
  show "keeps I (cancel_clicked r)"
    unfolding cancel_clicked_def on_row_def by (intro keeps_intros keeps_upd row_keeps keeps_ask) simp_all
  show "keeps I (unpair_clicked key)"
    unfolding unpair_clicked_def by (intro keeps_intros keeps_ask) simp
  show "keeps I (resume_clicked v)"
    unfolding resume_clicked_def by (intro keeps_reads) (auto intro!: keeps_intros keeps_ask toast split: option.split)
  show "keeps I (file_chosen addr p name b n i)"
    unfolding file_chosen_def by (intro keeps_intros toast add_row_keeps keeps_ask) simp_all
  show "keeps I (files_chosen addr ps)" "keeps I (folders_chosen addr qs)"
    unfolding files_chosen_def folders_chosen_def by (auto intro!: keeps_intros keeps_ask split: list.split)
  show "keeps I (queue_send ps)"
    unfolding queue_send_def by (auto intro!: keeps_intros keeps_idle split: list.split)
qed

lemma keeps_run_idle: "\<not> opens_dialog i \<Longrightarrow> keeps I (run_idle env v i)"
  by (cases i) (simp_all add: keeps_idle keeps_updates keeps_session_state keeps_queries keeps_pending)

lemma step_keeps_if:
  assumes I: "I (ui_window u)" and "\<not> dialog_step (ui_window u) op"
    and events: "\<And>event payload. op = Do_Event event payload \<Longrightarrow> keeps (\<lambda>u. I (ui_window u)) (on_event env event payload)"
  shows "I (ui_window (ui_step env op u))"
proof (cases op)
  case (Do_Event event payload)
  from keepsD [OF events [OF this], of u] I show ?thesis by (simp add: Do_Event)
next
  case Do_Idle
  show ?thesis
  proof (cases "wi_idle (ui_window u)")
    case (Cons i "is")
    from idle_pop_keeps [OF I Cons] keeps_run_idle [of i env "ui_identity_prefix u"] Do_Idle Cons assms(2)
    show ?thesis by (simp add: on_window_step_def dialog_step_def keepsD)
  qed (use I Do_Idle in simp)
next
  case (Do_Timer r)
  with I show ?thesis by (simp add: on_window_step_def remove_row_keeps)
qed (use assms(1,2) in \<open>simp_all add: on_window_step_def dialog_step_def keepsD [OF keeps_clicks(1)] keepsD [OF keeps_clicks(2)]
  keepsD [OF keeps_clicks(3)] keepsD [OF keeps_clicks(4)] keepsD [OF keeps_clicks(5)] keepsD [OF keeps_clicks(6)] keepsD [OF keeps_clicks(7)]\<close>)

lemma keeps_plain_event:
  assumes "event \<noteq> lit ''pairing_request''" "event \<noteq> lit ''transfer_request''" "event \<noteq> lit ''state_snapshot''" "event \<noteq> lit ''session_update''"
  shows "keeps (\<lambda>u. I (ui_window u)) (on_event env event payload)"
proof -
  have idle: "\<not> opens_dialog i \<Longrightarrow> keeps (\<lambda>u. I (ui_window u)) (on_window (idle_add i))" for i
    by (intro keeps_on_window keeps_idle)
  show ?thesis
    unfolding on_event_def if_not_P [OF assms(1)] if_not_P [OF assms(2)] if_not_P [OF assms(3)] if_not_P [OF assms(4)]
    by (intro keeps_intros idle keeps_on_window [OF keeps_progress] keeps_on_window [OF keeps_done] keeps_upd) simp_all
qed

lemma step_keeps_plain:
  "I (ui_window u) \<Longrightarrow> \<not> dialog_step (ui_window u) op \<Longrightarrow> \<not> sessions_event op \<Longrightarrow> I (ui_window (ui_step env op u))"
  by (rule step_keeps_if) (auto simp: dialog_step_def sessions_event_def simp del: lit_simps intro: keeps_plain_event)

end

locale event_invariant = window_invariant +
  assumes sessions_keep: "I w \<Longrightarrow> I (w\<lparr>wi_sessions := t\<rparr>)"
begin

lemma keeps_session_update: "keeps I (handle_session_update payload)"
  unfolding handle_session_update_def by (intro keeps_intros keeps_upd sessions_keep keeps_idle) simp_all

lemma keeps_snapshot: "keeps I (apply_state_snapshot env devices sessions)"
proof -
  have "keeps I (queue_sessions vs)" for vs
    by (induction vs) (unfold queue_sessions.simps, (intro keeps_intros keeps_idle; simp)+)
  then show ?thesis
    unfolding apply_state_snapshot_def by (intro keeps_intros keeps_upd sessions_keep keeps_idle) simp_all
qed

lemma keeps_on_snapshot: "keeps (\<lambda>u. I (ui_window u)) (on_snapshot env payload)"
  unfolding on_snapshot_def by (intro keeps_intros keeps_on_window keeps_snapshot keeps_upd) simp_all

lemma keeps_event:
  assumes "event \<noteq> lit ''pairing_request''" "event \<noteq> lit ''transfer_request''"
  shows "keeps (\<lambda>u. I (ui_window u)) (on_event env event payload)"
proof -
  consider "event = lit ''state_snapshot''" | "event = lit ''session_update''" | "event \<noteq> lit ''state_snapshot''" "event \<noteq> lit ''session_update''"
    by blast
  then show ?thesis
  proof cases
    case 3
    with assms show ?thesis by (intro keeps_plain_event)
  qed (simp_all add: on_event_def keeps_on_snapshot keeps_on_window [OF keeps_session_update])
qed

lemma step_keeps:
  "I (ui_window u) \<Longrightarrow> \<not> dialog_step (ui_window u) op \<Longrightarrow> I (ui_window (ui_step env op u))"
  by (rule step_keeps_if) (auto simp: dialog_step_def intro: keeps_event)

end

section \<open>Consent\<close>

text \<open>The events that bring the dialogs, with what the dialogs show.\<close>

fun announces_pairing :: "pystr \<Rightarrow> pystr \<Rightarrow> pystr \<Rightarrow> ui_op \<Rightarrow> bool" where
  "announces_pairing addr name sas (Do_Event event payload) \<longleftrightarrow>
     event = lit ''pairing_request'' \<and> text_field_or payload ''remote_addr'' '''' = Inr addr
     \<and> text_field_or payload ''device_name'' '''' = Inr name \<and> text_field_or payload ''sas_code'' '''' = Inr sas"
| "announces_pairing addr name sas _ = False"

fun announces_request :: "pystr \<times> pystr \<times> pystr \<times> int \<Rightarrow> ui_op \<Rightarrow> bool" where
  "announces_request (addr, tid, file_name, n) (Do_Event event payload) \<longleftrightarrow>
     event = lit ''transfer_request'' \<and> text_field_or payload ''remote_addr'' '''' = Inr addr
     \<and> text_field_or payload ''transfer_id'' '''' = Inr tid \<and> text_field_or payload ''file_name'' '''' = Inr file_name
     \<and> int_field_or payload ''file_size'' = Inr n"
| "announces_request rq _ = False"

fun announced :: "ui_op list \<Rightarrow> idle \<Rightarrow> bool" where
  "announced ops (Idle_Pairing addr name sas) = list_ex (announces_pairing addr name sas) ops"
| "announced ops (Idle_Request addr tid file_name n) = list_ex (announces_request (addr, tid, file_name, n)) ops"
| "announced ops _ = True"

text \<open>A step of the user that consents to something, in a dialog shown at that moment.\<close>

fun consents_to :: "ui_env \<Rightarrow> ui_op list \<Rightarrow> ui_op \<Rightarrow> ui_command \<Rightarrow> bool" where
  "consents_to env pre op (Ui_Accept_Pairing addr) \<longleftrightarrow>
     op = Do_Pairing addr (lit ''accept'')
     \<and> (case dict_get (wi_dialogs (ui_window (ui_run env pre new_ui))) addr of
          None \<Rightarrow> False | Some (name, sas) \<Rightarrow> announced pre (Idle_Pairing addr name sas))"
| "consents_to env pre op (Ui_Accept_Transfer addr tid) \<longleftrightarrow>
     (case op of
        Do_Request (a, t, file_name, n) response \<Rightarrow>
          a = addr \<and> t = tid \<and> response = lit ''accept'' \<and> (a, t, file_name, n) \<in> set (wi_requests (ui_window (ui_run env pre new_ui)))
          \<and> announced pre (Idle_Request a t file_name n)
      | _ \<Rightarrow> False)"
| "consents_to env pre op _ = False"

definition traced :: "ui_env \<Rightarrow> ui_op list \<Rightarrow> window \<Rightarrow> bool" where
  "traced env ops w \<longleftrightarrow>
     (\<forall>c \<in> set (wi_asked w). consenting c \<longrightarrow> (\<exists>pre op post. ops = pre @ op # post \<and> consents_to env pre op c))
     \<and> (\<forall>(addr, name, sas) \<in> set (wi_dialogs w). announced ops (Idle_Pairing addr name sas))
     \<and> (\<forall>(addr, tid, file_name, n) \<in> set (wi_requests w). announced ops (Idle_Request addr tid file_name n))
     \<and> (\<forall>i \<in> set (wi_idle w). announced ops i)"

lemma not_opens_announced: "\<not> opens_dialog i \<Longrightarrow> announced ops i"
  by (cases i) simp_all

lemma announced_mono: "announced ops i \<Longrightarrow> announced (ops @ [op]) i"
  by (cases i) simp_all

text \<open>No change but a new dialog, request, command or idle callback is seen by \<open>traced\<close>.\<close>

lemma traced_cong:
  assumes "traced env ops w" "wi_asked w' = wi_asked w" "wi_dialogs w' = wi_dialogs w" "wi_requests w' = wi_requests w" "wi_idle w' = wi_idle w"
  shows "traced env ops w'"
  using assms by (simp add: traced_def)

interpretation trace: event_invariant "traced env ops" for env ops
proof
  show "keeps (traced env ops) (add_transfer_row tid file_name size_all arrow)" for tid file_name size_all arrow
    unfolding add_transfer_row_def by (intro keeps_upd) (erule traced_cong; simp)
  show "keeps (traced env ops) (finish_row tid g)" for tid g
    unfolding finish_row_def on_row_def by (intro keeps_intros) (auto intro!: keeps_intros keeps_upd elim: traced_cong split: prod.split)
  show "traced env ops w \<Longrightarrow> traced env ops (snd (remove_row r w))" for w r
    by (erule traced_cong) (simp_all add: remove_row_def show_transfers_empty_def)
qed (auto simp: traced_def dict_pop_def not_opens_announced)

text \<open>More steps justify no less; what a dialog step changes.\<close>

lemma traced_more: "traced env ops w \<Longrightarrow> traced env (ops @ [op]) w"
  unfolding traced_def by (fastforce simp: announced_mono simp del: announced.simps)

lemma traced_idle: "traced env ops w \<Longrightarrow> announced ops i \<Longrightarrow> traced env ops (w\<lparr>wi_idle := wi_idle w @ [i]\<rparr>)"
  by (auto simp: traced_def)

lemma traced_ask:
  "traced env (ops @ [op]) w \<Longrightarrow> consenting c \<longrightarrow> consents_to env ops op c \<Longrightarrow> traced env (ops @ [op]) (w\<lparr>wi_asked := wi_asked w @ [c]\<rparr>)"
  unfolding traced_def by auto

lemma traced_dialog:
  assumes "traced env ops w" "announced ops (Idle_Pairing addr name sas)"
  shows "traced env ops (snd (show_pairing_dialog addr name sas w))"
proof -
  have "set (dict_set addr (name, sas) (wi_dialogs w)) \<subseteq> insert (addr, name, sas) (set (wi_dialogs w))" by (rule set_dict_set)
  with assms show ?thesis unfolding traced_def show_pairing_dialog_def by (auto simp del: announced.simps)
qed

lemma traced_request:
  "traced env ops w \<Longrightarrow> announced ops (Idle_Request addr tid file_name n) \<Longrightarrow> traced env ops (snd (handle_transfer_request addr tid file_name n w))"
  "traced env ops w \<Longrightarrow> traced env ops (w\<lparr>wi_requests := remove1 rq (wi_requests w)\<rparr>)"
  unfolding traced_def handle_transfer_request_def
  by (auto simp del: announced.simps dest: set_mp [OF set_remove1_subset])

lemma traced_pop: "traced env ops w \<Longrightarrow> traced env ops (w\<lparr>wi_dialogs := dict_pop addr (wi_dialogs w)\<rparr>)"
  by (rule trace.dialog_keeps)

lemma traced_step:
  assumes before: "traced env ops (ui_window u)" and u: "u = ui_run env ops new_ui"
  shows "traced env (ops @ [op]) (ui_window (ui_step env op u))"
proof (cases "dialog_step (ui_window u) op")
  case True
  let ?w = "ui_window u"
  have t: "traced env (ops @ [op]) ?w" by (rule traced_more [OF before])
  show ?thesis
  proof (cases op)
    case (Do_Event event payload)
    from True have e: "event = lit ''pairing_request'' \<or> event = lit ''transfer_request''" by (simp add: Do_Event dialog_step_def)
    then show ?thesis
    proof
      assume "event = lit ''pairing_request''"
      with t show ?thesis
        by (cases "text_field_or payload ''remote_addr'' ''''"; cases "text_field_or payload ''device_name'' ''''";
            cases "text_field_or payload ''sas_code'' ''''")
           (simp_all add: Do_Event on_event_def bind_apply idle_add_def traced_idle)
    next
      assume "event = lit ''transfer_request''"
      with t show ?thesis
        by (cases "text_field_or payload ''remote_addr'' ''''"; cases "text_field_or payload ''transfer_id'' ''''";
            cases "text_field_or payload ''file_name'' ''''"; cases "int_field_or payload ''file_size''")
           (simp_all add: Do_Event on_event_def bind_apply idle_add_def traced_idle)
    qed
  next
    case Do_Idle
    with True obtain i "is" where i: "wi_idle ?w = i # is" "opens_dialog i" by (auto simp: dialog_step_def split: list.splits)
    have a: "announced (ops @ [op]) i" using t i(1) by (simp add: traced_def)
    have "traced env (ops @ [op]) (?w\<lparr>wi_idle := is\<rparr>)" by (rule trace.idle_pop_keeps [OF t i(1)])
    with a i(2) show ?thesis
      by (cases i) (simp_all add: Do_Idle i(1) on_window_step_def traced_dialog traced_request(1) del: announced.simps)
  next
    case (Do_Pairing addr response)
    show ?thesis
    proof (cases "dict_get (wi_dialogs ?w) addr")
      case (Some d)
      obtain name sas where d: "d = (name, sas)" by (cases d)
      from Some d have "(addr, name, sas) \<in> set (wi_dialogs ?w)" by (auto simp: dict_get_def dest: map_of_SomeD)
      with before have "announced ops (Idle_Pairing addr name sas)" by (auto simp: traced_def simp del: announced.simps)
      with Some d have "response = lit ''accept'' \<longrightarrow> consents_to env ops op (Ui_Accept_Pairing addr)"
        by (simp add: Do_Pairing u [symmetric] del: announced.simps)
      with traced_ask [OF traced_pop [OF t]] Some show ?thesis
        by (simp add: Do_Pairing on_window_step_def pairing_response_def ask_def dict_has_iff)
    qed (use t in \<open>simp add: Do_Pairing dict_has_iff\<close>)
  next
    case (Do_Request rq response)
    obtain addr tid file_name n where rq: "rq = (addr, tid, file_name, n)" by (cases rq)
    show ?thesis
    proof (cases "rq \<in> set (wi_requests ?w)")
      case True
      with before rq have "announced ops (Idle_Request addr tid file_name n)" by (auto simp: traced_def simp del: announced.simps)
      with True rq have ok: "response = lit ''accept'' \<longrightarrow> consents_to env ops op (Ui_Accept_Transfer addr tid)"
        by (simp add: Do_Request u [symmetric] del: announced.simps)
      let ?w1 = "?w\<lparr>wi_requests := remove1 rq (wi_requests ?w)\<rparr>"
      let ?w2 = "snd (add_transfer_row tid file_name n 8595 ?w1)"
      have r: "traced env (ops @ [op]) ?w1" by (rule traced_request(2) [OF t])
      have "traced env (ops @ [op]) ?w2" by (rule keepsD [OF trace.add_row_keeps r]) simp
      from traced_ask [OF this, of "Ui_Accept_Transfer addr tid"] traced_ask [OF r, of "Ui_Reject_Transfer addr tid"] ok
      have "traced env (ops @ [op]) (if response = lit ''accept'' then ?w2\<lparr>wi_asked := wi_asked ?w2 @ [Ui_Accept_Transfer addr tid]\<rparr>
          else ?w1\<lparr>wi_asked := wi_asked ?w1 @ [Ui_Reject_Transfer addr tid]\<rparr>)"
        by (simp del: consents_to.simps lit_simps)
      moreover have "ui_window (ui_step env op u) = (if response = lit ''accept'' then ?w2\<lparr>wi_asked := wi_asked ?w2 @ [Ui_Accept_Transfer addr tid]\<rparr>
          else ?w1\<lparr>wi_asked := wi_asked ?w1 @ [Ui_Reject_Transfer addr tid]\<rparr>)"
        using True by (simp add: Do_Request on_window_step_def request_response_def rq ask_def add_transfer_row_def del: lit_simps)
      ultimately show ?thesis by simp
    qed (use t in \<open>simp add: Do_Request\<close>)
  qed (use True in \<open>simp_all add: dialog_step_def\<close>)
qed (rule trace.step_keeps [OF traced_more [OF before]])

lemma traced_run: "traced env ops (ui_window (ui_run env ops new_ui))"
proof (induction ops rule: rev_induct)
  case Nil
  show ?case by (simp add: traced_def new_ui_def new_window_def)
next
  case (snoc op ops)
  from traced_step [OF this refl, of op] show ?case by (simp add: ui_run_append)
qed

lemma asked_accepted:
  assumes "c \<in> set (wi_asked (ui_window (ui_run env ops new_ui)))" "consenting c"
  shows "\<exists>pre op post. ops = pre @ op # post \<and> consents_to env pre op c"
  using traced_run [of env ops] assms by (simp add: traced_def del: announced.simps)

lemma pairing_clicked:
  assumes "Ui_Accept_Pairing addr \<in> set (wi_asked (ui_window (ui_run env ops new_ui)))"
  shows "\<exists>pre post name sas. ops = pre @ Do_Pairing addr (lit ''accept'') # post
      \<and> dict_get (wi_dialogs (ui_window (ui_run env pre new_ui))) addr = Some (name, sas) \<and> list_ex (announces_pairing addr name sas) pre"
proof -
  obtain pre op post where "ops = pre @ op # post" "consents_to env pre op (Ui_Accept_Pairing addr)"
    using asked_accepted [OF assms] by auto
  then show ?thesis by (auto simp del: lit_simps split: option.splits)
qed

text \<open>
  When closing a dialog makes it respond, a session that is established while its dialog is still open is rejected by the window.
\<close>

lemma established_may_reject:
  assumes "ue_close_responds env" "dict_has (wi_dialogs w) addr"
  shows "Ui_Reject_Pairing addr \<in> set (wi_asked (snd (handle_session_state env addr (lit ''ESTABLISHED'') w)))"
  using assms by (simp add: handle_session_state_def update_trusted_devices_def ask_def close_dialog_def pairing_response_def
      set_send_buttons_def idle_add_def seq_apply)

section \<open>Property\<close>


definition sample_ui_env :: ui_env where
  "sample_ui_env = \<lparr>ue_platform = ascii_platform, ue_capitalize = id, ue_close_responds = False\<rparr>"

definition sample_ui_ops :: "ui_op list" where
  "sample_ui_ops =
     [Do_Event (lit ''pairing_request'') (JObj [(lit ''remote_addr'', JStr (lit ''a'')), (lit ''device_name'', JStr (lit ''b'')), (lit ''sas_code'', JStr (lit ''1''))]),
      Do_Idle, Do_Idle, Do_Idle, Do_Idle, Do_Pairing (lit ''a'') (lit ''accept'')]"

lemma sample_ui_asks: "Ui_Accept_Pairing (lit ''a'') \<in> set (wi_asked (ui_window (ui_run sample_ui_env sample_ui_ops new_ui)))"
  by (simp add: sample_ui_ops_def new_ui_def new_window_def on_event_def bind_apply seq_apply text_field_or_def as_text_def idle_add_def
        on_window_step_def ask_def update_trusted_devices_def update_transfer_history_def update_diagnostics_def established_def
        sample_ui_env_def ascii_platform_def show_pairing_dialog_def pairing_response_def dict_has_def)


end
