(* ===== verification/Pairing_Code.thy ===== *)
theory Pairing_Code
  imports Service_Invariants Agreement
begin

text \<open>
  Where the codes come from that users compare: every pairing that the service shows comes from a handshake with the peer at
  that address, and its code is that of the session which the handshake has keyed.
\<close>

section \<open>Pairings shown\<close>

definition pairings_from :: "(pystr \<Rightarrow> json \<Rightarrow> pystr \<Rightarrow> bool) \<Rightarrow> service \<Rightarrow> bool" where
  "pairings_from Q s \<longleftrightarrow> (\<forall>a n sas. Pairing_Shown a n sas \<in> set (sv_events s) \<longrightarrow> Q a n sas)"

interpretation pairings: service_pairing_invariant "pairings_from Q" for Q
proof
  show "quiet_event e \<Longrightarrow> pairings_from Q s \<Longrightarrow> pairings_from Q (s\<lparr>sv_events := sv_events s @ [e]\<rparr>)" for s e
    by (auto simp: pairings_from_def quiet_event_def)
  have db: "keeps (pairings_from Q) (on_database m)" for m :: "(db, unit) eff"
    by (auto simp: keeps_def on_database_def pairings_from_def split: prod.splits)
  show "keeps (pairings_from Q) (on_database (delete_interrupted_transfer tid))"
    "keeps (pairings_from Q) (on_database (remove_device_by_public_key key))" for tid key
    by (rule db)+
  have rec: "keeps (pairings_from Q) (upd (sv_recorded_update f))" for f
    by (intro keeps_upd) (simp add: pairings_from_def)
  show "keeps (pairings_from Q) (record_transfer_once env tid dev fname sz dir status started h)" for env tid dev fname sz dir status started h
    unfolding record_transfer_once_def by (intro keeps_intros db rec)
  show "keeps (pairings_from Q) (on_peer_session p m)" for p and m :: "(session, unit) eff"
    by (auto simp: keeps_def pairings_from_def on_peer_session_def on_peer_def split: prod.splits)
  show "keeps (pairings_from Q) (persist_trust env p)" for env p
    unfolding persist_trust_def Let_def by (intro keeps_intros db)
qed (auto simp: pairings_from_def)

text \<open>What a handshake shows.\<close>

definition handshake_code :: "service_env \<Rightarrow> signatures \<Rightarrow> local_side \<Rightarrow> bool \<Rightarrow> pystr \<Rightarrow> envelope res \<Rightarrow> envelope res \<Rightarrow> db \<Rightarrow> pystr \<Rightarrow> bool" where
  "handshake_code env sg ls ini addr hello auth d sas \<longleftrightarrow>
     (case run_handshake (se_crypto env) sg (se_platform env) ls ini hello auth (new_connection d ini addr) of
        (Inr (Some trusted), c) \<Rightarrow> \<not> trusted \<and> (\<exists>k. peer_proved sg hello auth (cn_ps c) k \<and> device_by_key k d = None)
          \<and> sas = (case sas_code (ps_session (cn_ps c)) of Some code \<Rightarrow> code | None \<Rightarrow> [])
      | _ \<Rightarrow> False)"

lemma connect_shows:
  assumes "Pairing_Shown a n sas \<in> set (sv_events (snd (connect_peer env sg ls ini addr hello auth s)))"
    and "Pairing_Shown a n sas \<notin> set (sv_events s)"
  shows "a = addr \<and> handshake_code env sg ls ini addr hello auth (sv_db s) sas"
proof -
  obtain r c where h: "run_handshake (se_crypto env) sg (se_platform env) ls ini hello auth (new_connection (sv_db s) ini addr) = (r, c)" by fastforce
  have m: "(a, n, sas) \<in> set (cn_prompts c)" using assms by (auto simp: connect_peer_def h)
  note out = handshake_outcome [where cr = "se_crypto env" and sg = sg and pf = "se_platform env" and ls = ls and ini = ini
    and hello = hello and auth = auth and d = "sv_db s" and addr = addr, unfolded h]
  with m obtain trusted where t: "r = Inr (Some trusted)" by (auto split: sum.splits option.splits)
  show ?thesis using handshake_success [OF h [unfolded t]] m h t by (auto simp: handshake_code_def split: if_splits)
qed

section \<open>Runs\<close>

text \<open>A handshake behind every pairing shown: the first run after which it is there ends with its connection.\<close>

lemma pairing_shown_by:
  assumes "Pairing_Shown a n sas \<in> set (sv_events (service_run ops s))" and "Pairing_Shown a n sas \<notin> set (sv_events s)"
  shows "\<exists>pre env sg ls ini hello auth post. ops = pre @ (env, Connect sg ls ini a hello auth) # post
    \<and> handshake_code env sg ls ini a hello auth (sv_db (service_run pre s)) sas"
  using assms
proof (induction ops rule: rev_induct)
  case (snoc x ops)
  obtain env op where x: "x = (env, op)" by (cases x)
  let ?s = "service_run ops s"
  show ?case
  proof (cases "Pairing_Shown a n sas \<in> set (sv_events ?s)")
    case True
    from snoc.IH [OF this snoc.prems(2)] obtain pre env' sg ls ini hello auth post where
      "ops = pre @ (env', Connect sg ls ini a hello auth) # post" "handshake_code env' sg ls ini a hello auth (sv_db (service_run pre s)) sas" by blast
    then show ?thesis by (intro exI [of _ pre] exI [of _ env'] exI [of _ sg] exI [of _ ls] exI [of _ ini] exI [of _ hello] exI [of _ auth]
        exI [of _ "post @ [x]"]) simp
  next
    case False
    have new: "Pairing_Shown a n sas \<in> set (sv_events (service_step env op ?s))"
      using snoc.prems(1) by (simp add: service_run_append x del: service_step.simps)
    have "\<not> (case op of Connect sg ls ini addr hello auth \<Rightarrow> False | _ \<Rightarrow> True)"
    proof
      assume c: "case op of Connect sg ls ini addr hello auth \<Rightarrow> False | _ \<Rightarrow> True"
      have "pairings_from (\<lambda>a n sas. Pairing_Shown a n sas \<in> set (sv_events ?s)) ?s" by (simp add: pairings_from_def)
      from pairings.step_but_connect [OF this c, of env] new False show False by (simp add: pairings_from_def del: service_step.simps)
    qed
    then obtain sg ls ini addr hello auth where op: "op = Connect sg ls ini addr hello auth" by (cases op) auto
    from connect_shows [OF new [unfolded op service_step.simps] False]
    show ?thesis by (intro exI [of _ ops] exI [of _ env] exI [of _ sg] exI [of _ ls] exI [of _ ini] exI [of _ hello] exI [of _ auth]
        exI [of _ "[]"]) (simp add: x op)
  qed
qed simp

end
