(* ===== verification/Trust_End.thy ===== *)
theory Trust_End
  imports Daemon_Refine Ui_Safety Pairing_Code
begin

text \<open>
  Trust from end to end: the clicks of the user in the windows of \<^verbatim>\<open>ui/\<close> behind the keys that the daemon comes to trust.
\<close>

section \<open>Clients that are user interfaces\<close>

text \<open>The message of a command; whatever else it carries is not read.\<close>

definition says :: "ui_command \<Rightarrow> json \<Rightarrow> bool" where
  "says c msg \<longleftrightarrow> obj_item msg (lit ''type'') = Inr (JStr (fst (command_message c))) \<and> obj_item msg (lit ''payload'') = Inr (snd (command_message c))"

text \<open>A client that only subscribes and forwards what its window asks for.\<close>

definition window_says :: "ui_env \<times> ui_op list \<Rightarrow> json \<Rightarrow> bool" where
  "window_says r msg \<longleftrightarrow>
     obj_item msg (lit ''type'') = Inr (JStr (lit ''IPC_SUBSCRIBE''))
     \<or> list_ex (\<lambda>c. says c msg) (wi_asked (ui_window (ui_run (fst r) (snd r) new_ui)))"

definition only_windows :: "(nat \<Rightarrow> ui_env \<times> ui_op list) \<Rightarrow> (daemon_env \<times> daemon_op) list \<Rightarrow> bool" where
  "only_windows run_of ops \<longleftrightarrow> list_all (\<lambda>(env, op). case op of Client_Says c msg \<Rightarrow> window_says (run_of c) msg | _ \<Rightarrow> True) ops"

lemma says_command:
  assumes "says c msg" and "msg_command msg = Inr (Some (Ui_Accept_Pairing addr))"
  shows "c = Ui_Accept_Pairing addr"
proof (cases msg)
  case (JObj d)
  have "parse_command (fst (command_message c)) (snd (command_message c)) = Inr (Some (Ui_Accept_Pairing addr))"
    using assms by (auto simp: says_def msg_command_def JObj res_simps split: option.splits)
  moreover have "parse_command (fst (command_message c)) (snd (command_message c)) = Inr (Some c)" if "client_command c"
    by (rule parse_command_message [OF that])
  moreover have "parse_command (fst (command_message c)) (snd (command_message c)) = Inr (Some (Ui_Cancel_Transfer tid (lit ''USER_CANCELLED'')))"
    if "c = Ui_Cancel_Transfer tid r" for tid r
    using parse_command_message [of "Ui_Cancel_Transfer tid (lit ''USER_CANCELLED'')"] that by (simp add: client_command_def)
  ultimately show ?thesis by (cases c) (auto simp: client_command_def)
qed (use assms in \<open>simp_all add: says_def\<close>)

lemma window_command:
  assumes "window_says r msg" and "msg_command msg = Inr (Some (Ui_Accept_Pairing addr))"
  shows "Ui_Accept_Pairing addr \<in> set (wi_asked (ui_window (ui_run (fst r) (snd r) new_ui)))"
  using assms(1) unfolding window_says_def
proof
  assume "obj_item msg (lit ''type'') = Inr (JStr (lit ''IPC_SUBSCRIBE''))"
  with assms(2) show ?thesis
    by (cases msg) (auto simp: msg_command_def subscribe_no_command res_simps simp del: lit_simps split: option.splits)
next
  assume "list_ex (\<lambda>c. says c msg) (wi_asked (ui_window (ui_run (fst r) (snd r) new_ui)))"
  then show ?thesis using says_command [OF _ assms(2)] by (auto simp: list_ex_iff)
qed

section \<open>The code in the dialog\<close>

text \<open>What the daemon broadcasts of a pairing, and a window that is told of no other pairings than those of the service.\<close>

definition pairing_payload :: "pystr \<Rightarrow> json \<Rightarrow> pystr \<Rightarrow> json" where
  "pairing_payload a n sas = JObj [(lit ''remote_addr'', JStr a), (lit ''device_name'', n), (lit ''sas_code'', JStr sas)]"

lemma pairing_payload_pushed: "push env (Note_Pairing a n sas) = broadcast env (lit ''IPC_PAIRING_REQUEST'') (pairing_payload a n sas)"
  by (simp add: ipc_on_pairing_request_def pairing_payload_def)

definition told_of_pairings :: "service \<Rightarrow> ui_op list \<Rightarrow> bool" where
  "told_of_pairings s uops \<longleftrightarrow>
     (\<forall>payload. Do_Event (lit ''pairing_request'') payload \<in> set uops \<longrightarrow>
        (\<exists>a n sas. payload = pairing_payload a n sas \<and> Pairing_Shown a n sas \<in> set (sv_events s)))"

lemma dialog_shown:
  assumes "told_of_pairings s uops" and "dict_get (wi_dialogs (ui_window (ui_run uenv uops new_ui))) addr = Some (name, sas)"
  shows "Pairing_Shown addr (JStr name) sas \<in> set (sv_events s)"
proof -
  have "(addr, name, sas) \<in> set (wi_dialogs (ui_window (ui_run uenv uops new_ui)))"
    using assms(2) by (simp add: dict_get_def map_of_SomeD)
  with traced_run [of uenv uops] have "list_ex (announces_pairing addr name sas) uops" by (auto simp: traced_def)
  then obtain payload where p: "Do_Event (lit ''pairing_request'') payload \<in> set uops" "text_field_or payload ''remote_addr'' '''' = Inr addr"
      "text_field_or payload ''device_name'' '''' = Inr name" "text_field_or payload ''sas_code'' '''' = Inr sas"
    by (auto simp: list_ex_iff elim!: announces_pairing.elims(2) simp del: lit_simps)
  from assms(1) p(1) obtain a n c where "payload = pairing_payload a n c" "Pairing_Shown a n c \<in> set (sv_events s)"
    by (auto simp: told_of_pairings_def)
  moreover from this(1) p(2-4) have "a = addr" "n = JStr name" "c = sas"
    by (auto simp: pairing_payload_def text_field_or_def as_text_def split: json.splits)
  ultimately show ?thesis by simp
qed

section \<open>Property\<close>

text \<open>
  C2: trust comes from a click. When the clients of a daemon are the windows of this program, each forwarding what it asks for, then a
  key that the trust database has gained belongs to a peer that sent its own acceptance, and in one of
  the windows the user clicked "accept" in the dialog for the address of that peer's session, which showed a name
  and a code announced by a pairing request.
\<close>

theorem trust_needs_click:
  assumes "d0 = new_daemon cfg (new_service db fs dir now)"
    and "k \<in> trusted_keys (sv_db (dm_service (daemon_run ops d0)))" and "k \<notin> trusted_keys db"
    and windows: "only_windows run_of ops"
  shows "\<exists>c addr p before rest pre post name sas. snd (run_of c) = pre @ Do_Pairing addr (lit ''accept'') # post
    \<and> dict_get (wi_dialogs (ui_window (ui_run (fst (run_of c)) pre new_ui))) addr = Some (name, sas)
    \<and> list_ex (announces_pairing addr name sas) pre
    \<and> ops = before @ rest \<and> dict_get (sv_active_sessions (dm_service (daemon_run before d0))) addr = Some p
    \<and> p \<in> accepted_remotely (service_trace ops d0) (dm_service d0)
    \<and> ps_remote_static_pub_b64 (sv_peers (dm_service (daemon_run ops d0)) p) = Some k"
proof -
  have s: "dm_service d0 = new_service db fs dir now" by (simp add: assms(1) new_daemon_def)
  obtain p where p: "p \<in> accepted_locally (service_trace ops d0) (dm_service d0)" "p \<in> accepted_remotely (service_trace ops d0) (dm_service d0)"
      "ps_remote_static_pub_b64 (sv_peers (dm_service (daemon_run ops d0)) p) = Some k"
    using both_sides_accepted [of k "service_trace ops d0" db fs dir now] assms(2,3) by (auto simp: daemon_run_service s)
  obtain before env c msg more addr where m: "ops = before @ (env, Client_Says c msg) # more"
      "msg_command msg = Inr (Some (Ui_Accept_Pairing addr))"
      "dict_get (sv_active_sessions (dm_service (daemon_run before d0))) addr = Some p"
    using accepted_from_client [OF p(1)] by blast
  have "window_says (run_of c) msg" using windows m(1) by (simp add: only_windows_def)
  then have "Ui_Accept_Pairing addr \<in> set (wi_asked (ui_window (ui_run (fst (run_of c)) (snd (run_of c)) new_ui)))"
    using m(2) by (rule window_command)
  from pairing_clicked [OF this] p(2,3) m(1,3) show ?thesis by blast
qed

text \<open>The pairing of \<open>sample_ops\<close>, accepted in the window of its client.\<close>

definition sample_window :: "ui_env \<times> ui_op list" where
  "sample_window = (sample_ui_env,
     [Do_Event (lit ''pairing_request'') (JObj [(lit ''remote_addr'', JStr []), (lit ''device_name'', JStr (lit ''b'')), (lit ''sas_code'', JStr (lit ''1''))]),
      Do_Idle, Do_Idle, Do_Idle, Do_Idle, Do_Pairing [] (lit ''accept'')])"

lemma sample_window_says: "window_says sample_window ui_subscribe" "window_says sample_window ui_accept"
  by (simp_all add: window_says_def says_def ui_subscribe_def ui_accept_def sample_window_def new_ui_def new_window_def on_event_def bind_apply
        seq_apply text_field_or_def as_text_def idle_add_def on_window_step_def ask_def update_trusted_devices_def
        update_transfer_history_def update_diagnostics_def established_def sample_ui_env_def ascii_platform_def
        show_pairing_dialog_def pairing_response_def dict_has_def)

theorem trust_needs_click_witness:
  "\<exists>hello auth addr p before rest pre post name sas. snd sample_window = pre @ Do_Pairing addr (lit ''accept'') # post
    \<and> dict_get (wi_dialogs (ui_window (ui_run (fst sample_window) pre new_ui))) addr = Some (name, sas)
    \<and> list_ex (announces_pairing addr name sas) pre
    \<and> sample_ops hello auth = before @ rest \<and> dict_get (sv_active_sessions (dm_service (daemon_run before sample_daemon))) addr = Some p
    \<and> p \<in> accepted_remotely (service_trace (sample_ops hello auth) sample_daemon) (dm_service sample_daemon)
    \<and> ps_remote_static_pub_b64 (sv_peers (dm_service (daemon_run (sample_ops hello auth) sample_daemon)) p) = Some sample_key"
proof -
  obtain hello auth where s: "sample_key \<in> trusted_keys (sv_db (service_run [(sample_env, Connect toy_signatures (sample_side 1) True [] hello auth),
      (sample_env, Accept_Pairing []), (sample_env, Frame 0 sample_frame)] fresh_service))"
    using sample_pairing unfolding Let_def by blast
  have "dm_service sample_daemon = fresh_service" by (simp add: sample_daemon_def new_daemon_def)
  then have t: "sample_key \<in> trusted_keys (sv_db (dm_service (daemon_run (sample_ops hello auth) sample_daemon)))"
    using s by (simp only: daemon_run_service sample_trace)
  have k: "sample_key \<notin> trusted_keys empty_db" by (simp add: trusted_keys_def empty_db_def)
  have "only_windows (\<lambda>_. sample_window) (sample_ops hello auth)"
    using sample_window_says by (simp add: only_windows_def sample_ops_def)
  from trust_needs_click [OF sample_daemon_def t k this] show ?thesis by blast
qed


text \<open>A connection of \<open>sample_ops\<close>, shown to a window.\<close>

lemma sample_shown:
  "\<exists>hello auth name sas. Pairing_Shown [] (JStr name) sas
     \<in> set (sv_events (service_step sample_env (Connect toy_signatures (sample_side 1) True [] hello auth) fresh_service))"
proof -
  obtain hello auth c where h: "run_handshake toy_crypto toy_signatures ascii_platform (sample_side 1) True hello auth (new_connection empty_db True []) = (Inr (Some False), c)"
    and n: "ps_remote_device_name (cn_ps c) = JStr [98]"
    using sample_handshake by blast
  obtain name sas where "cn_prompts c = [([], JStr name, sas)]" using handshake_success [OF h] n by auto
  with h show ?thesis
    by (intro exI [of _ hello] exI [of _ auth] exI [of _ name] exI [of _ sas]) (auto simp: connect_peer_def sample_env_def new_service_def)
qed


end
