(* ===== verification/Ui_Rows.thy ===== *)
theory Ui_Rows
  imports Ui_Safety
begin

text \<open>
  The list of running transfers in every run of the user interface: which rows are shown, updated and about to go.
\<close>

section \<open>The invariant\<close>

abbreviation tracked :: "(pystr, nat \<times> int) dict \<Rightarrow> nat list" where
  "tracked d \<equiv> map (\<lambda>p. fst (snd p)) d"

definition rows_ok :: "window \<Rightarrow> bool" where
  "rows_ok w \<longleftrightarrow>
     wi_transfer_rows w \<noteq> [] \<and> distinct (wi_transfer_rows w) \<and> (\<forall>r \<in> set (wi_transfer_rows w). r < wi_next_row w)
     \<and> dict_ok (wi_transfers w) \<and> distinct (tracked (wi_transfers w)) \<and> distinct (wi_timers w)
     \<and> set (tracked (wi_transfers w)) \<inter> set (wi_timers w) = {}
     \<and> set (tracked (wi_transfers w)) \<union> set (wi_timers w) \<subseteq> set (wi_transfer_rows w)
     \<and> (\<forall>r \<in> set (tracked (wi_transfers w)) \<union> set (wi_timers w). tr_title (wi_row w r) \<noteq> no_transfers)
     \<and> (\<forall>r \<in> set (wi_transfer_rows w). tr_title (wi_row w r) = no_transfers \<longrightarrow> wi_transfer_rows w = [r])
     \<and> (\<forall>(tid, r, n) \<in> set (wi_transfers w). tr_transfer (wi_row w r) = tid \<and> tr_cancel_visible (wi_row w r))
     \<and> (\<forall>r \<in> set (wi_timers w). \<not> tr_cancel_visible (wi_row w r))"

lemma rows_ok_cong:
  assumes "rows_ok w" "wi_transfer_rows w' = wi_transfer_rows w" "wi_next_row w' = wi_next_row w"
    "wi_transfers w' = wi_transfers w" "wi_timers w' = wi_timers w"
    "\<And>r. tr_title (wi_row w' r) = tr_title (wi_row w r)" "\<And>r. tr_transfer (wi_row w' r) = tr_transfer (wi_row w r)"
    "\<And>r. tr_cancel_visible (wi_row w' r) = tr_cancel_visible (wi_row w r)"
  shows "rows_ok w'"
  using assms by (simp add: rows_ok_def)

lemma tracked_set: "set (tracked (dict_set k (r, n) d)) \<subseteq> insert r (set (tracked d))"
  by (induction k "(r, n)" d rule: dict_set.induct) auto

lemma tracked_pop: "set (tracked (dict_pop k d)) \<subseteq> set (tracked d)"
  by (auto simp: dict_pop_def)

lemma distinct_tracked_set:
  "distinct (tracked d) \<Longrightarrow> r \<notin> set (tracked d) \<Longrightarrow> distinct (tracked (dict_set k (r, n) d))"
proof (induction k "(r, n)" d rule: dict_set.induct)
  case (2 k k' v' d)
  then show ?case using tracked_set [of k r n d] by (cases "k' = k") auto
qed simp

lemma distinct_tracked_pop: "distinct (tracked d) \<Longrightarrow> distinct (tracked (dict_pop k d))"
  by (induction d) (auto simp: dict_pop_def)

lemma rows_okD:
  assumes "rows_ok w"
  shows "wi_transfer_rows w \<noteq> []" "distinct (wi_transfer_rows w)" "r \<in> set (wi_transfer_rows w) \<Longrightarrow> r < wi_next_row w"
    "dict_ok (wi_transfers w)" "distinct (tracked (wi_transfers w))" "distinct (wi_timers w)"
    "set (tracked (wi_transfers w)) \<inter> set (wi_timers w) = {}"
    "r \<in> set (tracked (wi_transfers w)) \<union> set (wi_timers w) \<Longrightarrow> r \<in> set (wi_transfer_rows w)"
    "r \<in> set (tracked (wi_transfers w)) \<union> set (wi_timers w) \<Longrightarrow> tr_title (wi_row w r) \<noteq> no_transfers"
    "r \<in> set (wi_transfer_rows w) \<Longrightarrow> tr_title (wi_row w r) = no_transfers \<Longrightarrow> wi_transfer_rows w = [r]"
    "(tid, r, n) \<in> set (wi_transfers w) \<Longrightarrow> tr_transfer (wi_row w r) = tid \<and> tr_cancel_visible (wi_row w r)"
    "r \<in> set (wi_timers w) \<Longrightarrow> \<not> tr_cancel_visible (wi_row w r)"
  using assms unfolding rows_ok_def by blast+

lemma rows_okI:
  assumes "wi_transfer_rows w \<noteq> []" "distinct (wi_transfer_rows w)" "\<And>r. r \<in> set (wi_transfer_rows w) \<Longrightarrow> r < wi_next_row w"
    "dict_ok (wi_transfers w)" "distinct (tracked (wi_transfers w))" "distinct (wi_timers w)"
    "\<And>r. r \<in> set (tracked (wi_transfers w)) \<Longrightarrow> r \<notin> set (wi_timers w)"
    "\<And>r. r \<in> set (tracked (wi_transfers w)) \<union> set (wi_timers w) \<Longrightarrow> r \<in> set (wi_transfer_rows w) \<and> tr_title (wi_row w r) \<noteq> no_transfers"
    "\<And>r. r \<in> set (wi_transfer_rows w) \<Longrightarrow> tr_title (wi_row w r) = no_transfers \<Longrightarrow> wi_transfer_rows w = [r]"
    "\<And>tid r n. (tid, r, n) \<in> set (wi_transfers w) \<Longrightarrow> tr_transfer (wi_row w r) = tid \<and> tr_cancel_visible (wi_row w r)"
    "\<And>r. r \<in> set (wi_timers w) \<Longrightarrow> \<not> tr_cancel_visible (wi_row w r)"
  shows "rows_ok w"
  unfolding rows_ok_def using assms by blast

text \<open>The placeholder gives way to the first transfer.\<close>

lemma shown_rows_cases:
  "(\<exists>r. wi_transfer_rows w = [r] \<and> tr_title (wi_row w r) = no_transfers \<and> shown_rows w = [])
    \<or> shown_rows w = wi_transfer_rows w \<and> (\<forall>r. wi_transfer_rows w = [r] \<longrightarrow> tr_title (wi_row w r) \<noteq> no_transfers)"
  by (simp add: shown_rows_def del: lit_simps split: list.split)

lemma shown_rows_ok:
  assumes w: "rows_ok w"
  shows "r \<in> set (tracked (wi_transfers w)) \<union> set (wi_timers w) \<Longrightarrow> r \<in> set (shown_rows w)" "distinct (shown_rows w)"
    "set (shown_rows w) \<subseteq> set (wi_transfer_rows w)" "r \<in> set (shown_rows w) \<Longrightarrow> tr_title (wi_row w r) \<noteq> no_transfers"
proof -
  have "(set (tracked (wi_transfers w)) \<union> set (wi_timers w) \<subseteq> set (shown_rows w) \<and> distinct (shown_rows w))
      \<and> set (shown_rows w) \<subseteq> set (wi_transfer_rows w) \<and> (\<forall>r \<in> set (shown_rows w). tr_title (wi_row w r) \<noteq> no_transfers)"
    using shown_rows_cases [of w]
  proof (elim disjE exE conjE)
    fix r assume r: "wi_transfer_rows w = [r]" "tr_title (wi_row w r) = no_transfers" and s: "shown_rows w = []"
    have "set (tracked (wi_transfers w)) \<union> set (wi_timers w) = {}"
    proof (rule equals0I)
      fix x assume x: "x \<in> set (tracked (wi_transfers w)) \<union> set (wi_timers w)"
      show False using rows_okD(8,9) [OF w x] r by (simp del: lit_simps)
    qed
    with s show ?thesis by simp
  next
    assume s: "shown_rows w = wi_transfer_rows w" and n: "\<forall>r. wi_transfer_rows w = [r] \<longrightarrow> tr_title (wi_row w r) \<noteq> no_transfers"
    have "tr_title (wi_row w r) \<noteq> no_transfers" if "r \<in> set (wi_transfer_rows w)" for r
      using rows_okD(10) [OF w that] n by blast
    moreover have "set (tracked (wi_transfers w)) \<union> set (wi_timers w) \<subseteq> set (wi_transfer_rows w)" by (rule subsetI) (rule rows_okD(8) [OF w])
    ultimately show ?thesis using rows_okD(2) [OF w] by (simp add: s del: lit_simps set_map)
  qed
  then show "r \<in> set (tracked (wi_transfers w)) \<union> set (wi_timers w) \<Longrightarrow> r \<in> set (shown_rows w)" "distinct (shown_rows w)"
    "set (shown_rows w) \<subseteq> set (wi_transfer_rows w)" "r \<in> set (shown_rows w) \<Longrightarrow> tr_title (wi_row w r) \<noteq> no_transfers" by blast+
qed

lemma rows_ok_add:
  assumes w: "rows_ok w" and arrow: "arrow \<in> {8593, 8595}"
  shows "rows_ok (snd (add_transfer_row tid file_name size_all arrow w))" (is "rows_ok ?w'")
proof -
  let ?new = "wi_next_row w"
  have arrow: "arrow # r \<noteq> no_transfers" for r using arrow by auto
  note D = rows_okD [OF w] and shown = shown_rows_ok [OF w]
  have old: "r \<noteq> ?new" if "r \<in> set (tracked (wi_transfers w)) \<union> set (wi_timers w) \<union> set (shown_rows w)" for r
    using that shown(1,3) D(3) by blast
  have rows: "wi_transfer_rows ?w' = shown_rows w @ [?new]" "wi_next_row ?w' = Suc ?new" "wi_timers ?w' = wi_timers w"
    "wi_transfers ?w' = dict_set tid (?new, size_all) (wi_transfers w)" "\<And>r. r \<noteq> ?new \<Longrightarrow> wi_row ?w' r = wi_row w r"
    "tr_title (wi_row ?w' ?new) \<noteq> no_transfers" "tr_transfer (wi_row ?w' ?new) = tid" "tr_cancel_visible (wi_row ?w' ?new)"
    using arrow by (simp_all add: add_transfer_row_def del: lit_simps)
  have t: "r = ?new \<or> r \<in> set (tracked (wi_transfers w))" if "r \<in> set (tracked (wi_transfers ?w'))" for r
    using that tracked_set [of tid ?new size_all "wi_transfers w"] by (auto simp: rows)
  show ?thesis
  proof (rule rows_okI)
    show "distinct (tracked (wi_transfers ?w'))"
      unfolding rows(4) by (rule distinct_tracked_set [OF D(5)]) (use old in blast)
    show "dict_ok (wi_transfers ?w')" using D(4) by (simp add: rows dict_ok_set)
    show "r < wi_next_row ?w'" if "r \<in> set (wi_transfer_rows ?w')" for r
      using that shown(3) D(3) by (auto simp: rows less_Suc_eq)
    show "r \<notin> set (wi_timers ?w')" if "r \<in> set (tracked (wi_transfers ?w'))" for r
      using t [OF that] D(7) old by (auto simp: rows(3))
    show "distinct (wi_transfer_rows ?w')" using shown(2) old by (auto simp: rows(1))
    show "wi_transfer_rows ?w' = [r]" if "r \<in> set (wi_transfer_rows ?w')" "tr_title (wi_row ?w' r) = no_transfers" for r
      using that shown(4) old rows(5,6) by (auto simp: rows(1) simp del: lit_simps)
    show "\<not> tr_cancel_visible (wi_row ?w' r)" if "r \<in> set (wi_timers ?w')" for r
      using that D(12) old [of r] by (simp add: rows(3,5))
    show "tr_transfer (wi_row ?w' r) = tid' \<and> tr_cancel_visible (wi_row ?w' r)" if "(tid', r, n) \<in> set (wi_transfers ?w')" for tid' r n
    proof (cases "(tid', r, n) = (tid, ?new, size_all)")
      case False
      then have m: "(tid', r, n) \<in> set (wi_transfers w)"
        using that set_dict_set [of tid "(?new, size_all)" "wi_transfers w"] by (auto simp: rows(4))
      then have "r \<in> set (tracked (wi_transfers w))" by force
      then show ?thesis using D(11) [OF m] old [of r] by (simp add: rows(5))
    qed (simp add: rows(7,8))
    show "r \<in> set (wi_transfer_rows ?w') \<and> tr_title (wi_row ?w' r) \<noteq> no_transfers"
      if "r \<in> set (tracked (wi_transfers ?w')) \<union> set (wi_timers ?w')" for r
    proof (cases "r = ?new")
      case False
      then have "r \<in> set (tracked (wi_transfers w)) \<union> set (wi_timers w)" using that t [of r] by (auto simp: rows(3))
      then show ?thesis using shown(1) D(9) rows(5) [OF False] by (simp add: rows(1) del: lit_simps)
    qed (use rows(6) in \<open>simp add: rows(1) del: lit_simps\<close>)
  qed (use D(6) in \<open>simp_all add: rows(1,3)\<close>)
qed

text \<open>A finished row is no longer updated; a timeout has it.\<close>

lemma tracked_pop_fresh:
  assumes "dict_get d k = Some (r, n)" "distinct (tracked d)"
  shows "r \<notin> set (tracked (dict_pop k d))"
proof
  assume "r \<in> set (tracked (dict_pop k d))"
  then obtain k' n' where k': "(k', r, n') \<in> set d" "k' \<noteq> k" by (auto simp: dict_pop_def)
  have "(k, r, n) \<in> set d" using assms(1) by (auto simp: dict_get_def dest: map_of_SomeD)
  with k' assms(2) inj_onD [of "\<lambda>p. fst (snd p)" "set d" "(k, r, n)" "(k', r, n')"] show False by (simp add: distinct_map)
qed

lemma rows_ok_finish:
  assumes w: "rows_ok w" and g: "\<And>x. tr_title (g x) = tr_title x \<and> tr_cancel_visible (g x) = tr_cancel_visible x"
  shows "rows_ok (snd (finish_row tid g w))"
proof (cases "dict_get (wi_transfers w) tid")
  case (Some e)
  obtain r n where e: "e = (r, n)" by (cases e)
  let ?w' = "snd (finish_row tid g w)"
  note D = rows_okD [OF w]
  have m: "(tid, r, n) \<in> set (wi_transfers w)" using Some e by (auto simp: dict_get_def dest: map_of_SomeD)
  then have r: "r \<in> set (tracked (wi_transfers w))" by force
  have gone: "r \<notin> set (tracked (dict_pop tid (wi_transfers w)))" using tracked_pop_fresh Some e D(5) by blast
  have p: "x \<in> set (tracked (wi_transfers w))" if "x \<in> set (tracked (dict_pop tid (wi_transfers w)))" for x
    using that tracked_pop by blast
  have rows: "wi_transfer_rows ?w' = wi_transfer_rows w" "wi_next_row ?w' = wi_next_row w" "wi_timers ?w' = wi_timers w @ [r]"
    "wi_transfers ?w' = dict_pop tid (wi_transfers w)" "\<And>x. x \<noteq> r \<Longrightarrow> wi_row ?w' x = wi_row w x"
    "\<And>x. tr_title (wi_row ?w' x) = tr_title (wi_row w x)" "\<not> tr_cancel_visible (wi_row ?w' r)"
    using g by (simp_all add: finish_row_def on_row_def Some e)
  show ?thesis
  proof (rule rows_okI)
    show "wi_transfer_rows ?w' \<noteq> []" "distinct (wi_transfer_rows ?w')" using D(1,2) by (simp_all add: rows)
    show "x < wi_next_row ?w'" if "x \<in> set (wi_transfer_rows ?w')" for x using D(3) that by (simp add: rows)
    show "dict_ok (wi_transfers ?w')" using D(4) by (simp add: rows dict_ok_pop)
    show "distinct (tracked (wi_transfers ?w'))" unfolding rows(4) by (rule distinct_tracked_pop) (rule D(5))
    show "distinct (wi_timers ?w')" using D(6,7) r by (auto simp: rows(3))
    show "x \<notin> set (wi_timers ?w')" if "x \<in> set (tracked (wi_transfers ?w'))" for x
      using that gone p [of x] D(7) unfolding rows(3,4) by auto
    show "x \<in> set (wi_transfer_rows ?w') \<and> tr_title (wi_row ?w' x) \<noteq> no_transfers"
      if "x \<in> set (tracked (wi_transfers ?w')) \<union> set (wi_timers ?w')" for x
    proof -
      from that p r have "x \<in> set (tracked (wi_transfers w)) \<union> set (wi_timers w)" unfolding rows(3,4) by auto
      then show ?thesis using D(8,9) by (simp add: rows(1,6) del: lit_simps)
    qed
    show "wi_transfer_rows ?w' = [x]" if "x \<in> set (wi_transfer_rows ?w')" "tr_title (wi_row ?w' x) = no_transfers" for x
      using that D(10) [of x] by (simp add: rows(1,6) del: lit_simps)
    show "tr_transfer (wi_row ?w' x) = t \<and> tr_cancel_visible (wi_row ?w' x)" if "(t, x, k) \<in> set (wi_transfers ?w')" for t x k
    proof -
      from that gone have "x \<noteq> r" "(t, x, k) \<in> set (wi_transfers w)" unfolding rows(4) by (force simp: dict_pop_def)+
      with D(11) show ?thesis by (simp add: rows(5))
    qed
    show "\<not> tr_cancel_visible (wi_row ?w' x)" if "x \<in> set (wi_timers ?w')" for x
      using that D(12) [of x] rows(5) [of x] rows(7) by (cases "x = r") (auto simp: rows(3))
  qed
qed (use w in \<open>simp add: finish_row_def\<close>)

lemma rows_ok_remove:
  assumes w: "rows_ok w" and r: "r \<in> set (wi_timers w)"
  shows "rows_ok (snd (remove_row r w))"
proof -
  note D = rows_okD [OF w]
  let ?w1 = "w\<lparr>wi_timers := remove1 r (wi_timers w), wi_transfer_rows := remove1 r (wi_transfer_rows w)\<rparr>"
  have sets: "set (wi_timers ?w1) = set (wi_timers w) - {r}" "set (wi_transfer_rows ?w1) = set (wi_transfer_rows w) - {r}"
    "wi_transfers ?w1 = wi_transfers w" "wi_row ?w1 = wi_row w" "wi_next_row ?w1 = wi_next_row w"
    using D(2,6) by simp_all
  have rr: "r \<notin> set (tracked (wi_transfers w))" using D(7) r by blast
  have tr: "tr_title (wi_row w r) \<noteq> no_transfers" using D(9) r by blast
  have in_rows: "x \<in> set (wi_transfer_rows ?w1) \<and> tr_title (wi_row ?w1 x) \<noteq> no_transfers"
    if "x \<in> set (tracked (wi_transfers ?w1)) \<union> set (wi_timers ?w1)" for x
    using that D(8,9) [of x] rr unfolding sets by blast
  show ?thesis
  proof (cases "wi_transfer_rows ?w1 = []")
    case True
    have "set (tracked (wi_transfers w)) \<union> set (wi_timers ?w1) = {}"
    proof (rule equals0I)
      fix x assume "x \<in> set (tracked (wi_transfers w)) \<union> set (wi_timers ?w1)"
      then have "x \<in> set (wi_transfer_rows ?w1)" using in_rows [of x] unfolding sets(3) by blast
      then show False using True by simp
    qed
    then have e: "wi_transfers w = []" "remove1 r (wi_timers w) = []" by simp_all
    from True have "remove_row r w = show_transfers_empty ?w1" by (simp add: remove_row_def)
    then show ?thesis using e by (simp add: show_transfers_empty_def rows_ok_def plain_row_def)
  next
    case False
    have "rows_ok ?w1"
    proof (rule rows_okI)
      show "wi_transfer_rows ?w1 \<noteq> []" by (rule False)
      show "distinct (wi_transfer_rows ?w1)" "distinct (wi_timers ?w1)" using D(2,6) by simp_all
      show "x < wi_next_row ?w1" if "x \<in> set (wi_transfer_rows ?w1)" for x using D(3) that unfolding sets by blast
      show "dict_ok (wi_transfers ?w1)" "distinct (tracked (wi_transfers ?w1))" using D(4,5) by simp_all
      show "x \<notin> set (wi_timers ?w1)" if "x \<in> set (tracked (wi_transfers ?w1))" for x using D(7) that unfolding sets by blast
      show "x \<in> set (wi_transfer_rows ?w1) \<and> tr_title (wi_row ?w1 x) \<noteq> no_transfers"
        if "x \<in> set (tracked (wi_transfers ?w1)) \<union> set (wi_timers ?w1)" for x using that by (rule in_rows)
      show "tr_transfer (wi_row ?w1 x) = t \<and> tr_cancel_visible (wi_row ?w1 x)" if "(t, x, n) \<in> set (wi_transfers ?w1)" for t x n
        using D(11) that unfolding sets by blast
      show "\<not> tr_cancel_visible (wi_row ?w1 x)" if "x \<in> set (wi_timers ?w1)" for x using D(12) that unfolding sets by blast
      show "wi_transfer_rows ?w1 = [x]" if x: "x \<in> set (wi_transfer_rows ?w1)" "tr_title (wi_row ?w1 x) = no_transfers" for x
      proof -
        have "wi_transfer_rows w = [x]" using D(10) [of x] x unfolding sets by blast
        with D(8) r tr x(2) show ?thesis unfolding sets by (metis UnCI list.set_intros(1) set_ConsD empty_iff empty_set)
      qed
    qed
    with False show ?thesis by (simp add: remove_row_def)
  qed
qed

section \<open>Runs\<close>

interpretation rows: event_invariant rows_ok
proof
  show "\<And>w r f t st. rows_ok w \<Longrightarrow> rows_ok (w\<lparr>wi_row := (wi_row w)(r := (wi_row w r)\<lparr>tr_fraction := f, tr_label := t, tr_subtitle := st\<rparr>)\<rparr>)"
    "\<And>w r a. rows_ok w \<Longrightarrow> rows_ok (w\<lparr>wi_row := (wi_row w)(r := (wi_row w r)\<lparr>tr_cancel_sensitive := a\<rparr>)\<rparr>)"
    by (erule rows_ok_cong; simp)+
  show "\<And>arrow tid file_name n. arrow \<in> {8593, 8595} \<Longrightarrow> keeps rows_ok (add_transfer_row tid file_name n arrow)"
    unfolding keeps_def by (blast intro: rows_ok_add)
  show "\<And>g tid. (\<And>x. tr_title (g x) = tr_title x \<and> tr_cancel_visible (g x) = tr_cancel_visible x) \<Longrightarrow> keeps rows_ok (finish_row tid g)"
    unfolding keeps_def by (blast intro: rows_ok_finish)
  show "\<And>w r. rows_ok w \<Longrightarrow> r \<in> set (wi_timers w) \<Longrightarrow> rows_ok (snd (remove_row r w))" by (rule rows_ok_remove)
qed (erule rows_ok_cong; simp)+

lemma rows_ok_response:
  assumes "rows_ok w"
  shows "rows_ok (snd (request_response rq response w))"
proof -
  obtain addr tid file_name n where rq: "rq = (addr, tid, file_name, n)" by (cases rq)
  have less: "keeps rows_ok (upd (\<lambda>w. w\<lparr>wi_requests := remove1 rq (wi_requests w)\<rparr>))" and more: "keeps rows_ok (ask c)" for c
    unfolding ask_def by (intro keeps_upd; erule rows_ok_cong; simp)+
  have "keeps rows_ok (request_response rq response)"
    unfolding request_response_def rq prod.case by (intro keeps_intros less [unfolded rq] more rows.add_row_keeps) simp
  then show ?thesis using assms by (rule keepsD)
qed

lemma rows_ok_step:
  assumes w: "rows_ok (ui_window u)"
  shows "rows_ok (ui_window (ui_step env op u))"
proof (cases "dialog_step (ui_window u) op")
  case True
  have idle: "keeps rows_ok (idle_add i)" and asked: "keeps rows_ok (ask c)" for i c
    unfolding idle_add_def ask_def by (intro keeps_upd; erule rows_ok_cong; simp)+
  show ?thesis
  proof (cases op)
    case (Do_Event event payload)
    have "keeps (\<lambda>u. rows_ok (ui_window u)) (on_event env event payload)"
      unfolding on_event_def
      by (intro keeps_intros rows.keeps_on_snapshot keeps_on_window [OF idle] keeps_on_window [OF rows.keeps_session_update]
            keeps_on_window [OF rows.keeps_progress] keeps_on_window [OF rows.keeps_done] keeps_upd) (simp_all add: w)
    from keepsD [OF this, of u] w show ?thesis by (simp add: Do_Event)
  next
    case Do_Idle
    with True obtain i "is" where i: "wi_idle (ui_window u) = i # is" "opens_dialog i" by (auto simp: dialog_step_def split: list.splits)
    from i(2) show ?thesis
      by (cases i) (simp_all add: Do_Idle i(1) on_window_step_def handle_transfer_request_def show_pairing_dialog_def rows_ok_cong [OF w])
  next
    case (Do_Pairing addr response)
    then show ?thesis using w by (simp add: on_window_step_def pairing_response_def ask_def rows_ok_cong [OF w])
  next
    case (Do_Request rq response)
    then show ?thesis using w by (simp add: on_window_step_def rows_ok_response)
  qed (use True in \<open>simp_all add: dialog_step_def\<close>)
qed (rule rows.step_keeps [OF w])

lemma rows_run: "rows_ok (ui_window u) \<Longrightarrow> rows_ok (ui_window (ui_run env ops u))"
  by (induction ops arbitrary: u) (simp_all add: rows_ok_step)

lemma rows_new: "rows_ok (ui_window new_ui)"
  by (simp add: new_ui_def new_window_def rows_ok_def plain_row_def)

text \<open>
  C22: in every run of the user interface the list of transfers is never empty, shows no row twice, and shows the placeholder only when it is
  alone. A transfer that is updated has one row, shown, with a button that cancels that transfer; a finished one has no button, is
  still shown, and is no longer updated.
\<close>

theorem ui_rows:
  assumes "w = ui_window (ui_run env ops new_ui)"
  shows "wi_transfer_rows w \<noteq> [] \<and> distinct (wi_transfer_rows w)
    \<and> (\<forall>r \<in> set (wi_transfer_rows w). tr_title (wi_row w r) = no_transfers \<longrightarrow> wi_transfer_rows w = [r])
    \<and> distinct (map fst (wi_transfers w))
    \<and> (\<forall>(tid, r, n) \<in> set (wi_transfers w). r \<in> set (wi_transfer_rows w) \<and> tr_transfer (wi_row w r) = tid \<and> tr_cancel_visible (wi_row w r))
    \<and> (\<forall>r \<in> set (wi_timers w). r \<in> set (wi_transfer_rows w) \<and> \<not> tr_cancel_visible (wi_row w r) \<and> r \<notin> fst ` snd ` set (wi_transfers w))"
proof -
  have w: "rows_ok w" using rows_run [OF rows_new] assms by simp
  note D = rows_okD [OF w]
  have "(\<forall>(tid, r, n) \<in> set (wi_transfers w). r \<in> set (wi_transfer_rows w) \<and> tr_transfer (wi_row w r) = tid \<and> tr_cancel_visible (wi_row w r))"
    using D(8) D(11) by fastforce
  moreover have "\<forall>r \<in> set (wi_timers w). r \<in> set (wi_transfer_rows w) \<and> \<not> tr_cancel_visible (wi_row w r) \<and> r \<notin> fst ` snd ` set (wi_transfers w)"
    using D(7) D(8) D(12) by (auto simp: image_image)
  ultimately show ?thesis using D(1,2,4,10) by (simp add: dict_ok_def del: lit_simps)
qed

text \<open>A request accepted: its row is the only one, and finishes with the transfer.\<close>

definition sample_request :: "pystr \<times> pystr \<times> pystr \<times> int" where
  "sample_request = (lit ''a'', lit ''t'', lit ''f'', 3)"

definition sample_request_ops :: "ui_op list" where
  "sample_request_ops =
     [Do_Event (lit ''transfer_request'') (JObj [(lit ''remote_addr'', JStr (lit ''a'')), (lit ''transfer_id'', JStr (lit ''t'')),
        (lit ''file_name'', JStr (lit ''f'')), (lit ''file_size'', JInt 3)]),
      Do_Idle, Do_Idle, Do_Idle, Do_Idle, Do_Request sample_request (lit ''accept'')]"

lemma sample_request_rows:
  "wi_transfer_rows (ui_window (ui_run sample_ui_env sample_request_ops new_ui)) = [1]"
  "wi_transfers (ui_window (ui_run sample_ui_env sample_request_ops new_ui)) = [(lit ''t'', 1, 3)]"
  by (simp_all add: sample_request_ops_def sample_request_def new_ui_def new_window_def on_event_def bind_apply seq_apply text_field_or_def
        int_field_or_def as_text_def as_int_def idle_add_def on_window_step_def ask_def update_trusted_devices_def
        update_transfer_history_def update_diagnostics_def established_def sample_ui_env_def ascii_platform_def
        handle_transfer_request_def request_response_def add_transfer_row_def shown_rows_def plain_row_def)

theorem ui_rows_witness:
  "wi_transfer_rows (ui_window (ui_run sample_ui_env sample_request_ops new_ui)) = [1]
     \<and> tr_transfer (wi_row (ui_window (ui_run sample_ui_env sample_request_ops new_ui)) 1) = lit ''t''
     \<and> tr_cancel_visible (wi_row (ui_window (ui_run sample_ui_env sample_request_ops new_ui)) 1)"
  using ui_rows [OF refl, of sample_ui_env sample_request_ops] by (simp add: sample_request_rows)

end
