(* ===== verification/Ui_Mirror.thy ===== *)
theory Ui_Mirror
  imports Ui_Rows Daemon_Refine Service_History
begin

text \<open>
  The table of sessions of the user interface against what the daemon tells it: the messages of \<^verbatim>\<open>core/ipc.py\<close> read by
  \<^verbatim>\<open>ui/app.py\<close>.
\<close>

section \<open>What is told and what is shown\<close>

text \<open>
  A snapshot of the daemon, or a notification of the state of one session, after some run of the daemon; anything else may
  happen in between.
\<close>

datatype news =
    News_Snapshot daemon_env "(daemon_env \<times> daemon_op) list"
  | News_Session "(daemon_env \<times> daemon_op) list" pystr session_state
  | Other ui_op

fun news_op :: "daemon \<Rightarrow> news \<Rightarrow> ui_op" where
  "news_op d0 (News_Snapshot env run) = Do_Event (lit ''state_snapshot'') (state_snapshot env (daemon_run run d0))"
| "news_op d0 (News_Session run addr st) = Do_Event (lit ''session_update'') (session_update (dm_service (daemon_run run d0)) addr st)"
| "news_op d0 (Other op) = op"

fun genuine :: "news \<Rightarrow> bool" where
  "genuine (Other op) = (\<not> sessions_event op)"
| "genuine _ = True"

text \<open>The sessions of the daemon with their states, and what each piece of news says of them.\<close>

definition session_states :: "daemon \<Rightarrow> (pystr \<rightharpoonup> session_state)" where
  "session_states d = (\<lambda>addr. map_option (\<lambda>p. fs_state (ps_session (sv_peers (dm_service d) p))) (dict_get (sv_active_sessions (dm_service d)) addr))"

fun told :: "daemon \<Rightarrow> news \<Rightarrow> (pystr \<rightharpoonup> session_state) \<Rightarrow> (pystr \<rightharpoonup> session_state)" where
  "told d0 (News_Snapshot env run) m = session_states (daemon_run run d0)"
| "told d0 (News_Session run addr st) m = (if st = S_DISCONNECTED then m(addr := None) else m(addr \<mapsto> st))"
| "told d0 (Other op) m = m"

definition state_shown :: "window \<Rightarrow> pystr \<Rightarrow> json option" where
  "state_shown w addr = Option.bind (dict_get (wi_sessions w) addr) (\<lambda>s. dict_get s (lit ''state''))"

section \<open>The steps\<close>

text \<open>Nothing but these two messages changes the table.\<close>

interpretation table: window_invariant "\<lambda>w. wi_sessions w = t" for t
proof
  show "keeps (\<lambda>w. wi_sessions w = t) (add_transfer_row tid file_name n arrow)" for tid file_name n arrow
    by (simp add: keeps_def add_transfer_row_def)
  show "keeps (\<lambda>w. wi_sessions w = t) (finish_row tid g)" for tid g
    unfolding finish_row_def on_row_def by (auto simp: keeps_def split: option.split)
  show "wi_sessions w = t \<Longrightarrow> wi_sessions (snd (remove_row r w)) = t" for w r
    by (simp add: remove_row_def show_transfers_empty_def)
qed simp_all

lemma other_step_keeps_table:
  assumes "\<not> sessions_event op"
  shows "wi_sessions (ui_window (ui_step env op u)) = wi_sessions (ui_window u)"
proof (cases "dialog_step (ui_window u) op")
  case True
  show ?thesis
  proof (cases op)
    case (Do_Event event payload)
    with True have e: "event = lit ''pairing_request'' \<or> event = lit ''transfer_request''" by (simp add: dialog_step_def)
    have idle: "keeps (\<lambda>u'. wi_sessions (ui_window u') = t) (on_window (idle_add i))" for i t
      by (simp add: keeps_def idle_add_def)
    have "keeps (\<lambda>u'. wi_sessions (ui_window u') = t) (on_event env event payload)" for t
      using e unfolding on_event_def by (elim disjE) (simp, intro keeps_intros idle)+
    from keepsD [OF this, of u] show ?thesis by (simp add: Do_Event)
  next
    case Do_Idle
    with True obtain i "is" where i: "wi_idle (ui_window u) = i # is" "opens_dialog i" by (auto simp: dialog_step_def split: list.splits)
    from i(2) show ?thesis
      by (cases i) (simp_all add: Do_Idle i(1) on_window_step_def handle_transfer_request_def show_pairing_dialog_def)
  next
    case (Do_Pairing addr response)
    then show ?thesis by (simp add: on_window_step_def pairing_response_def ask_def)
  next
    case (Do_Request rq response)
    then show ?thesis
      by (cases rq) (simp add: on_window_step_def request_response_def add_transfer_row_def ask_def)
  qed (use True in \<open>simp_all add: dialog_step_def\<close>)
qed (rule table.step_keeps_plain [OF refl _ assms])

lemma update_shown:
  "state_shown (ui_window (ui_step env (Do_Event (lit ''session_update'') (session_update s a st)) u)) addr =
     (if addr = a then if st = S_DISCONNECTED then None else Some (JStr (session_state_name st)) else state_shown (ui_window u) addr)"
proof -
  have d: "session_state_name st = lit ''DISCONNECTED'' \<longleftrightarrow> st = S_DISCONNECTED" by (cases st) simp_all
  have f: "text_field_or (session_update s a st) ''remote_addr'' '''' = Inr a"
    "text_field_or (session_update s a st) ''state'' '''' = Inr (session_state_name st)"
    by (simp_all add: session_update_def text_field_or_def as_text_def)
  obtain kvs where kvs: "session_update s a st = JObj kvs" by (simp add: session_update_def)
  have m: "dict_get (merge_fields kvs t) (lit ''state'') = Some (JStr (session_state_name st))" for t
    using kvs by (auto simp: session_update_def merge_fields_def dict_get_set split: option.splits)
  have "ui_window (ui_step env (Do_Event (lit ''session_update'') (session_update s a st)) u) = snd (handle_session_update (JObj kvs) (ui_window u))"
    by (simp add: on_event_def kvs)
  then show ?thesis
    using m by (simp add: handle_session_update_def f [unfolded kvs] bind_apply seq_apply idle_add_def d state_shown_def
        dict_get_set dict_get_pop del: lit_simps)
qed

definition session_fields :: "service \<Rightarrow> pystr \<times> nat \<Rightarrow> session_info" where
  "session_fields s x = (case snapshot_session s x of JObj d \<Rightarrow> d | _ \<Rightarrow> [])"

lemma session_table_snapshot:
  "session_table (map (snapshot_session s) xs) acc = Inr (fold (\<lambda>x. dict_set (fst x) (session_fields s x)) xs acc)"
  by (induction xs arbitrary: acc) (auto simp: session_fields_def snapshot_session_def text_field_def as_text_def)

lemma dict_get_fold_set:
  "dict_ok xs \<Longrightarrow> dict_get (fold (\<lambda>x. dict_set (fst x) (f x)) xs acc) k =
     (case dict_get xs k of None \<Rightarrow> dict_get acc k | Some v \<Rightarrow> Some (f (k, v)))"
proof (induction xs arbitrary: acc)
  case (Cons x xs)
  obtain k' v where x: "x = (k', v)" by (cases x)
  with Cons.prems have "dict_ok xs" "dict_get xs k' = None" by (auto simp: dict_ok_def dict_get_def map_of_eq_None_iff)
  with Cons.IH x show ?case by (auto simp: dict_get_set split: option.split)
qed simp

lemma queue_keeps_table: "wi_sessions (snd (queue_sessions vs w)) = wi_sessions w"
proof -
  have "keeps (\<lambda>w. wi_sessions w = t) (queue_sessions vs)" for t
    by (induction vs) (unfold queue_sessions.simps, (intro keeps_intros table.keeps_idle; simp)+)
  then show ?thesis by (rule keepsD) simp
qed

lemma snapshot_shown:
  assumes "dict_ok (sv_active_sessions (dm_service d))"
  shows "state_shown (ui_window (ui_step env (Do_Event (lit ''state_snapshot'') (state_snapshot denv d)) u)) addr =
     map_option (JStr \<circ> session_state_name) (session_states d addr)"
proof -
  let ?s = "dm_service d"
  let ?table = "fold (\<lambda>x. dict_set (fst x) (session_fields ?s x)) (sv_active_sessions ?s) []"
  have vs: "as_list (json_or pf (JArr (map (snapshot_session ?s) (sv_active_sessions ?s))) (JArr [])) = Inr (map (snapshot_session ?s) (sv_active_sessions ?s))" for pf
    by (simp add: as_list_def json_or_def)
  have "wi_sessions (ui_window (ui_step env (Do_Event (lit ''state_snapshot'') (state_snapshot denv d)) u)) = ?table"
    by (simp add: on_event_def on_snapshot_def state_snapshot_def Let_def bind_apply seq_apply apply_state_snapshot_def vs
        session_table_snapshot idle_add_def queue_keeps_table)
  moreover have "dict_get (session_fields ?s (addr, p)) (lit ''state'') = Some (JStr (session_state_name (fs_state (ps_session (sv_peers ?s p)))))" for p
    by (simp add: session_fields_def snapshot_session_def)
  ultimately show ?thesis
    by (simp add: state_shown_def session_states_def dict_get_fold_set [OF assms] del: lit_simps split: option.split)
qed

text \<open>The sessions of a daemon are a dictionary in every run.\<close>

interpretation sessions_ok: service_run_invariant "\<lambda>s. dict_ok (sv_active_sessions s)"
proof
  have db: "keeps (\<lambda>s. dict_ok (sv_active_sessions s)) (on_database m)" for m :: "(db, unit) eff"
    by (auto simp: keeps_def on_database_def split: prod.splits)
  have "sv_active_sessions (snd (record_transfer_once env tid dev fname sz dir status started h s)) = sv_active_sessions s"
    for env tid dev fname sz dir status started h s
    by (rule record_cases [of env tid dev fname sz dir status started h s]) simp_all
  then show "keeps (\<lambda>s. dict_ok (sv_active_sessions s)) (record_transfer_once env tid dev fname sz dir status started h)"
    for env tid dev fname sz dir status started h by (simp add: keeps_def)
  show "keeps (\<lambda>s. dict_ok (sv_active_sessions s)) (on_database (delete_interrupted_transfer tid))"
    "keeps (\<lambda>s. dict_ok (sv_active_sessions s)) (on_database (remove_device_by_public_key key))" for tid key
    by (rule db)+
  show "keeps (\<lambda>s. dict_ok (sv_active_sessions s)) (persist_trust env p)" for env p
    unfolding persist_trust_def Let_def by (intro keeps_intros db)
qed (auto simp: keeps_def connect_peer_def dict_ok_set dict_ok_pop on_peer_session_def on_peer_def split: prod.splits)

lemma daemon_sessions_ok:
  assumes "d0 = new_daemon cfg (new_service db fs dir now)"
  shows "dict_ok (sv_active_sessions (dm_service (daemon_run run d0)))"
proof -
  have "dict_ok (sv_active_sessions (dm_service d0))" by (simp add: assms new_daemon_def new_service_def)
  then show ?thesis unfolding daemon_run_service by (rule sessions_ok.run)
qed

lemma step_shown:
  assumes d0: "d0 = new_daemon cfg (new_service db fs dir now)" and "genuine n"
    and "\<And>addr. state_shown (ui_window u) addr = map_option (JStr \<circ> session_state_name) (m addr)"
  shows "state_shown (ui_window (ui_step env (news_op d0 n) u)) addr = map_option (JStr \<circ> session_state_name) (told d0 n m addr)"
proof (cases n)
  case (News_Snapshot denv run)
  then show ?thesis using snapshot_shown [OF daemon_sessions_ok [OF d0]] by simp
next
  case (News_Session run a st)
  with assms(3) show ?thesis using update_shown [of env _ a st u addr] by simp
next
  case (Other op)
  with assms(2,3) show ?thesis using other_step_keeps_table [of op env u] by (simp add: state_shown_def)
qed

lemma run_shown:
  assumes d0: "d0 = new_daemon cfg (new_service db fs dir now)" and "list_all genuine ns"
    and "\<And>addr. state_shown (ui_window u) addr = map_option (JStr \<circ> session_state_name) (m addr)"
  shows "state_shown (ui_window (ui_run env (map (news_op d0) ns) u)) addr = map_option (JStr \<circ> session_state_name) (fold (told d0) ns m addr)"
  using assms(2,3)
proof (induction ns arbitrary: u m)
  case (Cons n ns)
  have "state_shown (ui_window (ui_step env (news_op d0 n) u)) a = map_option (JStr \<circ> session_state_name) (told d0 n m a)" for a
    using Cons.prems by (intro step_shown [OF d0]) (auto simp: comp_def)
  from Cons.IH [OF _ this] Cons.prems(1) show ?case by simp
qed simp

section \<open>Property\<close>

text \<open>
  C16: the user interface shows the sessions of the daemon. In a run of the user interface where the snapshots and session updates are those of a daemon,
  taken at any moments of its life, and anything else happens in between, the state shown for an address is
  that of the last update for it or of the daemon at the last snapshot, whichever came later.
\<close>

theorem ui_mirrors_daemon:
  assumes "d0 = new_daemon cfg (new_service db fs dir now)" and "list_all genuine ns"
  shows "state_shown (ui_window (ui_run env (map (news_op d0) ns) new_ui)) addr
    = map_option (JStr \<circ> session_state_name) (fold (told d0) ns Map.empty addr)"
  by (rule run_shown [OF assms]) (simp add: state_shown_def new_ui_def new_window_def)

text \<open>A snapshot, then a session is being paired and established; an idle callback runs in between.\<close>

definition sample_news :: "news list" where
  "sample_news =
     [News_Snapshot sample_denv [], News_Session [] (lit ''a'') S_PAIRING, Other Do_Idle, News_Session [] (lit ''a'') S_ESTABLISHED]"

theorem ui_mirrors_daemon_witness:
  "state_shown (ui_window (ui_run sample_ui_env (map (news_op sample_daemon) sample_news) new_ui)) (lit ''a'') = Some (JStr (lit ''ESTABLISHED''))
    \<and> state_shown (ui_window (ui_run sample_ui_env (map (news_op sample_daemon) sample_news) new_ui)) (lit ''b'') = None"
proof -
  have g: "list_all genuine sample_news" by (simp add: sample_news_def sessions_event_def)
  have "session_states sample_daemon = Map.empty"
    by (simp add: session_states_def sample_daemon_def new_daemon_def new_service_def)
  then show ?thesis
    using ui_mirrors_daemon [OF sample_daemon_def g, of sample_ui_env "lit ''a''"]
      ui_mirrors_daemon [OF sample_daemon_def g, of sample_ui_env "lit ''b''"] by (simp add: sample_news_def)
qed

end
