(* ===== verification/Entry.thy ===== *)
theory Entry
  imports Ui_App Service_Loop
begin

text \<open>
  The ways into the program: the modes of \<^verbatim>\<open>__main__.py\<close>, the activation of the application (\<^verbatim>\<open>ui/app.py\<close>), connections
  that come in, the addresses of the host (\<^verbatim>\<open>core/discovery.py\<close>), and the accessors and helpers of
  \<^verbatim>\<open>core/service.py\<close> that its handlers do not use.
\<close>

section \<open>The command line\<close>

text \<open>The arguments as \<^verbatim>\<open>argparse\<close> returns them, and what \<^verbatim>\<open>main\<close> runs.\<close>

record arguments =
  ar_service :: bool
  ar_in_process :: bool
  ar_test_mode :: bool
  ar_send :: "pystr list option"
  ar_unknown :: "pystr list"

datatype mode =
    Daemon_Test
  | Daemon_Runs
  | Window_Test
  | Window_Runs bool "pystr list" "pystr list option"

text \<open>\<open>resolve\<close> is \<^verbatim>\<open>str(Path(p).resolve())\<close>, \<open>in_process\<close> the environment variable.\<close>

definition main_mode :: "(pystr \<Rightarrow> pystr) \<Rightarrow> bool \<Rightarrow> pystr \<Rightarrow> arguments \<Rightarrow> mode" where
  "main_mode resolve in_process argv0 args =
     (if ar_service args then if ar_test_mode args then Daemon_Test else Daemon_Runs
      else if ar_test_mode args then Window_Test
      else Window_Runs (in_process \<or> ar_in_process args) (argv0 # ar_unknown args)
             (case ar_send args of None \<Rightarrow> None | Some ps \<Rightarrow> if ps = [] then None else Some (map resolve ps)))"

section \<open>Activation\<close>

text \<open>What was started: the service in the process, or the client, with a daemon launched before when its socket did not exist.\<close>

datatype backend = In_Process | Client bool

record activation =
  av_window :: bool
  av_backends :: "backend list"
  av_pending :: "pystr list option"
  av_idle :: "idle list"

definition start_backend :: "bool \<Rightarrow> bool \<Rightarrow> backend" where
  "start_backend in_process socket_exists = (if in_process then In_Process else Client (\<not> socket_exists))"

text \<open>\<^verbatim>\<open>_queue_send\<close> of \<^verbatim>\<open>main\<close>: the method for several files does not exist.\<close>

definition queue_pending :: "pystr list \<Rightarrow> (activation, unit) eff" where
  "queue_pending paths =
     (case paths of [p] \<Rightarrow> upd (\<lambda>a. a\<lparr>av_idle := av_idle a @ [Idle_Pending p]\<rparr>) | _ \<Rightarrow> raise AttributeError)"

definition do_activate :: "bool \<Rightarrow> bool \<Rightarrow> (activation, unit) eff" where
  "do_activate in_process socket_exists =
     seq (upd (\<lambda>a. if av_window a then a
            else a\<lparr>av_window := True, av_backends := av_backends a @ [start_backend in_process socket_exists]\<rparr>))
         (reads (\<lambda>a. case av_pending a of
            None \<Rightarrow> ret ()
          | Some paths \<Rightarrow> seq (upd (av_pending_update (\<lambda>_. None))) (queue_pending paths)))"

text \<open>Files that the desktop opens; those without a path are skipped. The callback is \<^verbatim>\<open>_queue_send\<close> of the application.\<close>

definition do_open :: "bool \<Rightarrow> bool \<Rightarrow> pystr option list \<Rightarrow> (activation, pystr list option) eff" where
  "do_open in_process socket_exists files =
     seq (do_activate in_process socket_exists)
         (let paths = concat (map (\<lambda>f. case f of None \<Rightarrow> [] | Some p \<Rightarrow> if p = [] then [] else [p]) files)
          in ret (if paths = [] then None else Some paths))"

fun activations :: "(bool \<times> bool) list \<Rightarrow> activation \<Rightarrow> activation" where
  "activations [] a = a"
| "activations ((in_process, socket_exists) # es) a = activations es (snd (do_activate in_process socket_exists a))"

section \<open>Connections that come in\<close>

definition incoming_name :: "(pystr \<times> int) option \<Rightarrow> pystr" where
  "incoming_name peername = (case peername of None \<Rightarrow> lit ''unknown'' | Some (host, n) \<Rightarrow> host @ [58] @ int_str n)"

definition handle_incoming_connection ::
    "service_env \<Rightarrow> signatures \<Rightarrow> local_side \<Rightarrow> (pystr \<times> int) option \<Rightarrow> envelope res \<Rightarrow> envelope res \<Rightarrow> unit svc" where
  "handle_incoming_connection env sg ls peername hello auth = connect_peer env sg ls False (incoming_name peername) hello auth"

section \<open>The addresses of the host\<close>

text \<open>
  The addresses of the adapters in the order of the \<^verbatim>\<open>ifaddr\<close> package (text and whether it is an IPv4 address), which
  may be missing, the address that a socket to the outside has, and \<^verbatim>\<open>socket.inet_aton\<close>.
\<close>

definition usable_ip :: "pystr \<times> bool \<Rightarrow> bool" where
  "usable_ip i \<longleftrightarrow> snd i \<and> \<not> is_prefix (lit ''127.'') (fst i) \<and> \<not> is_prefix (lit ''172.17.'') (fst i)"

fun add_ips :: "(pystr \<Rightarrow> bytes res) \<Rightarrow> (pystr \<times> bool) list \<Rightarrow> bytes list \<Rightarrow> bytes list" where
  "add_ips aton [] addrs = addrs"
| "add_ips aton (i # is) addrs =
     (if usable_ip i
      then case aton (fst i) of Inl _ \<Rightarrow> addrs | Inr packed \<Rightarrow> add_ips aton is (if packed \<in> set addrs then addrs else addrs @ [packed])
      else add_ips aton is addrs)"

definition get_local_ip_addresses :: "(pystr \<Rightarrow> bytes res) \<Rightarrow> (pystr \<times> bool) list res \<Rightarrow> pystr res \<Rightarrow> bytes list" where
  "get_local_ip_addresses aton adapters outside =
     (let addrs = (case adapters of Inl _ \<Rightarrow> [] | Inr is \<Rightarrow> add_ips aton is [])
      in if addrs = [] then (case res_bind outside aton of Inl _ \<Rightarrow> [] | Inr packed \<Rightarrow> [packed]) else addrs)"

section \<open>Accessors and helpers of the service\<close>

definition established_sessions :: "service \<Rightarrow> (pystr, nat) dict" where
  "established_sessions s = filter (\<lambda>(addr, p). fs_state (ps_session (sv_peers s p)) = S_ESTABLISHED) (sv_active_sessions s)"

text \<open>\<^verbatim>\<open>_compute_prefix_sha256\<close>: reads of at most 64 KiB until the prefix is complete.\<close>

function prefix_loop :: "int \<Rightarrow> bytes \<Rightarrow> bytes \<Rightarrow> bytes option" where
  "prefix_loop remaining rest digest =
     (if remaining \<le> 0 then Some digest
      else let chunk = take (nat (min 65536 remaining)) rest
           in if chunk = [] then None
              else prefix_loop (remaining - int (length chunk)) (drop (nat (min 65536 remaining)) rest) (digest @ chunk))"
  by pat_completeness auto
termination
  by (relation "measure (\<lambda>(remaining, rest, digest). length rest)") auto

declare prefix_loop.simps [simp del]

definition compute_prefix_sha256 :: "os_env \<Rightarrow> path \<Rightarrow> int \<Rightarrow> fs \<Rightarrow> pystr option" where
  "compute_prefix_sha256 env p n fs =
     (case read_file env p fs of Inl _ \<Rightarrow> None | Inr c \<Rightarrow> map_option sha256_hex (prefix_loop n c []))"

text \<open>\<^verbatim>\<open>_record_outgoing_transfer\<close>, which nothing calls.\<close>

definition record_outgoing_transfer :: "service_env \<Rightarrow> metadata \<Rightarrow> nat \<Rightarrow> pystr \<Rightarrow> int \<Rightarrow> unit svc" where
  "record_outgoing_transfer env m p status started_at = reads (\<lambda>s.
     catch
       (bind (lift (bind_device (se_platform env)
          (if py_bool (se_platform env) (ps_remote_device_id (sv_peers s p)) then ps_remote_device_id (sv_peers s p) else JStr (ps_remote_addr (sv_peers s p)))))
        (\<lambda>device_id. on_database (add_transfer
          \<lparr>tc_transfer_id = md_transfer_id m, tc_device_id = device_id, tc_file_name = md_file_name m, tc_file_size = md_file_size m,
           tc_direction = OUTGOING, tc_status = status, tc_started_at = started_at, tc_completed_at = Some (se_now env), tc_sha256 = md_sha256 m\<rparr>)))
       (\<lambda>_. ret ()))"

section \<open>Properties\<close>

text \<open>The window is created and its backend started once, and pending files are queued once.\<close>

lemma activated:
  "av_window a \<Longrightarrow> av_pending a = None \<Longrightarrow> activations es a = a"
  by (induction es) (auto simp: do_activate_def)

lemma activation_once:
  assumes "\<not> av_window a" "av_backends a = []" "es \<noteq> []"
  shows "av_backends (activations es a) = [start_backend (fst (hd es)) (snd (hd es))] \<and> av_pending (activations es a) = None
    \<and> av_idle (activations es a) = av_idle a @ (case av_pending a of Some [p] \<Rightarrow> [Idle_Pending p] | _ \<Rightarrow> [])"
proof (cases es)
  case (Cons e rest)
  obtain i x where e: "e = (i, x)" by (cases e)
  let ?b = "snd (do_activate i x a)"
  have b: "av_window ?b" "av_pending ?b = None" "av_backends ?b = [start_backend i x]"
    "av_idle ?b = av_idle a @ (case av_pending a of Some [p] \<Rightarrow> [Idle_Pending p] | _ \<Rightarrow> [])"
    using assms(1,2) by (simp_all add: do_activate_def queue_pending_def split: option.split list.split)
  with Cons e activated [OF b(1,2)] show ?thesis by simp
qed (use assms(3) in simp)

text \<open>No loopback or container address, none twice; and what a daemon announces is not empty when the host has any usable address.\<close>

lemma add_ips_distinct: "distinct addrs \<Longrightarrow> distinct (add_ips aton is addrs)"
  by (induction aton "is" addrs rule: add_ips.induct) (auto split: sum.split)

lemma add_ips_mem: "packed \<in> set (add_ips aton is addrs) \<Longrightarrow> packed \<in> set addrs \<or> (\<exists>i \<in> set is. usable_ip i \<and> aton (fst i) = Inr packed)"
  by (induction aton "is" addrs rule: add_ips.induct) (auto split: sum.splits if_splits)

lemma local_addresses:
  assumes "get_local_ip_addresses aton (Inr is) (Inl e) = addrs"
  shows "distinct addrs \<and> (\<forall>packed \<in> set addrs. \<exists>i \<in> set is. usable_ip i \<and> aton (fst i) = Inr packed)"
  using assms add_ips_distinct [of "[]" aton "is"] add_ips_mem [of _ aton "is" "[]"]
  by (auto simp: get_local_ip_addresses_def Let_def split: if_splits)

text \<open>The loop hashes exactly the prefix.\<close>

lemma prefix_loop_take:
  "prefix_loop n c acc = (if n \<le> 0 then Some acc else if n \<le> int (length c) then Some (acc @ take (nat n) c) else None)"
proof (induction n c acc rule: prefix_loop.induct)
  case (1 n c acc)
  let ?k = "nat (min 65536 n)"
  show ?case
  proof (cases "n \<le> 0 \<or> c = []")
    case True
    then show ?thesis by (auto simp: prefix_loop.simps)
  next
    case False
    then have k: "0 < ?k" "int ?k \<le> n" "take ?k c \<noteq> []" by auto
    have IH: "prefix_loop (n - int (length (take ?k c))) (drop ?k c) (acc @ take ?k c) =
        (if n - int (length (take ?k c)) \<le> 0 then Some (acc @ take ?k c)
         else if n - int (length (take ?k c)) \<le> int (length (drop ?k c)) then Some ((acc @ take ?k c) @ take (nat (n - int (length (take ?k c)))) (drop ?k c))
         else None)"
      using 1 [of "take ?k c"] False k(3) by auto
    show ?thesis
    proof (cases "length c \<le> ?k")
      case True
      then show ?thesis using IH False k(2) by (subst prefix_loop.simps) (auto simp: Let_def)
    next
      case small: False
      then have l: "length (take ?k c) = ?k" by simp
      have "take ?k c @ take (nat (n - int ?k)) (drop ?k c) = take (nat n) c"
        using k(2) by (simp add: take_add [symmetric] nat_diff_distrib)
      then show ?thesis using IH False small k unfolding l by (subst prefix_loop.simps) (auto simp: Let_def)
    qed
  qed
qed

lemma prefix_sha256:
  "compute_prefix_sha256 env p n fs =
     (case read_file env p fs of
        Inl _ \<Rightarrow> None
      | Inr c \<Rightarrow> if n \<le> int (length c) then Some (sha256_hex (take (nat n) c)) else None)"
  by (auto simp: compute_prefix_sha256_def prefix_loop_take split: sum.split)

end
