(* ===== verification/Spec2Isabelle.thy ===== *)
theory Spec2Isabelle
  imports Delivery Channel Db Bridge Clipboard Agreement Service_End Service_Start Daemon_Clients Trust_End Ui_Mirror Entry
begin

text \<open>
  \<^bold>\<open>Ferry\<close> moves files, notifications and clipboard texts between an Android phone and a Linux desktop
  on the same network. This library models the Python program of the desktop, a daemon and its user interface,
  \<^verbatim>\<open>linux/src/ferry_linux\<close> (paths below are relative to it), and proves what makes it correct.

  \<^bold>\<open>How the program works.\<close> \<^verbatim>\<open>core/service.py\<close> accepts and opens TCP connections. On each it runs a
  handshake: the two sides exchange ephemeral and static keys in plain control frames, derive
  session keys, and sign the transcript. A peer whose static key is in the trust database gets an
  ESTABLISHED session; an unknown one gets a PAIRING session, in which both users compare a code and
  decide. From then on the peers exchange AEAD frames, whose plaintext is either a JSON message or a
  binary chunk of a file. The receiver of a file writes it to a staging file, checks its SHA-256 and
  renames it to a name inside the download directory. User interfaces connect to the daemon over a local socket:
  it tells them of devices, sessions, transfers and pairings, and they send it the commands of the user.

  \<^bold>\<open>Theories and code.\<close>

  \<^item> \<open>Prelude\<close>, \<open>PyValues\<close>, \<open>Utf8\<close>, \<open>Json\<close>, \<open>Sha256\<close>: what the code uses of Python: exceptions as values
    of the sum type \<open>'a res\<close>, insertion-ordered dictionaries as association lists, \<^verbatim>\<open>struct\<close>, \<^verbatim>\<open>uuid\<close>,
    \<^verbatim>\<open>int\<close>, UTF-8, \<^verbatim>\<open>json.dumps\<close>/\<^verbatim>\<open>loads\<close>, SHA-256. Strings are lists of code points.
  \<^item> \<open>Effects\<close>: computations that read and change a state and may raise; \<open>catch\<close> is \<^verbatim>\<open>try/except\<close>; the
    rules \<open>keeps_intros\<close> prove that a computation keeps an invariant.
  \<^item> \<open>Framing\<close>, \<open>Models\<close>, \<open>Payloads\<close>: \<^verbatim>\<open>protocol/models.py\<close>, control frames, envelopes, payload classes.
  \<^item> \<open>Chunks\<close>, \<open>Metadata\<close>, \<open>Safe_Paths\<close>, \<open>Filesystem\<close>, \<open>Transfer_State\<close>, \<open>Incoming\<close>, \<open>Incoming_Safety\<close>,
    \<open>Outgoing\<close>, \<open>Delivery\<close>: \<^verbatim>\<open>core/transfer.py\<close>: chunk frames, validation of requests and of destination
    paths, the receiving and the sending object, over a file system (a map from paths to files and
    directories) whose every call may fail.
  \<^item> \<open>Session\<close>, \<open>Channel\<close>: \<^verbatim>\<open>core/session.py\<close>. The primitives (X25519, HKDF, ChaCha20-Poly1305) belong to
    another package and are the fields of a record \<open>crypto\<close>; \<open>aead_correct\<close> and \<open>key_agreement\<close> name the two
    documented facts used, and \<open>toy_crypto\<close> satisfies both.
  \<^item> \<open>Identity\<close>, \<open>Handshake\<close>, \<open>Frame_Size\<close>, \<open>Agreement\<close>: \<^verbatim>\<open>core/identity.py\<close> and \<^verbatim>\<open>_run_handshake\<close>.
  \<^item> \<open>Db\<close>, \<open>Bridge\<close>, \<open>Clipboard\<close>: \<^verbatim>\<open>core/db.py\<close>, \<^verbatim>\<open>core/notification_bridge.py\<close>, \<^verbatim>\<open>core/clipboard.py\<close>.
  \<^item> \<open>Generator\<close>: the chunk generator of \<^verbatim>\<open>OutgoingTransfer\<close> resumed for one frame at a time.
  \<^item> \<open>Service_State\<close>, \<open>Service_Transfers\<close>, \<open>Service_Senders\<close>, \<open>Service_Loop\<close>: the rest of
    \<^verbatim>\<open>core/service.py\<close>: its dictionaries, the handlers of every message, the commands of the user, the timers,
    the coroutines \<^verbatim>\<open>send_file\<close>, \<^verbatim>\<open>send_batch\<close> and \<^verbatim>\<open>request_resume\<close> cut at the places where they wait, the
    session loop, and \<open>service_run\<close>, any sequence of such steps.
  \<^item> \<open>Service_Invariants\<close>, \<open>Service_Trust\<close>, \<open>Service_History\<close>, \<open>Service_End\<close>: an interface (the locales
    \<open>service_invariant\<close>, \<open>service_pairing_invariant\<close> and \<open>service_run_invariant\<close>) that says what an invariant must survive for every step of
    the service to keep it, its use for the trust in keys and for the history of transfers, and the end of a
    session. \<open>Service_Start\<close>: the staging files that a start removes and keeps. \<open>Pairing_Code\<close>: the handshakes behind the
    pairings that the service shows.
  \<^item> \<open>Config\<close>, \<open>Discovery\<close>: \<^verbatim>\<open>core/config.py\<close>, and \<^verbatim>\<open>core/discovery.py\<close> with the reports of the \<^verbatim>\<open>zeroconf\<close>
    package as a step relation.
  \<^item> \<open>Ipc\<close>, \<open>Ui_Commands\<close>: the frames on the local socket, the same in \<^verbatim>\<open>core/ipc.py\<close> and
    \<^verbatim>\<open>ui/ipc_client.py\<close>; the commands of a user interface as the client writes and as the server reads them.
  \<^item> \<open>Daemon\<close>, \<open>Daemon_Steps\<close>: \<^verbatim>\<open>FerryIPCServer\<close> around the service: clients, broadcasts, the snapshot, the
    execution of commands, \<^verbatim>\<open>connect_to_peer\<close>, \<^verbatim>\<open>start\<close> and \<^verbatim>\<open>stop\<close> of the service, and \<open>daemon_run\<close>, any sequence of
    these with the steps of the service. \<open>Daemon_Refine\<close>: a run of the daemon is a run of its service
    (\<open>service_trace\<close>), which carries the theorems about the service over. \<open>Daemon_Clients\<close>: what clients
    can do and are told.
  \<^item> \<open>Sizes\<close>: the sizes of files as text, with the rounding of doubles, and the texts of desktop notifications
    (\<^verbatim>\<open>core/notifications.py\<close>).
  \<^item> \<open>Ui_Window\<close>, \<open>Ui_App\<close>: \<^verbatim>\<open>ui/window.py\<close> and \<^verbatim>\<open>ui/app.py\<close>: the table of sessions, the dialogs, the rows of
    transfers and the other lists, the queue of idle callbacks, and \<open>ui_run\<close>, any sequence of events of the
    daemon, idle callbacks, timeouts and actions of the user. \<open>Ui_Safety\<close>: the locales \<open>window_invariant\<close> and
    \<open>event_invariant\<close>, what an invariant of the window must survive to hold in every run, and the consent of the
    user. \<open>Ui_Rows\<close>: the rows of transfers. \<open>Ui_Mirror\<close>: the sessions shown against those of the daemon.
    \<open>Trust_End\<close>: trust from the click of a user to the database of the daemon, and the code in a dialog back to the session.
  \<^item> \<open>Entry\<close>: the modes of \<^verbatim>\<open>__main__.py\<close>, the activation of the application, incoming connections, the addresses of the
    host, and the accessors and helpers of the service that its handlers do not use.

  \<^bold>\<open>What is proved.\<close> End to end: a file sent is the file received, also after an interruption
  (\<open>Delivery\<close>); encrypted frames arrive in order, complete and once (\<open>Channel\<close>); honest peers agree in the
  handshake, a dishonest one does not pass it, and it fails closed (\<open>Agreement\<close>); a key becomes trusted only
  if both sides accepted (\<open>Service_Trust\<close>), and only after a click in a dialog, whose code is that of the session
  with a peer that proved its key (\<open>Trust_End\<close>); the outcome of a transfer is recorded once (\<open>Service_History\<close>), and
  a session that ends leaves nothing behind (\<open>Service_End\<close>). The daemon as a whole refines its service, it trusts no
  key without the acceptance of a subscribed user interface (\<open>Daemon_Refine\<close>), commands of user interfaces
  reach the service, only subscribed ones, and events reach the clients (\<open>Daemon_Clients\<close>); settings survive a
  restart (\<open>Config\<close>), and announced devices are discovered (\<open>Discovery\<close>). The user interface accepts nothing by itself
  (\<open>Ui_Safety\<close>), keeps its rows in order (\<open>Ui_Rows\<close>) and shows the sessions it was told (\<open>Ui_Mirror\<close>). For single components: the file installed has the announced hash and
  nothing outside the download directory and no earlier file is touched (\<open>Incoming_Safety\<close>,
  \<open>Safe_Paths\<close>), codecs are inverse to each other (\<open>Chunks\<close>, \<open>Models\<close>, \<open>Json\<close>, \<open>Safe_Paths\<close>, \<open>Identity\<close>),
  the database stores what it is given (\<open>Db\<close>), notifications are rate limited (\<open>Bridge\<close>), and the clipboard does
  not echo (\<open>Clipboard\<close>). Some theorems state a defect of the code as it is (\<open>dot_relative_path\<close>,
  \<open>clipboard_lost_update\<close>, \<open>identity_lost\<close>, \<open>late_answer_listed\<close>, \<open>snapshot_incomplete\<close>, \<open>established_may_reject\<close>).

  \<^bold>\<open>Bounds and fuel.\<close> Integers of Python are unbounded and are \<open>int\<close>; counters and lengths that the code packs
  with \<^verbatim>\<open>struct\<close> raise when they do not fit. The JSON parser takes fuel, twice the length of its input, which
  \<open>Json\<close> proves to be enough; every other recursion is structural or has a termination proof.

  \<^bold>\<open>Not modelled.\<close> A handler runs to its end without being interleaved with another one (in the code a
  write to a socket may suspend it); the handshake is one step, its writes succeed; tasks are cancelled only by
  \<^verbatim>\<open>stop\<close>, which ends the sessions and drops the timeouts. A coroutine runs from one wait to the next in one
  step; the transfer object of \<^verbatim>\<open>request_resume\<close> is the entry of the dictionary. What a listener sends to the
  clients is a step of its own at any later time, as \<^verbatim>\<open>ensure_future\<close> makes it, and with any content; a task that a command
  starts runs at once. A field of a command that the methods of the service take as a text
  must be a text, as the user interface sends it. Logging and the exceptions of listeners that the code
  only logs are absent. Clocks, random ids and the answers of the operating system are inputs of each step, and
  so are the list of files that \<^verbatim>\<open>send_batch\<close> finds by walking directories, the addresses of the adapters, the parsed
  arguments of the command line, the environment variables, and the reports and the success of the \<^verbatim>\<open>zeroconf\<close> package. Of a widget the model of the windows keeps the
  texts and flags that the code sets, not layout or style; the path that a file dialog yields and the address it was opened
  for are inputs, JSON values are compared by their structure, and the numbers in texts of sizes are doubles
  without overflow. Left out are the creation and the mode of socket files, the sending of desktop
  notifications through Gio, the process and the threads that the user interface starts, the service in its own process
  (\<^verbatim>\<open>FERRY_IN_PROCESS\<close>, of which \<open>forward\<close> keeps where a call goes), the settings dialog, and drag and drop, which is never installed.
\<close>

end
